(* ===== verification/Prelude.thy ===== *)
theory Prelude
  imports Main "HOL-Library.Word" "HOL-Library.AList"
begin

text \<open>
  Shared vocabulary of the development: machine integer types, the error kinds of
  \<open>std::io\<close>, the list and association-list helpers the components share, and the two
  generic contracts (a guarded machine and a capped store) that several components
  interpret.
\<close>

unbundle bit_operations_syntax

section \<open>Machine integers and strings\<close>

type_synonym u8 = "8 word"
type_synonym u32 = "32 word"
type_synonym u64 = "64 word"
type_synonym i32 = "32 word"
type_synonym i64 = "64 word"

text \<open>
  Signed values travel as words and are read with \<open>sint\<close>. A \<open>usize\<close> is a 64-bit
  value, modelled as a natural number whose checked operations know the bound.
\<close>

definition usize_limit :: nat where
  "usize_limit = 2 ^ 64"

definition checked_mul_usize :: "nat \<Rightarrow> nat \<Rightarrow> nat option" where
  "checked_mul_usize a b = (if a * b < usize_limit then Some (a * b) else None)"

definition i32_max :: nat where
  "i32_max = 2147483647"

text \<open>Rust's \<open>x.max(0) as u32\<close> on an \<open>i32\<close>.\<close>

definition i32_clamp0 :: "i32 \<Rightarrow> u32" where
  "i32_clamp0 x = (if sint x < 0 then 0 else x)"

section \<open>Errors\<close>

text \<open>
  The kinds of \<open>std::io::Error\<close> the code builds or forwards. Formatted messages are
  kept only where a message comes from the peer.
\<close>

datatype io_error =
    Io_InvalidData
  | Io_InvalidInput
  | Io_Unsupported
  | Io_PermissionDenied
  | Io_NotFound
  | Io_UnexpectedEof
  | Io_WriteZero
  | Io_ConnectionRefused string
  | Io_Other string
  | Io_Os nat

section \<open>Hint collections\<close>

named_theorems frame_simps "what an operation leaves unchanged"
named_theorems inv_intros "operations keep their component's invariant"

section \<open>Results\<close>

text \<open>Rust's \<open>?\<close> on a result.\<close>

fun and_then :: "'e + 'a \<Rightarrow> ('a \<Rightarrow> 'e + 'b) \<Rightarrow> 'e + 'b" where
  "and_then (Inl e) f = Inl e"
| "and_then (Inr x) f = f x"

fun is_ok :: "'e + 'a \<Rightarrow> bool" where
  "is_ok (Inl _) = False"
| "is_ok (Inr _) = True"

lemma and_then_Inr [simp]:
  "and_then r f = Inr y \<longleftrightarrow> (\<exists>x. r = Inr x \<and> f x = Inr y)"
  by (cases r) auto

lemma is_ok_iff: "is_ok r \<longleftrightarrow> (\<exists>x. r = Inr x)"
  by (cases r) auto

text \<open>
  Validation code is a sequence of checks that stops at the first failure: \<open>guard\<close> is
  \<open>if c { return Err(e) }\<close>, \<open>then_check\<close> the statement sequence, \<open>check_all\<close> a loop of checks
  and \<open>check_opt\<close> an \<open>if let Some(x)\<close>.
\<close>

definition guard :: "bool \<Rightarrow> 'e \<Rightarrow> 'e + unit" where
  "guard bad e = (if bad then Inl e else Inr ())"

fun then_check :: "'e + unit \<Rightarrow> 'e + 'a \<Rightarrow> 'e + 'a" where
  "then_check (Inl e) r = Inl e"
| "then_check (Inr _) r = r"

fun check_all :: "('a \<Rightarrow> 'e + unit) \<Rightarrow> 'a list \<Rightarrow> 'e + unit" where
  "check_all f [] = Inr ()"
| "check_all f (x # xs) = then_check (f x) (check_all f xs)"

fun check_opt :: "('a \<Rightarrow> 'e + unit) \<Rightarrow> 'a option \<Rightarrow> 'e + unit" where
  "check_opt f None = Inr ()"
| "check_opt f (Some x) = f x"

text \<open>A loop over a list with a set of keys seen so far: the first repeated key is an error.\<close>

fun check_fresh :: "('a \<Rightarrow> 'k) \<Rightarrow> ('a \<Rightarrow> 'e + unit) \<Rightarrow> ('a \<Rightarrow> 'e) \<Rightarrow> ('a \<Rightarrow> 'e + unit) \<Rightarrow> 'k list
    \<Rightarrow> 'a list \<Rightarrow> 'e + unit" where
  "check_fresh key pre dup post seen [] = Inr ()"
| "check_fresh key pre dup post seen (x # xs) =
     then_check (pre x)
       (if key x \<in> set seen then Inl (dup x)
        else then_check (post x) (check_fresh key pre dup post (key x # seen) xs))"

lemma is_ok_guard [simp]: "is_ok (guard bad e) \<longleftrightarrow> \<not> bad"
  by (simp add: guard_def)

lemma is_ok_then_check [simp]: "is_ok (then_check a b) \<longleftrightarrow> is_ok a \<and> is_ok b"
  by (cases a) auto

lemma is_ok_check_all [simp]: "is_ok (check_all f xs) \<longleftrightarrow> (\<forall>x \<in> set xs. is_ok (f x))"
  by (induction xs) auto

lemma is_ok_check_opt [simp]: "is_ok (check_opt f r) \<longleftrightarrow> (\<forall>x. r = Some x \<longrightarrow> is_ok (f x))"
  by (cases r) auto

lemma is_ok_check_fresh [simp]:
  "is_ok (check_fresh key pre dup post seen xs) \<longleftrightarrow>
     (\<forall>x \<in> set xs. is_ok (pre x) \<and> is_ok (post x) \<and> key x \<notin> set seen) \<and> distinct (map key xs)"
  by (induction xs arbitrary: seen) (auto simp: image_iff)

section \<open>Lists\<close>

text \<open>Rust's \<open>iter().enumerate().find(..)\<close>: the first index whose element satisfies the test.\<close>

fun find_index :: "('a \<Rightarrow> bool) \<Rightarrow> 'a list \<Rightarrow> nat option" where
  "find_index P [] = None"
| "find_index P (x # xs) = (if P x then Some 0 else map_option Suc (find_index P xs))"

lemma find_index_SomeD:
  "find_index P xs = Some i \<Longrightarrow> i < length xs \<and> P (xs ! i) \<and> (\<forall>j<i. \<not> P (xs ! j))"
proof (induction xs arbitrary: i)
  case Nil
  then show ?case by simp
next
  case (Cons x xs)
  show ?case
  proof (cases "P x")
    case True
    with Cons.prems show ?thesis by simp
  next
    case False
    with Cons.prems obtain k where k: "find_index P xs = Some k" "i = Suc k" by auto
    from Cons.IH [OF k(1)] k(2) False show ?thesis
      by (auto simp: nth_Cons split: nat.splits)
  qed
qed

lemma find_index_None: "find_index P xs = None \<longleftrightarrow> (\<forall>x \<in> set xs. \<not> P x)"
  by (induction xs) auto

lemma find_index_lt [dest]: "find_index P xs = Some i \<Longrightarrow> i < length xs"
  by (simp add: find_index_SomeD)

lemma find_index_unique:
  "find_index P xs = Some i \<Longrightarrow> \<forall>x \<in> set xs. \<not> Q x \<or> P x \<Longrightarrow> j < i \<Longrightarrow> \<not> Q (xs ! j)"
  by (metis find_index_SomeD nth_mem order_less_trans)

text \<open>Rust's \<open>drain(..overflow)\<close> after a push: keep the newest \<open>cap\<close> elements.\<close>

definition keep_newest :: "nat \<Rightarrow> 'a list \<Rightarrow> 'a list" where
  "keep_newest cap xs = (if cap < length xs then drop (length xs - cap) xs else xs)"

lemma length_keep_newest [simp]: "length (keep_newest cap xs) = min cap (length xs)"
  by (simp add: keep_newest_def)

lemma set_keep_newest: "set (keep_newest cap xs) \<subseteq> set xs"
  by (simp add: keep_newest_def set_drop_subset)

lemma last_keep_newest:
  "0 < cap \<Longrightarrow> xs \<noteq> [] \<Longrightarrow> last (keep_newest cap xs) = last xs \<and> keep_newest cap xs \<noteq> []"
  by (auto simp: keep_newest_def last_drop)

section \<open>Decimal digits\<close>

text \<open>The decimal digits of a number in \<open>format!\<close>.\<close>

fun dec_nat :: "nat \<Rightarrow> string" where
  "dec_nat n = (if n < 10 then [char_of (48 + n)]
                else dec_nat (n div 10) @ [char_of (48 + n mod 10)])"

declare dec_nat.simps [simp del]

section \<open>Association lists as hash maps\<close>

text \<open>
  A Rust \<open>HashMap\<close> is an association list with distinct keys: \<open>map_of\<close> looks a key up,
  \<open>AList.update\<close> inserts, \<open>AList.delete\<close> removes, and \<open>length\<close> is \<open>len()\<close>.
\<close>

abbreviation keys_distinct :: "('k \<times> 'v) list \<Rightarrow> bool" where
  "keys_distinct m \<equiv> distinct (map fst m)"

lemma map_of_None_keys: "map_of m k = None \<longleftrightarrow> k \<notin> fst ` set m"
  by (rule map_of_eq_None_iff)

lemma length_update_fresh:
  "map_of m k = None \<Longrightarrow> length (AList.update k v m) = Suc (length m)"
  by (induction m) auto

lemma length_update_old:
  "map_of m k = Some w \<Longrightarrow> length (AList.update k v m) = length m"
  by (induction m) auto

lemma length_delete_le: "length (AList.delete k m) \<le> length m"
  by (simp add: AList.delete_eq)

lemma keys_distinct_update [simp]:
  "keys_distinct m \<Longrightarrow> keys_distinct (AList.update k v m)"
  by (rule distinct_update)

lemma keys_distinct_delete [simp]:
  "keys_distinct m \<Longrightarrow> keys_distinct (AList.delete k m)"
  by (rule distinct_delete)

lemma map_of_update_eq [simp]:
  "map_of (AList.update k v m) = (map_of m)(k \<mapsto> v)"
  by (rule update_conv')

lemma map_of_delete_eq [simp]:
  "map_of (AList.delete k m) = (map_of m)(k := None)"
  by (rule delete_conv')

text \<open>Counting the entries that satisfy a test, when one entry changes.\<close>

definition count_vals :: "('v \<Rightarrow> bool) \<Rightarrow> ('k \<times> 'v) list \<Rightarrow> nat" where
  "count_vals P m = length (filter (\<lambda>(k, v). P v) m)"

lemma count_vals_simps [simp]:
  "count_vals P [] = 0"
  "count_vals P (x # m) = (if P (snd x) then 1 else 0) + count_vals P m"
  by (auto simp: count_vals_def split: prod.splits)

lemma count_vals_update_fresh:
  "map_of m k = None \<Longrightarrow> count_vals P (AList.update k v m) = count_vals P m + (if P v then 1 else 0)"
  by (induction m) auto

lemma count_vals_update_old:
  "map_of m k = Some w \<Longrightarrow>
   count_vals P (AList.update k v m) + (if P w then 1 else 0)
     = count_vals P m + (if P v then 1 else 0)"
  by (induction m) (auto split: if_splits)

lemma count_vals_delete_le: "count_vals P (AList.delete k m) \<le> count_vals P m"
  by (induction m) auto

section \<open>Contracts shared by several components\<close>

text \<open>
  A guarded machine: every step keeps the invariant, so every finite run does. The
  components instantiate it with their own operations.
\<close>

locale guarded_machine =
  fixes step :: "'e \<Rightarrow> 's \<Rightarrow> 's"
    and inv :: "'s \<Rightarrow> bool"
  assumes step_inv: "inv s \<Longrightarrow> inv (step e s)"
begin

lemma run_inv: "inv s \<Longrightarrow> inv (fold step es s)"
  by (induction es arbitrary: s) (auto simp: step_inv)

lemma run_prefix_inv: "inv s \<Longrightarrow> inv (fold step (take n es) s)"
  by (rule run_inv)

end

text \<open>
  A machine in an environment with obligations: \<open>ok\<close> says which events the environment may
  raise in a state, and the invariant needs to hold only along runs that respect it.
\<close>

fun env_run :: "('e \<Rightarrow> 's \<Rightarrow> bool) \<Rightarrow> ('e \<Rightarrow> 's \<Rightarrow> 's) \<Rightarrow> 'e list \<Rightarrow> 's \<Rightarrow> bool" where
  "env_run ok step [] s \<longleftrightarrow> True"
| "env_run ok step (e # es) s \<longleftrightarrow> ok e s \<and> env_run ok step es (step e s)"

locale environment_machine =
  fixes step :: "'e \<Rightarrow> 's \<Rightarrow> 's"
    and ok :: "'e \<Rightarrow> 's \<Rightarrow> bool"
    and inv :: "'s \<Rightarrow> bool"
  assumes step_ok_inv: "inv s \<Longrightarrow> ok e s \<Longrightarrow> inv (step e s)"
begin

lemma run_ok_inv: "inv s \<Longrightarrow> env_run ok step es s \<Longrightarrow> inv (fold step es s)"
  by (induction es arbitrary: s) (auto simp: step_ok_inv)

end

text \<open>
  A capped store: an operation never pushes the measured size above the cap. It is a
  guarded machine whose invariant is the bound.
\<close>

locale capped_store =
  fixes step :: "'e \<Rightarrow> 's \<Rightarrow> 's"
    and wf :: "'s \<Rightarrow> bool"
    and size_of :: "'s \<Rightarrow> nat"
    and cap :: nat
  assumes step_wf: "wf s \<Longrightarrow> wf (step e s)"
    and step_cap: "wf s \<Longrightarrow> size_of s \<le> cap \<Longrightarrow> size_of (step e s) \<le> cap"

sublocale capped_store \<subseteq> bounded: guarded_machine step "\<lambda>s. wf s \<and> size_of s \<le> cap"
  by unfold_locales (auto simp: step_wf step_cap)

context capped_store begin

lemma run_cap: "wf s \<Longrightarrow> size_of s \<le> cap \<Longrightarrow> size_of (fold step es s) \<le> cap"
  using bounded.run_inv [of s es] by simp

lemma run_wf: "wf s \<Longrightarrow> wf (fold step es s)"
  by (induction es arbitrary: s) (auto simp: step_wf)

end

end
