(* ===== verification/Request_Tracker.thy ===== *)
theory Request_Tracker
  imports Prelude
begin

text \<open>
  The portal Request lifecycle of \<open>crates/atrium-portal-runtime/src/lib.rs\<close>: the
  cancellation tracker, the exported Request objects and the dispatch of one request to
  a worker. The zbus object server is modelled by the set of paths at which an object is
  exported (its documented contract: \<open>at\<close> answers false when the path is taken).
\<close>

section \<open>The tracker\<close>

record tracker =
  rt_active :: "string set"
  rt_closed :: "string set"

definition tracker_default :: tracker where
  "tracker_default = \<lparr>rt_active = {}, rt_closed = {}\<rparr>"

definition was_closed :: "tracker \<Rightarrow> string \<Rightarrow> bool" where
  "was_closed t path \<longleftrightarrow> path \<in> rt_closed t"

definition activate :: "string \<Rightarrow> tracker \<Rightarrow> tracker" where
  "activate path t = t\<lparr>rt_active := insert path (rt_active t)\<rparr>"

definition mark_closed :: "string \<Rightarrow> tracker \<Rightarrow> tracker" where
  "mark_closed path t =
     (if path \<in> rt_active t then t\<lparr>rt_closed := insert path (rt_closed t)\<rparr> else t)"

definition forget :: "string \<Rightarrow> tracker \<Rightarrow> tracker" where
  "forget path t =
     t\<lparr>rt_active := rt_active t - {path}, rt_closed := rt_closed t - {path}\<rparr>"

section \<open>Exported request objects\<close>

datatype fdo_error = Fdo_Zbus nat | Fdo_Failed string | Fdo_InvalidArgs string

record req_world =
  rw_objects :: "string set"
  rw_tracker :: tracker

text \<open>The bus call \<open>Close\<close> on a served request.\<close>

definition request_close :: "string \<Rightarrow> req_world \<Rightarrow> req_world" where
  "request_close path w = w\<lparr>rw_tracker := mark_closed path (rw_tracker w)\<rparr>"

text \<open>\<open>fault\<close> is the error the object server reports for the export, if any.\<close>

definition register :: "nat option \<Rightarrow> string \<Rightarrow> req_world \<Rightarrow> (fdo_error + unit) \<times> req_world" where
  "register fault path w =
     (case fault of
        Some e \<Rightarrow> (Inl (Fdo_Zbus e), w)
      | None \<Rightarrow>
          if path \<in> rw_objects w
          then (Inl (Fdo_Failed ''already active''), w)
          else (Inr (), w\<lparr>rw_objects := insert path (rw_objects w),
                          rw_tracker := activate path (rw_tracker w)\<rparr>))"

text \<open>\<open>remove_fails\<close>: the object server could not remove the object; this is only logged.\<close>

definition finish :: "bool \<Rightarrow> string \<Rightarrow> req_world \<Rightarrow> req_world" where
  "finish remove_fails path w =
     w\<lparr>rw_objects := (if remove_fails then rw_objects w else rw_objects w - {path}),
       rw_tracker := forget path (rw_tracker w)\<rparr>"

section \<open>Dispatch to a worker\<close>

text \<open>A portal reply: the response code and the results dictionary.\<close>

type_synonym 'v portal_response = "u32 \<times> (string \<times> 'v) list"

text \<open>
  What becomes of the job: the bounded queue is full, the worker is gone, the worker
  answers (with the \<open>Close\<close> calls that arrive meanwhile), or it drops the reply.
\<close>

datatype 'r queue_outcome =
    Queue_Full
  | Queue_Disconnected
  | Queue_Answered "string list" 'r
  | Queue_Dropped "string list"

definition dispatch ::
  "nat option \<Rightarrow> bool \<Rightarrow> string \<Rightarrow> string \<Rightarrow> 'v portal_response queue_outcome \<Rightarrow> req_world
     \<Rightarrow> (fdo_error + 'v portal_response) \<times> req_world" where
  "dispatch fault remove_fails worker path outcome w =
     (case register fault path w of
        (Inl e, w1) \<Rightarrow> (Inl e, w1)
      | (Inr _, w1) \<Rightarrow>
          (case outcome of
             Queue_Full \<Rightarrow> (Inr (2, []), finish remove_fails path w1)
           | Queue_Disconnected \<Rightarrow>
               (Inl (Fdo_Failed (worker @ '' worker is gone'')), finish remove_fails path w1)
           | Queue_Answered closes r \<Rightarrow>
               (Inr r, finish remove_fails path (fold request_close closes w1))
           | Queue_Dropped closes \<Rightarrow>
               (Inl (Fdo_Failed (worker @ '' worker dropped its response'')),
                finish remove_fails path (fold request_close closes w1))))"

section \<open>The interleavings of one bus\<close>

datatype req_event =
    Ev_Register "nat option" string
  | Ev_Close string
  | Ev_Finish bool string

fun req_step :: "req_event \<Rightarrow> req_world \<Rightarrow> req_world" where
  "req_step (Ev_Register fault path) w = snd (register fault path w)"
| "req_step (Ev_Close path) w = request_close path w"
| "req_step (Ev_Finish rf path) w = finish rf path w"

text \<open>
  The invariant: a close marker belongs to a request that is in flight, and a request in
  flight has its object exported.
\<close>

definition req_inv :: "req_world \<Rightarrow> bool" where
  "req_inv w \<longleftrightarrow> rt_closed (rw_tracker w) \<subseteq> rt_active (rw_tracker w)
     \<and> rt_active (rw_tracker w) \<subseteq> rw_objects w"

lemmas tracker_defs = was_closed_def activate_def mark_closed_def forget_def

lemma req_inv_close [inv_intros]: "req_inv w \<Longrightarrow> req_inv (request_close path w)"
  by (auto simp: req_inv_def request_close_def mark_closed_def)

lemma req_inv_register [inv_intros]: "req_inv w \<Longrightarrow> req_inv (snd (register fault path w))"
  by (auto simp: req_inv_def register_def activate_def split: option.splits)

lemma req_inv_finish [inv_intros]: "req_inv w \<Longrightarrow> req_inv (finish rf path w)"
  by (auto simp: req_inv_def finish_def forget_def)

lemma req_step_inv [inv_intros]: "req_inv w \<Longrightarrow> req_inv (req_step e w)"
  by (cases e) (auto intro: inv_intros)

interpretation req: guarded_machine req_step req_inv
  by unfold_locales (rule req_step_inv)

definition req_init :: req_world where
  "req_init = \<lparr>rw_objects = {}, rw_tracker = tracker_default\<rparr>"

lemma req_inv_init: "req_inv req_init"
  by (simp add: req_inv_def req_init_def tracker_default_def)

lemma req_reachable_inv: "req_inv (fold req_step es req_init)"
  by (rule req.run_inv [OF req_inv_init])

section \<open>Frame lemmas\<close>

lemma close_other [frame_simps]:
  "p \<noteq> q \<Longrightarrow> was_closed (rw_tracker (request_close q w)) p = was_closed (rw_tracker w) p"
  by (simp add: request_close_def tracker_defs)

lemma closes_keep_active [frame_simps]:
  "rt_active (rw_tracker (fold request_close ps w)) = rt_active (rw_tracker w)"
  by (induction ps arbitrary: w) (simp_all add: request_close_def mark_closed_def)

lemma closes_keep_objects [frame_simps]:
  "rw_objects (fold request_close ps w) = rw_objects w"
  by (induction ps arbitrary: w) (simp_all add: request_close_def)

lemma closes_mark:
  "p \<in> rt_active (rw_tracker w) \<Longrightarrow>
   was_closed (rw_tracker (fold request_close ps w)) p \<longleftrightarrow> p \<in> set ps \<or> was_closed (rw_tracker w) p"
proof (induction ps arbitrary: w)
  case Nil
  then show ?case by simp
next
  case (Cons q qs)
  then have "p \<in> rt_active (rw_tracker (request_close q w))"
    by (simp add: request_close_def mark_closed_def)
  from Cons.IH [OF this] Cons.prems show ?case
    by (auto simp: request_close_def tracker_defs)
qed

text \<open>A request that is being served stays active until its own \<open>finish\<close>.\<close>

lemma active_step:
  "p \<in> rt_active (rw_tracker w) \<Longrightarrow> \<forall>rf. e \<noteq> Ev_Finish rf p
   \<Longrightarrow> p \<in> rt_active (rw_tracker (req_step e w))"
  by (cases e)
    (auto simp: register_def request_close_def finish_def tracker_defs split: option.splits)

lemma closed_step_iff:
  assumes "p \<in> rt_active (rw_tracker w)" and "\<forall>rf. e \<noteq> Ev_Finish rf p"
  shows "was_closed (rw_tracker (req_step e w)) p
     \<longleftrightarrow> e = Ev_Close p \<or> was_closed (rw_tracker w) p"
  using assms
  by (cases e)
    (auto simp: register_def request_close_def finish_def tracker_defs split: option.splits)

lemma closed_run_iff:
  "p \<in> rt_active (rw_tracker w) \<Longrightarrow> \<forall>rf. Ev_Finish rf p \<notin> set es
   \<Longrightarrow> was_closed (rw_tracker (fold req_step es w)) p
     \<longleftrightarrow> Ev_Close p \<in> set es \<or> was_closed (rw_tracker w) p"
proof (induction es arbitrary: w)
  case Nil
  then show ?case by simp
next
  case (Cons e es)
  then have ne: "\<forall>rf. e \<noteq> Ev_Finish rf p" by auto
  have act: "p \<in> rt_active (rw_tracker (req_step e w))"
    using Cons.prems(1) ne by (rule active_step)
  show ?case
    using Cons.IH [OF act] Cons.prems closed_step_iff [OF Cons.prems(1) ne] by auto
qed

lemma register_ok:
  assumes "register fault p w = (Inr (), w1)" and "req_inv w"
  shows "p \<in> rt_active (rw_tracker w1)" and "\<not> was_closed (rw_tracker w1) p"
  using assms
  by (auto simp: register_def req_inv_def tracker_defs split: option.splits if_splits)

section \<open>Properties\<close>

text \<open>While a request is served, its cancellation flag says exactly whether \<open>Close\<close>
  arrived since its registration, whatever the other requests of the bus do and whatever
  happened on the same handle before.\<close>

theorem cancellation_is_exact:
  assumes "register fault p (fold req_step before req_init) = (Inr (), w1)"
    and "\<forall>rf. Ev_Finish rf p \<notin> set es"
  shows "was_closed (rw_tracker (fold req_step es w1)) p \<longleftrightarrow> Ev_Close p \<in> set es"
  using closed_run_iff [OF register_ok(1) [OF assms(1) req_reachable_inv] assms(2)]
    register_ok(2) [OF assms(1) req_reachable_inv] by simp

theorem cancellation_is_exact_witness:
  "\<exists>w1. register None ''/r'' (fold req_step
       [Ev_Register None ''/r'', Ev_Close ''/r'', Ev_Finish False ''/r''] req_init) = (Inr (), w1)
     \<and> \<not> was_closed (rw_tracker (fold req_step [Ev_Close ''/q''] w1)) ''/r''"
proof -
  let ?b = "[Ev_Register None ''/r'', Ev_Close ''/r'', Ev_Finish False ''/r'']"
  obtain w1 where w1: "register None ''/r'' (fold req_step ?b req_init) = (Inr (), w1)"
    by (simp add: register_def finish_def request_close_def req_init_def)
  moreover have "\<forall>rf. Ev_Finish rf ''/r'' \<notin> set [Ev_Close ''/q'']" by simp
  from cancellation_is_exact [OF w1 this]
  have "\<not> was_closed (rw_tracker (fold req_step [Ev_Close ''/q''] w1)) ''/r''" by simp
  ultimately show ?thesis by blast
qed

text \<open>C15: dispatch forgets the request on every path. A refused export changes nothing (the
  request already served at that path keeps its state); otherwise the path is neither
  active nor marked closed afterwards, its object is removed unless the server refuses,
  no other request's active mark is touched, and the caller gets code 2 for a full queue,
  the worker's answer, or a D-Bus failure when the worker is gone or drops the reply.\<close>

theorem dispatch_leaves_no_residue:
  "case dispatch fault rf worker p outcome w of (r, w') \<Rightarrow>
     (if fault \<noteq> None \<or> p \<in> rw_objects w
      then w' = w \<and> \<not> is_ok r
      else p \<notin> rt_active (rw_tracker w') \<and> \<not> was_closed (rw_tracker w') p
         \<and> rw_objects w' = (if rf then insert p (rw_objects w) else rw_objects w - {p})
         \<and> rt_active (rw_tracker w') = rt_active (rw_tracker w) - {p}
         \<and> (case outcome of
               Queue_Full \<Rightarrow> r = Inr (2, [])
             | Queue_Answered _ x \<Rightarrow> r = Inr x
             | _ \<Rightarrow> \<not> is_ok r))"
  by (cases outcome)
    (auto simp: dispatch_def register_def finish_def tracker_defs frame_simps split: option.splits)

theorem dispatch_leaves_no_residue_witness:
  "''/r'' \<notin> rt_active (rw_tracker (snd (dispatch None False ''worker'' ''/r''
       (Queue_Answered [''/r''] (0, [(''uri'', True)])) req_init)))
   \<and> fst (dispatch None False ''worker'' ''/r'' (Queue_Answered [''/r''] (0, [(''uri'', True)])) req_init)
       = Inr (0, [(''uri'', True)])"
  using dispatch_leaves_no_residue [where fault = None and rf = False and worker = "''worker''"
      and p = "''/r''" and outcome = "Queue_Answered [''/r''] (0, [(''uri'', True)])" and w = req_init]
  by (simp add: req_init_def split: prod.splits)

end
