(* ===== verification/Ipc_Codec.thy ===== *)
theory Ipc_Codec
  imports Prelude
begin

text \<open>
  Length-prefixed framing of \<open>crates/atrium-portal-ipc/src/codec.rs\<close>. The JSON
  serializer and deserializer are parameters (\<open>enc\<close>, \<open>dec\<close>); the writer is the byte
  sequence it has accepted, the reader the bytes still to come.
\<close>

definition MAX_FRAME :: nat where
  "MAX_FRAME = 16 * 1024 * 1024"

definition to_le_bytes :: "u32 \<Rightarrow> u8 list" where
  "to_le_bytes w = [ucast w, ucast (drop_bit 8 w), ucast (drop_bit 16 w), ucast (drop_bit 24 w)]"

fun from_le_bytes :: "u8 list \<Rightarrow> u32" where
  "from_le_bytes [a, b, c, d] =
     ucast a OR push_bit 8 (ucast b) OR push_bit 16 (ucast c) OR push_bit 24 (ucast d)"
| "from_le_bytes _ = 0"

definition write_msg :: "('m \<Rightarrow> u8 list option) \<Rightarrow> 'm \<Rightarrow> u8 list \<Rightarrow> (io_error + unit) \<times> u8 list" where
  "write_msg enc m out =
     (case enc m of
        None \<Rightarrow> (Inl Io_InvalidData, out)
      | Some bytes \<Rightarrow>
          if MAX_FRAME < length bytes then (Inl Io_InvalidData, out)
          else (Inr (), out @ to_le_bytes (of_nat (length bytes)) @ bytes))"

text \<open>\<open>Read::read_exact\<close>: all \<open>n\<close> bytes, or end of file with the input used up.\<close>

definition read_exact :: "nat \<Rightarrow> u8 list \<Rightarrow> (io_error + u8 list) \<times> u8 list" where
  "read_exact n inp =
     (if n \<le> length inp then (Inr (take n inp), drop n inp) else (Inl Io_UnexpectedEof, []))"

definition read_msg :: "(u8 list \<Rightarrow> 'm option) \<Rightarrow> u8 list \<Rightarrow> (io_error + 'm) \<times> u8 list" where
  "read_msg dec inp =
     (case read_exact 4 inp of
        (Inl e, rest) \<Rightarrow> (Inl e, rest)
      | (Inr hdr, rest) \<Rightarrow>
          let len = unat (from_le_bytes hdr) in
          if MAX_FRAME < len then (Inl Io_InvalidData, rest)
          else (case read_exact len rest of
                  (Inl e, rest') \<Rightarrow> (Inl e, rest')
                | (Inr body, rest') \<Rightarrow>
                    (case dec body of
                       None \<Rightarrow> (Inl Io_InvalidData, rest')
                     | Some m \<Rightarrow> (Inr m, rest'))))"

lemma from_to_le_bytes [simp]: "from_le_bytes (to_le_bytes w) = w"
  unfolding to_le_bytes_def from_le_bytes.simps
proof (rule bit_word_eqI)
  fix n :: nat
  assume "n < LENGTH(32)"
  then consider "n < 8" | "8 \<le> n" "n < 16" | "16 \<le> n" "n < 24" | "24 \<le> n" "n < 32"
    by fastforce
  then show "bit (ucast (ucast w :: u8) OR push_bit 8 (ucast (ucast (drop_bit 8 w) :: u8))
      OR push_bit 16 (ucast (ucast (drop_bit 16 w) :: u8))
      OR push_bit 24 (ucast (ucast (drop_bit 24 w) :: u8)) :: u32) n = bit w n"
    by cases (auto simp: bit_or_iff bit_push_bit_iff bit_ucast_iff bit_drop_bit_eq)
qed

lemma length_to_le_bytes [simp]: "length (to_le_bytes w) = 4"
  by (simp add: to_le_bytes_def)

lemma read_exact_append [simp]: "n = length xs \<Longrightarrow> read_exact n (xs @ ys) = (Inr xs, ys)"
  by (simp add: read_exact_def)

lemma unat_frame_length: "n \<le> MAX_FRAME \<Longrightarrow> unat (of_nat n :: u32) = n"
  by (simp add: MAX_FRAME_def unat_of_nat take_bit_nat_eq_self)

lemma read_written_frame:
  assumes "enc m = Some bytes" and "length bytes \<le> MAX_FRAME" and "dec bytes = Some m'"
  shows "read_msg dec (snd (write_msg enc m []) @ rest) = (Inr m', rest)"
  using assms by (simp add: write_msg_def read_msg_def unat_frame_length Let_def)

fun write_all_msgs :: "('m \<Rightarrow> u8 list option) \<Rightarrow> 'm list \<Rightarrow> u8 list \<Rightarrow> u8 list" where
  "write_all_msgs enc [] out = out"
| "write_all_msgs enc (m # ms) out = write_all_msgs enc ms (snd (write_msg enc m out))"

fun read_n_msgs :: "(u8 list \<Rightarrow> 'm option) \<Rightarrow> nat \<Rightarrow> u8 list \<Rightarrow> (io_error + 'm) list \<times> u8 list" where
  "read_n_msgs dec 0 inp = ([], inp)"
| "read_n_msgs dec (Suc n) inp =
     (case read_msg dec inp of (r, rest) \<Rightarrow>
        (case read_n_msgs dec n rest of (rs, rest') \<Rightarrow> (r # rs, rest')))"

lemma write_msg_append: "snd (write_msg enc m out) = out @ snd (write_msg enc m [])"
  by (simp add: write_msg_def split: option.splits)

lemma write_all_append: "write_all_msgs enc ms out = out @ write_all_msgs enc ms []"
proof (induction ms arbitrary: out)
  case Nil
  then show ?case by simp
next
  case (Cons m ms)
  show ?case
    using Cons [of "snd (write_msg enc m out)"] Cons [of "snd (write_msg enc m [])"]
    by (simp add: write_msg_append [of enc m out])
qed

text \<open>
  Bounds: an oversized message is refused without a byte written, and an announced length
  above the limit is refused after the four prefix bytes, before any payload is read.
\<close>

lemma oversized_write_refused:
  "enc m = Some b \<Longrightarrow> MAX_FRAME < length b \<Longrightarrow> write_msg enc m out = (Inl Io_InvalidData, out)"
  by (simp add: write_msg_def)

lemma oversized_read_refused:
  "MAX_FRAME < unat w \<Longrightarrow> read_msg dec (to_le_bytes w @ rest) = (Inl Io_InvalidData, rest)"
  by (simp add: read_msg_def Let_def)

lemma truncated_payload_is_eof:
  "unat w \<le> MAX_FRAME \<Longrightarrow> length rest < unat w
   \<Longrightarrow> read_msg dec (to_le_bytes w @ rest) = (Inl Io_UnexpectedEof, [])"
  by (simp add: read_msg_def Let_def) (simp add: read_exact_def)

section \<open>Properties\<close>

text \<open>C24: messages written back to back are read back one by one, in order, with nothing of
  a later frame consumed and no byte left over, for every serializer that the
  deserializer inverts and messages whose encoding fits the frame limit.\<close>

theorem framing_round_trip:
  assumes "\<And>m. m \<in> set ms \<Longrightarrow> \<exists>b. enc m = Some b \<and> length b \<le> MAX_FRAME \<and> dec b = Some m"
  shows "read_n_msgs dec (length ms) (write_all_msgs enc ms [] @ rest) = (map Inr ms, rest)"
  using assms
proof (induction ms)
  case Nil
  then show ?case by simp
next
  case (Cons m ms)
  from Cons.prems obtain b where b: "enc m = Some b" "length b \<le> MAX_FRAME" "dec b = Some m"
    by auto
  have "write_all_msgs enc (m # ms) [] @ rest
      = snd (write_msg enc m []) @ (write_all_msgs enc ms [] @ rest)"
    using write_all_append [of enc ms "snd (write_msg enc m [])"] by simp
  with b Cons show ?case
    by (simp add: read_written_frame [where m' = m])
qed

theorem framing_round_trip_witness:
  "read_n_msgs Some 2 (write_all_msgs Some [[1], [2, 3 :: u8]] [] @ [9])
     = ([Inr [1], Inr [2, 3]], [9])"
proof -
  have "\<And>m. m \<in> set [[1], [2, 3 :: u8]] \<Longrightarrow>
      \<exists>b. Some m = Some b \<and> length b \<le> MAX_FRAME \<and> Some b = Some m"
    by (auto simp: MAX_FRAME_def)
  then have "read_n_msgs Some (length [[1], [2, 3 :: u8]])
      (write_all_msgs Some [[1], [2, 3 :: u8]] [] @ [9])
    = (map Inr [[1], [2, 3 :: u8]], [9])"
    by (rule framing_round_trip)
  then show ?thesis
    by (simp del: read_n_msgs.simps write_all_msgs.simps add: numeral_2_eq_2)
qed

end
