(* ===== verification/Ipc_Schema.thy ===== *)
theory Ipc_Schema
  imports Prelude
begin

text \<open>
  The wire types of \<open>crates/atrium-portal-ipc/src/schema.rs\<close> and
  \<open>client.rs\<close>. A JSON value read from the socket is represented by what the serde
  derive makes of it: a response variant, an event variant, a value with a tag the
  projection does not know, a value whose tag is known but whose fields do not
  deserialize, or a value without a tag.
\<close>

section \<open>Handshake types\<close>

definition PROTOCOL_VERSION :: u32 where "PROTOCOL_VERSION = 29"
definition MIN_PROTOCOL_VERSION :: u32 where "MIN_PROTOCOL_VERSION = 24"
definition LOCAL_PORTAL_SCOPE :: string where "LOCAL_PORTAL_SCOPE = ''atrium-portal''"

record connection_capabilities =
  cap_query :: bool
  cap_control :: bool
  cap_input :: bool
  cap_session :: bool
  cap_interaction_domain :: bool

definition privileged :: "connection_capabilities \<Rightarrow> bool" where
  "privileged c \<longleftrightarrow> cap_control c \<or> cap_input c \<or> cap_session c \<or> cap_interaction_domain c"

record lease_request = lr_ttl_ms :: u64

definition lease_request_default :: lease_request where
  "lease_request_default = \<lparr>lr_ttl_ms = 900000\<rparr>"

record lease_grant =
  lg_id :: u64
  lg_ttl_ms :: u64
  lg_renewable :: bool

section \<open>Geometry\<close>

record point = pt_x :: i32 pt_y :: i32
record rsize = sz_w :: i32 sz_h :: i32
record rect = rect_origin :: point rect_size :: rsize

definition rect_new :: "i32 \<Rightarrow> i32 \<Rightarrow> i32 \<Rightarrow> i32 \<Rightarrow> rect" where
  "rect_new x y w h =
     \<lparr>rect_origin = \<lparr>pt_x = x, pt_y = y\<rparr>, rect_size = \<lparr>sz_w = w, sz_h = h\<rparr>\<rparr>"

section \<open>Settings\<close>

datatype color_scheme = Scheme_System | Scheme_Dark | Scheme_Light
datatype contrast = Contrast_Normal | Contrast_High

record accent_color = ac_red :: u8 ac_green :: u8 ac_blue :: u8

text \<open>The \<open>f64\<close> text scale is kept as its bit pattern.\<close>

record desktop_preferences =
  dp_color_scheme :: color_scheme
  dp_accent_color :: "accent_color option"
  dp_contrast :: contrast
  dp_reduced_motion :: bool
  dp_font_name :: string
  dp_monospace_font_name :: string
  dp_text_scale :: u64
  dp_icon_theme :: string
  dp_cursor_theme :: string
  dp_cursor_size :: u32

section \<open>Streams and picks\<close>

record output_info =
  oi_connector :: string
  oi_primary :: bool
  oi_rect :: rect

datatype stream_pixel_format = Wire_Bgra8 | Wire_Rgba8 | Wire_Dmabuf u32 u64

type_synonym window_id = u64

datatype stream_target = Target_Output "string option" | Target_Window window_id

definition is_output :: "stream_target \<Rightarrow> bool" where
  "is_output t \<longleftrightarrow> t = Target_Output None"

datatype stream_cursor_mode = Cursor_Hidden | Cursor_Embedded

datatype pick_kind = Pick_Region | Pick_Pixel | Pick_Window | Pick_Output

datatype pick_result =
    Picked_Region rect
  | Picked_Pixel point "u8 \<times> u8 \<times> u8"
  | Picked_Window window_id
  | Picked_Output "string option"
  | Picked_Cancelled

datatype confirm_pick_result = Confirm_Confirmed | Confirm_Cancelled

section \<open>Events, requests, responses\<close>

datatype event =
    Event_SettingsChanged u64
  | Event_StreamFrame (ev_stream_id: u64) (ev_sequence: u64) (ev_width: u32) (ev_height: u32)
      (ev_stride: u32) (ev_format: stream_pixel_format) (ev_damage: "rect list")
      (ev_dropped: u64) (ev_byte_len: u64) (ev_slot: "u32 option")
  | Event_StreamEnded u64 string
  | Event_StreamGeometryChanged u64 u32 u32
  | Event_Other

datatype request =
    Req_Hello u32 connection_capabilities "string option" "lease_request option"
  | Req_GetSettings
  | Req_Subscribe
  | Req_RenewLease u64
  | Req_EnumerateOutputs
  | Req_CaptureOutput "rect option"
  | Req_StreamOutputStart "u32 option" stream_target "bool option" "stream_cursor_mode option"
  | Req_StreamBufferRelease u64 u32
  | Req_StreamOutputStop u64
  | Req_PickTarget pick_kind
  | Req_PickConfirm string string "string option"
  | Req_SetWallpaper string

datatype response =
    Resp_Hello u32 connection_capabilities "lease_grant option"
  | Resp_Settings desktop_preferences
  | Resp_Outputs "output_info list"
  | Resp_CaptureOutput u32 u32 u64
  | Resp_StreamOutputStarted u64 u32 u32 stream_pixel_format "u32 option" "u32 option" "u64 option"
  | Resp_StreamBufferReleased u64 u32
  | Resp_StreamOutputStopped u64
  | Resp_Picked pick_result
  | Resp_ConfirmPicked confirm_pick_result
  | Resp_WallpaperSet
  | Resp_LeaseRenewed lease_grant
  | Resp_Subscribed
  | Resp_Error string

datatype wire_msg =
    Msg_Response response
  | Msg_Event event
  | Msg_Unknown string
  | Msg_Malformed string
  | Msg_Untyped

fun response_tag :: "response \<Rightarrow> string" where
  "response_tag (Resp_Hello _ _ _) = ''Hello''"
| "response_tag (Resp_Settings _) = ''Settings''"
| "response_tag (Resp_Outputs _) = ''Outputs''"
| "response_tag (Resp_CaptureOutput _ _ _) = ''CaptureOutput''"
| "response_tag (Resp_StreamOutputStarted _ _ _ _ _ _ _) = ''StreamOutputStarted''"
| "response_tag (Resp_StreamBufferReleased _ _) = ''StreamBufferReleased''"
| "response_tag (Resp_StreamOutputStopped _) = ''StreamOutputStopped''"
| "response_tag (Resp_Picked _) = ''Picked''"
| "response_tag (Resp_ConfirmPicked _) = ''ConfirmPicked''"
| "response_tag Resp_WallpaperSet = ''WallpaperSet''"
| "response_tag (Resp_LeaseRenewed _) = ''LeaseRenewed''"
| "response_tag Resp_Subscribed = ''Subscribed''"
| "response_tag (Resp_Error _) = ''Error''"

fun event_tag :: "event \<Rightarrow> string" where
  "event_tag (Event_SettingsChanged _) = ''SettingsChanged''"
| "event_tag (Event_StreamFrame _ _ _ _ _ _ _ _ _ _) = ''StreamFrame''"
| "event_tag (Event_StreamEnded _ _) = ''StreamEnded''"
| "event_tag (Event_StreamGeometryChanged _ _ _) = ''StreamGeometryChanged''"
| "event_tag Event_Other = ''Other''"

text \<open>\<open>value.get("type").and_then(as_str)\<close>.\<close>

fun tag_of :: "wire_msg \<Rightarrow> string option" where
  "tag_of (Msg_Response r) = Some (response_tag r)"
| "tag_of (Msg_Event e) = Some (event_tag e)"
| "tag_of (Msg_Unknown t) = Some t"
| "tag_of (Msg_Malformed t) = Some t"
| "tag_of Msg_Untyped = None"

text \<open>\<open>from_value\<close> / \<open>read_msg\<close> into \<open>Response\<close> and into \<open>Event\<close>.\<close>

fun as_response :: "wire_msg \<Rightarrow> io_error + response" where
  "as_response (Msg_Response r) = Inr r"
| "as_response _ = Inl Io_InvalidData"

fun as_event :: "wire_msg \<Rightarrow> io_error + event" where
  "as_event (Msg_Event e) = Inr e"
| "as_event _ = Inl Io_InvalidData"

section \<open>The wallpaper path rule\<close>

text \<open>
  \<open>std::path::Path::components\<close> on a Unix path: a leading slash is the root; the rest is
  split at slashes, empty pieces and non-leading \<open>.\<close> pieces are dropped, \<open>..\<close> is kept.
\<close>

datatype path_component = Root_Dir | Cur_Dir | Parent_Dir | Normal_Comp string

fun split_slash :: "string \<Rightarrow> string \<Rightarrow> string list" where
  "split_slash acc [] = [rev acc]"
| "split_slash acc (c # cs) =
     (if c = CHR ''/'' then rev acc # split_slash [] cs else split_slash (c # acc) cs)"

definition component_of :: "string \<Rightarrow> path_component option" where
  "component_of p =
     (if p = [] \<or> p = ''.'' then None
      else if p = ''..'' then Some Parent_Dir
      else Some (Normal_Comp p))"

definition path_is_absolute :: "string \<Rightarrow> bool" where
  "path_is_absolute p = (case p of c # _ \<Rightarrow> c = CHR ''/'' | [] \<Rightarrow> False)"

definition path_components :: "string \<Rightarrow> path_component list" where
  "path_components p =
     (if path_is_absolute p
      then Root_Dir # List.map_filter component_of (split_slash [] (tl p))
      else (case split_slash [] p of
              [] \<Rightarrow> []
            | q # qs \<Rightarrow> (if q = ''.'' then [Cur_Dir] else List.map_filter component_of [q])
                        @ List.map_filter component_of qs))"

fun comp_text :: "path_component \<Rightarrow> string" where
  "comp_text Root_Dir = ''/''"
| "comp_text Cur_Dir = ''.''"
| "comp_text Parent_Dir = ''..''"
| "comp_text (Normal_Comp s) = s"

text \<open>\<open>PathBuf::push\<close>, the step of \<open>collect::<PathBuf>()\<close>: the root replaces, anything
  else is appended behind a separator unless the buffer already ends in one.\<close>

fun path_push :: "string \<Rightarrow> path_component \<Rightarrow> string" where
  "path_push buf Root_Dir = ''/''"
| "path_push buf c =
     (if buf = [] \<or> last buf = CHR ''/'' then buf @ comp_text c else buf @ ''/'' @ comp_text c)"

definition path_collect :: "path_component list \<Rightarrow> string" where
  "path_collect cs = foldl path_push [] cs"

definition valid_wallpaper_path :: "string \<Rightarrow> bool" where
  "valid_wallpaper_path p \<longleftrightarrow>
     path_is_absolute p \<and> length p \<le> 4096 \<and> CHR 0x00 \<notin> set p
     \<and> \<not> list_ex (\<lambda>c. c = Cur_Dir \<or> c = Parent_Dir) (path_components p)
     \<and> path_collect (path_components p) = p"

end
