(* ===== verification/Ipc_Client.thy ===== *)
theory Ipc_Client
  imports Ipc_Schema
begin

text \<open>
  The synchronous client of \<open>crates/atrium-portal-ipc/src/client.rs\<close> and the descriptor
  transport of \<open>blob.rs\<close>, with the compositor connection of
  \<open>crates/xdg-desktop-portal-atrium/src/ipc.rs\<close>.

  A connection is the sequence of results its successive \<open>read_msg\<close> calls return, the
  sequence of results of its successive \<open>recvmsg\<close> calls, the faults of its successive
  writes, and the requests written so far. A connection with no results left is at end of
  file. The socket, the peer and the kernel are the environment that chooses these
  sequences.
\<close>

section \<open>Descriptors\<close>

text \<open>
  A received descriptor as the code can observe it: its file type and length
  (\<open>fstat\<close>, which may fail), its seals (\<open>None\<close> for a negative \<open>fcntl\<close>), the outcome of a
  seek, whether it can be memory-mapped, and its bytes.
\<close>

record file_desc =
  fd_regular :: bool
  fd_len :: "io_error + u64"
  fd_seals :: "u32 option"
  fd_seek :: "io_error option"
  fd_mappable :: bool
  fd_bytes :: "u8 list"

text \<open>One \<open>recvmsg\<close>: byte count, the marker byte, MSG_CTRUNC, and the SCM_RIGHTS descriptor.\<close>

record recv_result =
  rv_received :: nat
  rv_marker :: u8
  rv_ctrunc :: bool
  rv_fd :: "file_desc option"

definition BLOB_MARKER :: u8 where "BLOB_MARKER = 0xfd"
definition MAX_BLOB_BYTES :: nat where "MAX_BLOB_BYTES = 288 * 1024 * 1024"

text \<open>F_SEAL_SEAL, F_SEAL_SHRINK, F_SEAL_GROW and F_SEAL_WRITE.\<close>

definition REQUIRED_SEALS :: u32 where "REQUIRED_SEALS = 1 OR 2 OR 4 OR 8"

section \<open>Stream values\<close>

record stream_slot =
  ss_file :: file_desc
  ss_stride :: u32
  ss_byte_len :: u64

record stream_started =
  st_stream_id :: u64
  st_width :: u32
  st_height :: u32
  st_format :: stream_pixel_format
  st_slots :: "stream_slot list option"

datatype stream_payload = Pay_Memfd file_desc | Pay_Dmabuf file_desc | Pay_Slot

record stream_frame =
  sf_stream_id :: u64
  sf_sequence :: u64
  sf_width :: u32
  sf_height :: u32
  sf_stride :: u32
  sf_format :: stream_pixel_format
  sf_damage :: "rect list"
  sf_dropped :: u64
  sf_slot :: "u32 option"
  sf_payload :: stream_payload

datatype stream_message =
    SM_Frame stream_frame
  | SM_Ended u64 string
  | SM_LeaseRenewed
  | SM_GeometryChanged u64 u32 u32

section \<open>The connection\<close>

record client =
  c_msgs :: "(io_error + wire_msg) list"
  c_fds :: "(io_error + recv_result) list"
  c_faults :: "io_error option list"
  c_sent :: "request list"
  c_caps :: connection_capabilities
  c_lease :: "lease_grant option"
  c_version :: u32
  c_pending :: "stream_message list"

definition write_req :: "request \<Rightarrow> client \<Rightarrow> (io_error + unit) \<times> client" where
  "write_req r c =
     (case c_faults c of
        Some e # fs \<Rightarrow> (Inl e, c\<lparr>c_faults := fs\<rparr>)
      | None # fs \<Rightarrow> (Inr (), c\<lparr>c_faults := fs, c_sent := c_sent c @ [r]\<rparr>)
      | [] \<Rightarrow> (Inr (), c\<lparr>c_sent := c_sent c @ [r]\<rparr>))"

definition read_value :: "client \<Rightarrow> (io_error + wire_msg) \<times> client" where
  "read_value c =
     (case c_msgs c of
        [] \<Rightarrow> (Inl Io_UnexpectedEof, c)
      | r # rs \<Rightarrow> (r, c\<lparr>c_msgs := rs\<rparr>))"

definition read_response :: "client \<Rightarrow> (io_error + response) \<times> client" where
  "read_response c = (case read_value c of (r, c') \<Rightarrow> (and_then r as_response, c'))"

section \<open>blob.rs\<close>

definition receive_fd :: "client \<Rightarrow> (io_error + file_desc) \<times> client" where
  "receive_fd c =
     (case c_fds c of
        [] \<Rightarrow> (Inl Io_InvalidData, c)
      | Inl e # rs \<Rightarrow> (Inl e, c\<lparr>c_fds := rs\<rparr>)
      | Inr rv # rs \<Rightarrow>
          (case rv_fd rv of
             None \<Rightarrow> (Inl Io_InvalidData, c\<lparr>c_fds := rs\<rparr>)
           | Some fd \<Rightarrow>
               (if rv_received rv \<noteq> 1 \<or> rv_marker rv \<noteq> BLOB_MARKER \<or> rv_ctrunc rv
                then (Inl Io_InvalidData, c\<lparr>c_fds := rs\<rparr>)
                else (Inr fd, c\<lparr>c_fds := rs\<rparr>))))"

definition validate_len :: "u64 \<Rightarrow> io_error + unit" where
  "validate_len len =
     (if len = 0 \<or> MAX_BLOB_BYTES < unat len then Inl Io_InvalidData else Inr ())"

definition seek_start :: "file_desc \<Rightarrow> io_error + file_desc" where
  "seek_start f = (case fd_seek f of Some e \<Rightarrow> Inl e | None \<Rightarrow> Inr f)"

definition receive_dmabuf_file :: "u64 \<Rightarrow> client \<Rightarrow> (io_error + file_desc) \<times> client" where
  "receive_dmabuf_file expected c =
     (case validate_len expected of
        Inl e \<Rightarrow> (Inl e, c)
      | Inr _ \<Rightarrow>
          (case receive_fd c of
             (Inl e, c') \<Rightarrow> (Inl e, c')
           | (Inr f, c') \<Rightarrow>
               (and_then (fd_len f)
                  (\<lambda>len. if len < expected then Inl Io_InvalidData else seek_start f), c')))"

definition receive_validated_fd :: "u64 \<Rightarrow> client \<Rightarrow> (io_error + file_desc) \<times> client" where
  "receive_validated_fd expected c =
     (case validate_len expected of
        Inl e \<Rightarrow> (Inl e, c)
      | Inr _ \<Rightarrow>
          (case receive_fd c of
             (Inl e, c') \<Rightarrow> (Inl e, c')
           | (Inr f, c') \<Rightarrow>
               (and_then (fd_len f)
                  (\<lambda>len. if \<not> fd_regular f \<or> len \<noteq> expected then Inl Io_InvalidData
                         else seek_start f), c')))"

definition fully_sealed :: "file_desc \<Rightarrow> bool" where
  "fully_sealed f \<longleftrightarrow>
     (case fd_seals f of None \<Rightarrow> False | Some s \<Rightarrow> s AND REQUIRED_SEALS = REQUIRED_SEALS)"

definition receive_memfd_file :: "u64 \<Rightarrow> client \<Rightarrow> (io_error + file_desc) \<times> client" where
  "receive_memfd_file expected c =
     (case receive_validated_fd expected c of
        (Inl e, c') \<Rightarrow> (Inl e, c')
      | (Inr f, c') \<Rightarrow> (if fully_sealed f then Inr f else Inl Io_InvalidData, c'))"

text \<open>\<open>receive\<close>: the whole payload read into memory; a short read is an end of file.\<close>

definition receive_blob :: "u64 \<Rightarrow> client \<Rightarrow> (io_error + u8 list) \<times> client" where
  "receive_blob expected c =
     (case receive_memfd_file expected c of
        (Inl e, c') \<Rightarrow> (Inl e, c')
      | (Inr f, c') \<Rightarrow>
          (if unat expected \<le> length (fd_bytes f)
           then Inr (take (unat expected) (fd_bytes f)) else Inl Io_UnexpectedEof, c'))"

section \<open>Handshake\<close>

text \<open>
  What one connection attempt meets: the connect, timeout and write faults, the first
  value read, and the traffic that would follow a successful handshake.
\<close>

record dial =
  d_connect :: "io_error option"
  d_timeout :: "io_error option"
  d_write :: "io_error option"
  d_reply :: "io_error + wire_msg"
  d_msgs :: "(io_error + wire_msg) list"
  d_fds :: "(io_error + recv_result) list"
  d_faults :: "io_error option list"

definition hello_request :: "connection_capabilities \<Rightarrow> string option \<Rightarrow> u32 \<Rightarrow> request" where
  "hello_request caps scope version =
     Req_Hello version caps scope
       (if privileged caps then Some lease_request_default else None)"

text \<open>\<open>Inl\<close>: transport or framing failure. \<open>Inr (Inl e)\<close>: a clean refusal.\<close>

definition handshake ::
  "dial \<Rightarrow> connection_capabilities \<Rightarrow> string option \<Rightarrow> u32 \<Rightarrow> io_error + (io_error + client)" where
  "handshake d caps scope version =
     (case d_connect d of Some e \<Rightarrow> Inl e | None \<Rightarrow>
     (case d_timeout d of Some e \<Rightarrow> Inl e | None \<Rightarrow>
     (case d_write d of Some e \<Rightarrow> Inl e | None \<Rightarrow>
     (case and_then (d_reply d) as_response of
        Inl e \<Rightarrow> Inl e
      | Inr (Resp_Hello replied rcaps lease) \<Rightarrow>
          Inr (if replied \<le> version
               then Inr \<lparr>c_msgs = d_msgs d, c_fds = d_fds d, c_faults = d_faults d,
                         c_sent = [hello_request caps scope version],
                         c_caps = rcaps, c_lease = lease, c_version = replied, c_pending = []\<rparr>
               else Inl Io_Unsupported)
      | Inr (Resp_Error message) \<Rightarrow> Inr (Inl (Io_ConnectionRefused message))
      | Inr _ \<Rightarrow> Inr (Inl Io_InvalidData)))))"

lemma unat_pred_less: "24 < unat (v :: u32) \<Longrightarrow> unat (v - 1) < unat v"
  by (cases "v = 0") (auto simp: unat_minus_one)

text \<open>The retry loop of \<open>connect_inner\<close>; \<open>net v\<close> is what the attempt at version \<open>v\<close> meets.\<close>

function connect_from ::
  "(u32 \<Rightarrow> dial) \<Rightarrow> connection_capabilities \<Rightarrow> string option \<Rightarrow> u32 \<Rightarrow> io_error + client" where
  "connect_from net caps scope version =
     (case handshake (net version) caps scope version of
        Inl e \<Rightarrow> Inl e
      | Inr (Inr c) \<Rightarrow> Inr c
      | Inr (Inl e) \<Rightarrow>
          if MIN_PROTOCOL_VERSION < version then connect_from net caps scope (version - 1)
          else Inl e)"
  by pat_completeness auto
termination
  by (relation "measure (\<lambda>(net, caps, scope, version). unat version)")
    (auto simp: MIN_PROTOCOL_VERSION_def word_less_nat_alt unat_pred_less)

definition connect_inner ::
  "(u32 \<Rightarrow> dial) \<Rightarrow> connection_capabilities \<Rightarrow> string option \<Rightarrow> io_error + client" where
  "connect_inner net caps scope = connect_from net caps scope PROTOCOL_VERSION"

declare connect_from.simps [simp del]

section \<open>Request and reply\<close>

text \<open>
  The shape of every single-reply operation: write the request, read one response, take
  the expected variant, turn \<open>Error\<close> into a failure and anything else into
  \<open>unexpected\<close>. \<open>accept\<close> is the operation's own match on its reply.
\<close>

definition request_reply ::
  "request \<Rightarrow> (response \<Rightarrow> client \<Rightarrow> ((io_error + 'a) \<times> client) option) \<Rightarrow> client
     \<Rightarrow> (io_error + 'a) \<times> client" where
  "request_reply r accept c =
     (case write_req r c of
        (Inl e, c1) \<Rightarrow> (Inl e, c1)
      | (Inr _, c1) \<Rightarrow>
          (case read_response c1 of
             (Inl e, c2) \<Rightarrow> (Inl e, c2)
           | (Inr resp, c2) \<Rightarrow>
               (case accept resp c2 of
                  Some result \<Rightarrow> result
                | None \<Rightarrow>
                    (case resp of
                       Resp_Error message \<Rightarrow> (Inl (Io_Other message), c2)
                     | _ \<Rightarrow> (Inl Io_InvalidData, c2)))))"

definition renew_lease :: "u64 \<Rightarrow> client \<Rightarrow> (io_error + lease_grant) \<times> client" where
  "renew_lease ttl_ms = request_reply (Req_RenewLease ttl_ms)
     (\<lambda>resp c. case resp of
        Resp_LeaseRenewed lease \<Rightarrow> Some (Inr lease, c\<lparr>c_lease := Some lease\<rparr>) | _ \<Rightarrow> None)"

definition settings :: "client \<Rightarrow> (io_error + desktop_preferences) \<times> client" where
  "settings = request_reply Req_GetSettings
     (\<lambda>resp c. case resp of Resp_Settings snapshot \<Rightarrow> Some (Inr snapshot, c) | _ \<Rightarrow> None)"

definition subscribe :: "client \<Rightarrow> (io_error + unit) \<times> client" where
  "subscribe = request_reply Req_Subscribe
     (\<lambda>resp c. case resp of Resp_Subscribed \<Rightarrow> Some (Inr (), c) | _ \<Rightarrow> None)"

definition next_event :: "client \<Rightarrow> (io_error + event) \<times> client" where
  "next_event c =
     (case read_value c of
        (Inl e, c1) \<Rightarrow> (Inl e, c1)
      | (Inr v, c1) \<Rightarrow>
          ((case tag_of v of
              None \<Rightarrow> Inl Io_InvalidData
            | Some t \<Rightarrow> if t = ''SettingsChanged'' then as_event v else Inr Event_Other), c1))"

definition enumerate_outputs :: "client \<Rightarrow> (io_error + output_info list) \<times> client" where
  "enumerate_outputs = request_reply Req_EnumerateOutputs
     (\<lambda>resp c. case resp of Resp_Outputs outputs \<Rightarrow> Some (Inr outputs, c) | _ \<Rightarrow> None)"

definition capture_output_region ::
  "rect option \<Rightarrow> client \<Rightarrow> (io_error + u32 \<times> u32 \<times> u8 list) \<times> client" where
  "capture_output_region region = request_reply (Req_CaptureOutput region)
     (\<lambda>resp c. case resp of
        Resp_CaptureOutput width height png_bytes \<Rightarrow>
          Some (case receive_blob png_bytes c of
                  (Inl e, c') \<Rightarrow> (Inl e, c')
                | (Inr bytes, c') \<Rightarrow> (Inr (width, height, bytes), c'))
      | _ \<Rightarrow> None)"

definition capture_output :: "client \<Rightarrow> (io_error + u32 \<times> u32 \<times> u8 list) \<times> client" where
  "capture_output = capture_output_region None"

definition pick_target :: "pick_kind \<Rightarrow> client \<Rightarrow> (io_error + pick_result) \<times> client" where
  "pick_target kind = request_reply (Req_PickTarget kind)
     (\<lambda>resp c. case resp of Resp_Picked result \<Rightarrow> Some (Inr result, c) | _ \<Rightarrow> None)"

definition pick_confirm ::
  "string \<Rightarrow> string \<Rightarrow> string option \<Rightarrow> client \<Rightarrow> (io_error + confirm_pick_result) \<times> client" where
  "pick_confirm title body accept_label = request_reply (Req_PickConfirm title body accept_label)
     (\<lambda>resp c. case resp of Resp_ConfirmPicked result \<Rightarrow> Some (Inr result, c) | _ \<Rightarrow> None)"

definition set_wallpaper :: "string \<Rightarrow> client \<Rightarrow> (io_error + unit) \<times> client" where
  "set_wallpaper path c =
     (if \<not> valid_wallpaper_path path then (Inl Io_InvalidInput, c)
      else request_reply (Req_SetWallpaper path)
        (\<lambda>resp c. case resp of Resp_WallpaperSet \<Rightarrow> Some (Inr (), c) | _ \<Rightarrow> None) c)"

section \<open>Streams\<close>

text \<open>The tags whose value \<open>parse_stream_message\<close> (the code's \<open>stream_message\<close>) deserializes, hence may reject.\<close>

definition stream_tags :: "string list" where
  "stream_tags = [''StreamFrame'', ''StreamEnded'', ''StreamGeometryChanged'', ''LeaseRenewed'',
                  ''Error'']"

definition tag_only :: "string \<Rightarrow> io_error + stream_message option" where
  "tag_only t = (if t \<in> set stream_tags then Inl Io_InvalidData else Inr None)"

fun parse_stream_message :: "wire_msg \<Rightarrow> client \<Rightarrow> (io_error + stream_message option) \<times> client" where
  "parse_stream_message (Msg_Event (Event_StreamFrame sid sequence width height stride format damage
       dropped byte_len slot)) c =
     (case (case slot of
              Some _ \<Rightarrow> (Inr Pay_Slot, c)
            | None \<Rightarrow>
                (case format of
                   Wire_Dmabuf _ _ \<Rightarrow>
                     (case receive_dmabuf_file byte_len c of
                        (Inl e, c') \<Rightarrow> (Inl e, c') | (Inr f, c') \<Rightarrow> (Inr (Pay_Dmabuf f), c'))
                 | _ \<Rightarrow>
                     (case receive_memfd_file byte_len c of
                        (Inl e, c') \<Rightarrow> (Inl e, c') | (Inr f, c') \<Rightarrow> (Inr (Pay_Memfd f), c')))) of
        (Inl e, c') \<Rightarrow> (Inl e, c')
      | (Inr payload, c') \<Rightarrow>
          (Inr (Some (SM_Frame \<lparr>sf_stream_id = sid, sf_sequence = sequence, sf_width = width,
             sf_height = height, sf_stride = stride, sf_format = format, sf_damage = damage,
             sf_dropped = dropped, sf_slot = slot, sf_payload = payload\<rparr>)), c'))"
| "parse_stream_message (Msg_Event (Event_StreamEnded sid reason)) c = (Inr (Some (SM_Ended sid reason)), c)"
| "parse_stream_message (Msg_Event (Event_StreamGeometryChanged sid w h)) c =
     (Inr (Some (SM_GeometryChanged sid w h)), c)"
| "parse_stream_message (Msg_Event _) c = (Inr None, c)"
| "parse_stream_message (Msg_Response (Resp_LeaseRenewed lease)) c =
     (Inr (Some SM_LeaseRenewed), c\<lparr>c_lease := Some lease\<rparr>)"
| "parse_stream_message (Msg_Response (Resp_Error message)) c = (Inl (Io_Other message), c)"
| "parse_stream_message (Msg_Response _) c = (Inr None, c)"
| "parse_stream_message (Msg_Unknown t) c = (tag_only t, c)"
| "parse_stream_message (Msg_Malformed t) c = (tag_only t, c)"
| "parse_stream_message Msg_Untyped c = (Inl Io_InvalidData, c)"

text \<open>
  The read loop of \<open>start_output_stream\<close> and \<open>stop_output_stream\<close>: read values until one
  has the awaited tag, buffering the stream events that precede it. The first argument
  is the traffic still to be read.
\<close>

fun await_reply ::
  "string \<Rightarrow> (io_error + wire_msg) list \<Rightarrow> client \<Rightarrow> (io_error + wire_msg) \<times> client" where
  "await_reply tag [] c = (Inl Io_UnexpectedEof, c\<lparr>c_msgs := []\<rparr>)"
| "await_reply tag (Inl e # rs) c = (Inl e, c\<lparr>c_msgs := rs\<rparr>)"
| "await_reply tag (Inr v # rs) c =
     (if tag_of v = Some tag then (Inr v, c\<lparr>c_msgs := rs\<rparr>)
      else (case parse_stream_message v c of
              (Inl e, c') \<Rightarrow> (Inl e, c'\<lparr>c_msgs := rs\<rparr>)
            | (Inr None, c') \<Rightarrow> await_reply tag rs c'
            | (Inr (Some m), c') \<Rightarrow> await_reply tag rs (c'\<lparr>c_pending := c_pending c' @ [m]\<rparr>)))"

text \<open>The slot table that follows a protocol-25 reply: \<open>count\<close> descriptors in slot order.\<close>

fun receive_slots :: "nat \<Rightarrow> u32 \<Rightarrow> u64 \<Rightarrow> client \<Rightarrow> (io_error + stream_slot list) \<times> client" where
  "receive_slots 0 stride bytes c = (Inr [], c)"
| "receive_slots (Suc n) stride bytes c =
     (case receive_dmabuf_file bytes c of
        (Inl e, c1) \<Rightarrow> (Inl e, c1)
      | (Inr f, c1) \<Rightarrow>
          (case receive_slots n stride bytes c1 of
             (Inl e, c2) \<Rightarrow> (Inl e, c2)
           | (Inr table, c2) \<Rightarrow>
               (Inr (\<lparr>ss_file = f, ss_stride = stride, ss_byte_len = bytes\<rparr> # table), c2)))"

definition read_slot_table ::
  "stream_pixel_format \<Rightarrow> u32 option \<Rightarrow> u32 option \<Rightarrow> u64 option \<Rightarrow> client
     \<Rightarrow> (io_error + stream_slot list option) \<times> client" where
  "read_slot_table format slots slot_stride slot_bytes c =
     (case (format, slots, slot_stride, slot_bytes) of
        (Wire_Dmabuf _ _, Some count, Some stride, Some bytes) \<Rightarrow>
          (case receive_slots (unat count) stride bytes c of
             (Inl e, c') \<Rightarrow> (Inl e, c') | (Inr table, c') \<Rightarrow> (Inr (Some table), c'))
      | (Wire_Dmabuf _ _, None, None, None) \<Rightarrow> (Inr None, c)
      | (Wire_Dmabuf _ _, _, _, _) \<Rightarrow> (Inl Io_InvalidData, c)
      | (_, None, None, None) \<Rightarrow> (Inr None, c)
      | _ \<Rightarrow> (Inl Io_InvalidData, c))"

definition start_output_stream ::
  "u32 option \<Rightarrow> stream_target \<Rightarrow> bool \<Rightarrow> stream_cursor_mode option \<Rightarrow> client
     \<Rightarrow> (io_error + stream_started) \<times> client" where
  "start_output_stream max_fps target dmabuf cursor c =
     (let dmabuf' = (dmabuf \<and> 25 \<le> c_version c);
          cursor' = (if 29 \<le> c_version c then cursor else None) in
      if c_version c < 29 \<and> (\<exists>name. target = Target_Output (Some name))
      then (Inl Io_Unsupported, c)
      else (case write_req (Req_StreamOutputStart max_fps target
                    (if dmabuf' then Some True else None) cursor') c of
         (Inl e, c1) \<Rightarrow> (Inl e, c1)
       | (Inr _, c1) \<Rightarrow>
          (case await_reply ''StreamOutputStarted'' (c_msgs c1) c1 of
             (Inl e, c2) \<Rightarrow> (Inl e, c2)
           | (Inr v, c2) \<Rightarrow>
               (case as_response v of
                  Inl e \<Rightarrow> (Inl e, c2)
                | Inr (Resp_StreamOutputStarted sid width height format slots stride bytes) \<Rightarrow>
                    (case read_slot_table format slots stride bytes c2 of
                       (Inl e, c3) \<Rightarrow> (Inl e, c3)
                     | (Inr table, c3) \<Rightarrow>
                         (Inr \<lparr>st_stream_id = sid, st_width = width, st_height = height,
                               st_format = format, st_slots = table\<rparr>, c3))
                | Inr (Resp_Error message) \<Rightarrow> (Inl (Io_Other message), c2)
                | Inr _ \<Rightarrow> (Inl Io_InvalidData, c2)))))"

definition release_stream_buffer :: "u64 \<Rightarrow> u32 \<Rightarrow> client \<Rightarrow> (io_error + unit) \<times> client" where
  "release_stream_buffer stream_id slot = write_req (Req_StreamBufferRelease stream_id slot)"

definition stop_output_stream :: "u64 \<Rightarrow> client \<Rightarrow> (io_error + unit) \<times> client" where
  "stop_output_stream stream_id c =
     (case write_req (Req_StreamOutputStop stream_id) c of
        (Inl e, c1) \<Rightarrow> (Inl e, c1)
      | (Inr _, c1) \<Rightarrow>
          (case await_reply ''StreamOutputStopped'' (c_msgs c1) c1 of
             (Inl e, c2) \<Rightarrow> (Inl e, c2)
           | (Inr v, c2) \<Rightarrow>
               (case as_response v of
                  Inl e \<Rightarrow> (Inl e, c2)
                | Inr (Resp_StreamOutputStopped stopped) \<Rightarrow>
                    (if stopped = stream_id then (Inr (), c2) else (Inl Io_InvalidData, c2))
                | Inr _ \<Rightarrow> (Inl Io_InvalidData, c2))))"

definition request_lease_renewal :: "u64 \<Rightarrow> client \<Rightarrow> (io_error + unit) \<times> client" where
  "request_lease_renewal ttl_ms = write_req (Req_RenewLease ttl_ms)"

fun next_from :: "(io_error + wire_msg) list \<Rightarrow> client \<Rightarrow> (io_error + stream_message) \<times> client" where
  "next_from [] c = (Inl Io_UnexpectedEof, c\<lparr>c_msgs := []\<rparr>)"
| "next_from (Inl e # rs) c = (Inl e, c\<lparr>c_msgs := rs\<rparr>)"
| "next_from (Inr v # rs) c =
     (case parse_stream_message v c of
        (Inl e, c') \<Rightarrow> (Inl e, c'\<lparr>c_msgs := rs\<rparr>)
      | (Inr None, c') \<Rightarrow> next_from rs c'
      | (Inr (Some m), c') \<Rightarrow> (Inr m, c'\<lparr>c_msgs := rs\<rparr>))"

definition next_stream_message :: "client \<Rightarrow> (io_error + stream_message) \<times> client" where
  "next_stream_message c =
     (case c_pending c of
        m # ms \<Rightarrow> (Inr m, c\<lparr>c_pending := ms\<rparr>)
      | [] \<Rightarrow> next_from (c_msgs c) c)"


section \<open>What the operations leave alone\<close>

text \<open>
  Receiving descriptors and parsing a value read and change only the descriptor queue and
  the lease: they commute with any change of the traffic and of the buffered events.
\<close>

definition with_queues :: "(io_error + wire_msg) list \<Rightarrow> stream_message list \<Rightarrow> client \<Rightarrow> client" where
  "with_queues q p c = c\<lparr>c_msgs := q, c_pending := p\<rparr>"

lemma with_queues_sel [simp]:
  "c_msgs (with_queues q p c) = q" "c_pending (with_queues q p c) = p"
  "c_fds (with_queues q p c) = c_fds c"
  by (simp_all add: with_queues_def)

lemma with_queues_upd [simp]:
  "(with_queues q p c)\<lparr>c_msgs := x\<rparr> = with_queues x p c"
  "(with_queues q p c)\<lparr>c_pending := y\<rparr> = with_queues q y c"
  "(with_queues q p c)\<lparr>c_fds := z\<rparr> = with_queues q p (c\<lparr>c_fds := z\<rparr>)"
  "(with_queues q p c)\<lparr>c_lease := l\<rparr> = with_queues q p (c\<lparr>c_lease := l\<rparr>)"
  "with_queues q p (with_queues q' p' c) = with_queues q p c"
  by (simp_all add: with_queues_def)

lemma receive_fd_with_queues [simp]:
  "receive_fd (with_queues q p c) = apsnd (with_queues q p) (receive_fd c)"
  by (auto simp: receive_fd_def split: list.splits sum.splits option.splits)

lemma receive_dmabuf_with_queues [simp]:
  "receive_dmabuf_file n (with_queues q p c) = apsnd (with_queues q p) (receive_dmabuf_file n c)"
  by (auto simp: receive_dmabuf_file_def split: sum.splits prod.splits)

lemma receive_validated_with_queues [simp]:
  "receive_validated_fd n (with_queues q p c) = apsnd (with_queues q p) (receive_validated_fd n c)"
  by (auto simp: receive_validated_fd_def split: sum.splits prod.splits)

lemma receive_memfd_with_queues [simp]:
  "receive_memfd_file n (with_queues q p c) = apsnd (with_queues q p) (receive_memfd_file n c)"
  by (auto simp: receive_memfd_file_def split: sum.splits prod.splits)

text \<open>What a wire operation keeps: version, capabilities and the requests already written.\<close>

definition same_link :: "client \<Rightarrow> client \<Rightarrow> bool" where
  "same_link c c' \<longleftrightarrow> c_version c' = c_version c \<and> c_caps c' = c_caps c
     \<and> c_sent c' = c_sent c \<and> c_faults c' = c_faults c"

lemma same_link_refl [simp]: "same_link c c"
  by (simp add: same_link_def)

lemma same_link_trans: "same_link a b \<Longrightarrow> same_link b c \<Longrightarrow> same_link a c"
  by (simp add: same_link_def)

lemma same_link_upd [simp]:
  "same_link c (c'\<lparr>c_msgs := x\<rparr>) = same_link c c'"
  "same_link c (c'\<lparr>c_pending := y\<rparr>) = same_link c c'"
  "same_link c (c'\<lparr>c_fds := z\<rparr>) = same_link c c'"
  "same_link c (c'\<lparr>c_lease := l\<rparr>) = same_link c c'"
  "same_link (c\<lparr>c_pending := y\<rparr>) c' = same_link c c'"
  by (simp_all add: same_link_def)

lemma receive_fd_link: "receive_fd c = (r, c') \<Longrightarrow> same_link c c'"
  by (auto simp: receive_fd_def split: list.splits sum.splits option.splits if_splits)

lemma receive_dmabuf_link: "receive_dmabuf_file n c = (r, c') \<Longrightarrow> same_link c c'"
  by (auto simp: receive_dmabuf_file_def dest: receive_fd_link split: sum.splits prod.splits)

lemma receive_memfd_link: "receive_memfd_file n c = (r, c') \<Longrightarrow> same_link c c'"
  by (auto simp: receive_memfd_file_def receive_validated_fd_def dest: receive_fd_link
      split: sum.splits prod.splits)

lemma parse_link: "parse_stream_message v c = (r, c') \<Longrightarrow> same_link c c'"
  by (induction v c rule: parse_stream_message.induct)
    (auto dest: receive_memfd_link receive_dmabuf_link
      split: option.splits stream_pixel_format.splits sum.splits prod.splits)

lemma await_link: "await_reply tag msgs c = (r, c') \<Longrightarrow> same_link c c'"
proof (induction tag msgs c arbitrary: r c' rule: await_reply.induct)
  case (3 tag v rs c)
  show ?case
  proof (cases "tag_of v = Some tag")
    case True
    with "3.prems" show ?thesis by auto
  next
    case False
    obtain pr c1 where parse: "parse_stream_message v c = (pr, c1)" by fastforce
    then have link: "same_link c c1" by (rule parse_link)
    show ?thesis
    proof (cases pr)
      case (Inl e)
      with False parse "3.prems" link show ?thesis by auto
    next
      case (Inr o')
      show ?thesis
      proof (cases o')
        case None
        with False parse Inr "3.prems" have "await_reply tag rs c1 = (r, c')" by simp
        with "3.IH"(1) False parse Inr None have "same_link c1 c'" by auto
        with link show ?thesis by (rule same_link_trans)
      next
        case (Some m)
        with False parse Inr "3.prems"
        have "await_reply tag rs (c1\<lparr>c_pending := c_pending c1 @ [m]\<rparr>) = (r, c')" by simp
        with "3.IH"(2) False parse Inr Some
        have "same_link (c1\<lparr>c_pending := c_pending c1 @ [m]\<rparr>) c'" by auto
        with link show ?thesis by (auto intro: same_link_trans)
      qed
    qed
  qed
qed auto

lemma receive_slots_link: "receive_slots n stride bytes c = (r, c') \<Longrightarrow> same_link c c'"
  by (induction n stride bytes c arbitrary: r c' rule: receive_slots.induct)
    (fastforce dest: receive_dmabuf_link intro: same_link_trans
      split: sum.splits prod.splits)+

lemma read_slot_table_link: "read_slot_table f s st b c = (r, c') \<Longrightarrow> same_link c c'"
  by (auto simp: read_slot_table_def dest: receive_slots_link
      split: stream_pixel_format.splits option.splits sum.splits prod.splits)

section \<open>What a started stream looks like\<close>

lemma receive_slots_shape:
  "receive_slots n stride bytes c = (Inr table, c') \<Longrightarrow>
   length table = n \<and> (\<forall>s \<in> set table. ss_stride s = stride \<and> ss_byte_len s = bytes
      \<and> (\<exists>len. fd_len (ss_file s) = Inr len \<and> bytes \<le> len))"
proof (induction n stride bytes c arbitrary: table c' rule: receive_slots.induct)
  case (1 stride bytes c)
  then show ?case by simp
next
  case (2 n stride bytes c)
  then obtain f c1 rest where f: "receive_dmabuf_file bytes c = (Inr f, c1)"
    and rest: "receive_slots n stride bytes c1 = (Inr rest, c')"
    and table: "table = \<lparr>ss_file = f, ss_stride = stride, ss_byte_len = bytes\<rparr> # rest"
    by (auto split: sum.splits prod.splits)
  have "\<exists>len. fd_len f = Inr len \<and> bytes \<le> len"
    using f by (auto simp: receive_dmabuf_file_def seek_start_def not_less
        split: sum.splits prod.splits if_splits option.splits)
  with "2.IH" [OF f [symmetric] refl rest] table show ?case by auto
qed

lemma read_slot_table_Some:
  assumes "read_slot_table format slots stride bytes c = (Inr (Some table), c')"
  shows "(\<exists>drm m. format = Wire_Dmabuf drm m) \<and> (\<exists>n. slots = Some n \<and> length table = unat n)
    \<and> (\<exists>st b. \<forall>s \<in> set table. ss_stride s = st \<and> ss_byte_len s = b
          \<and> (\<exists>len. fd_len (ss_file s) = Inr len \<and> b \<le> len))"
  using assms receive_slots_shape
  by (auto simp: read_slot_table_def
      split: stream_pixel_format.splits option.splits sum.splits prod.splits) blast+

lemma start_output_stream_Inr:
  assumes "start_output_stream fps target dmabuf cursor c = (Inr s, c')"
  obtains c2 sid w h f n st b table where
    "s = \<lparr>st_stream_id = sid, st_width = w, st_height = h, st_format = f, st_slots = table\<rparr>"
    "read_slot_table f n st b c2 = (Inr table, c')"
    "c_version c' = c_version c"
    "c_sent c' = c_sent c @ [Req_StreamOutputStart fps target
        (if dmabuf \<and> 25 \<le> c_version c then Some True else None)
        (if 29 \<le> c_version c then cursor else None)]"
    "\<not> (c_version c < 29 \<and> (\<exists>name. target = Target_Output (Some name)))"
proof -
  let ?req = "Req_StreamOutputStart fps target
        (if dmabuf \<and> 25 \<le> c_version c then Some True else None)
        (if 29 \<le> c_version c then cursor else None)"
  from assms obtain c1 where open': "\<not> (c_version c < 29 \<and> (\<exists>name. target = Target_Output (Some name)))"
    and w: "write_req ?req c = (Inr (), c1)"
    by (auto simp: start_output_stream_def Let_def split: if_splits prod.splits sum.splits)
  from w have sent: "c_sent c1 = c_sent c @ [?req]" "c_version c1 = c_version c"
    by (auto simp: write_req_def split: list.splits option.splits)
  from assms open' w obtain v c2 where
    aw: "await_reply ''StreamOutputStarted'' (c_msgs c1) c1 = (Inr v, c2)"
    by (auto simp: start_output_stream_def Let_def split: if_splits prod.splits sum.splits)
  from assms open' w aw obtain sid wd h f n st b table where
    fin: "s = \<lparr>st_stream_id = sid, st_width = wd, st_height = h, st_format = f, st_slots = table\<rparr>"
      "read_slot_table f n st b c2 = (Inr table, c')"
    by (auto simp: start_output_stream_def Let_def
        split: if_splits prod.splits sum.splits response.splits)
  have "same_link c1 c2" "same_link c2 c'"
    using aw fin(2) by (auto dest: await_link read_slot_table_link)
  then have "c_sent c' = c_sent c1" "c_version c' = c_version c1"
    by (auto simp: same_link_def)
  with sent open' fin that show thesis by metis
qed

end
