(* ===== verification/Ipc_Link.thy ===== *)
theory Ipc_Link
  imports Ipc_Client
begin

text \<open>
  The contract of the compositor connection towards the cast (\<open>stream_source\<close>), and the
  properties of the client: version negotiation, stream start, and the order in which
  stream events are delivered.
\<close>

section \<open>The contract of a stream source\<close>

text \<open>
  What the cast relies on when it starts, stops and releases: a slot table only comes with
  a dmabuf format, its slots share one layout and are backed by descriptors at least that
  long; every operation appends its own request to the wire, and nothing else, or leaves
  the wire as it was.
\<close>

locale stream_source =
  fixes start :: "u32 option \<Rightarrow> stream_target \<Rightarrow> bool \<Rightarrow> stream_cursor_mode option \<Rightarrow> 'c
      \<Rightarrow> (io_error + stream_started) \<times> 'c"
    and stop :: "u64 \<Rightarrow> 'c \<Rightarrow> (io_error + unit) \<times> 'c"
    and release :: "u64 \<Rightarrow> u32 \<Rightarrow> 'c \<Rightarrow> (io_error + unit) \<times> 'c"
    and sent :: "'c \<Rightarrow> request list"
  assumes start_slots:
    "start fps target dmabuf cursor c = (Inr s, c') \<Longrightarrow> st_slots s = Some table
       \<Longrightarrow> (\<exists>drm m. st_format s = Wire_Dmabuf drm m) \<and> length table < 2 ^ 32
         \<and> (\<exists>stride b. \<forall>x \<in> set table. ss_stride x = stride \<and> ss_byte_len x = b
              \<and> (\<exists>len. fd_len (ss_file x) = Inr len \<and> b \<le> len))"
    and start_sent:
    "start fps target dmabuf cursor c = (res, c')
       \<Longrightarrow> \<exists>rs. sent c' = sent c @ rs \<and> (\<forall>q \<in> set rs. \<exists>t d cu. q = Req_StreamOutputStart fps t d cu)"
    and stop_sent:
    "stop sid c = (r, c') \<Longrightarrow> sent c' = sent c \<or> sent c' = sent c @ [Req_StreamOutputStop sid]"
    and release_sent:
    "release sid slot c = (r, c')
       \<Longrightarrow> sent c' = sent c @ (if is_ok r then [Req_StreamBufferRelease sid slot] else [])"
begin

text \<open>The slot releases a connection has carried, in order.\<close>

lemma start_releases_nothing:
  assumes "start fps target dmabuf cursor c = (r, c')"
  shows "filter (\<lambda>q. \<exists>sid k. q = Req_StreamBufferRelease sid k) (sent c')
       = filter (\<lambda>q. \<exists>sid k. q = Req_StreamBufferRelease sid k) (sent c)"
  using start_sent [OF assms] by (auto simp: filter_empty_conv)

lemma stop_releases_nothing:
  assumes "stop sid c = (r, c')"
  shows "filter (\<lambda>q. \<exists>sid k. q = Req_StreamBufferRelease sid k) (sent c')
       = filter (\<lambda>q. \<exists>sid k. q = Req_StreamBufferRelease sid k) (sent c)"
  using stop_sent [OF assms] by auto

end

lemma write_req_sent:
  "write_req q c = (r, c') \<Longrightarrow> c_sent c' = c_sent c @ (if is_ok r then [q] else [])
     \<and> c_version c' = c_version c"
  by (auto simp: write_req_def split: list.splits option.splits)

lemma start_output_stream_sent:
  assumes "start_output_stream fps target dmabuf cursor c = (r, c')"
  shows "\<exists>rs. c_sent c' = c_sent c @ rs
      \<and> (\<forall>q \<in> set rs. \<exists>t d cu. q = Req_StreamOutputStart fps t d cu)"
proof -
  let ?req = "Req_StreamOutputStart fps target
        (if dmabuf \<and> 25 \<le> c_version c then Some True else None)
        (if 29 \<le> c_version c then cursor else None)"
  obtain w c1 where w: "write_req ?req c = (w, c1)" by fastforce
  have "c' = c \<or> same_link c1 c'"
    using assms w
    by (auto simp: start_output_stream_def Let_def
        dest!: await_link read_slot_table_link intro: same_link_trans
        split: if_splits prod.splits sum.splits response.splits)
  moreover have "c_sent c1 = c_sent c @ (if is_ok w then [?req] else [])"
    using write_req_sent [OF w] by simp
  ultimately show ?thesis
    by (auto simp: same_link_def split: if_splits)
qed

lemma stop_output_stream_sent:
  assumes "stop_output_stream sid c = (r, c')"
  shows "c_sent c' = c_sent c \<or> c_sent c' = c_sent c @ [Req_StreamOutputStop sid]"
proof -
  obtain w c1 where w: "write_req (Req_StreamOutputStop sid) c = (w, c1)" by fastforce
  have "same_link c1 c'"
    using assms w
    by (auto simp: stop_output_stream_def dest!: await_link
        split: if_splits prod.splits sum.splits response.splits)
  with write_req_sent [OF w] show ?thesis
    by (auto simp: same_link_def split: if_splits)
qed

lemma unat_u32_bound: "unat (n :: u32) < 4294967296"
  by (rule order_less_le_trans [OF unsigned_less]) simp

interpretation link: stream_source start_output_stream stop_output_stream release_stream_buffer c_sent
proof unfold_locales
  fix fps target dmabuf cursor c s c' table
  assume "start_output_stream fps target dmabuf cursor c = (Inr s, c')"
    and "st_slots s = Some table"
  then show "(\<exists>drm m. st_format s = Wire_Dmabuf drm m) \<and> length table < 2 ^ 32
         \<and> (\<exists>stride b. \<forall>x \<in> set table. ss_stride x = stride \<and> ss_byte_len x = b
              \<and> (\<exists>len. fd_len (ss_file x) = Inr len \<and> b \<le> len))"
    by (auto elim!: start_output_stream_Inr dest!: read_slot_table_Some
        simp: unat_u32_bound)
qed (auto intro: start_output_stream_sent stop_output_stream_sent
    simp: release_stream_buffer_def dest: write_req_sent dest!: stop_output_stream_sent)

section \<open>Version negotiation\<close>

lemma word_pred_facts:
  fixes v :: u32
  assumes "24 < v"
  shows "24 \<le> v - 1" and "v - 1 < v" and "v - 1 < x \<longleftrightarrow> v \<le> x"
  using assms by unat_arith+

lemma connect_from_spec:
  "24 \<le> version \<Longrightarrow> version \<le> 29 \<Longrightarrow>
   \<exists>v. 24 \<le> v \<and> v \<le> version
     \<and> (\<forall>u. v < u \<and> u \<le> version \<longrightarrow> (\<exists>e. handshake (net u) caps scope u = Inr (Inl e)))
     \<and> (case connect_from net caps scope version of
          Inr c \<Rightarrow> handshake (net v) caps scope v = Inr (Inr c)
        | Inl e \<Rightarrow> handshake (net v) caps scope v = Inl e
                 \<or> v = 24 \<and> handshake (net v) caps scope v = Inr (Inl e))"
proof (induction net caps scope version rule: connect_from.induct)
  case (1 net caps scope version)
  show ?case
  proof (cases "(\<exists>e. handshake (net version) caps scope version = Inr (Inl e)) \<and> 24 < version")
    case False
    then have "case connect_from net caps scope version of
          Inr c \<Rightarrow> handshake (net version) caps scope version = Inr (Inr c)
        | Inl e \<Rightarrow> handshake (net version) caps scope version = Inl e
                 \<or> version = 24 \<and> handshake (net version) caps scope version = Inr (Inl e)"
      using "1.prems"
      by (subst connect_from.simps) (auto simp: MIN_PROTOCOL_VERSION_def split: sum.splits)
    with "1.prems" show ?thesis
      by (intro exI [of _ version]) (auto dest: leD)
  next
    case True
    then obtain e where refused: "handshake (net version) caps scope version = Inr (Inl e)"
      and gt: "24 < version" by blast
    note p = word_pred_facts [OF gt]
    have step: "connect_from net caps scope version = connect_from net caps scope (version - 1)"
      using refused gt by (subst connect_from.simps) (simp add: MIN_PROTOCOL_VERSION_def)
    have "version - 1 \<le> 29" using p(2) "1.prems"(2) by simp
    from "1.IH" [OF refused refl] gt p(1) this
    obtain v where v: "24 \<le> v" "v \<le> version - 1"
      "\<forall>u. v < u \<and> u \<le> version - 1 \<longrightarrow> (\<exists>e. handshake (net u) caps scope u = Inr (Inl e))"
      "case connect_from net caps scope (version - 1) of
          Inr c \<Rightarrow> handshake (net v) caps scope v = Inr (Inr c)
        | Inl e \<Rightarrow> handshake (net v) caps scope v = Inl e
                 \<or> v = 24 \<and> handshake (net v) caps scope v = Inr (Inl e)"
      by (auto simp: MIN_PROTOCOL_VERSION_def)
    have "\<exists>e. handshake (net u) caps scope u = Inr (Inl e)" if "v < u" "u \<le> version" for u
    proof (cases "u = version")
      case True
      with refused show ?thesis by blast
    next
      case False
      with that p(3) [of u] have "u \<le> version - 1" by (metis leI not_le order_antisym)
      with v(3) that show ?thesis by blast
    qed
    with v step p(2) show ?thesis
      by (intro exI [of _ v]) auto
  qed
qed


section \<open>Order of stream events\<close>

text \<open>The events a stretch of traffic yields, with the descriptors they consume.\<close>

fun collect_events :: "wire_msg list \<Rightarrow> client \<Rightarrow> (io_error + stream_message list) \<times> client" where
  "collect_events [] c = (Inr [], c)"
| "collect_events (v # vs) c =
     (case parse_stream_message v c of
        (Inl e, c1) \<Rightarrow> (Inl e, c1)
      | (Inr m, c1) \<Rightarrow>
          (case collect_events vs c1 of
             (Inl e, c2) \<Rightarrow> (Inl e, c2)
           | (Inr ms, c2) \<Rightarrow> (Inr ((case m of None \<Rightarrow> [] | Some x \<Rightarrow> [x]) @ ms), c2)))"

text \<open>\<open>n\<close> successive calls of \<open>next_stream_message\<close>.\<close>

fun deliver :: "nat \<Rightarrow> client \<Rightarrow> (io_error + stream_message) list \<times> client" where
  "deliver 0 c = ([], c)"
| "deliver (Suc n) c =
     (case next_stream_message c of (r, c1) \<Rightarrow>
        (case deliver n c1 of (rs, c2) \<Rightarrow> (r # rs, c2)))"


lemma parse_with_queues [simp]:
  "parse_stream_message v (with_queues q p c) = apsnd (with_queues q p) (parse_stream_message v c)"
  by (induction v c rule: parse_stream_message.induct)
    (auto split: option.splits stream_pixel_format.splits sum.splits prod.splits)

lemma collect_with_queues [simp]:
  "collect_events vs (with_queues q p c) = apsnd (with_queues q p) (collect_events vs c)"
  by (induction vs arbitrary: c) (auto split: sum.splits prod.splits)

lemma collect_ConsD:
  assumes "collect_events (v # vs) c = (Inr ms, c2)"
  obtains m c1 ms' where "parse_stream_message v c = (Inr m, c1)"
    "collect_events vs c1 = (Inr ms', c2)" "ms = (case m of None \<Rightarrow> [] | Some x \<Rightarrow> [x]) @ ms'"
  using assms by (auto split: sum.splits prod.splits)

lemma await_collect:
  assumes "collect_events pre c = (Inr ms, c1)"
    and "\<forall>u \<in> set pre. tag_of u \<noteq> Some tag" and "tag_of v = Some tag"
  shows "await_reply tag (map Inr pre @ Inr v # post) (with_queues q p c)
       = (Inr v, with_queues post (p @ ms) c1)"
  using assms
proof (induction pre arbitrary: c p ms)
  case Nil
  then show ?case by simp
next
  case (Cons u us)
  from Cons.prems(1) obtain m c' ms' where parse: "parse_stream_message u c = (Inr m, c')"
    and rest: "collect_events us c' = (Inr ms', c1)"
    and ms: "ms = (case m of None \<Rightarrow> [] | Some x \<Rightarrow> [x]) @ ms'"
    by (rule collect_ConsD)
  have tags: "\<forall>u \<in> set us. tag_of u \<noteq> Some tag" using Cons.prems(2) by simp
  show ?case
  proof (cases m)
    case None
    with parse ms Cons.IH [OF rest tags Cons.prems(3), of p] Cons.prems(2) show ?thesis by simp
  next
    case (Some x)
    with parse ms Cons.IH [OF rest tags Cons.prems(3), of "p @ [x]"] Cons.prems(2)
    show ?thesis by simp
  qed
qed

lemma deliver_pending:
  "fst (deliver (length p + n) (with_queues q (p @ p') c))
     = map Inr p @ fst (deliver n (with_queues q p' c))"
proof (induction p arbitrary: c)
  case Nil
  then show ?case by simp
next
  case (Cons m p)
  from Cons [of c] show ?case
    by (auto simp: next_stream_message_def split: prod.splits)
qed

lemma next_from_queues:
  "next_from rs (with_queues q p c) = next_from rs (with_queues q' p c)"
proof (induction rs arbitrary: c)
  case Nil
  then show ?case by simp
next
  case (Cons r rs)
  show ?case
  proof (cases r)
    case (Inl e)
    then show ?thesis by simp
  next
    case (Inr v)
    obtain pr c1 where "parse_stream_message v c = (pr, c1)" by fastforce
    with Inr Cons [of c1] show ?thesis by (auto split: sum.splits option.splits)
  qed
qed

lemma deliver_skip:
  assumes "parse_stream_message v c = (Inr None, c1)"
  shows "fst (deliver n (with_queues (Inr v # rs) [] c)) = fst (deliver n (with_queues rs [] c1))"
proof (cases n)
  case 0
  then show ?thesis by simp
next
  case (Suc k)
  have "next_stream_message (with_queues (Inr v # rs) [] c)
      = next_stream_message (with_queues rs [] c1)"
    using assms next_from_queues [where q = "Inr v # rs" and q' = rs]
    by (simp add: next_stream_message_def)
  with Suc show ?thesis by simp
qed

lemma deliver_wire:
  "collect_events pre c = (Inr ms, c1) \<Longrightarrow>
   fst (deliver (length ms) (with_queues (map Inr pre @ post) [] c)) = map Inr ms"
proof (induction pre arbitrary: c ms)
  case Nil
  then show ?case by simp
next
  case (Cons u us)
  from Cons.prems obtain m c' ms' where parse: "parse_stream_message u c = (Inr m, c')"
    and rest: "collect_events us c' = (Inr ms', c1)"
    and ms: "ms = (case m of None \<Rightarrow> [] | Some x \<Rightarrow> [x]) @ ms'"
    by (rule collect_ConsD)
  note IH = Cons.IH [OF rest]
  show ?case
  proof (cases m)
    case None
    with deliver_skip [of u c c' "length ms"] parse ms IH show ?thesis by simp
  next
    case (Some x)
    with parse ms IH show ?thesis
      by (auto simp: next_stream_message_def split: prod.splits)
  qed
qed

text \<open>C20: waiting for a reply (the loop of stream start and stop) neither loses, duplicates nor
  reorders stream events: what the following reads deliver is first what was already
  buffered, then the events that arrived ahead of the reply, in wire order, exactly as if
  the same traffic had been read without a request in between; the reads resume right
  after the reply.\<close>

theorem waiting_keeps_stream_order:
  assumes "collect_events pre c = (Inr ms, c1)"
    and "\<forall>u \<in> set pre. tag_of u \<noteq> Some tag" and "tag_of v = Some tag"
  shows "case await_reply tag (map Inr pre @ Inr v # post) (c\<lparr>c_msgs := q, c_pending := p\<rparr>) of
      (r, c') \<Rightarrow> r = Inr v \<and> c_msgs c' = post
        \<and> fst (deliver (length p + length ms) c') = map Inr (p @ ms)
        \<and> fst (deliver (length p + length ms)
              (c\<lparr>c_msgs := map Inr pre @ post, c_pending := p\<rparr>)) = map Inr (p @ ms)"
  using await_collect [OF assms, where post = post and q = q and p = p]
    deliver_wire [OF assms(1), where post = post]
    deliver_pending [where p = p and n = "length ms" and q = post and p' = ms and c = c1]
    deliver_pending [where p = p and n = "length ms" and q = "map Inr pre @ post"
        and p' = "[]" and c = c]
    deliver_pending [where p = ms and n = 0 and q = post and p' = "[]" and c = c1]
  by (simp add: with_queues_def)

definition sample_client :: client where
  "sample_client = \<lparr>c_msgs = [], c_fds = [], c_faults = [], c_sent = [],
     c_caps = \<lparr>cap_query = True, cap_control = True, cap_input = False, cap_session = False,
               cap_interaction_domain = False\<rparr>,
     c_lease = None, c_version = 29, c_pending = []\<rparr>"

theorem waiting_keeps_stream_order_witness:
  "case await_reply ''StreamOutputStopped''
      (map Inr [Msg_Event (Event_StreamGeometryChanged 7 640 480),
                Msg_Response (Resp_StreamBufferReleased 7 0),
                Msg_Event (Event_StreamEnded 7 ''gone'')]
       @ Inr (Msg_Response (Resp_StreamOutputStopped 7)) # [])
      (sample_client\<lparr>c_msgs := [], c_pending := [SM_LeaseRenewed]\<rparr>) of
    (r, c') \<Rightarrow> fst (deliver 3 c')
      = [Inr SM_LeaseRenewed, Inr (SM_GeometryChanged 7 640 480), Inr (SM_Ended 7 ''gone'')]"
proof -
  let ?pre = "[Msg_Event (Event_StreamGeometryChanged 7 640 480),
                Msg_Response (Resp_StreamBufferReleased 7 0),
                Msg_Event (Event_StreamEnded 7 ''gone'')]"
  have 1: "collect_events ?pre sample_client
      = (Inr [SM_GeometryChanged 7 640 480, SM_Ended 7 ''gone''], sample_client)" by simp
  have 2: "\<forall>u \<in> set ?pre. tag_of u \<noteq> Some ''StreamOutputStopped''" by simp
  have 3: "tag_of (Msg_Response (Resp_StreamOutputStopped 7)) = Some ''StreamOutputStopped''" by simp
  from waiting_keeps_stream_order [OF 1 2 3, where post = "[]" and q = "[]"
      and p = "[SM_LeaseRenewed]"]
  show ?thesis by (simp add: numeral_3_eq_3)
qed

section \<open>Starting a stream\<close>

text \<open>C21: a stream starts fail-closed and within the negotiated protocol. A connector-named
  target on a connection older than protocol 29 is refused before anything is written.
  A start that succeeds wrote one start request, whose slot opt-in is present only from
  protocol 25 and whose cursor mode only from protocol 29; a slot table comes only with a
  dmabuf format, and every slot's descriptor is at least as long as its announced size.\<close>

theorem start_is_fail_closed:
  "case start_output_stream fps target dmabuf cursor c of
     (Inl e, c') \<Rightarrow>
       if c_version c < 29 \<and> (\<exists>name. target = Target_Output (Some name))
       then e = Io_Unsupported \<and> c' = c else True
   | (Inr s, c') \<Rightarrow>
       \<not> (c_version c < 29 \<and> (\<exists>name. target = Target_Output (Some name)))
       \<and> c_sent c' = c_sent c @ [Req_StreamOutputStart fps target
            (if dmabuf \<and> 25 \<le> c_version c then Some True else None)
            (if 29 \<le> c_version c then cursor else None)]
       \<and> (case st_slots s of None \<Rightarrow> True
          | Some table \<Rightarrow> (\<exists>drm m. st_format s = Wire_Dmabuf drm m)
              \<and> (\<forall>x \<in> set table. \<exists>len. fd_len (ss_file x) = Inr len \<and> ss_byte_len x \<le> len))"
proof (cases "start_output_stream fps target dmabuf cursor c")
  case (Pair r c')
  show ?thesis
  proof (cases r)
    case (Inl e)
    with Pair show ?thesis by (auto simp: start_output_stream_def Let_def)
  next
    case (Inr s)
    with Pair have ok: "start_output_stream fps target dmabuf cursor c = (Inr s, c')" by simp
    have slots: "case st_slots s of None \<Rightarrow> True
          | Some table \<Rightarrow> (\<exists>drm m. st_format s = Wire_Dmabuf drm m)
              \<and> (\<forall>x \<in> set table. \<exists>len. fd_len (ss_file x) = Inr len \<and> ss_byte_len x \<le> len)"
      using link.start_slots [OF ok] by (fastforce split: option.splits)
    from ok show ?thesis
      by (rule start_output_stream_Inr) (use ok slots in auto)
  qed
qed

theorem start_is_fail_closed_witness:
  "fst (start_output_stream (Some 60) (Target_Output (Some ''DP-1'')) True None
      (sample_client\<lparr>c_version := 28\<rparr>)) = Inl Io_Unsupported"
proof -
  obtain r c' where s: "start_output_stream (Some 60) (Target_Output (Some ''DP-1'')) True None
      (sample_client\<lparr>c_version := 28\<rparr>) = (r, c')" by fastforce
  from start_is_fail_closed [where fps = "Some 60" and target = "Target_Output (Some ''DP-1'')"
      and dmabuf = True and cursor = None and c = "sample_client\<lparr>c_version := 28\<rparr>"] s
  show ?thesis by (cases r) simp_all
qed

end
