(* ===== verification/Ipc_Blob.thy ===== *)
theory Ipc_Blob
  imports Ipc_Client
begin

text \<open>
  The sending half of \<open>crates/atrium-portal-ipc/src/blob.rs\<close>: a payload sealed in a memfd and its
  descriptor behind the marker byte. The kernel's faults are parameters; the control buffer always has
  room for one header, so its absence is not a branch.
\<close>

record memfd_env =
  me_create :: "io_error option"
  me_write :: "io_error option"
  me_seek :: "io_error option"
  me_seal :: "io_error option"

record sealed_blob =
  sb_file :: file_desc
  sb_len :: u64

text \<open>\<open>u64::try_from(bytes.len())\<close> cannot fail on a length that fits a 64-bit word.\<close>

definition sealed_blob_new :: "memfd_env \<Rightarrow> u8 list \<Rightarrow> io_error + sealed_blob" where
  "sealed_blob_new env bytes =
     (if 2 ^ 64 \<le> length bytes then Inl Io_InvalidInput
      else let len = of_nat (length bytes) in
        then_check (validate_len len)
          (case (me_create env, me_write env, me_seek env, me_seal env) of
             (None, None, None, None) \<Rightarrow>
               Inr \<lparr>sb_file = \<lparr>fd_regular = True, fd_len = Inr len, fd_seals = Some REQUIRED_SEALS,
                               fd_seek = None, fd_mappable = True, fd_bytes = bytes\<rparr>,
                    sb_len = len\<rparr>
           | (Some e, _, _, _) \<Rightarrow> Inl e
           | (None, Some e, _, _) \<Rightarrow> Inl e
           | (None, None, Some e, _) \<Rightarrow> Inl e
           | (None, None, None, Some e) \<Rightarrow> Inl e))"

text \<open>
  \<open>sendmsg\<close> with one marker byte and one descriptor: the bytes sent, or a fault. The peer's next
  \<open>recvmsg\<close> then returns the marker and the descriptor.
\<close>

definition send_fd :: "io_error + nat \<Rightarrow> file_desc \<Rightarrow> (io_error + recv_result) list
     \<Rightarrow> (io_error + unit) \<times> (io_error + recv_result) list" where
  "send_fd sent f wire =
     (case sent of
        Inl e \<Rightarrow> (Inl e, wire)
      | Inr n \<Rightarrow>
          (if n = 1
           then (Inr (), wire @ [Inr \<lparr>rv_received = 1, rv_marker = BLOB_MARKER, rv_ctrunc = False, rv_fd = Some f\<rparr>])
           else (Inl Io_WriteZero, wire)))"

definition send_blob :: "io_error + nat \<Rightarrow> sealed_blob \<Rightarrow> (io_error + recv_result) list
     \<Rightarrow> (io_error + unit) \<times> (io_error + recv_result) list" where
  "send_blob sent b wire = send_fd sent (sb_file b) wire"

text \<open>What is sealed and sent behind other descriptors is received, byte for byte.\<close>

lemma sealed_blob_new_Inr:
  "sealed_blob_new env bytes = Inr b \<Longrightarrow>
   sb_len b = of_nat (length bytes) \<and> length bytes < 2 ^ 64 \<and> validate_len (sb_len b) = Inr ()
   \<and> sb_file b = \<lparr>fd_regular = True, fd_len = Inr (sb_len b), fd_seals = Some REQUIRED_SEALS,
                   fd_seek = None, fd_mappable = True, fd_bytes = bytes\<rparr>"
  by (auto simp: sealed_blob_new_def Let_def validate_len_def split: if_splits option.splits)

lemma blob_round_trip:
  assumes new: "sealed_blob_new env bytes = Inr b"
    and send: "send_blob (Inr 1) b [] = (Inr (), wire)"
  shows "receive_blob (sb_len b) (c\<lparr>c_fds := wire @ rest\<rparr>) = (Inr bytes, c\<lparr>c_fds := rest\<rparr>)"
proof -
  from sealed_blob_new_Inr [OF new] have len: "sb_len b = of_nat (length bytes)" "length bytes < 2 ^ 64"
    and ok: "validate_len (sb_len b) = Inr ()"
    and f: "sb_file b = \<lparr>fd_regular = True, fd_len = Inr (sb_len b), fd_seals = Some REQUIRED_SEALS,
      fd_seek = None, fd_mappable = True, fd_bytes = bytes\<rparr>"
    by blast+
  have wire: "wire = [Inr \<lparr>rv_received = 1, rv_marker = BLOB_MARKER, rv_ctrunc = False, rv_fd = Some (sb_file b)\<rparr>]"
    using send by (simp add: send_blob_def send_fd_def)
  have "receive_fd (c\<lparr>c_fds := wire @ rest\<rparr>) = (Inr (sb_file b), c\<lparr>c_fds := rest\<rparr>)"
    by (simp add: wire receive_fd_def)
  then have "receive_memfd_file (sb_len b) (c\<lparr>c_fds := wire @ rest\<rparr>) = (Inr (sb_file b), c\<lparr>c_fds := rest\<rparr>)"
    using ok f by (simp add: receive_memfd_file_def receive_validated_fd_def fully_sealed_def seek_start_def)
  moreover have "unat (sb_len b) = length bytes"
    using len by (simp add: unsigned_of_nat take_bit_nat_eq_self)
  ultimately show ?thesis using f by (simp add: receive_blob_def)
qed

end
