(* ===== verification/Ipc_Server.thy ===== *)
theory Ipc_Server
  imports Ipc_Blob
begin

text \<open>
  The independent compositor server the integration tests run the portal against,
  \<open>crates/atrium-portal-ipc/src/testing.rs\<close>: one thread per connection that answers requests
  through a \<open>Handler\<close>, and the delivery lanes over which frames are pushed. The handler's state is a
  type parameter. A writer holds what was written to its connection; the faults of the socket and of
  memfds are parameters. A failed write is taken to leave nothing readable behind.
\<close>

section \<open>Payloads and the handler\<close>

record capture_payload =
  cy_width :: u32
  cy_height :: u32
  cy_png :: "u8 list"

record slot_info =
  sl_fd :: file_desc
  sl_stride :: u32
  sl_byte_len :: u64

record stream_info =
  si_stream_id :: u64
  si_width :: u32
  si_height :: u32
  si_format :: stream_pixel_format
  si_slots :: "slot_info list option"

text \<open>What the two frame payloads share; the first has its pixels, the second a length.\<close>

record frame_header =
  fh_stream_id :: u64
  fh_sequence :: u64
  fh_width :: u32
  fh_height :: u32
  fh_stride :: u32
  fh_format :: stream_pixel_format
  fh_damage :: "rect list"
  fh_dropped :: u64

record frame_payload = frame_header +
  fp_pixels :: "u8 list"

record frame_fd_payload = frame_header +
  ff_byte_len :: u64

text \<open>Every method may change the state behind its shared reference.\<close>

record 'h handler =
  hd_settings :: "'h \<Rightarrow> desktop_preferences \<times> 'h"
  hd_capture_output :: "rect option \<Rightarrow> 'h \<Rightarrow> (string + capture_payload) \<times> 'h"
  hd_enumerate_outputs :: "'h \<Rightarrow> (string + output_info list) \<times> 'h"
  hd_pick_target :: "u64 \<Rightarrow> pick_kind \<Rightarrow> 'h \<Rightarrow> (string + pick_result) \<times> 'h"
  hd_pick_confirm :: "u64 \<Rightarrow> string \<Rightarrow> string \<Rightarrow> string option \<Rightarrow> 'h \<Rightarrow> (string + confirm_pick_result) \<times> 'h"
  hd_stream_start :: "u64 \<Rightarrow> u32 option \<Rightarrow> stream_target \<Rightarrow> bool option \<Rightarrow> stream_cursor_mode option \<Rightarrow> 'h
     \<Rightarrow> (string + stream_info) \<times> 'h"
  hd_frames_before :: "u64 \<Rightarrow> 'h \<Rightarrow> frame_payload list \<times> 'h"
  hd_stream_stop :: "u64 \<Rightarrow> 'h \<Rightarrow> 'h"
  hd_buffer_release :: "u64 \<Rightarrow> u32 \<Rightarrow> 'h \<Rightarrow> 'h"
  hd_grant_lease :: "'h \<Rightarrow> bool \<times> 'h"
  hd_known_scopes :: "string list"
  hd_session_active :: "'h \<Rightarrow> bool \<times> 'h"
  hd_set_wallpaper :: "u64 \<Rightarrow> string \<Rightarrow> 'h \<Rightarrow> (string + unit) \<times> 'h"
  hd_disconnected :: "u64 \<Rightarrow> 'h \<Rightarrow> 'h"

text \<open>The trait's provided methods; \<open>SettingsSnapshot::default()\<close> is an argument.\<close>

definition default_handler :: "desktop_preferences \<Rightarrow> 'h handler" where
  "default_handler preferences =
     \<lparr>hd_settings = Pair preferences,
      hd_capture_output = (\<lambda>_. Pair (Inl ''capture is not implemented by this test server'')),
      hd_enumerate_outputs = Pair (Inl ''output enumeration is not implemented by this test server''),
      hd_pick_target = (\<lambda>_ _. Pair (Inl ''target picking is not implemented by this test server'')),
      hd_pick_confirm = (\<lambda>_ _ _ _. Pair (Inl ''confirmation is not implemented by this test server'')),
      hd_stream_start = (\<lambda>_ _ _ _ _. Pair (Inl ''streaming is not implemented by this test server'')),
      hd_frames_before = (\<lambda>_. Pair []),
      hd_stream_stop = (\<lambda>_ h. h),
      hd_buffer_release = (\<lambda>_ _ h. h),
      hd_grant_lease = Pair True,
      hd_known_scopes = [],
      hd_session_active = Pair True,
      hd_set_wallpaper = (\<lambda>_ _. Pair (Inl ''wallpaper is not implemented by this test server'')),
      hd_disconnected = (\<lambda>_ h. h)\<rparr>"

section \<open>Writers\<close>

datatype wire_out = Out_Msg wire_msg | Out_Fd "io_error + recv_result"

text \<open>The clock counts the attempted writes; the fault of each is given.\<close>

record writer =
  wr_out :: "wire_out list"
  wr_clock :: nat
  wr_write :: "nat \<Rightarrow> io_error option"
  wr_send :: "nat \<Rightarrow> io_error + nat"

type_synonym write_op = "writer \<Rightarrow> (io_error + unit) \<times> writer"

definition put_msg :: "wire_msg \<Rightarrow> write_op" where
  "put_msg m w =
     (let w1 = w\<lparr>wr_clock := Suc (wr_clock w)\<rparr> in
      case wr_write w (wr_clock w) of
        Some e \<Rightarrow> (Inl e, w1)
      | None \<Rightarrow> (Inr (), w1\<lparr>wr_out := wr_out w @ [Out_Msg m]\<rparr>))"

definition put_fd :: "file_desc \<Rightarrow> write_op" where
  "put_fd f w =
     (case send_fd (wr_send w (wr_clock w)) f [] of
        (r, q) \<Rightarrow> (r, w\<lparr>wr_clock := Suc (wr_clock w), wr_out := wr_out w @ map Out_Fd q\<rparr>))"

text \<open>\<open>and_then\<close> on the writer's results.\<close>

definition then_write :: "write_op \<Rightarrow> write_op \<Rightarrow> write_op" where
  "then_write f g w = (case f w of (Inl e, w1) \<Rightarrow> (Inl e, w1) | (Inr _, w1) \<Rightarrow> g w1)"

fun write_all :: "write_op list \<Rightarrow> write_op" where
  "write_all [] w = (Inr (), w)"
| "write_all (f # fs) w = then_write f (write_all fs) w"

definition frame_event :: "'a frame_header_scheme \<Rightarrow> u64 \<Rightarrow> u32 option \<Rightarrow> wire_msg" where
  "frame_event f byte_len slot =
     Msg_Event (Event_StreamFrame (fh_stream_id f) (fh_sequence f) (fh_width f) (fh_height f) (fh_stride f)
       (fh_format f) (fh_damage f) (fh_dropped f) byte_len slot)"

text \<open>A frame whose pixels travel in a sealed memfd.\<close>

definition write_frame :: "memfd_env \<Rightarrow> frame_payload \<Rightarrow> write_op" where
  "write_frame env f w =
     (case sealed_blob_new env (fp_pixels f) of
        Inl e \<Rightarrow> (Inl e, w)
      | Inr blob \<Rightarrow> then_write (put_msg (frame_event f (sb_len blob) None)) (put_fd (sb_file blob)) w)"

section \<open>The server\<close>

text \<open>The state of one connection's thread.\<close>

record conn =
  cn_shaken :: bool
  cn_granted :: connection_capabilities
  cn_lease :: bool
  cn_scope :: "string option"

definition conn_new :: conn where
  "conn_new =
     \<lparr>cn_shaken = False,
      cn_granted = \<lparr>cap_query = True, cap_control = False, cap_input = False, cap_session = False,
                    cap_interaction_domain = False\<rparr>,
      cn_lease = False, cn_scope = None\<rparr>"

text \<open>
  A lane leads from a stream to the connection that owns it; the writer of a lane is its owner's.
  \<open>sv_exact\<close> is the version a legacy server insists on.
\<close>

record 'h server =
  sv_handler :: "'h handler"
  sv_state :: 'h
  sv_exact :: "u32 option"
  sv_next :: u64
  sv_lanes :: "(u64 \<times> u64) list"
  sv_conns :: "(u64 \<times> conn) list"
  sv_writers :: "u64 \<Rightarrow> writer"
  sv_memfd :: memfd_env
  sv_stop :: bool

definition server_new :: "'h handler \<Rightarrow> 'h \<Rightarrow> u32 option \<Rightarrow> (u64 \<Rightarrow> writer) \<Rightarrow> memfd_env \<Rightarrow> 'h server" where
  "server_new handler h exact writers memfd =
     \<lparr>sv_handler = handler, sv_state = h, sv_exact = exact, sv_next = 1, sv_lanes = [], sv_conns = [],
      sv_writers = writers, sv_memfd = memfd, sv_stop = False\<rparr>"

text \<open>The calls of \<open>start_inner\<close> that can fail, with whether the path has a parent and exists.\<close>

record start_env =
  se_parent :: bool
  se_create_dir :: "io_error option"
  se_exists :: bool
  se_remove :: "io_error option"
  se_bind :: "io_error option"
  se_nonblocking :: "io_error option"
  se_spawn :: "io_error option"

definition start_inner ::
  "start_env \<Rightarrow> 'h handler \<Rightarrow> 'h \<Rightarrow> u32 option \<Rightarrow> (u64 \<Rightarrow> writer) \<Rightarrow> memfd_env \<Rightarrow> io_error + 'h server" where
  "start_inner env handler h exact writers memfd =
     (case [e. Some e \<leftarrow> [if se_parent env then se_create_dir env else None,
                        if se_exists env then se_remove env else None,
                        se_bind env, se_nonblocking env, se_spawn env]] of
        e # _ \<Rightarrow> Inl e
      | [] \<Rightarrow> Inr (server_new handler h exact writers memfd))"

definition start :: "start_env \<Rightarrow> 'h handler \<Rightarrow> 'h \<Rightarrow> (u64 \<Rightarrow> writer) \<Rightarrow> memfd_env \<Rightarrow> io_error + 'h server" where
  "start env handler h = start_inner env handler h None"

definition start_legacy ::
  "start_env \<Rightarrow> 'h handler \<Rightarrow> 'h \<Rightarrow> u32 \<Rightarrow> (u64 \<Rightarrow> writer) \<Rightarrow> memfd_env \<Rightarrow> io_error + 'h server" where
  "start_legacy env handler h version = start_inner env handler h (Some version)"

definition on_writer :: "u64 \<Rightarrow> write_op \<Rightarrow> 'h server \<Rightarrow> (io_error + unit) \<times> 'h server" where
  "on_writer c f s =
     (case f (sv_writers s c) of (r, w) \<Rightarrow> (r, s\<lparr>sv_writers := (sv_writers s)(c := w)\<rparr>))"

definition send :: "u64 \<Rightarrow> response \<Rightarrow> 'h server \<Rightarrow> (io_error + unit) \<times> 'h server" where
  "send c r = on_writer c (put_msg (Msg_Response r))"

definition send_error :: "u64 \<Rightarrow> string \<Rightarrow> 'h server \<Rightarrow> (io_error + unit) \<times> 'h server" where
  "send_error c message = send c (Resp_Error message)"

text \<open>A call into the handler, and what a result of it is answered with.\<close>

definition call :: "('h \<Rightarrow> 'a \<times> 'h) \<Rightarrow> 'h server \<Rightarrow> 'a \<times> 'h server" where
  "call f s = (case f (sv_state s) of (r, h) \<Rightarrow> (r, s\<lparr>sv_state := h\<rparr>))"

definition answer ::
  "u64 \<Rightarrow> ('h \<Rightarrow> (string + 'a) \<times> 'h) \<Rightarrow> ('a \<Rightarrow> response) \<Rightarrow> 'h server \<Rightarrow> (io_error + unit) \<times> 'h server" where
  "answer c f reply s =
     (case call f s of
        (Inl message, s1) \<Rightarrow> send_error c message s1
      | (Inr x, s1) \<Rightarrow> send c (reply x) s1)"

section \<open>Pushing\<close>

datatype push =
    Push_Frame frame_payload
  | Push_Slot frame_fd_payload u32
  | Push_Fd frame_fd_payload file_desc
  | Push_Geometry u64 u32 u32

fun push_stream :: "push \<Rightarrow> u64" where
  "push_stream (Push_Frame f) = fh_stream_id f"
| "push_stream (Push_Slot f _) = fh_stream_id f"
| "push_stream (Push_Fd f _) = fh_stream_id f"
| "push_stream (Push_Geometry sid _ _) = sid"

fun push_op :: "memfd_env \<Rightarrow> push \<Rightarrow> write_op" where
  "push_op env (Push_Frame f) = write_frame env f"
| "push_op env (Push_Slot f slot) = put_msg (frame_event f (ff_byte_len f) (Some slot))"
| "push_op env (Push_Fd f fd) = then_write (put_msg (frame_event f (ff_byte_len f) None)) (put_fd fd)"
| "push_op env (Push_Geometry sid width height) = put_msg (Msg_Event (Event_StreamGeometryChanged sid width height))"

definition push_event :: "push \<Rightarrow> 'h server \<Rightarrow> bool \<times> 'h server" where
  "push_event p s =
     (case map_of (sv_lanes s) (push_stream p) of
        None \<Rightarrow> (False, s)
      | Some c \<Rightarrow> (case on_writer c (push_op (sv_memfd s) p) s of (r, s1) \<Rightarrow> (is_ok r, s1)))"

section \<open>Requests\<close>

definition serve_hello ::
  "u64 \<Rightarrow> conn \<Rightarrow> u32 \<Rightarrow> connection_capabilities \<Rightarrow> string option \<Rightarrow> lease_request option \<Rightarrow> 'h server
     \<Rightarrow> (io_error + unit) \<times> 'h server" where
  "serve_hello c cn version caps scope lease s =
     (if \<not> (case sv_exact s of Some exact \<Rightarrow> version = exact | None \<Rightarrow> version \<le> PROTOCOL_VERSION)
      then send_error c (''unsupported protocol version '' @ dec_nat (unat version)) s
      else if case scope of None \<Rightarrow> False
              | Some name \<Rightarrow> name \<noteq> LOCAL_PORTAL_SCOPE \<and> name \<notin> set (hd_known_scopes (sv_handler s))
      then send_error c ''unknown test scope'' s
      else
        let granted = caps\<lparr>cap_query := True\<rparr> in
        case call (hd_grant_lease (sv_handler s)) s of (policy, s1) \<Rightarrow>
        let grant = (if policy
                     then map_option (\<lambda>r. \<lparr>lg_id = c, lg_ttl_ms = lr_ttl_ms r, lg_renewable = True\<rparr>) lease
                     else None);
            cn1 = cn\<lparr>cn_shaken := True, cn_granted := granted, cn_lease := grant \<noteq> None, cn_scope := scope\<rparr>
        in send c (Resp_Hello (min version PROTOCOL_VERSION) granted grant)
             (s1\<lparr>sv_conns := AList.update c cn1 (sv_conns s1)\<rparr>))"

definition serve_capture :: "u64 \<Rightarrow> rect option \<Rightarrow> 'h server \<Rightarrow> (io_error + unit) \<times> 'h server" where
  "serve_capture c region s =
     (case call (hd_capture_output (sv_handler s) region) s of
        (Inl message, s1) \<Rightarrow> send_error c message s1
      | (Inr capture, s1) \<Rightarrow>
          (case sealed_blob_new (sv_memfd s1) (cy_png capture) of
             Inl e \<Rightarrow> (Inl e, s1)
           | Inr blob \<Rightarrow>
               on_writer c
                 (then_write
                   (put_msg (Msg_Response (Resp_CaptureOutput (cy_width capture) (cy_height capture) (sb_len blob))))
                   (put_fd (sb_file blob))) s1))"

text \<open>The slot count, stride and length of the reply: those of the first slot.\<close>

fun slot_table :: "slot_info list option \<Rightarrow> u32 option \<times> u32 option \<times> u64 option" where
  "slot_table (Some (t # ts)) = (Some (of_nat (length (t # ts))), Some (sl_stride t), Some (sl_byte_len t))"
| "slot_table _ = (None, None, None)"

definition start_writes :: "memfd_env \<Rightarrow> frame_payload list \<Rightarrow> stream_info \<Rightarrow> write_op" where
  "start_writes env frames info =
     (case slot_table (si_slots info) of (slots, stride, byte_len) \<Rightarrow>
        then_write (write_all (map (write_frame env) frames))
          (then_write
            (put_msg (Msg_Response (Resp_StreamOutputStarted (si_stream_id info) (si_width info) (si_height info)
                (si_format info) slots stride byte_len)))
            (write_all (map (put_fd \<circ> sl_fd) (case si_slots info of None \<Rightarrow> [] | Some table \<Rightarrow> table)))))"

text \<open>
  The lane is there before the writer is locked: \<open>raced\<close> are the pushes of other threads that take
  the writer in between.
\<close>

definition serve_start ::
  "u64 \<Rightarrow> u32 option \<Rightarrow> stream_target \<Rightarrow> bool option \<Rightarrow> stream_cursor_mode option \<Rightarrow> push list \<Rightarrow> 'h server
     \<Rightarrow> (io_error + unit) \<times> 'h server" where
  "serve_start c max_fps target dmabuf cursor raced s =
     (case call (hd_stream_start (sv_handler s) c max_fps target dmabuf cursor) s of
        (Inl message, s1) \<Rightarrow> send_error c message s1
      | (Inr info, s1) \<Rightarrow>
          let s2 = fold (\<lambda>p. snd \<circ> push_event p) raced
                     (s1\<lparr>sv_lanes := AList.update (si_stream_id info) c (sv_lanes s1)\<rparr>)
          in case call (hd_frames_before (sv_handler s2) (si_stream_id info)) s2 of (frames, s3) \<Rightarrow>
             (case on_writer c (start_writes (sv_memfd s3) frames info) s3 of
                (Inl e, s4) \<Rightarrow> (Inl e, s4\<lparr>sv_lanes := AList.delete (si_stream_id info) (sv_lanes s4)\<rparr>)
              | (Inr _, s4) \<Rightarrow> (Inr (), s4)))"

definition serve_wallpaper :: "u64 \<Rightarrow> conn \<Rightarrow> string \<Rightarrow> 'h server \<Rightarrow> (io_error + unit) \<times> 'h server" where
  "serve_wallpaper c cn path s =
     (if \<not> cap_control (cn_granted cn) then send_error c ''SetWallpaper requires the control capability'' s
      else if \<not> cn_lease cn then send_error c ''privileged capability lease expired'' s
      else if cn_scope cn \<noteq> Some LOCAL_PORTAL_SCOPE then send_error c ''out of scope'' s
      else if \<not> valid_wallpaper_path path
      then send_error c ''wallpaper path must be bounded, absolute, and lexically normalized'' s
      else case call (hd_session_active (sv_handler s)) s of (active, s1) \<Rightarrow>
        if \<not> active then send_error c ''session is locked or inactive'' s1
        else answer c (hd_set_wallpaper (sv_handler s1) c path) (\<lambda>_. Resp_WallpaperSet) s1)"

fun serve_request :: "u64 \<Rightarrow> conn \<Rightarrow> push list \<Rightarrow> request \<Rightarrow> 'h server \<Rightarrow> (io_error + unit) \<times> 'h server" where
  "serve_request c cn raced (Req_Hello _ _ _ _) s = send_error c ''duplicate Hello'' s"
| "serve_request c cn raced Req_GetSettings s =
     (case call (hd_settings (sv_handler s)) s of (p, s1) \<Rightarrow> send c (Resp_Settings p) s1)"
| "serve_request c cn raced Req_Subscribe s = send c Resp_Subscribed s"
| "serve_request c cn raced (Req_RenewLease ttl_ms) s =
     (if cn_lease cn
      then send c (Resp_LeaseRenewed \<lparr>lg_id = c, lg_ttl_ms = ttl_ms, lg_renewable = True\<rparr>) s
      else send_error c ''no active lease to renew'' s)"
| "serve_request c cn raced Req_EnumerateOutputs s = answer c (hd_enumerate_outputs (sv_handler s)) Resp_Outputs s"
| "serve_request c cn raced (Req_CaptureOutput region) s = serve_capture c region s"
| "serve_request c cn raced (Req_PickTarget kind) s = answer c (hd_pick_target (sv_handler s) c kind) Resp_Picked s"
| "serve_request c cn raced (Req_PickConfirm title body accept_label) s =
     answer c (hd_pick_confirm (sv_handler s) c title body accept_label) Resp_ConfirmPicked s"
| "serve_request c cn raced (Req_StreamOutputStart max_fps target dmabuf cursor) s =
     serve_start c max_fps target dmabuf cursor raced s"
| "serve_request c cn raced (Req_StreamBufferRelease sid slot) s =
     send c (Resp_StreamBufferReleased sid slot) (s\<lparr>sv_state := hd_buffer_release (sv_handler s) sid slot (sv_state s)\<rparr>)"
| "serve_request c cn raced (Req_StreamOutputStop sid) s =
     send c (Resp_StreamOutputStopped sid)
       (s\<lparr>sv_lanes := AList.delete sid (sv_lanes s), sv_state := hd_stream_stop (sv_handler s) sid (sv_state s)\<rparr>)"
| "serve_request c cn raced (Req_SetWallpaper path) s = serve_wallpaper c cn path s"

definition serve :: "u64 \<Rightarrow> conn \<Rightarrow> push list \<Rightarrow> request \<Rightarrow> 'h server \<Rightarrow> (io_error + unit) \<times> 'h server" where
  "serve c cn raced q s =
     (if cn_shaken cn then serve_request c cn raced q s
      else case q of
             Req_Hello version caps scope lease \<Rightarrow> serve_hello c cn version caps scope lease s
           | _ \<Rightarrow> send_error c ''Hello must be the first request'' s)"

section \<open>Connections\<close>

text \<open>The end of a connection's thread.\<close>

definition end_connection :: "u64 \<Rightarrow> 'h server \<Rightarrow> 'h server" where
  "end_connection c s =
     s\<lparr>sv_conns := AList.delete c (sv_conns s),
       sv_lanes := filter (\<lambda>(sid, owner). owner \<noteq> c) (sv_lanes s),
       sv_state := hd_disconnected (sv_handler s) c (sv_state s)\<rparr>"

text \<open>
  A connection whose thread cannot be spawned, or cannot clone its socket, only uses up a number.
  A listener that fails accepts no more. Dropping the server shuts every socket down, so that every thread's next read fails.
\<close>

definition accept :: "bool \<Rightarrow> 'h server \<Rightarrow> 'h server" where
  "accept ok s =
     (let s1 = s\<lparr>sv_next := sv_next s + 1\<rparr>
      in if ok then s1\<lparr>sv_conns := AList.update (sv_next s) conn_new (sv_conns s)\<rparr> else s1)"

definition drop_server :: "'h server \<Rightarrow> 'h server" where
  "drop_server s = (fold (end_connection \<circ> fst) (sv_conns s) s)\<lparr>sv_stop := True\<rparr>"

datatype server_event =
    Ev_Accept bool
  | Ev_Listen_Error
  | Ev_Request u64 request "push list"
  | Ev_Read_Error u64
  | Ev_Push push
  | Ev_Drop

fun server_step :: "server_event \<Rightarrow> 'h server \<Rightarrow> 'h server" where
  "server_step (Ev_Accept ok) s =
     (if sv_stop s then s else accept ok s)"
| "server_step Ev_Listen_Error s = s\<lparr>sv_stop := True\<rparr>"
| "server_step (Ev_Request c q raced) s =
     (case map_of (sv_conns s) c of
        None \<Rightarrow> s
      | Some cn \<Rightarrow>
          (case serve c cn raced q s of
             (Inl _, s1) \<Rightarrow> end_connection c s1
           | (Inr _, s1) \<Rightarrow> s1))"
| "server_step (Ev_Read_Error c) s = (if map_of (sv_conns s) c = None then s else end_connection c s)"
| "server_step (Ev_Push p) s = snd (push_event p s)"
| "server_step Ev_Drop s = drop_server s"

section \<open>What is written\<close>

fun reply_of :: "wire_out \<Rightarrow> response option" where
  "reply_of (Out_Msg (Msg_Response r)) = Some r"
| "reply_of _ = None"

definition replies :: "wire_out list \<Rightarrow> response list" where
  "replies out = List.map_filter reply_of out"

lemma replies_simps [simp]:
  "replies [] = []" "replies (a @ b) = replies a @ replies b" "replies (map Out_Fd q) = []"
  "replies (Out_Msg (Msg_Response r) # out) = r # replies out"
  "replies (Out_Msg (Msg_Event e) # out) = replies out"
  by (simp_all add: replies_def map_filter_def filter_empty_conv)

text \<open>
  A write appends to what was written; when it succeeds its replies are \<open>rs\<close>, and when it fails some
  of them.
\<close>

definition writes :: "write_op \<Rightarrow> response list \<Rightarrow> bool" where
  "writes f rs \<longleftrightarrow>
     (\<forall>w. \<exists>new. wr_out (snd (f w)) = wr_out w @ new
        \<and> wr_write (snd (f w)) = wr_write w \<and> wr_send (snd (f w)) = wr_send w
        \<and> (if is_ok (fst (f w)) then replies new = rs else set (replies new) \<subseteq> set rs))"

lemma writesE:
  assumes "writes f rs" and "f w = (r, w')"
  obtains new where "wr_out w' = wr_out w @ new" "wr_write w' = wr_write w" "wr_send w' = wr_send w"
    "is_ok r \<longrightarrow> replies new = rs" "set (replies new) \<subseteq> set rs"
  using assms unfolding writes_def by (metis fst_conv snd_conv order_refl)

lemma writes_put_msg:
  "writes (put_msg (Msg_Response r)) [r]" "writes (put_msg (Msg_Event e)) []" "writes (put_msg (frame_event f n slot)) []"
  by (auto simp: writes_def put_msg_def Let_def frame_event_def split: option.split)

lemma writes_put_fd: "writes (put_fd f) []"
  by (auto simp: writes_def put_fd_def split: prod.split)

lemma writes_then:
  assumes "writes f a" and "writes g b"
  shows "writes (then_write f g) (a @ b)"
  unfolding writes_def
proof
  fix w
  obtain r w1 where f: "f w = (r, w1)" by fastforce
  from assms(1) f obtain n1 where n1: "wr_out w1 = wr_out w @ n1" "wr_write w1 = wr_write w"
    "wr_send w1 = wr_send w" "is_ok r \<longrightarrow> replies n1 = a" "set (replies n1) \<subseteq> set a"
    by (rule writesE)
  obtain q w2 where g: "g w1 = (q, w2)" by fastforce
  from assms(2) g obtain n2 where n2: "wr_out w2 = wr_out w1 @ n2" "wr_write w2 = wr_write w1"
    "wr_send w2 = wr_send w1" "is_ok q \<longrightarrow> replies n2 = b" "set (replies n2) \<subseteq> set b"
    by (rule writesE)
  show "\<exists>new. wr_out (snd (then_write f g w)) = wr_out w @ new
      \<and> wr_write (snd (then_write f g w)) = wr_write w \<and> wr_send (snd (then_write f g w)) = wr_send w
      \<and> (if is_ok (fst (then_write f g w)) then replies new = a @ b else set (replies new) \<subseteq> set (a @ b))"
  proof (cases r)
    case (Inl e)
    with f n1 show ?thesis by (auto simp: then_write_def)
  next
    case (Inr u)
    with f g n1 n2 show ?thesis by (auto simp: then_write_def intro!: exI [of _ "n1 @ n2"])
  qed
qed

lemma writes_all: "(\<And>f. f \<in> set fs \<Longrightarrow> writes f []) \<Longrightarrow> writes (write_all fs) []"
proof (induction fs)
  case (Cons f fs)
  then have "writes (then_write f (write_all fs)) ([] @ [])" by (intro writes_then) simp_all
  then show ?case by (simp add: writes_def)
qed (simp add: writes_def)

lemma writes_frame: "writes (write_frame env f) []"
proof (cases "sealed_blob_new env (fp_pixels f)")
  case (Inl e)
  then show ?thesis by (simp add: writes_def write_frame_def)
next
  case (Inr blob)
  then have "write_frame env f = then_write (put_msg (frame_event f (sb_len blob) None)) (put_fd (sb_file blob))"
    by (simp add: fun_eq_iff write_frame_def)
  then show ?thesis using writes_then [OF writes_put_msg(3) writes_put_fd] by simp
qed

lemma writes_push: "writes (push_op env p) []"
  by (cases p) (use writes_then [OF writes_put_msg(3) writes_put_fd] in \<open>auto intro: writes_frame writes_put_msg\<close>)

lemma writes_start: "\<exists>r. writes (start_writes env frames info) [r] \<and> r \<noteq> Resp_WallpaperSet"
proof -
  obtain a b n where t: "slot_table (si_slots info) = (a, b, n)" by (cases "slot_table (si_slots info)")
  let ?x = "Resp_StreamOutputStarted (si_stream_id info) (si_width info) (si_height info) (si_format info) a b n"
  have "writes (write_all (map (write_frame env) frames)) []"
    by (rule writes_all) (auto intro: writes_frame)
  moreover have "writes (write_all (map (put_fd \<circ> sl_fd) table)) []" for table
    by (rule writes_all) (auto intro: writes_put_fd)
  ultimately have "writes (start_writes env frames info) ([] @ [?x] @ [])"
    unfolding start_writes_def t prod.case by (intro writes_then writes_put_msg(1))
  then show ?thesis by (intro exI [of _ ?x]) simp
qed

lemmas writes_intros = writes_put_msg writes_put_fd writes_then writes_frame writes_push

section \<open>What a request changes\<close>

lemma on_writer_sel [frame_simps]:
  "sv_handler (snd (on_writer c f s)) = sv_handler s" "sv_state (snd (on_writer c f s)) = sv_state s"
  "sv_exact (snd (on_writer c f s)) = sv_exact s" "sv_next (snd (on_writer c f s)) = sv_next s"
  "sv_lanes (snd (on_writer c f s)) = sv_lanes s" "sv_conns (snd (on_writer c f s)) = sv_conns s"
  "sv_memfd (snd (on_writer c f s)) = sv_memfd s" "sv_stop (snd (on_writer c f s)) = sv_stop s"
  "c' \<noteq> c \<Longrightarrow> sv_writers (snd (on_writer c f s)) c' = sv_writers s c'"
  by (simp_all add: on_writer_def split: prod.split)

lemma call_sel [frame_simps]:
  "sv_handler (snd (call g s)) = sv_handler s" "sv_exact (snd (call g s)) = sv_exact s"
  "sv_next (snd (call g s)) = sv_next s" "sv_lanes (snd (call g s)) = sv_lanes s"
  "sv_conns (snd (call g s)) = sv_conns s" "sv_writers (snd (call g s)) = sv_writers s"
  "sv_memfd (snd (call g s)) = sv_memfd s" "sv_stop (snd (call g s)) = sv_stop s"
  by (simp_all add: call_def split: prod.split)

lemma push_sel [frame_simps]:
  "sv_handler (snd (push_event p s)) = sv_handler s" "sv_state (snd (push_event p s)) = sv_state s"
  "sv_exact (snd (push_event p s)) = sv_exact s" "sv_next (snd (push_event p s)) = sv_next s"
  "sv_lanes (snd (push_event p s)) = sv_lanes s" "sv_conns (snd (push_event p s)) = sv_conns s"
  "sv_memfd (snd (push_event p s)) = sv_memfd s" "sv_stop (snd (push_event p s)) = sv_stop s"
  by (simp_all add: push_event_def split_beta on_writer_sel split: option.split)

lemma pushes_sel [frame_simps]:
  "sv_next (fold (\<lambda>p. snd \<circ> push_event p) ps s) = sv_next s"
  "sv_lanes (fold (\<lambda>p. snd \<circ> push_event p) ps s) = sv_lanes s"
  "sv_conns (fold (\<lambda>p. snd \<circ> push_event p) ps s) = sv_conns s"
  by (induction ps arbitrary: s) (simp_all add: push_sel)

text \<open>What a step from \<open>s\<close> to \<open>t\<close> with result \<open>r\<close> wrote on connection \<open>c\<close>.\<close>

definition answered :: "u64 \<Rightarrow> 'h server \<Rightarrow> 'h server \<Rightarrow> io_error + unit \<Rightarrow> response list \<Rightarrow> bool" where
  "answered c s t r rs \<longleftrightarrow>
     (\<exists>new. wr_out (sv_writers t c) = wr_out (sv_writers s c) @ new
        \<and> (if is_ok r then replies new = rs else set (replies new) \<subseteq> set rs))"

lemma answered_refl: "sv_writers t = sv_writers s \<Longrightarrow> answered c s t (Inr ()) []"
  by (simp add: answered_def)

lemma answered_trans:
  assumes "answered c s t (Inr ()) []" and "answered c t u r rs"
  shows "answered c s u r rs"
proof -
  from assms(1) obtain a where a: "wr_out (sv_writers t c) = wr_out (sv_writers s c) @ a" "replies a = []"
    by (auto simp: answered_def)
  from assms(2) obtain b where b: "wr_out (sv_writers u c) = wr_out (sv_writers t c) @ b"
    "if is_ok r then replies b = rs else set (replies b) \<subseteq> set rs"
    by (auto simp: answered_def)
  show ?thesis using a b unfolding answered_def by (intro exI [of _ "a @ b"]) simp
qed

lemma answered_upd [simp]:
  "answered c (s\<lparr>sv_state := h\<rparr>) t r rs = answered c s t r rs"
  "answered c (s\<lparr>sv_lanes := l\<rparr>) t r rs = answered c s t r rs"
  "answered c (s\<lparr>sv_conns := k\<rparr>) t r rs = answered c s t r rs"
  "answered c s (t\<lparr>sv_lanes := l\<rparr>) r rs = answered c s t r rs"
  by (simp_all add: answered_def)

lemma on_writer_answered:
  assumes "writes f rs" and "on_writer c f s = (r, t)"
  shows "answered c s t r rs"
proof -
  obtain w where w: "f (sv_writers s c) = (r, w)" and t: "t = s\<lparr>sv_writers := (sv_writers s)(c := w)\<rparr>"
    using assms(2) by (auto simp: on_writer_def split: prod.splits)
  from assms(1) w show ?thesis
    by (rule writesE) (auto simp: answered_def t)
qed

lemma push_answered: "answered c s (snd (push_event p s)) (Inr ()) []"
proof (cases "map_of (sv_lanes s) (push_stream p)")
  case (Some d)
  obtain r t where w: "on_writer d (push_op (sv_memfd s) p) s = (r, t)" by fastforce
  have "answered d s t r []" by (rule on_writer_answered [OF writes_push w])
  moreover have "sv_writers t c = sv_writers s c" if "c \<noteq> d"
    using on_writer_sel(9) [OF that, of "push_op (sv_memfd s) p" s] w by simp
  ultimately have "answered c s t (Inr ()) []" by (cases "c = d") (auto simp: answered_def split: if_splits)
  then show ?thesis using Some w by (simp add: push_event_def)
qed (simp add: push_event_def answered_def)

lemma pushes_answered: "answered c s (fold (\<lambda>p. snd \<circ> push_event p) ps s) (Inr ()) []"
  by (induction ps arbitrary: s) (auto simp: answered_refl intro: answered_trans push_answered)

lemma send_answered: "send c x s = (r, t) \<Longrightarrow> answered c s t r [x]"
  unfolding send_def by (rule on_writer_answered [OF writes_put_msg(1)])

lemma send_error_answered: "send_error c m s = (r, t) \<Longrightarrow> answered c s t r [Resp_Error m]"
  unfolding send_error_def by (rule send_answered)

lemma call_answered: "call g s = (x, s1) \<Longrightarrow> answered c s1 t r rs \<Longrightarrow> answered c s t r rs"
  by (auto simp: call_def split: prod.splits)

lemma answer_answered:
  assumes "answer c g reply s = (r, t)"
  shows "\<exists>x. answered c s t r [x] \<and> ((\<exists>m. x = Resp_Error m) \<or> (\<exists>y. x = reply y))"
  using assms unfolding answer_def
  by (auto split: prod.splits sum.splits dest!: send_error_answered send_answered intro: call_answered)

text \<open>The gates in front of the wallpaper.\<close>

definition wallpaper_gates :: "conn \<Rightarrow> request \<Rightarrow> 'h server \<Rightarrow> bool" where
  "wallpaper_gates cn q s \<longleftrightarrow>
     cn_shaken cn \<and> cap_control (cn_granted cn) \<and> cn_lease cn \<and> cn_scope cn = Some LOCAL_PORTAL_SCOPE
     \<and> (\<exists>path. q = Req_SetWallpaper path \<and> valid_wallpaper_path path)
     \<and> fst (hd_session_active (sv_handler s) (sv_state s))"

lemma serve_hello_answered:
  assumes "serve_hello c cn v caps scope lease s = (r, t)"
  shows "\<exists>x. answered c s t r [x] \<and> x \<noteq> Resp_WallpaperSet \<and> ((\<exists>m. x = Resp_Error m) \<or> (\<exists>v g l. x = Resp_Hello v g l))"
proof (cases "call (hd_grant_lease (sv_handler s)) s")
  case (Pair policy s1)
  have "\<exists>x. (answered c s t r [x] \<or> answered c s1 t r [x])
      \<and> x \<noteq> Resp_WallpaperSet \<and> ((\<exists>m. x = Resp_Error m) \<or> (\<exists>v g l. x = Resp_Hello v g l))"
    using assms Pair unfolding serve_hello_def Let_def
    by (simp split: if_splits) (auto dest!: send_error_answered send_answered)
  then show ?thesis using call_answered [OF Pair] by blast
qed

lemma serve_capture_answered:
  assumes "serve_capture c region s = (r, t)"
  shows "\<exists>x. answered c s t r [x] \<and> x \<noteq> Resp_WallpaperSet"
proof (cases "call (hd_capture_output (sv_handler s) region) s")
  case (Pair res s1)
  note called = call_answered [OF Pair]
  show ?thesis
  proof (cases res)
    case (Inl m)
    with assms Pair show ?thesis
      by (auto simp: serve_capture_def dest!: send_error_answered intro: called)
  next
    case (Inr cap)
    show ?thesis
    proof (cases "sealed_blob_new (sv_memfd s1) (cy_png cap)")
      case (Inl e)
      with assms Pair Inr have "r = Inl e" "t = s1" by (simp_all add: serve_capture_def)
      then have "answered c s1 t r [Resp_Subscribed]" by (simp add: answered_def)
      then show ?thesis using called by blast
    next
      case blob: (Inr blob)
      let ?x = "Resp_CaptureOutput (cy_width cap) (cy_height cap) (sb_len blob)"
      have "writes (then_write (put_msg (Msg_Response ?x)) (put_fd (sb_file blob))) [?x]"
        using writes_then [OF writes_put_msg(1) writes_put_fd] by simp
      from on_writer_answered [OF this] assms Pair Inr blob have "answered c s1 t r [?x]"
        by (simp add: serve_capture_def)
      then show ?thesis using called by blast
    qed
  qed
qed

lemma serve_start_answered:
  assumes "serve_start c fps target dmabuf cursor raced s = (r, t)"
  shows "\<exists>x. answered c s t r [x] \<and> x \<noteq> Resp_WallpaperSet"
proof (cases "call (hd_stream_start (sv_handler s) c fps target dmabuf cursor) s")
  case (Pair res s1)
  note called = call_answered [OF Pair]
  show ?thesis
  proof (cases res)
    case (Inl m)
    with assms Pair show ?thesis
      by (auto simp: serve_start_def dest!: send_error_answered intro: called)
  next
    case (Inr info)
    let ?s1 = "s1\<lparr>sv_lanes := AList.update (si_stream_id info) c (sv_lanes s1)\<rparr>"
    define s2 where "s2 = fold (\<lambda>p. snd \<circ> push_event p) raced ?s1"
    obtain frames s3 where frames: "call (hd_frames_before (sv_handler s2) (si_stream_id info)) s2 = (frames, s3)"
      by fastforce
    obtain q u where w: "on_writer c (start_writes (sv_memfd s3) frames info) s3 = (q, u)" by fastforce
    obtain x where x: "writes (start_writes (sv_memfd s3) frames info) [x]" "x \<noteq> Resp_WallpaperSet"
      using writes_start by blast
    from on_writer_answered [OF x(1) w] have "answered c s3 u q [x]" .
    then have "answered c s2 u q [x]" by (rule call_answered [OF frames])
    moreover have "answered c s1 s2 (Inr ()) []" using pushes_answered [of c ?s1 raced] by (simp add: s2_def)
    ultimately have "answered c s1 u q [x]" by (rule answered_trans [rotated])
    then have su: "answered c s u q [x]" by (rule called)
    have "r = q \<and> sv_writers t = sv_writers u"
      using assms Pair Inr frames w by (cases q) (auto simp: serve_start_def Let_def simp flip: s2_def)
    then have "answered c s t r [x]" using su by (simp add: answered_def)
    with x(2) show ?thesis by blast
  qed
qed

text \<open>One reply to each request, and the receipt of a wallpaper only through its gates.\<close>

lemma serve_request_answered:
  assumes "serve_request c cn raced q s = (r, t)" and "cn_shaken cn"
  shows "\<exists>x. answered c s t r [x] \<and> (x = Resp_WallpaperSet \<longrightarrow> wallpaper_gates cn q s)"
proof (cases q)
  case Req_GetSettings
  then show ?thesis
    using assms by (auto split: prod.splits dest!: send_answered intro: call_answered)
next
  case (Req_SetWallpaper path)
  show ?thesis
  proof (cases "cap_control (cn_granted cn) \<and> cn_lease cn \<and> cn_scope cn = Some LOCAL_PORTAL_SCOPE
      \<and> valid_wallpaper_path path")
    case False
    with assms Req_SetWallpaper show ?thesis
      by (auto simp: serve_wallpaper_def split: if_splits dest!: send_error_answered)
  next
    case True
    obtain active s1 where act: "call (hd_session_active (sv_handler s)) s = (active, s1)" by fastforce
    have gates: "active \<Longrightarrow> wallpaper_gates cn q s"
      using act True assms(2) Req_SetWallpaper by (auto simp: call_def wallpaper_gates_def split: prod.splits)
    have "\<exists>x. answered c s1 t r [x] \<and> (x = Resp_WallpaperSet \<longrightarrow> active)"
      using assms(1) Req_SetWallpaper True act
      by (cases active) (auto simp: serve_wallpaper_def dest!: send_error_answered answer_answered)
    then show ?thesis using gates call_answered [OF act] by blast
  qed
qed (use assms in \<open>auto dest!: send_answered send_error_answered answer_answered serve_capture_answered
    serve_start_answered split: if_splits\<close>)

lemma serve_answered:
  assumes "serve c cn raced q s = (r, t)"
  shows "\<exists>x. answered c s t r [x] \<and> (x = Resp_WallpaperSet \<longrightarrow> wallpaper_gates cn q s)
     \<and> (cn_shaken cn \<or> (\<exists>m. x = Resp_Error m) \<or> (\<exists>v g l. x = Resp_Hello v g l))"
proof (cases "cn_shaken cn")
  case True
  with assms serve_request_answered show ?thesis by (simp add: serve_def)
next
  case False
  show ?thesis
  proof (cases q)
    case (Req_Hello v caps scope lease)
    with False assms serve_hello_answered [of c cn v caps scope lease s r t] show ?thesis
      by (auto simp: serve_def)
  qed (use False assms in \<open>auto simp: serve_def dest!: send_error_answered\<close>)
qed

section \<open>The lanes\<close>

definition lanes_owned :: "'h server \<Rightarrow> bool" where
  "lanes_owned s \<longleftrightarrow>
     keys_distinct (sv_lanes s)
     \<and> (\<forall>(sid, c) \<in> set (sv_lanes s). \<exists>cn. map_of (sv_conns s) c = Some cn \<and> cn_shaken cn)"

lemma set_updateD: "(a, b) \<in> set (AList.update k v m) \<Longrightarrow> a = k \<and> b = v \<or> (a, b) \<in> set m"
  by (induction m) (auto split: if_splits)

lemma send_sel [frame_simps]:
  "sv_next (snd (send c x s)) = sv_next s" "sv_next (snd (send_error c m s)) = sv_next s"
  "sv_lanes (snd (send c x s)) = sv_lanes s" "sv_conns (snd (send c x s)) = sv_conns s"
  "sv_lanes (snd (send_error c m s)) = sv_lanes s" "sv_conns (snd (send_error c m s)) = sv_conns s"
  by (simp_all add: send_def send_error_def frame_simps)

lemma answer_sel [frame_simps]:
  "sv_next (snd (answer c g reply s)) = sv_next s"
  "sv_lanes (snd (answer c g reply s)) = sv_lanes s" "sv_conns (snd (answer c g reply s)) = sv_conns s"
  by (simp_all add: answer_def split_beta frame_simps split: sum.split)

lemma capture_sel [frame_simps]:
  "sv_next (snd (serve_capture c region s)) = sv_next s"
  "sv_lanes (snd (serve_capture c region s)) = sv_lanes s" "sv_conns (snd (serve_capture c region s)) = sv_conns s"
  by (simp_all add: serve_capture_def split_beta frame_simps split: sum.split)

lemma wallpaper_sel [frame_simps]:
  "sv_next (snd (serve_wallpaper c cn path s)) = sv_next s"
  "sv_lanes (snd (serve_wallpaper c cn path s)) = sv_lanes s"
  "sv_conns (snd (serve_wallpaper c cn path s)) = sv_conns s"
  by (simp_all add: serve_wallpaper_def split_beta frame_simps)

lemma start_sel:
  "sv_next (snd (serve_start c fps target dmabuf cursor raced s)) = sv_next s"
  "sv_conns (snd (serve_start c fps target dmabuf cursor raced s)) = sv_conns s"
  "sv_lanes (snd (serve_start c fps target dmabuf cursor raced s)) = sv_lanes s
   \<or> (\<exists>sid. sv_lanes (snd (serve_start c fps target dmabuf cursor raced s))
       \<in> {AList.update sid c (sv_lanes s), AList.delete sid (AList.update sid c (sv_lanes s))})"
  by (auto simp: serve_start_def Let_def split_beta frame_simps split: sum.split)

lemma serve_conns:
  "sv_conns (snd (serve c cn raced q s)) = sv_conns s
   \<or> (\<exists>cn1. cn_shaken cn1 \<and> sv_conns (snd (serve c cn raced q s)) = AList.update c cn1 (sv_conns s))"
proof (cases "cn_shaken cn")
  case True
  then show ?thesis by (cases q) (simp_all add: serve_def split_beta frame_simps start_sel)
next
  case False
  have "sv_conns (snd (serve_hello c cn v caps scope lease s)) = sv_conns s
      \<or> (\<exists>cn1. cn_shaken cn1 \<and> sv_conns (snd (serve_hello c cn v caps scope lease s)) = AList.update c cn1 (sv_conns s))"
    for v caps scope lease
    unfolding serve_hello_def Let_def
    by (simp add: split_beta frame_simps)
      (intro conjI impI; rule disjI2; rule exI; rule conjI [OF _ refl]; simp)
  with False show ?thesis by (cases q) (simp_all add: serve_def frame_simps)
qed

lemma serve_lanes:
  "sv_lanes (snd (serve c cn raced q s)) = sv_lanes s
   \<or> cn_shaken cn \<and> (\<exists>sid. sv_lanes (snd (serve c cn raced q s))
       \<in> {AList.update sid c (sv_lanes s), AList.delete sid (AList.update sid c (sv_lanes s)),
          AList.delete sid (sv_lanes s)})"
proof (cases "cn_shaken cn")
  case True
  show ?thesis
  proof (cases q)
    case (Req_StreamOutputStart fps target dmabuf cursor)
    with True start_sel(3) [of c fps target dmabuf cursor raced s] show ?thesis by (auto simp: serve_def)
  qed (use True in \<open>auto simp: serve_def split_beta frame_simps\<close>)
next
  case False
  then show ?thesis
    by (cases q) (simp_all add: serve_def serve_hello_def Let_def split_beta frame_simps)
qed

text \<open>Numbers are given out in order, and the invariant holds while there are fresh ones left.\<close>

definition server_inv :: "'h server \<Rightarrow> bool" where
  "server_inv s \<longleftrightarrow> lanes_owned s \<and> (\<forall>c \<in> fst ` set (sv_conns s). unat c < unat (sv_next s))"

definition numbers_left :: "server_event \<Rightarrow> 'h server \<Rightarrow> bool" where
  "numbers_left e s \<longleftrightarrow> Suc (unat (sv_next s)) < 2 ^ 64"

lemma lanes_owned_end: "lanes_owned s \<Longrightarrow> lanes_owned (end_connection c s)"
  by (auto simp: lanes_owned_def end_connection_def distinct_map_filter split: if_splits)

lemma server_inv_end: "server_inv s \<Longrightarrow> server_inv (end_connection c s)"
  by (auto simp: server_inv_def lanes_owned_end) (auto simp: end_connection_def AList.delete_eq)

lemma serve_next: "sv_next (snd (serve c cn raced q s)) = sv_next s"
  by (cases q) (simp_all add: serve_def serve_hello_def Let_def split_beta frame_simps start_sel)

lemma lanes_owned_mono:
  assumes "lanes_owned s" and "keys_distinct (sv_lanes t)" and "set (sv_lanes t) \<subseteq> set (sv_lanes s) \<union> UNIV \<times> {c}"
    and "\<And>d cn. map_of (sv_conns s) d = Some cn \<Longrightarrow> cn_shaken cn \<Longrightarrow> \<exists>cn'. map_of (sv_conns t) d = Some cn' \<and> cn_shaken cn'"
    and "set (sv_lanes t) \<subseteq> set (sv_lanes s) \<or> (\<exists>cn. map_of (sv_conns t) c = Some cn \<and> cn_shaken cn)"
  shows "lanes_owned t"
  using assms unfolding lanes_owned_def by fast

lemma lanes_owned_serve:
  assumes "lanes_owned s" and "map_of (sv_conns s) c = Some cn"
  shows "lanes_owned (snd (serve c cn raced q s))"
proof (rule lanes_owned_mono [OF assms(1)])
  let ?t = "snd (serve c cn raced q s)"
  have d: "keys_distinct (sv_lanes s)" using assms(1) by (simp add: lanes_owned_def)
  with serve_lanes [of c cn raced q s] show "keys_distinct (sv_lanes ?t)" by auto
  show sub: "set (sv_lanes ?t) \<subseteq> set (sv_lanes s) \<union> UNIV \<times> {c}"
    using serve_lanes [of c cn raced q s] by (auto simp: AList.delete_eq dest: set_updateD)
  show kept: "\<exists>cn'. map_of (sv_conns ?t) d = Some cn' \<and> cn_shaken cn'"
    if "map_of (sv_conns s) d = Some cn0" "cn_shaken cn0" for d cn0
    using serve_conns [of c cn raced q s] that by (auto simp: fun_upd_def)
  show "set (sv_lanes ?t) \<subseteq> set (sv_lanes s) \<or> (\<exists>cn'. map_of (sv_conns ?t) c = Some cn' \<and> cn_shaken cn')"
    using serve_lanes [of c cn raced q s] kept [OF assms(2)] by auto
qed

lemma server_inv_serve:
  assumes "server_inv s" and "map_of (sv_conns s) c = Some cn"
  shows "server_inv (snd (serve c cn raced q s))"
proof -
  have "c \<in> fst ` set (sv_conns s)" using assms(2) map_of_eq_None_iff [of "sv_conns s" c] by auto
  then have "fst ` set (sv_conns (snd (serve c cn raced q s))) \<subseteq> fst ` set (sv_conns s)"
    using serve_conns [of c cn raced q s] by (force dest: set_updateD)
  then show ?thesis
    using assms lanes_owned_serve [of s c cn raced q] by (fastforce simp: server_inv_def serve_next)
qed

lemma server_inv_accept:
  assumes "server_inv s" and "Suc (unat (sv_next s)) < 2 ^ 64"
  shows "server_inv (server_step (Ev_Accept ok) s)"
proof -
  have succ: "unat (sv_next s + 1) = Suc (unat (sv_next s))"
    using assms(2) by (simp add: unat_add_lem [THEN iffD1])
  have fresh: "map_of (sv_conns s) (sv_next s) = None"
    using assms(1) by (auto simp: server_inv_def map_of_eq_None_iff)
  have "lanes_owned (server_step (Ev_Accept ok) s)"
    by (rule lanes_owned_mono [where s = s and c = 0])
      (use assms(1) fresh in \<open>auto simp: server_inv_def lanes_owned_def accept_def Let_def\<close>)
  then show ?thesis
    using assms(1) succ by (auto simp: server_inv_def accept_def Let_def less_Suc_eq dest!: set_updateD)
qed

lemma server_inv_stop [simp]: "server_inv (s\<lparr>sv_stop := b\<rparr>) = server_inv s"
  by (simp add: server_inv_def lanes_owned_def)

lemma server_inv_drop: "server_inv s \<Longrightarrow> server_inv (fold (end_connection \<circ> fst) cs s)"
  by (induction cs arbitrary: s) (simp_all add: server_inv_end)

lemma server_step_inv:
  assumes "server_inv s" and "numbers_left e s"
  shows "server_inv (server_step e s)"
proof (cases e)
  case (Ev_Request c q raced)
  with assms(1) show ?thesis
    using server_inv_serve [OF assms(1), of c _ raced q]
    by (auto split: option.split prod.split sum.split intro: server_inv_end dest: arg_cong [of _ _ snd])
next
  case (Ev_Push p)
  with assms(1) show ?thesis by (auto simp: server_inv_def lanes_owned_def frame_simps)
qed (use assms in \<open>auto simp: numbers_left_def server_inv_accept server_inv_end server_inv_drop drop_server_def
    simp del: server_step.simps(1)\<close>)

interpretation test_server: environment_machine server_step numbers_left server_inv
  by unfold_locales (rule server_step_inv)

lemma server_new_inv: "server_inv (server_new handler h exact writers memfd)"
  by (simp add: server_inv_def lanes_owned_def server_new_def)

text \<open>A run of fewer than \<open>2 ^ 64 - 2\<close> events never runs out of numbers.\<close>

lemma end_next [simp]:
  "sv_next (end_connection c s) = sv_next s" "sv_next (fold (end_connection \<circ> fst) cs s) = sv_next s"
proof -
  show "sv_next (end_connection c s) = sv_next s" for c and s :: "'a server" by (simp add: end_connection_def)
  then show "sv_next (fold (end_connection \<circ> fst) cs s) = sv_next s" by (induction cs arbitrary: s) simp_all
qed

lemma serve_nextD: "serve c cn raced q s = (r, t) \<Longrightarrow> sv_next t = sv_next s"
  by (metis serve_next snd_conv)

lemma server_step_next: "unat (sv_next (server_step e s)) \<le> Suc (unat (sv_next s))"
proof -
  have "unat (sv_next s + 1) \<le> Suc (unat (sv_next s))" by (simp add: unat_word_ariths)
  then show ?thesis
    by (cases e) (auto simp: accept_def drop_server_def Let_def frame_simps split: option.split prod.split sum.split
        dest!: serve_nextD)
qed

lemma short_runs:
  "unat (sv_next s) + length es < 2 ^ 64 - 1 \<Longrightarrow> env_run numbers_left server_step es s"
proof (induction es arbitrary: s)
  case (Cons e es)
  then show ?case using server_step_next [of e s] by (auto simp: numbers_left_def)
qed simp

text \<open>
  In every state a run of the compositor server reaches, every lane belongs to an open connection
  whose handshake is done, and the next request of a connection is answered with exactly one response on
  that connection, or a failed write ends it: a wallpaper is acknowledged only to a connection with the
  control capability, a live lease and the portal scope, for a valid path and in an active session, and
  a connection without a handshake gets nothing but errors and the greeting. When a connection ends, no
  lane of it remains, so no later push reaches it.
\<close>

theorem server_answers_within_gates:
  assumes run: "env_run numbers_left server_step es (server_new handler h exact writers memfd)"
    and s: "s = fold server_step es (server_new handler h exact writers memfd)"
    and cn: "map_of (sv_conns s) c = Some cn" and served: "serve c cn raced q s = (r, t)"
  shows "lanes_owned s
    \<and> (\<exists>x new. wr_out (sv_writers t c) = wr_out (sv_writers s c) @ new
         \<and> (if is_ok r then replies new = [x] else set (replies new) \<subseteq> {x})
         \<and> (x = Resp_WallpaperSet \<longrightarrow> wallpaper_gates cn q s)
         \<and> (cn_shaken cn \<or> (\<exists>m. x = Resp_Error m) \<or> (\<exists>v g l. x = Resp_Hello v g l)))
    \<and> (\<not> is_ok r \<longrightarrow> map_of (sv_conns (server_step (Ev_Request c q raced) s)) c = None)
    \<and> c \<notin> snd ` set (sv_lanes (server_step (Ev_Read_Error c) s))"
proof -
  have "server_inv s"
    unfolding s by (rule test_server.run_ok_inv [OF server_new_inv run])
  then have "lanes_owned s" by (simp add: server_inv_def)
  moreover have "\<not> is_ok r \<longrightarrow> map_of (sv_conns (server_step (Ev_Request c q raced) s)) c = None"
    using cn served by (cases r) (simp_all add: end_connection_def)
  moreover have "c \<notin> snd ` set (sv_lanes (server_step (Ev_Read_Error c) s))"
    using cn by (auto simp: end_connection_def)
  moreover from serve_answered [OF served] obtain x where x: "answered c s t r [x]"
    "x = Resp_WallpaperSet \<longrightarrow> wallpaper_gates cn q s"
    "cn_shaken cn \<or> (\<exists>m. x = Resp_Error m) \<or> (\<exists>v g l. x = Resp_Hello v g l)" by blast
  moreover from x(1) obtain new where "wr_out (sv_writers t c) = wr_out (sv_writers s c) @ new"
    "if is_ok r then replies new = [x] else set (replies new) \<subseteq> {x}"
    unfolding answered_def list.set by blast
  ultimately show ?thesis by blast
qed

definition quiet_writer :: writer where
  "quiet_writer = \<lparr>wr_out = [], wr_clock = 0, wr_write = (\<lambda>_. None), wr_send = (\<lambda>_. Inr 1)\<rparr>"

definition no_memfd_faults :: memfd_env where
  "no_memfd_faults = \<lparr>me_create = None, me_write = None, me_seek = None, me_seal = None\<rparr>"

definition sample_preferences :: desktop_preferences where
  "sample_preferences =
     \<lparr>dp_color_scheme = Scheme_Dark, dp_accent_color = None, dp_contrast = Contrast_Normal,
      dp_reduced_motion = False, dp_font_name = [], dp_monospace_font_name = [], dp_text_scale = 0,
      dp_icon_theme = [], dp_cursor_theme = [], dp_cursor_size = 24\<rparr>"

definition sample_server :: "unit server" where
  "sample_server =
     server_new ((default_handler sample_preferences)\<lparr>hd_set_wallpaper := (\<lambda>_ _. Pair (Inr ()))\<rparr>) () None
       (\<lambda>_. quiet_writer) no_memfd_faults"

definition control_caps :: connection_capabilities where
  "control_caps = \<lparr>cap_query = False, cap_control = True, cap_input = False, cap_session = False,
     cap_interaction_domain = False\<rparr>"

definition sample_run :: "server_event list" where
  "sample_run = [Ev_Accept True, Ev_Request 1 (Req_Hello 29 control_caps (Some LOCAL_PORTAL_SCOPE) (Some \<lparr>lr_ttl_ms = 5\<rparr>)) []]"

lemmas sample_defs = accept_def sample_server_def sample_run_def server_new_def default_handler_def quiet_writer_def
  conn_new_def serve_def serve_hello_def serve_wallpaper_def answer_def call_def send_def send_error_def
  on_writer_def put_msg_def PROTOCOL_VERSION_def Let_def

theorem server_answers_within_gates_witness:
  "\<exists>cn r t. serve 1 cn [] (Req_SetWallpaper ''/w'') (fold server_step sample_run sample_server) = (r, t)
     \<and> is_ok r \<and> wallpaper_gates cn (Req_SetWallpaper ''/w'') (fold server_step sample_run sample_server)"
proof -
  let ?s = "fold server_step sample_run sample_server"
  let ?cn = "\<lparr>cn_shaken = True, cn_granted = control_caps\<lparr>cap_query := True\<rparr>, cn_lease = True,
    cn_scope = Some LOCAL_PORTAL_SCOPE\<rparr>"
  have cn: "map_of (sv_conns ?s) 1 = Some ?cn" by (simp add: sample_defs)
  obtain r t where served: "serve 1 ?cn [] (Req_SetWallpaper ''/w'') ?s = (r, t)" by fastforce
  have run: "env_run numbers_left server_step sample_run sample_server"
    by (rule short_runs) (simp add: sample_defs)
  have "valid_wallpaper_path ''/w''" by code_simp
  then have "is_ok r" and "replies (wr_out (sv_writers t 1)) = [Resp_Hello 29 (control_caps\<lparr>cap_query := True\<rparr>)
      (Some \<lparr>lg_id = 1, lg_ttl_ms = 5, lg_renewable = True\<rparr>), Resp_WallpaperSet]"
    and "replies (wr_out (sv_writers ?s 1)) = [Resp_Hello 29 (control_caps\<lparr>cap_query := True\<rparr>)
      (Some \<lparr>lg_id = 1, lg_ttl_ms = 5, lg_renewable = True\<rparr>)]"
    using served by (auto simp: sample_defs control_caps_def)
  with server_answers_within_gates [OF run [unfolded sample_server_def] refl cn [unfolded sample_server_def]
      served [unfolded sample_server_def]] served
  show ?thesis by (auto simp: sample_server_def)
qed

end
