(* ===== verification/Ipc_Session.thy ===== *)
theory Ipc_Session
  imports Ipc_Link Ipc_Server
begin

text \<open>
  The two ends of the protocol put together: what the server of \<open>Ipc_Server\<close> writes is what the
  client of \<open>Ipc_Client\<close> reads. The handshake ends at the newest version both speak, and a stream
  starts at both ends with the same geometry, the same slots, and no frame lost, whichever frames were
  written before the reply.
\<close>

section \<open>The wire between them\<close>

definition msgs_of :: "wire_out list \<Rightarrow> wire_msg list" where
  "msgs_of out = List.map_filter (\<lambda>x. case x of Out_Msg m \<Rightarrow> Some m | Out_Fd _ \<Rightarrow> None) out"

definition fds_of :: "wire_out list \<Rightarrow> (io_error + recv_result) list" where
  "fds_of out = List.map_filter (\<lambda>x. case x of Out_Msg _ \<Rightarrow> None | Out_Fd f \<Rightarrow> Some f) out"

lemma wire_simps [simp]:
  "msgs_of [] = []" "msgs_of (Out_Msg m # out) = m # msgs_of out" "msgs_of (Out_Fd f # out) = msgs_of out"
  "msgs_of (a @ b) = msgs_of a @ msgs_of b"
  "fds_of [] = []" "fds_of (Out_Msg m # out) = fds_of out" "fds_of (Out_Fd f # out) = f # fds_of out"
  "fds_of (a @ b) = fds_of a @ fds_of b"
  by (simp_all add: msgs_of_def fds_of_def map_filter_def)

definition receives :: "wire_out list \<Rightarrow> client \<Rightarrow> client" where
  "receives out c = c\<lparr>c_msgs := c_msgs c @ map Inr (msgs_of out), c_fds := c_fds c @ fds_of out\<rparr>"

text \<open>The descriptor of a sealed payload, and a descriptor on the wire.\<close>

definition memfd_of :: "u8 list \<Rightarrow> file_desc" where
  "memfd_of bytes =
     \<lparr>fd_regular = True, fd_len = Inr (of_nat (length bytes)), fd_seals = Some REQUIRED_SEALS, fd_seek = None,
      fd_mappable = True, fd_bytes = bytes\<rparr>"

definition fd_out :: "file_desc \<Rightarrow> wire_out" where
  "fd_out f = Out_Fd (Inr \<lparr>rv_received = 1, rv_marker = BLOB_MARKER, rv_ctrunc = False, rv_fd = Some f\<rparr>)"

lemma fd_out_simps [simp]:
  "msgs_of (fd_out f # out) = msgs_of out" "msgs_of (map (\<lambda>x. fd_out (g x)) xs) = []"
  "fds_of (fd_out f # out)
     = Inr \<lparr>rv_received = 1, rv_marker = BLOB_MARKER, rv_ctrunc = False, rv_fd = Some f\<rparr> # fds_of out"
  by (simp_all add: fd_out_def) (induction xs, simp_all add: fd_out_def)

definition blob_ok :: "u8 list \<Rightarrow> bool" where
  "blob_ok bytes \<longleftrightarrow> bytes \<noteq> [] \<and> length bytes \<le> MAX_BLOB_BYTES"

lemma blob_ok_len: "blob_ok bytes \<Longrightarrow> validate_len (of_nat (length bytes)) = Inr ()"
  by (auto simp: blob_ok_def validate_len_def MAX_BLOB_BYTES_def unat_of_nat take_bit_nat_eq_self word_of_nat_eq_0_iff
      dest: dvd_imp_le)

lemma sealed_blob_ok:
  "blob_ok bytes \<Longrightarrow> sealed_blob_new no_memfd_faults bytes = Inr \<lparr>sb_file = memfd_of bytes, sb_len = of_nat (length bytes)\<rparr>"
  using blob_ok_len by (auto simp: sealed_blob_new_def blob_ok_def MAX_BLOB_BYTES_def no_memfd_faults_def memfd_of_def Let_def)

text \<open>A descriptor that is long enough to be taken as a dmabuf of the announced length.\<close>

definition dmabuf_ok :: "u64 \<Rightarrow> file_desc \<Rightarrow> bool" where
  "dmabuf_ok n f \<longleftrightarrow> validate_len n = Inr () \<and> fd_seek f = None \<and> (\<exists>len. fd_len f = Inr len \<and> n \<le> len)"

lemma receive_dmabuf_ok:
  assumes "dmabuf_ok n f" and "c_fds c = fds_of (fd_out f # out)"
  shows "receive_dmabuf_file n c = (Inr f, c\<lparr>c_fds := fds_of out\<rparr>)"
proof -
  from assms(1) obtain len where "validate_len n = Inr ()" "fd_seek f = None" "fd_len f = Inr len" "\<not> len < n"
    by (auto simp: dmabuf_ok_def)
  then show ?thesis using assms(2) by (simp add: receive_dmabuf_file_def receive_fd_def seek_start_def)
qed

lemma receive_memfd_ok:
  assumes "blob_ok bytes" and "c_fds c = fds_of (fd_out (memfd_of bytes) # out)"
  shows "receive_memfd_file (of_nat (length bytes)) c = (Inr (memfd_of bytes), c\<lparr>c_fds := fds_of out\<rparr>)"
  using assms blob_ok_len [OF assms(1)]
  by (auto simp: receive_memfd_file_def receive_validated_fd_def receive_fd_def seek_start_def memfd_of_def
      fully_sealed_def)

lemma memfd_dmabuf_ok: "blob_ok bytes \<Longrightarrow> dmabuf_ok (of_nat (length bytes)) (memfd_of bytes)"
  by (simp add: dmabuf_ok_def blob_ok_len memfd_of_def)

section \<open>Pushed events\<close>

fun push_ok :: "push \<Rightarrow> bool" where
  "push_ok (Push_Frame f) = blob_ok (fp_pixels f)"
| "push_ok (Push_Slot _ _) = True"
| "push_ok (Push_Fd f fd) = ((\<exists>drm m. fh_format f = Wire_Dmabuf drm m) \<and> dmabuf_ok (ff_byte_len f) fd)"
| "push_ok (Push_Geometry _ _ _) = True"

fun push_out :: "push \<Rightarrow> wire_out list" where
  "push_out (Push_Frame f) =
     [Out_Msg (frame_event f (of_nat (length (fp_pixels f))) None), fd_out (memfd_of (fp_pixels f))]"
| "push_out (Push_Slot f slot) = [Out_Msg (frame_event f (ff_byte_len f) (Some slot))]"
| "push_out (Push_Fd f fd) = [Out_Msg (frame_event f (ff_byte_len f) None), fd_out fd]"
| "push_out (Push_Geometry sid w h) = [Out_Msg (Msg_Event (Event_StreamGeometryChanged sid w h))]"

definition frame_with :: "'a frame_header_scheme \<Rightarrow> u32 option \<Rightarrow> stream_payload \<Rightarrow> stream_message" where
  "frame_with f slot payload =
     SM_Frame \<lparr>sf_stream_id = fh_stream_id f, sf_sequence = fh_sequence f, sf_width = fh_width f,
               sf_height = fh_height f, sf_stride = fh_stride f, sf_format = fh_format f,
               sf_damage = fh_damage f, sf_dropped = fh_dropped f, sf_slot = slot, sf_payload = payload\<rparr>"

fun push_message :: "push \<Rightarrow> stream_message" where
  "push_message (Push_Frame f) =
     frame_with f None
       (case fh_format f of Wire_Dmabuf _ _ \<Rightarrow> Pay_Dmabuf (memfd_of (fp_pixels f)) | _ \<Rightarrow> Pay_Memfd (memfd_of (fp_pixels f)))"
| "push_message (Push_Slot f slot) = frame_with f (Some slot) Pay_Slot"
| "push_message (Push_Fd f fd) = frame_with f None (Pay_Dmabuf fd)"
| "push_message (Push_Geometry sid w h) = SM_GeometryChanged sid w h"

text \<open>A writer without faults.\<close>

definition faultless :: "writer \<Rightarrow> bool" where
  "faultless w \<longleftrightarrow> (\<forall>n. wr_write w n = None) \<and> (\<forall>n. wr_send w n = Inr 1)"

definition advance :: "wire_out list \<Rightarrow> writer \<Rightarrow> writer" where
  "advance out w = w\<lparr>wr_out := wr_out w @ out, wr_clock := wr_clock w + length out\<rparr>"

lemma advance_simps [simp]:
  "faultless (advance out w) = faultless w" "advance b (advance a w) = advance (a @ b) w" "advance [] w = w"
  "wr_out (advance out w) = wr_out w @ out"
  by (simp_all add: faultless_def advance_def)

lemma faultless_puts:
  assumes "faultless w"
  shows "put_msg m w = (Inr (), advance [Out_Msg m] w)" "put_fd f w = (Inr (), advance [fd_out f] w)"
  using assms by (simp_all add: faultless_def put_msg_def put_fd_def send_fd_def advance_def fd_out_def Let_def)

lemma push_op_ok:
  "faultless w \<Longrightarrow> push_ok p \<Longrightarrow> push_op no_memfd_faults p w = (Inr (), advance (push_out p) w)"
  by (cases p) (simp_all add: write_frame_def sealed_blob_ok then_write_def faultless_puts)

lemma write_all_ok:
  assumes "\<And>x w. x \<in> set xs \<Longrightarrow> faultless w \<Longrightarrow> f x w = (Inr (), advance (out x) w)" and "faultless w"
  shows "write_all (map f xs) w = (Inr (), advance (concat (map out xs)) w)"
  using assms by (induction xs arbitrary: w) (simp_all add: then_write_def)

fun push_msg :: "push \<Rightarrow> wire_msg" where
  "push_msg (Push_Frame f) = frame_event f (of_nat (length (fp_pixels f))) None"
| "push_msg (Push_Slot f slot) = frame_event f (ff_byte_len f) (Some slot)"
| "push_msg (Push_Fd f fd) = frame_event f (ff_byte_len f) None"
| "push_msg (Push_Geometry sid w h) = Msg_Event (Event_StreamGeometryChanged sid w h)"

lemma msgs_of_push [simp]: "msgs_of (push_out p) = [push_msg p]"
  by (cases p) simp_all

lemma tag_of_push: "tag_of (push_msg p) \<noteq> Some ''StreamOutputStarted''" "tag_of (push_msg p) \<noteq> Some ''StreamOutputStopped''"
  by (cases p; simp add: frame_event_def)+

lemma parse_push:
  assumes ok: "push_ok p" and fds: "c_fds c = fds_of (push_out p @ out)"
  shows "parse_stream_message (push_msg p) c = (Inr (Some (push_message p)), c\<lparr>c_fds := fds_of out\<rparr>)"
proof (cases p)
  case (Push_Frame f)
  then have b: "blob_ok (fp_pixels f)" and fds: "c_fds c = fds_of (fd_out (memfd_of (fp_pixels f)) # out)"
    using ok fds by simp_all
  note r = receive_dmabuf_ok [OF memfd_dmabuf_ok [OF b] fds] receive_memfd_ok [OF b fds]
  show ?thesis using r by (cases "fh_format f") (simp_all add: Push_Frame frame_event_def frame_with_def)
next
  case (Push_Slot f slot)
  then show ?thesis using fds by (simp add: frame_event_def frame_with_def)
next
  case (Push_Fd f fd)
  with ok obtain drm m where f: "fh_format f = Wire_Dmabuf drm m" and d: "dmabuf_ok (ff_byte_len f) fd" by auto
  have fds: "c_fds c = fds_of (fd_out fd # out)" using fds Push_Fd by simp
  show ?thesis using receive_dmabuf_ok [OF d fds] f by (simp add: Push_Fd frame_event_def frame_with_def)
next
  case (Push_Geometry sid w h)
  then show ?thesis using fds by simp
qed

lemma collect_pushes:
  assumes "\<And>p. p \<in> set ps \<Longrightarrow> push_ok p" and "c_fds c = fds_of (concat (map push_out ps) @ out)"
  shows "collect_events (map push_msg ps) c = (Inr (map push_message ps), c\<lparr>c_fds := fds_of out\<rparr>)"
  using assms
proof (induction ps arbitrary: c)
  case (Cons p ps)
  have "parse_stream_message (push_msg p) c
      = (Inr (Some (push_message p)), c\<lparr>c_fds := fds_of (concat (map push_out ps) @ out)\<rparr>)"
    using parse_push [of p c "concat (map push_out ps) @ out"] Cons.prems by simp
  then show ?case using Cons.IH [of "c\<lparr>c_fds := fds_of (concat (map push_out ps) @ out)\<rparr>"] Cons.prems(1) by simp
qed simp

lemma msgs_of_pushes [simp]: "msgs_of (concat (map push_out ps)) = map push_msg ps"
  by (induction ps) simp_all

text \<open>A push over an open lane arrives as the next stream message of its owner, unchanged.\<close>

lemma pushed_event_arrives:
  assumes lane: "map_of (sv_lanes s) (push_stream p) = Some k" and quiet: "faultless (sv_writers s k)"
    and "sv_memfd s = no_memfd_faults" and ok: "push_ok p"
    and c: "c_msgs c = []" "c_fds c = []" "c_pending c = []"
  shows "fst (push_event p s) = True
    \<and> (\<exists>out. wr_out (sv_writers (snd (push_event p s)) k) = wr_out (sv_writers s k) @ out
         \<and> next_stream_message (receives out c) = (Inr (push_message p), c))"
proof -
  have "next_stream_message (receives (push_out p) c) = (Inr (push_message p), c)"
    using parse_push [OF ok, of "receives (push_out p) c" "[]"] c
    by (simp add: receives_def next_stream_message_def)
  moreover have "push_event p s = (True, s\<lparr>sv_writers := (sv_writers s)(k := advance (push_out p) (sv_writers s k))\<rparr>)"
    using push_op_ok [OF quiet ok] lane assms(3) by (simp add: push_event_def on_writer_def)
  ultimately show ?thesis by (intro conjI exI [of _ "push_out p"]) simp_all
qed

section \<open>A stream starts at both ends\<close>

definition slot_of :: "slot_info \<Rightarrow> stream_slot" where
  "slot_of x = \<lparr>ss_file = sl_fd x, ss_stride = sl_stride x, ss_byte_len = sl_byte_len x\<rparr>"

definition started_of :: "stream_info \<Rightarrow> stream_started" where
  "started_of info =
     \<lparr>st_stream_id = si_stream_id info, st_width = si_width info, st_height = si_height info,
      st_format = si_format info,
      st_slots = (case si_slots info of Some (t # ts) \<Rightarrow> Some (map slot_of (t # ts)) | _ \<Rightarrow> None)\<rparr>"

text \<open>A table the protocol can carry: one layout for all slots, each backed by its descriptor.\<close>

definition table_ok :: "stream_info \<Rightarrow> bool" where
  "table_ok info \<longleftrightarrow>
     (case si_slots info of
        Some (t # ts) \<Rightarrow>
          (\<exists>drm m. si_format info = Wire_Dmabuf drm m) \<and> length (t # ts) < 2 ^ 32
          \<and> (\<forall>x \<in> set (t # ts). sl_stride x = sl_stride t \<and> sl_byte_len x = sl_byte_len t
               \<and> dmabuf_ok (sl_byte_len t) (sl_fd x))
      | _ \<Rightarrow> True)"

abbreviation table_out :: "stream_info \<Rightarrow> wire_out list" where
  "table_out info \<equiv> map (\<lambda>x. fd_out (sl_fd x)) (case si_slots info of None \<Rightarrow> [] | Some table \<Rightarrow> table)"

fun started_msg :: "stream_info \<Rightarrow> wire_msg" where
  "started_msg info =
     (case slot_table (si_slots info) of (slots, stride, byte_len) \<Rightarrow>
        Msg_Response (Resp_StreamOutputStarted (si_stream_id info) (si_width info) (si_height info)
          (si_format info) slots stride byte_len))"

lemma receive_slots_ok:
  assumes "\<And>x. x \<in> set xs \<Longrightarrow> sl_stride x = stride \<and> sl_byte_len x = n \<and> dmabuf_ok n (sl_fd x)"
    and "c_fds c = fds_of (map (\<lambda>x. fd_out (sl_fd x)) xs)"
  shows "receive_slots (length xs) stride n c = (Inr (map slot_of xs), c\<lparr>c_fds := []\<rparr>)"
  using assms
proof (induction xs arbitrary: c)
  case (Cons x xs)
  have "receive_dmabuf_file n c = (Inr (sl_fd x), c\<lparr>c_fds := fds_of (map (\<lambda>x. fd_out (sl_fd x)) xs)\<rparr>)"
    by (rule receive_dmabuf_ok) (use Cons.prems in simp_all)
  with Cons.IH [of "c\<lparr>c_fds := fds_of (map (\<lambda>x. fd_out (sl_fd x)) xs)\<rparr>"] Cons.prems(1) show ?case
    by (simp add: slot_of_def)
qed simp

lemma read_started_table:
  assumes "table_ok info" and "c_fds c = fds_of (table_out info)"
    and "slot_table (si_slots info) = (slots, stride, n)"
  shows "read_slot_table (si_format info) slots stride n c = (Inr (st_slots (started_of info)), c\<lparr>c_fds := []\<rparr>)"
proof (cases "\<exists>t ts. si_slots info = Some (t # ts)")
  case True
  then obtain t ts where t: "si_slots info = Some (t # ts)" by blast
  with assms(1) obtain drm m where f: "si_format info = Wire_Dmabuf drm m" "length (t # ts) < 2 ^ 32"
    and all: "\<forall>x \<in> set (t # ts). sl_stride x = sl_stride t \<and> sl_byte_len x = sl_byte_len t
        \<and> dmabuf_ok (sl_byte_len t) (sl_fd x)"
    by (auto simp: table_ok_def)
  have "unat (of_nat (length (t # ts)) :: u32) = length (t # ts)"
    using f(2) by (simp only: unat_of_nat take_bit_nat_eq_self) (simp add: take_bit_nat_eq_self)
  moreover have "receive_slots (length (t # ts)) (sl_stride t) (sl_byte_len t) c
      = (Inr (map slot_of (t # ts)), c\<lparr>c_fds := []\<rparr>)"
    by (rule receive_slots_ok) (use all assms(2) t in auto)
  ultimately show ?thesis
    using assms(3) t f(1) by (auto simp: read_slot_table_def started_of_def simp del: receive_slots.simps)
next
  case False
  then have e: "si_slots info = None \<or> si_slots info = Some []" by (metis neq_Nil_conv not_None_eq)
  then have "c_fds c = []" using assms(2) by auto
  then have "c\<lparr>c_fds := []\<rparr> = c" by simp
  with e assms(3) show ?thesis
    by (cases "si_format info") (auto simp: read_slot_table_def started_of_def)
qed

lemma start_writes_ok:
  assumes "faultless w" and "\<And>f. f \<in> set frames \<Longrightarrow> blob_ok (fp_pixels f)"
  shows "start_writes no_memfd_faults frames info w
     = (Inr (), advance (concat (map push_out (map Push_Frame frames)) @ Out_Msg (started_msg info) # table_out info) w)"
proof -
  obtain a b n where t: "slot_table (si_slots info) = (a, b, n)" by (cases "slot_table (si_slots info)")
  have 1: "write_all (map (write_frame no_memfd_faults) frames) w
      = (Inr (), advance (concat (map push_out (map Push_Frame frames))) w)"
    using write_all_ok [of frames "write_frame no_memfd_faults" "push_out \<circ> Push_Frame" w] assms
      push_op_ok [of _ "Push_Frame _"] by (simp add: comp_def)
  have 2: "write_all (map (put_fd \<circ> sl_fd) xs) v = (Inr (), advance (map (\<lambda>x. fd_out (sl_fd x)) xs) v)"
    if "faultless v" for xs v
    using write_all_ok [of xs "put_fd \<circ> sl_fd" "\<lambda>x. [fd_out (sl_fd x)]" v] that
    by (simp add: faultless_puts)
  show ?thesis
    using assms(1) by (simp add: start_writes_def t then_write_def 1 2 faultless_puts)
qed

lemma raced_pushes:
  assumes "\<And>p. p \<in> set ps \<Longrightarrow> push_ok p \<and> map_of (sv_lanes s) (push_stream p) = Some k"
    and "sv_memfd s = no_memfd_faults" and "faultless (sv_writers s k)"
  shows "fold (\<lambda>p. snd \<circ> push_event p) ps s
     = s\<lparr>sv_writers := (sv_writers s)(k := advance (concat (map push_out ps)) (sv_writers s k))\<rparr>"
  using assms
proof (induction ps arbitrary: s)
  case (Cons p ps)
  let ?s = "s\<lparr>sv_writers := (sv_writers s)(k := advance (push_out p) (sv_writers s k))\<rparr>"
  have "snd (push_event p s) = ?s"
    using Cons.prems push_op_ok [of "sv_writers s k" p] by (simp add: push_event_def on_writer_def)
  then show ?case using Cons.IH [of ?s] Cons.prems by (simp cong: if_cong)
qed simp

lemma client_reads_start:
  assumes ok: "\<And>p. p \<in> set evs \<Longrightarrow> push_ok p" and table: "table_ok info"
    and c: "c_faults c = []" "c_msgs c = []" "c_fds c = []"
    and version: "\<not> (c_version c < 29 \<and> (\<exists>name. target = Target_Output (Some name)))"
  shows "start_output_stream fps target dmabuf cursor
           (receives (concat (map push_out evs) @ Out_Msg (started_msg info) # table_out info) c)
     = (Inr (started_of info),
        c\<lparr>c_sent := c_sent c @ [Req_StreamOutputStart fps target
               (if dmabuf \<and> 25 \<le> c_version c then Some True else None) (if 29 \<le> c_version c then cursor else None)],
          c_pending := c_pending c @ map push_message evs\<rparr>)"
proof -
  obtain slots stride n where t: "slot_table (si_slots info) = (slots, stride, n)"
    by (cases "slot_table (si_slots info)")
  let ?req = "Req_StreamOutputStart fps target (if dmabuf \<and> 25 \<le> c_version c then Some True else None)
    (if 29 \<le> c_version c then cursor else None)"
  define c0 where "c0 = c\<lparr>c_sent := c_sent c @ [?req]\<rparr>"
  define c1 where "c1 = c0\<lparr>c_fds := fds_of (concat (map push_out evs) @ table_out info)\<rparr>"
  let ?msgs = "map Inr (map push_msg evs) @ [Inr (started_msg info)]"
  have collect: "collect_events (map push_msg evs) c1 = (Inr (map push_message evs), c1\<lparr>c_fds := fds_of (table_out info)\<rparr>)"
    by (rule collect_pushes [OF ok]) (simp_all add: c1_def)
  have "tag_of (started_msg info) = Some ''StreamOutputStarted''" by (simp add: t)
  then have await: "await_reply ''StreamOutputStarted'' ?msgs (with_queues ?msgs (c_pending c) c1)
      = (Inr (started_msg info),
         with_queues [] (c_pending c @ map push_message evs) (c1\<lparr>c_fds := fds_of (table_out info)\<rparr>))"
    using await_collect [OF collect, where post = "[]" and tag = "''StreamOutputStarted''"] tag_of_push by auto
  let ?c2 = "with_queues [] (c_pending c @ map push_message evs) (c1\<lparr>c_fds := fds_of (table_out info)\<rparr>)"
  have read: "read_slot_table (si_format info) slots stride n ?c2 = (Inr (st_slots (started_of info)), ?c2\<lparr>c_fds := []\<rparr>)"
    by (rule read_started_table [OF table _ t]) simp
  have written: "write_req ?req (receives (concat (map push_out evs) @ Out_Msg (started_msg info) # table_out info) c)
      = (Inr (), with_queues ?msgs (c_pending c) c1)"
    using c by (simp add: write_req_def receives_def with_queues_def c1_def c0_def)
  have final: "?c2\<lparr>c_fds := []\<rparr> = c\<lparr>c_sent := c_sent c @ [?req], c_pending := c_pending c @ map push_message evs\<rparr>"
    using c by (simp add: with_queues_def c1_def c0_def)
  show ?thesis
    unfolding start_output_stream_def Let_def
    using version written await read final
    by (simp add: receives_def t started_of_def)
qed

text \<open>
  C22: A stream starts at both ends alike. When the compositor accepts a start request, with frames of
  its own before the reply and with pushes of other threads that win the race for the connection, the
  client's start returns the stream's id, geometry, format and slot table as the compositor has them,
  with the descriptor of every slot; every frame written before the reply is buffered in order with its
  pixels, so that none is lost; nothing is left unread; and the compositor's lane leads to this
  connection.
\<close>

theorem stream_start_agrees:
  assumes started: "hd_stream_start (sv_handler s) k fps target
        (if dmabuf \<and> 25 \<le> c_version c then Some True else None) (if 29 \<le> c_version c then cursor else None) (sv_state s)
      = (Inr info, h)"
    and before: "hd_frames_before (sv_handler s) (si_stream_id info) h = (frames, h')"
    and server: "cn_shaken cn" "faultless (sv_writers s k)" "sv_memfd s = no_memfd_faults" "table_ok info"
    and events: "\<And>p. p \<in> set (raced @ map Push_Frame frames) \<Longrightarrow> push_ok p"
    and raced: "\<And>p. p \<in> set raced \<Longrightarrow> push_stream p = si_stream_id info"
    and client: "c_faults c = []" "c_msgs c = []" "c_fds c = []"
      "\<not> (c_version c < 29 \<and> (\<exists>name. target = Target_Output (Some name)))"
  shows "\<exists>out t.
     serve k cn raced (Req_StreamOutputStart fps target
        (if dmabuf \<and> 25 \<le> c_version c then Some True else None) (if 29 \<le> c_version c then cursor else None)) s = (Inr (), t)
     \<and> wr_out (sv_writers t k) = wr_out (sv_writers s k) @ out
     \<and> map_of (sv_lanes t) (si_stream_id info) = Some k
     \<and> start_output_stream fps target dmabuf cursor (receives out c)
         = (Inr (started_of info),
            c\<lparr>c_sent := c_sent c @ [Req_StreamOutputStart fps target
                 (if dmabuf \<and> 25 \<le> c_version c then Some True else None) (if 29 \<le> c_version c then cursor else None)],
              c_pending := c_pending c @ map push_message (raced @ map Push_Frame frames)\<rparr>)"
proof -
  let ?evs = "raced @ map Push_Frame frames"
  let ?out = "concat (map push_out ?evs) @ Out_Msg (started_msg info) # table_out info"
  define s1 where "s1 = s\<lparr>sv_state := h, sv_lanes := AList.update (si_stream_id info) k (sv_lanes s)\<rparr>"
  define w where "w = advance (concat (map push_out raced)) (sv_writers s k)"
  have lanes: "fold (\<lambda>p. snd \<circ> push_event p) raced s1 = s1\<lparr>sv_writers := (sv_writers s)(k := w)\<rparr>"
    using raced_pushes [of raced s1 k] events raced server by (simp add: s1_def w_def)
  have blobs: "\<And>f. f \<in> set frames \<Longrightarrow> blob_ok (fp_pixels f)"
    using events by (force simp: image_iff)
  have writes: "start_writes no_memfd_faults frames info w = (Inr (), advance ?out (sv_writers s k))"
    using start_writes_ok [of w frames info, OF _ blobs] server(2) by (simp add: w_def)
  let ?t = "s1\<lparr>sv_state := h', sv_writers := (sv_writers s)(k := advance ?out (sv_writers s k))\<rparr>"
  have serve: "serve_start k fps target (if dmabuf \<and> 25 \<le> c_version c then Some True else None)
      (if 29 \<le> c_version c then cursor else None) raced s = (Inr (), ?t)"
    using started before server(3) lanes writes
    by (simp add: serve_start_def call_def s1_def Let_def on_writer_def cong: if_cong)
  show ?thesis
  proof (rule exI [of _ ?out], rule exI [of _ ?t], intro conjI)
    show "start_output_stream fps target dmabuf cursor (receives ?out c)
         = (Inr (started_of info),
            c\<lparr>c_sent := c_sent c @ [Req_StreamOutputStart fps target
                 (if dmabuf \<and> 25 \<le> c_version c then Some True else None) (if 29 \<le> c_version c then cursor else None)],
              c_pending := c_pending c @ map push_message ?evs\<rparr>)"
      by (rule client_reads_start [OF _ server(4) client]) (rule events)
  qed (use serve server(1) in \<open>simp_all add: serve_def s1_def\<close>)
qed

definition sample_info :: stream_info where
  "sample_info =
     \<lparr>si_stream_id = 7, si_width = 2, si_height = 1, si_format = Wire_Dmabuf 1 2,
      si_slots = Some [\<lparr>sl_fd = memfd_of (replicate 8 0), sl_stride = 8, sl_byte_len = 8\<rparr>]\<rparr>"

definition sample_frame :: frame_payload where
  "sample_frame =
     \<lparr>fh_stream_id = 7, fh_sequence = 1, fh_width = 1, fh_height = 1, fh_stride = 4, fh_format = Wire_Bgra8,
      fh_damage = [], fh_dropped = 0, fp_pixels = [1, 2, 3, 4]\<rparr>"

definition stream_server :: "unit server" where
  "stream_server =
     server_new ((default_handler sample_preferences)
         \<lparr>hd_stream_start := (\<lambda>_ _ _ _ _. Pair (Inr sample_info)), hd_frames_before := (\<lambda>_. Pair [sample_frame])\<rparr>)
       () None (\<lambda>_. quiet_writer) no_memfd_faults"

theorem stream_start_agrees_witness:
  "\<exists>out t. serve 1 (conn_new\<lparr>cn_shaken := True\<rparr>) [Push_Geometry 7 2 1]
        (Req_StreamOutputStart (Some 60) (Target_Output None) (Some True) None) stream_server = (Inr (), t)
     \<and> start_output_stream (Some 60) (Target_Output None) True None (receives out sample_client)
       = (Inr (started_of sample_info),
          sample_client\<lparr>c_sent := [Req_StreamOutputStart (Some 60) (Target_Output None) (Some True) None],
            c_pending := [SM_GeometryChanged 7 2 1, frame_with sample_frame None (Pay_Memfd (memfd_of [1, 2, 3, 4]))]\<rparr>)"
proof -
  have blob: "blob_ok (replicate 8 0)" "blob_ok [1, 2, 3, 4]" by (simp_all add: blob_ok_def MAX_BLOB_BYTES_def)
  have table: "table_ok sample_info"
    using memfd_dmabuf_ok [OF blob(1)] by (simp add: table_ok_def sample_info_def)
  have start: "hd_stream_start (sv_handler stream_server) 1 (Some 60) (Target_Output None)
      (if True \<and> 25 \<le> c_version sample_client then Some True else None)
      (if 29 \<le> c_version sample_client then None else None) (sv_state stream_server) = (Inr sample_info, ())"
    by (simp add: stream_server_def server_new_def sample_client_def)
  have frames: "hd_frames_before (sv_handler stream_server) (si_stream_id sample_info) () = ([sample_frame], ())"
    by (simp add: stream_server_def server_new_def)
  have quiet: "faultless (sv_writers stream_server 1)" "sv_memfd stream_server = no_memfd_faults"
    by (simp_all add: stream_server_def server_new_def faultless_def quiet_writer_def)
  have version: "\<not> (c_version sample_client < 29 \<and> (\<exists>name. Target_Output None = Target_Output (Some name)))" by simp
  have "\<exists>out t. serve 1 (conn_new\<lparr>cn_shaken := True\<rparr>) [Push_Geometry 7 2 1]
        (Req_StreamOutputStart (Some 60) (Target_Output None)
           (if True \<and> 25 \<le> c_version sample_client then Some True else None)
           (if 29 \<le> c_version sample_client then None else None)) stream_server = (Inr (), t)
     \<and> wr_out (sv_writers t 1) = wr_out (sv_writers stream_server 1) @ out
     \<and> map_of (sv_lanes t) (si_stream_id sample_info) = Some 1
     \<and> start_output_stream (Some 60) (Target_Output None) True None (receives out sample_client)
         = (Inr (started_of sample_info),
            sample_client\<lparr>c_sent := c_sent sample_client @ [Req_StreamOutputStart (Some 60) (Target_Output None)
                 (if True \<and> 25 \<le> c_version sample_client then Some True else None)
                 (if 29 \<le> c_version sample_client then None else None)],
              c_pending := c_pending sample_client @ map push_message ([Push_Geometry 7 2 1] @ map Push_Frame [sample_frame])\<rparr>)"
    by (rule stream_start_agrees [OF start frames _ quiet table _ _ _ _ _ version])
      (use blob(2) in \<open>auto simp: sample_frame_def sample_info_def sample_client_def\<close>)
  then show ?thesis by (force simp: sample_client_def sample_frame_def)
qed

section \<open>The handshake\<close>

text \<open>What the client's attempt at a version meets when its connection \<open>k\<close> is served.\<close>

definition dial_server ::
  "'h server \<Rightarrow> u64 \<Rightarrow> connection_capabilities \<Rightarrow> string option \<Rightarrow> u32 \<Rightarrow> dial" where
  "dial_server s k caps scope version =
     (let t = snd (serve k conn_new [] (hello_request caps scope version) s);
          out = drop (length (wr_out (sv_writers s k))) (wr_out (sv_writers t k))
      in \<lparr>d_connect = None, d_timeout = None, d_write = None,
          d_reply = (case msgs_of out of [] \<Rightarrow> Inl Io_UnexpectedEof | m # _ \<Rightarrow> Inr m),
          d_msgs = map Inr (tl (msgs_of out)), d_fds = fds_of out, d_faults = []\<rparr>)"

definition speaks :: "u32 option \<Rightarrow> u32 \<Rightarrow> bool" where
  "speaks exact version \<longleftrightarrow> (case exact of Some x \<Rightarrow> version = x | None \<Rightarrow> version \<le> PROTOCOL_VERSION)"

definition scope_known :: "'h server \<Rightarrow> string option \<Rightarrow> bool" where
  "scope_known s scope \<longleftrightarrow>
     (case scope of None \<Rightarrow> True | Some name \<Rightarrow> name = LOCAL_PORTAL_SCOPE \<or> name \<in> set (hd_known_scopes (sv_handler s)))"

text \<open>A privileged client gets a lease exactly when the policy grants one.\<close>

definition lease_of :: "'h server \<Rightarrow> u64 \<Rightarrow> connection_capabilities \<Rightarrow> lease_grant option" where
  "lease_of s k caps =
     (if privileged caps \<and> fst (hd_grant_lease (sv_handler s) (sv_state s))
      then Some \<lparr>lg_id = k, lg_ttl_ms = 900000, lg_renewable = True\<rparr> else None)"

lemma handshake_with_server:
  assumes "faultless (sv_writers s k)" and "scope_known s scope" and "version \<le> 29"
  shows "handshake (dial_server s k caps scope version) caps scope version
    = Inr (if speaks (sv_exact s) version
           then Inr \<lparr>c_msgs = [], c_fds = [], c_faults = [], c_sent = [hello_request caps scope version],
                     c_caps = caps\<lparr>cap_query := True\<rparr>, c_lease = lease_of s k caps, c_version = version, c_pending = []\<rparr>
           else Inl (Io_ConnectionRefused (''unsupported protocol version '' @ dec_nat (unat version))))"
proof -
  obtain policy h where p: "hd_grant_lease (sv_handler s) (sv_state s) = (policy, h)" by fastforce
  have m: "min version 29 = version" using assms(3) by (simp add: min_absorb1)
  have known: "\<not> (case scope of None \<Rightarrow> False
      | Some name \<Rightarrow> name \<noteq> LOCAL_PORTAL_SCOPE \<and> name \<notin> set (hd_known_scopes (sv_handler s)))"
    using assms(2) by (auto simp: scope_known_def split: option.splits)
  show ?thesis
  proof (cases "speaks (sv_exact s) version")
    case True
    with known p m assms(1) show ?thesis
      by (simp add: speaks_def dial_server_def serve_def conn_new_def hello_request_def serve_hello_def send_def
          on_writer_def faultless_puts handshake_def lease_of_def call_def lease_request_default_def
          PROTOCOL_VERSION_def Let_def split: option.splits)
  next
    case False
    with assms(1) show ?thesis
      by (simp add: speaks_def dial_server_def serve_def conn_new_def hello_request_def serve_hello_def
          send_error_def send_def on_writer_def faultless_puts handshake_def Let_def)
  qed
qed

text \<open>
  Against a server of any supported version the retries end connected, at exactly that version: a
  current server is spoken to at version 29, and one that insists on an older version at that one.
  Between the attempts the server may do anything.
\<close>

lemma versions_agree:
  assumes server: "\<And>v. faultless (sv_writers (srv v) (k v)) \<and> scope_known (srv v) scope \<and> sv_exact (srv v) = exact"
    and supported: "exact = None \<or> (\<exists>x. exact = Some x \<and> 24 \<le> x \<and> x \<le> 29)"
    and agreed: "agreed = (case exact of None \<Rightarrow> 29 | Some x \<Rightarrow> x)"
  shows "connect_inner (\<lambda>v. dial_server (srv v) (k v) caps scope v) caps scope
    = Inr \<lparr>c_msgs = [], c_fds = [], c_faults = [], c_sent = [hello_request caps scope agreed],
           c_caps = caps\<lparr>cap_query := True\<rparr>, c_lease = lease_of (srv agreed) (k agreed) caps,
           c_version = agreed, c_pending = []\<rparr>"
proof -
  let ?net = "\<lambda>v. dial_server (srv v) (k v) caps scope v"
  note shake = handshake_with_server [of "srv v" "k v" scope v caps for v]
  have le: "agreed \<le> 29" "24 \<le> agreed" using supported agreed by auto
  have speaks: "speaks exact v \<longleftrightarrow> (if exact = None then True else v = agreed)" if "v \<le> 29" for v
    using that agreed by (auto simp: speaks_def PROTOCOL_VERSION_def)
  have hs: "handshake (?net v) caps scope v
      = Inr (if speaks exact v then Inr \<lparr>c_msgs = [], c_fds = [], c_faults = [], c_sent = [hello_request caps scope v],
           c_caps = caps\<lparr>cap_query := True\<rparr>, c_lease = lease_of (srv v) (k v) caps, c_version = v, c_pending = []\<rparr>
         else Inl (Io_ConnectionRefused (''unsupported protocol version '' @ dec_nat (unat v))))" if "v \<le> 29" for v
    using shake [of v] server [of v] that by simp
  obtain v where v: "24 \<le> v" "v \<le> 29"
    and above: "\<forall>u. v < u \<and> u \<le> 29 \<longrightarrow> (\<exists>e. handshake (?net u) caps scope u = Inr (Inl e))"
    and res: "case connect_from ?net caps scope 29 of
          Inr c \<Rightarrow> handshake (?net v) caps scope v = Inr (Inr c)
        | Inl e \<Rightarrow> handshake (?net v) caps scope v = Inl e
                 \<or> v = 24 \<and> handshake (?net v) caps scope v = Inr (Inl e)"
    using connect_from_spec [of 29 ?net caps scope] by auto
  have "speaks exact agreed" using speaks [OF le(1)] by simp
  with above hs [OF le(1)] le have "\<not> v < agreed" by auto
  moreover have "v \<le> agreed"
  proof (cases "exact = None")
    case True
    with agreed v show ?thesis by simp
  next
    case False
    show ?thesis
    proof (rule ccontr)
      assume "\<not> v \<le> agreed"
      then have "\<not> speaks exact v" "v \<noteq> 24" using speaks [OF v(2)] False le by auto
      with res hs [OF v(2)] show False by (auto split: sum.splits)
    qed
  qed
  ultimately have "v = agreed" by simp
  with res hs [OF v(2)] \<open>speaks exact agreed\<close> show ?thesis
    by (auto simp: connect_inner_def PROTOCOL_VERSION_def split: sum.splits)
qed

end
