(* ===== verification/Portal_Capture.thy ===== *)
theory Portal_Capture
  imports Ipc_Client
begin

text \<open>
  The reconnecting capture client of \<open>crates/xdg-desktop-portal-atrium/src/ipc.rs\<close>. Its
  environment is what the successive connection attempts meet (\<open>pc_net\<close>), the successive
  readings of the monotonic clock in milliseconds (\<open>pc_clock\<close>), and the outcomes of the
  successive \<open>set_io_timeout\<close> calls (\<open>pc_timeouts\<close>). \<open>pc_log\<close> is a history variable: the
  requests of the connections that were dropped.
\<close>

definition LEASE_TTL_MS :: u64 where "LEASE_TTL_MS = 900000"

record portal_capture =
  pc_client :: "client option"
  pc_renewed_at :: nat
  pc_net :: "nat \<Rightarrow> u32 \<Rightarrow> dial"
  pc_attempts :: nat
  pc_clock :: "nat list"
  pc_timeouts :: "io_error option list"
  pc_log :: "request list"
  pc_negotiated :: "u32 option"

section \<open>The protocol cache\<close>

definition cached_protocol_version :: "portal_capture \<Rightarrow> u32" where
  "cached_protocol_version p =
     (case pc_negotiated p of None \<Rightarrow> MIN_PROTOCOL_VERSION | Some v \<Rightarrow> v)"

text \<open>\<open>OnceLock::set\<close>: the first value stays.\<close>

definition remember_protocol_version :: "u32 \<Rightarrow> portal_capture \<Rightarrow> portal_capture" where
  "remember_protocol_version v p =
     (case pc_negotiated p of None \<Rightarrow> p\<lparr>pc_negotiated := Some v\<rparr> | Some _ \<Rightarrow> p)"

section \<open>The environment\<close>

definition now :: "portal_capture \<Rightarrow> nat \<times> portal_capture" where
  "now p = (case pc_clock p of [] \<Rightarrow> (pc_renewed_at p, p) | t # ts \<Rightarrow> (t, p\<lparr>pc_clock := ts\<rparr>))"

definition set_io_timeout :: "portal_capture \<Rightarrow> (io_error + unit) \<times> portal_capture" where
  "set_io_timeout p =
     (case pc_timeouts p of
        [] \<Rightarrow> (Inr (), p)
      | None # fs \<Rightarrow> (Inr (), p\<lparr>pc_timeouts := fs\<rparr>)
      | Some e # fs \<Rightarrow> (Inl e, p\<lparr>pc_timeouts := fs\<rparr>))"

definition drop_client :: "portal_capture \<Rightarrow> portal_capture" where
  "drop_client p =
     p\<lparr>pc_client := None,
       pc_log := pc_log p @ (case pc_client p of None \<Rightarrow> [] | Some c \<Rightarrow> c_sent c)\<rparr>"

section \<open>Connecting\<close>

definition portal_caps :: connection_capabilities where
  "portal_caps = \<lparr>cap_query = True, cap_control = True, cap_input = False, cap_session = False,
                  cap_interaction_domain = False\<rparr>"

text \<open>\<open>timeout_fault\<close>: the outcome of the final \<open>set_io_timeout\<close> on the connected client.\<close>

definition connect_compositor :: "(u32 \<Rightarrow> dial) \<Rightarrow> io_error option \<Rightarrow> io_error + client" where
  "connect_compositor net timeout_fault =
     and_then (connect_inner net portal_caps (Some LOCAL_PORTAL_SCOPE))
       (\<lambda>client.
          if \<not> cap_control (c_caps client)
             \<or> \<not> (case c_lease client of None \<Rightarrow> False | Some lease \<Rightarrow> lg_renewable lease)
          then Inl Io_PermissionDenied
          else (case timeout_fault of Some e \<Rightarrow> Inl e | None \<Rightarrow> Inr client))"

definition pc_connect :: "portal_capture \<Rightarrow> (io_error + client) \<times> portal_capture" where
  "pc_connect p =
     (let net = pc_net p (pc_attempts p); p1 = p\<lparr>pc_attempts := Suc (pc_attempts p)\<rparr> in
      if is_ok (connect_compositor net None)
      then (case set_io_timeout p1 of
              (t, p2) \<Rightarrow>
                (connect_compositor net (case t of Inl e \<Rightarrow> Some e | Inr _ \<Rightarrow> None), p2))
      else (connect_compositor net None, p1))"

text \<open>The first half of \<open>PortalCapture::client\<close>: renew an ageing lease, or drop the client.\<close>

definition renew_if_due :: "portal_capture \<Rightarrow> portal_capture" where
  "renew_if_due p =
     (case pc_client p of
        None \<Rightarrow> p
      | Some c \<Rightarrow>
          (case now p of
             (t, p1) \<Rightarrow>
               if t - pc_renewed_at p1 < unat LEASE_TTL_MS div 2 then p1
               else (case renew_lease LEASE_TTL_MS c of
                       (Inr _, c') \<Rightarrow>
                         (case now (p1\<lparr>pc_client := Some c'\<rparr>) of
                            (t', p2) \<Rightarrow> p2\<lparr>pc_renewed_at := t'\<rparr>)
                     | (Inl _, c') \<Rightarrow> drop_client (p1\<lparr>pc_client := Some c'\<rparr>))))"

definition get_client :: "portal_capture \<Rightarrow> (io_error + client) \<times> portal_capture" where
  "get_client p =
     (case (if pc_client p = None then (Inr (), p) else set_io_timeout p) of
        (Inl e, p1) \<Rightarrow> (Inl e, p1)
      | (Inr _, p1) \<Rightarrow>
          (let p2 = renew_if_due p1 in
           case pc_client p2 of
             Some c \<Rightarrow> (Inr c, p2)
           | None \<Rightarrow>
               (case pc_connect p2 of
                  (Inl e, p3) \<Rightarrow> (Inl e, p3)
                | (Inr c, p3) \<Rightarrow>
                    (case now (p3\<lparr>pc_client := Some c\<rparr>) of
                       (t, p4) \<Rightarrow> (Inr c, p4\<lparr>pc_renewed_at := t\<rparr>)))))"

section \<open>Operations\<close>

text \<open>One call on the live client.\<close>

definition on_client ::
  "(client \<Rightarrow> (io_error + 'a) \<times> client) \<Rightarrow> portal_capture \<Rightarrow> (io_error + 'a) \<times> portal_capture" where
  "on_client call p =
     (case get_client p of
        (Inl e, p1) \<Rightarrow> (Inl e, p1)
      | (Inr c, p1) \<Rightarrow> (case call c of (r, c') \<Rightarrow> (r, p1\<lparr>pc_client := Some c'\<rparr>)))"

text \<open>
  The retry discipline of the non-interactive operations: a client that cannot be obtained
  is an error; a failed call drops the client, reconnects and is tried once more.
\<close>

definition with_retry ::
  "(client \<Rightarrow> (io_error + 'a) \<times> client) \<Rightarrow> portal_capture \<Rightarrow> (io_error + 'a) \<times> portal_capture" where
  "with_retry call p =
     (case get_client p of
        (Inl e, p1) \<Rightarrow> (Inl e, p1)
      | (Inr c, p1) \<Rightarrow>
          (case call c of
             (Inr x, c') \<Rightarrow> (Inr x, p1\<lparr>pc_client := Some c'\<rparr>)
           | (Inl _, c') \<Rightarrow> on_client call (drop_client (p1\<lparr>pc_client := Some c'\<rparr>))))"

definition png_of :: "io_error + u32 \<times> u32 \<times> u8 list \<Rightarrow> io_error + u8 list" where
  "png_of r = and_then r (\<lambda>(w, h, png). Inr png)"

definition capture_png :: "portal_capture \<Rightarrow> (io_error + u8 list) \<times> portal_capture" where
  "capture_png p = (case with_retry capture_output p of (r, p') \<Rightarrow> (png_of r, p'))"

definition capture_region_png :: "rect \<Rightarrow> portal_capture \<Rightarrow> (io_error + u8 list) \<times> portal_capture" where
  "capture_region_png region p =
     (case with_retry (capture_output_region (Some region)) p of (r, p') \<Rightarrow> (png_of r, p'))"

definition pc_protocol_version :: "portal_capture \<Rightarrow> (io_error + u32) \<times> portal_capture" where
  "pc_protocol_version p =
     (case get_client p of
        (Inl e, p1) \<Rightarrow> (Inl e, p1)
      | (Inr c, p1) \<Rightarrow> (Inr (c_version c), remember_protocol_version (c_version c) p1))"

definition pc_enumerate_outputs :: "portal_capture \<Rightarrow> (io_error + output_info list) \<times> portal_capture" where
  "pc_enumerate_outputs = with_retry Ipc_Client.enumerate_outputs"

text \<open>The interactive operations: the longer timeout is set first, and nothing is retried.\<close>

definition interactive ::
  "(client \<Rightarrow> (io_error + 'a) \<times> client) \<Rightarrow> portal_capture \<Rightarrow> (io_error + 'a) \<times> portal_capture" where
  "interactive call p =
     (case get_client p of
        (Inl e, p1) \<Rightarrow> (Inl e, p1)
      | (Inr c, p1) \<Rightarrow>
          (case set_io_timeout p1 of
             (Inl e, p2) \<Rightarrow> (Inl e, p2)
           | (Inr _, p2) \<Rightarrow> (case call c of (r, c') \<Rightarrow> (r, p2\<lparr>pc_client := Some c'\<rparr>))))"

definition pick :: "pick_kind \<Rightarrow> portal_capture \<Rightarrow> (io_error + pick_result) \<times> portal_capture" where
  "pick kind = interactive (pick_target kind)"

definition pc_pick_confirm ::
  "string \<Rightarrow> string \<Rightarrow> string option \<Rightarrow> portal_capture
     \<Rightarrow> (io_error + confirm_pick_result) \<times> portal_capture" where
  "pc_pick_confirm title body accept_label = interactive (pick_confirm title body accept_label)"

text \<open>\<open>ipc::set_wallpaper\<close>: a connection per call; \<open>nets\<close> and \<open>faults\<close> are what the two
  possible connections meet.\<close>

definition set_wallpaper_retry ::
  "(nat \<Rightarrow> u32 \<Rightarrow> dial) \<Rightarrow> (nat \<Rightarrow> io_error option) \<Rightarrow> string \<Rightarrow> io_error + unit" where
  "set_wallpaper_retry nets faults staged =
     (case connect_compositor (nets 0) (faults 0) of
        Inl e \<Rightarrow> Inl e
      | Inr c \<Rightarrow>
          (case set_wallpaper staged c of
             (Inr _, _) \<Rightarrow> Inr ()
           | (Inl _, _) \<Rightarrow>
               and_then (connect_compositor (nets 1) (faults 1)) (\<lambda>c2. fst (set_wallpaper staged c2))))"

section \<open>What goes over the wire\<close>

text \<open>Every request the capture client has sent, over all its connections.\<close>

definition all_sent :: "portal_capture \<Rightarrow> request list" where
  "all_sent p = pc_log p @ (case pc_client p of None \<Rightarrow> [] | Some c \<Rightarrow> c_sent c)"

definition is_prompt :: "request \<Rightarrow> bool" where
  "is_prompt q \<longleftrightarrow> (\<exists>t b a. q = Req_PickConfirm t b a) \<or> (\<exists>k. q = Req_PickTarget k)"

text \<open>The consent and pick dialogs the compositor was asked to show, in order.\<close>

definition prompts_asked :: "portal_capture \<Rightarrow> request list" where
  "prompts_asked p = filter is_prompt (all_sent p)"

lemma is_prompt_simps [simp]:
  "is_prompt (Req_PickConfirm t b a)" "is_prompt (Req_PickTarget k)"
  "\<not> is_prompt (Req_RenewLease ttl)" "\<not> is_prompt Req_EnumerateOutputs"
  "\<not> is_prompt (Req_CaptureOutput region)" "\<not> is_prompt (Req_Hello v caps scope lease)"
  by (auto simp: is_prompt_def)

lemma write_req_grows:
  "write_req q c = (r, c') \<Longrightarrow> c_caps c' = c_caps c
     \<and> c_sent c' = c_sent c @ (if is_ok r then [q] else [])"
  by (auto simp: write_req_def split: list.splits option.splits)

lemma read_response_keeps:
  "read_response c = (r, c') \<Longrightarrow> c_caps c' = c_caps c \<and> c_sent c' = c_sent c"
  by (auto simp: read_response_def read_value_def split: list.splits prod.splits)

text \<open>A call sends its request at most once, and an answer means it was sent.\<close>

definition sends_once :: "request \<Rightarrow> (client \<Rightarrow> (io_error + 'a) \<times> client) \<Rightarrow> bool" where
  "sends_once q call \<longleftrightarrow>
     (\<forall>c r c'. call c = (r, c') \<longrightarrow> c_caps c' = c_caps c
        \<and> ((c_sent c' = c_sent c \<and> \<not> is_ok r) \<or> c_sent c' = c_sent c @ [q]))"

lemma request_reply_sends_once:
  assumes "\<And>resp c res. accept resp c = Some res
      \<Longrightarrow> c_caps (snd res) = c_caps c \<and> c_sent (snd res) = c_sent c"
  shows "sends_once q (request_reply q accept)"
  unfolding sends_once_def
proof (intro allI impI)
  fix c r c'
  assume call: "request_reply q accept c = (r, c')"
  obtain w c1 where w: "write_req q c = (w, c1)" by fastforce
  show "c_caps c' = c_caps c
      \<and> ((c_sent c' = c_sent c \<and> \<not> is_ok r) \<or> c_sent c' = c_sent c @ [q])"
  proof (cases w)
    case (Inl e)
    with call w write_req_grows [OF w] show ?thesis by (auto simp: request_reply_def)
  next
    case (Inr u)
    obtain s c2 where s: "read_response c1 = (s, c2)" by fastforce
    have "c_caps c' = c_caps c2 \<and> c_sent c' = c_sent c2"
      using call w s Inr assms
      by (fastforce simp: request_reply_def split: sum.splits option.splits response.splits)
    with read_response_keeps [OF s] write_req_grows [OF w] Inr show ?thesis by simp
  qed
qed

lemma receive_blob_keeps:
  "receive_blob n c = (r, c') \<Longrightarrow> c_caps c' = c_caps c \<and> c_sent c' = c_sent c"
  by (auto simp: receive_blob_def receive_memfd_file_def receive_validated_fd_def receive_fd_def
      split: sum.splits prod.splits list.splits option.splits if_splits)

lemma client_calls_send_once:
  "sends_once (Req_RenewLease ttl) (renew_lease ttl)"
  "sends_once Req_EnumerateOutputs Ipc_Client.enumerate_outputs"
  "sends_once (Req_CaptureOutput region) (capture_output_region region)"
  "sends_once (Req_PickTarget kind) (pick_target kind)"
  "sends_once (Req_PickConfirm t b a) (pick_confirm t b a)"
  unfolding renew_lease_def Ipc_Client.enumerate_outputs_def capture_output_region_def
    pick_target_def pick_confirm_def
  by (rule request_reply_sends_once;
      auto split: response.splits prod.splits sum.splits dest: receive_blob_keeps)+

lemma connect_from_hello:
  "connect_from net caps scope v = Inr c \<Longrightarrow> \<exists>u. c_sent c = [hello_request caps scope u]"
proof (induction net caps scope v rule: connect_from.induct)
  case (1 net caps scope v)
  then show ?case
    by (subst (asm) connect_from.simps)
      (auto simp: handshake_def split: sum.splits option.splits response.splits if_splits)
qed

text \<open>A connection in use was granted scoped control under the portal's own scope.\<close>

definition scoped_client :: "client \<Rightarrow> bool" where
  "scoped_client c \<longleftrightarrow> cap_control (c_caps c)
     \<and> (\<exists>v rest. c_sent c
           = Req_Hello v portal_caps (Some LOCAL_PORTAL_SCOPE) (Some lease_request_default) # rest)"

lemma connect_compositor_scoped:
  assumes "connect_compositor net tf = Inr c"
  shows "scoped_client c"
    and "\<exists>lease. c_lease c = Some lease \<and> lg_renewable lease"
    and "filter is_prompt (c_sent c) = []"
  using assms connect_from_hello [of net portal_caps "Some LOCAL_PORTAL_SCOPE" PROTOCOL_VERSION c]
  by (auto simp: connect_compositor_def connect_inner_def scoped_client_def hello_request_def
      privileged_def portal_caps_def split: option.splits if_splits)

lemma env_frame [frame_simps]:
  "now p = (t, p') \<Longrightarrow> pc_client p' = pc_client p \<and> pc_log p' = pc_log p"
  "set_io_timeout p = (r, p') \<Longrightarrow> pc_client p' = pc_client p \<and> pc_log p' = pc_log p"
  by (auto simp: now_def set_io_timeout_def split: list.splits option.splits)

definition capture_inv :: "portal_capture \<Rightarrow> bool" where
  "capture_inv p \<longleftrightarrow> (case pc_client p of None \<Rightarrow> True | Some c \<Rightarrow> scoped_client c)"

lemma sends_onceD:
  assumes "sends_once q call" and "call c = (r, c')"
  shows "scoped_client c \<Longrightarrow> scoped_client c'"
    and "is_ok r \<Longrightarrow> c_sent c' = c_sent c @ [q]"
    and "c_sent c' = c_sent c \<or> c_sent c' = c_sent c @ [q]"
  using assms by (fastforce simp: sends_once_def scoped_client_def)+

lemma drop_client_frame [simp]:
  "capture_inv (drop_client p)" "all_sent (drop_client p) = all_sent p" "pc_client (drop_client p) = None"
  "pc_log (drop_client p) = pc_log p @ (case pc_client p of None \<Rightarrow> [] | Some c \<Rightarrow> c_sent c)"
  by (auto simp: drop_client_def capture_inv_def all_sent_def split: option.splits)

text \<open>Putting the client of a finished call back.\<close>

lemma put_back:
  assumes "sends_once q call" and "call c = (r, c')"
    and "pc_client p = Some c" and "capture_inv p"
  shows "capture_inv (p\<lparr>pc_client := Some c'\<rparr>)"
    and "all_sent (p\<lparr>pc_client := Some c'\<rparr>) = all_sent p
       \<or> all_sent (p\<lparr>pc_client := Some c'\<rparr>) = all_sent p @ [q]"
    and "is_ok r \<Longrightarrow> all_sent (p\<lparr>pc_client := Some c'\<rparr>) = all_sent p @ [q]"
  using sends_onceD [OF assms(1,2)] assms(3,4) by (auto simp: capture_inv_def all_sent_def)

lemma renew_if_due_frame:
  assumes "capture_inv p"
  shows "capture_inv (renew_if_due p) \<and> prompts_asked (renew_if_due p) = prompts_asked p"
proof (cases "pc_client p")
  case None
  with assms show ?thesis by (simp add: renew_if_due_def)
next
  case (Some c)
  obtain t p1 where n: "now p = (t, p1)" by fastforce
  obtain r c' where call: "renew_lease LEASE_TTL_MS c = (r, c')" by fastforce
  have p1: "pc_client p1 = Some c" "capture_inv p1" "all_sent p1 = all_sent p"
    using env_frame(1) [OF n] Some assms by (auto simp: capture_inv_def all_sent_def)
  note put = put_back [OF client_calls_send_once(1) call p1(1,2)]
  show ?thesis
    using put p1 assms
    by (auto simp: renew_if_due_def Some n call prompts_asked_def capture_inv_def all_sent_def
        dest!: env_frame split: sum.splits prod.splits)
qed

lemma get_client_frame:
  assumes "capture_inv p" and "get_client p = (r, p')"
  shows "capture_inv p' \<and> prompts_asked p' = prompts_asked p
      \<and> (\<forall>c. r = Inr c \<longrightarrow> pc_client p' = Some c)"
proof -
  obtain t p1 where t: "(if pc_client p = None then (Inr (), p) else set_io_timeout p) = (t, p1)"
    by fastforce
  have p1: "capture_inv p1" "prompts_asked p1 = prompts_asked p"
    using t assms(1)
    by (auto simp: capture_inv_def prompts_asked_def all_sent_def dest!: env_frame split: if_splits)
  note p2 = renew_if_due_frame [OF p1(1)]
  show ?thesis
  proof (cases "\<exists>e. t = Inl e \<or> pc_client (renew_if_due p1) \<noteq> None")
    case True
    with assms(2) t p1 p2 show ?thesis
      by (auto simp: get_client_def Let_def split: sum.splits)
  next
    case False
    then have none: "pc_client (renew_if_due p1) = None" and tr: "t = Inr ()"
      by (cases t; auto)+
    obtain s p3 where c: "pc_connect (renew_if_due p1) = (s, p3)" by fastforce
    have p3: "pc_client p3 = None" "pc_log p3 = pc_log (renew_if_due p1)"
      using c none by (auto simp: pc_connect_def Let_def dest!: env_frame split: if_splits prod.splits)
    have conn: "scoped_client cl \<and> filter is_prompt (c_sent cl) = []" if "s = Inr cl" for cl
      using c that connect_compositor_scoped
      by (auto simp: pc_connect_def Let_def split: if_splits prod.splits)
    show ?thesis
      using assms(2) t p1 p2 p3 conn
      by (auto simp: get_client_def Let_def none tr c capture_inv_def prompts_asked_def all_sent_def
          dest!: env_frame split: sum.splits prod.splits)
  qed
qed

lemma interactive_frame:
  assumes "capture_inv p" and "sends_once q call" and "interactive call p = (r, p')"
  shows "capture_inv p' \<and> prompts_asked p' \<in> {prompts_asked p, prompts_asked p @ filter is_prompt [q]}
      \<and> (is_ok r \<longrightarrow> prompts_asked p' = prompts_asked p @ filter is_prompt [q])"
proof -
  obtain g p1 where g: "get_client p = (g, p1)" by fastforce
  note p1 = get_client_frame [OF assms(1) g]
  show ?thesis
  proof (cases g)
    case (Inl e)
    with assms(3) g p1 show ?thesis by (auto simp: interactive_def)
  next
    case (Inr c)
    obtain t p2 where t: "set_io_timeout p1 = (t, p2)" by fastforce
    obtain s c' where call: "call c = (s, c')" by fastforce
    have p2: "pc_client p2 = Some c" "capture_inv p2" "prompts_asked p2 = prompts_asked p"
      using env_frame(2) [OF t] p1 Inr by (auto simp: capture_inv_def all_sent_def prompts_asked_def)
    note put = put_back [OF assms(2) call p2(1,2)]
    show ?thesis
      using assms(3) p2 put
      by (cases t) (auto simp: interactive_def g Inr t call prompts_asked_def)
  qed
qed

lemma on_client_frame:
  assumes "capture_inv p" and "sends_once q call" and "\<not> is_prompt q" and "on_client call p = (r, p')"
  shows "capture_inv p' \<and> prompts_asked p' = prompts_asked p"
proof -
  obtain g p1 where g: "get_client p = (g, p1)" by fastforce
  note p1 = get_client_frame [OF assms(1) g]
  show ?thesis
  proof (cases g)
    case (Inl e)
    with assms(4) g p1 show ?thesis by (auto simp: on_client_def)
  next
    case (Inr c)
    obtain s c' where call: "call c = (s, c')" by fastforce
    from p1 Inr have "pc_client p1 = Some c" "capture_inv p1" by auto
    from put_back [OF assms(2) call this] assms(3,4) p1 show ?thesis
      by (auto simp: on_client_def g Inr call prompts_asked_def)
  qed
qed

lemma with_retry_frame:
  assumes "capture_inv p" and "sends_once q call" and "\<not> is_prompt q" and "with_retry call p = (r, p')"
  shows "capture_inv p' \<and> prompts_asked p' = prompts_asked p"
proof -
  obtain g p1 where g: "get_client p = (g, p1)" by fastforce
  note p1 = get_client_frame [OF assms(1) g]
  show ?thesis
  proof (cases g)
    case (Inl e)
    with assms(4) g p1 show ?thesis by (auto simp: with_retry_def)
  next
    case (Inr c)
    obtain s c' where call: "call c = (s, c')" by fastforce
    let ?p2 = "p1\<lparr>pc_client := Some c'\<rparr>"
    from p1 Inr have "pc_client p1 = Some c" "capture_inv p1" by auto
    from put_back [OF assms(2) call this] assms(3) p1
    have p2: "capture_inv ?p2" "prompts_asked ?p2 = prompts_asked p"
      by (auto simp: prompts_asked_def)
    have "on_client call (drop_client ?p2) = (r, p') \<or> p' = ?p2"
      using assms(4) by (auto simp: with_retry_def g Inr call split: sum.splits)
    with p2 on_client_frame [OF _ assms(2,3), of "drop_client ?p2" r p'] show ?thesis
      by (auto simp: prompts_asked_def)
  qed
qed

text \<open>The capture operations as the client of the screencast worker sees them.\<close>

lemma capture_ops_frame [frame_simps]:
  assumes "capture_inv p"
  shows "pc_protocol_version p = (v, p') \<Longrightarrow> capture_inv p' \<and> prompts_asked p' = prompts_asked p"
    and "pc_enumerate_outputs p = (outs, p') \<Longrightarrow> capture_inv p' \<and> prompts_asked p' = prompts_asked p"
proof -
  assume "pc_protocol_version p = (v, p')"
  then show "capture_inv p' \<and> prompts_asked p' = prompts_asked p"
    using get_client_frame [OF assms]
    by (fastforce simp: pc_protocol_version_def remember_protocol_version_def capture_inv_def
        prompts_asked_def all_sent_def split: sum.splits prod.splits option.splits)
next
  assume "pc_enumerate_outputs p = (outs, p')"
  then show "capture_inv p' \<and> prompts_asked p' = prompts_asked p"
    unfolding pc_enumerate_outputs_def
    by (rule with_retry_frame [OF assms client_calls_send_once(2), rotated]) simp
qed

text \<open>A failed non-interactive call is repeated on a fresh connection, and only then.\<close>

lemma with_retry_ok_or_twice:
  assumes "with_retry call p = (r, p')"
  shows "(\<exists>c p1. get_client p = (Inr c, p1) \<and> fst (call c) = r)
      \<or> (\<exists>c p1 c2 p2 d. get_client p = (Inr c, p1) \<and> \<not> is_ok (fst (call c))
           \<and> get_client (drop_client d) = (Inr c2, p2) \<and> fst (call c2) = r)
      \<or> \<not> is_ok r"
  using assms
  by (fastforce simp: with_retry_def on_client_def split: prod.splits sum.splits)

section \<open>Properties\<close>

text \<open>C7: the consent question is put to the user at most once per call, is never repeated
  after a failure, goes only to a connection that was granted scoped control under the
  portal's own scope, and an answer is only returned when exactly this question was asked.\<close>

theorem consent_is_asked_once:
  assumes "capture_inv p" and "pc_pick_confirm title body accept p = (r, p')"
  shows "capture_inv p'
     \<and> prompts_asked p' \<in> {prompts_asked p, prompts_asked p @ [Req_PickConfirm title body accept]}
     \<and> (is_ok r \<longrightarrow> prompts_asked p' = prompts_asked p @ [Req_PickConfirm title body accept])"
  using interactive_frame [OF assms(1) client_calls_send_once(5) assms(2) [unfolded pc_pick_confirm_def]]
  by simp

text \<open>A compositor at protocol 29 that grants the lease and then sends \<open>replies\<close>.\<close>

definition granting_dial :: "u32 \<Rightarrow> response list \<Rightarrow> dial" where
  "granting_dial v replies =
     \<lparr>d_connect = None, d_timeout = None, d_write = None,
      d_reply = Inr (Msg_Response (Resp_Hello v portal_caps
                  (Some \<lparr>lg_id = 1, lg_ttl_ms = 900000, lg_renewable = True\<rparr>))),
      d_msgs = map (\<lambda>r. Inr (Msg_Response r)) replies, d_fds = [], d_faults = []\<rparr>"

definition capture_new :: "(nat \<Rightarrow> u32 \<Rightarrow> dial) \<Rightarrow> portal_capture" where
  "capture_new net =
     \<lparr>pc_client = None, pc_renewed_at = 0, pc_net = net, pc_attempts = 0, pc_clock = [],
      pc_timeouts = [], pc_log = [], pc_negotiated = None\<rparr>"

lemma capture_new_inv [simp]: "capture_inv (capture_new net)" "prompts_asked (capture_new net) = []"
  by (simp_all add: capture_inv_def capture_new_def prompts_asked_def all_sent_def)

lemma capture_new_timeouts [simp]: "pc_timeouts (capture_new net) = []"
  by (simp add: capture_new_def)

lemma connect_granting [simp]:
  "connect_compositor (\<lambda>_. granting_dial 29 rs) None
     = Inr \<lparr>c_msgs = map (\<lambda>r. Inr (Msg_Response r)) rs, c_fds = [], c_faults = [],
            c_sent = [hello_request portal_caps (Some LOCAL_PORTAL_SCOPE) 29], c_caps = portal_caps,
            c_lease = Some \<lparr>lg_id = 1, lg_ttl_ms = 900000, lg_renewable = True\<rparr>,
            c_version = 29, c_pending = []\<rparr>"
  by (subst connect_compositor_def, subst connect_inner_def, subst connect_from.simps)
    (simp add: handshake_def granting_dial_def PROTOCOL_VERSION_def portal_caps_def)

lemma get_client_new:
  "get_client (capture_new (\<lambda>_ _. granting_dial 29 rs)) =
     (connect_compositor (\<lambda>_. granting_dial 29 rs) None,
      capture_new (\<lambda>_ _. granting_dial 29 rs)
        \<lparr>pc_client := (case connect_compositor (\<lambda>_. granting_dial 29 rs) None of
                         Inl _ \<Rightarrow> None | Inr c \<Rightarrow> Some c), pc_attempts := 1\<rparr>)"
  by (simp add: get_client_def capture_new_def renew_if_due_def pc_connect_def set_io_timeout_def
      now_def)

theorem consent_is_asked_once_witness:
  "\<exists>p'. pc_pick_confirm ''t'' ''b'' None
           (capture_new (\<lambda>_ _. granting_dial 29 [Resp_ConfirmPicked Confirm_Confirmed]))
         = (Inr Confirm_Confirmed, p')
      \<and> prompts_asked p' = [Req_PickConfirm ''t'' ''b'' None]"
proof -
  let ?p = "capture_new (\<lambda>_ _. granting_dial 29 [Resp_ConfirmPicked Confirm_Confirmed])"
  obtain p' where p': "pc_pick_confirm ''t'' ''b'' None ?p = (Inr Confirm_Confirmed, p')"
    by (simp add: pc_pick_confirm_def interactive_def get_client_new set_io_timeout_def
        pick_confirm_def request_reply_def write_req_def read_response_def read_value_def)
  with consent_is_asked_once [OF _ p'] show ?thesis by simp
qed

end
