(* ===== verification/Restore_Store.thy ===== *)
theory Restore_Store
  imports Prelude
begin

text \<open>
  ScreenCast restore tokens, \<open>crates/xdg-desktop-portal-atrium/src/persist.rs\<close>: mode-1
  tokens on disk, mode-2 tokens in memory under the caller's bus name. The store file is
  what \<open>read_store\<close> can observe of it: its type, its length and what the JSON parser
  makes of its bytes. The length of an encoding (\<open>enc_len\<close>) and the fault of an atomic
  write are parameters.
\<close>

definition MAX_STORE_BYTES :: nat where "MAX_STORE_BYTES = 1024 * 1024"
definition MAX_DISK_TOKENS :: nat where "MAX_DISK_TOKENS = 64"
definition MAX_MEMORY_TOKENS_PER_OWNER :: nat where "MAX_MEMORY_TOKENS_PER_OWNER = 16"
definition STORE_VERSION :: u32 where "STORE_VERSION = 1"

datatype stored_source = Stored_Desktop | Stored_Output string

record stored_selection =
  sl_app_id :: string
  sl_source :: stored_source
  sl_cursor_mode :: u32

record stored_entry =
  se_token :: string
  se_selection :: stored_selection

record disk_store =
  ds_version :: u32
  ds_tokens :: "stored_entry list"

record store_file =
  fl_regular :: bool
  fl_len :: nat
  fl_parsed :: "disk_store option"

record restore_store =
  rs_data_dir :: "string option"
  rs_disk :: "stored_entry list"
  rs_memory :: "(string \<times> stored_entry list) list"

section \<open>Tokens\<close>

definition hex_digit :: "nat \<Rightarrow> char" where
  "hex_digit n = (if n < 10 then char_of (48 + n) else char_of (87 + n))"

definition hex_byte :: "u8 \<Rightarrow> string" where
  "hex_byte b = [hex_digit (unat b div 16), hex_digit (unat b mod 16)]"

text \<open>\<open>random_token\<close> over the sixteen random bytes.\<close>

definition random_token :: "u8 list \<Rightarrow> string" where
  "random_token bytes = concat (map hex_byte bytes)"

section \<open>The store\<close>

definition read_store :: "store_file option \<Rightarrow> stored_entry list option" where
  "read_store fl =
     (case fl of
        None \<Rightarrow> None
      | Some f \<Rightarrow>
          if \<not> fl_regular f \<or> MAX_STORE_BYTES < fl_len f then None
          else (case fl_parsed f of
                  None \<Rightarrow> None
                | Some store \<Rightarrow> if ds_version store \<noteq> STORE_VERSION then None
                                else Some (ds_tokens store)))"

definition load_store :: "string option \<Rightarrow> store_file option \<Rightarrow> restore_store" where
  "load_store data_dir fl =
     \<lparr>rs_data_dir = data_dir,
      rs_disk = (case data_dir of
                   None \<Rightarrow> []
                 | Some _ \<Rightarrow> (case read_store fl of None \<Rightarrow> [] | Some ts \<Rightarrow> ts)),
      rs_memory = []\<rparr>"

definition write_disk ::
  "(disk_store \<Rightarrow> nat) \<Rightarrow> io_error option \<Rightarrow> restore_store \<Rightarrow> store_file option
     \<Rightarrow> (io_error + unit) \<times> store_file option" where
  "write_disk enc_len fault st fl =
     (case rs_data_dir st of
        None \<Rightarrow> (Inl Io_NotFound, fl)
      | Some _ \<Rightarrow>
          (let store = \<lparr>ds_version = STORE_VERSION, ds_tokens = rs_disk st\<rparr> in
           case fault of
             Some e \<Rightarrow> (Inl e, fl)
           | None \<Rightarrow> (Inr (), Some \<lparr>fl_regular = True, fl_len = enc_len store,
                                    fl_parsed = Some store\<rparr>)))"

definition issue ::
  "(disk_store \<Rightarrow> nat) \<Rightarrow> io_error option \<Rightarrow> u8 list \<Rightarrow> u32 \<Rightarrow> string \<Rightarrow> stored_selection
     \<Rightarrow> restore_store \<Rightarrow> store_file option \<Rightarrow> string option \<times> restore_store \<times> store_file option" where
  "issue enc_len fault rnd mode owner selection st fl =
     (let token = random_token rnd;
          entry = \<lparr>se_token = token, se_selection = selection\<rparr> in
      if mode = 1 then
        (if rs_data_dir st = None then (None, st, fl)
         else (let st' = st\<lparr>rs_disk := keep_newest MAX_DISK_TOKENS (rs_disk st @ [entry])\<rparr> in
               (Some token, st', snd (write_disk enc_len fault st' fl))))
      else if mode = 2 then
        (if owner = [] then (None, st, fl)
         else (let entries = (case map_of (rs_memory st) owner of None \<Rightarrow> [] | Some es \<Rightarrow> es) in
               (Some token,
                st\<lparr>rs_memory := AList.update owner
                     (keep_newest MAX_MEMORY_TOKENS_PER_OWNER (entries @ [entry])) (rs_memory st)\<rparr>,
                fl)))
      else (None, st, fl))"

definition find_token :: "string \<Rightarrow> stored_entry list \<Rightarrow> stored_entry option" where
  "find_token token es = List.find (\<lambda>e. se_token e = token) es"

definition memory_entries :: "restore_store \<Rightarrow> stored_entry list" where
  "memory_entries st = concat (map snd (rs_memory st))"

definition validate_token ::
  "string \<Rightarrow> string \<Rightarrow> (stored_source \<Rightarrow> bool) \<Rightarrow> restore_store \<Rightarrow> (u32 \<times> stored_selection) option" where
  "validate_token token app_id servable st =
     (case find_token token (memory_entries st) of
        Some e \<Rightarrow>
          (if sl_app_id (se_selection e) = app_id \<and> servable (sl_source (se_selection e))
           then Some (2, se_selection e) else None)
      | None \<Rightarrow>
          (case find_token token (rs_disk st) of
             Some e \<Rightarrow>
               (if sl_app_id (se_selection e) = app_id \<and> servable (sl_source (se_selection e))
                then Some (1, se_selection e) else None)
           | None \<Rightarrow> None))"

definition drop_owner :: "string \<Rightarrow> restore_store \<Rightarrow> restore_store" where
  "drop_owner owner st = st\<lparr>rs_memory := AList.delete owner (rs_memory st)\<rparr>"

definition prune ::
  "(disk_store \<Rightarrow> nat) \<Rightarrow> io_error option \<Rightarrow> (stored_source \<Rightarrow> bool) \<Rightarrow> restore_store
     \<Rightarrow> store_file option \<Rightarrow> restore_store \<times> store_file option" where
  "prune enc_len fault servable st fl =
     (let kept = filter (\<lambda>e. servable (sl_source (se_selection e))) (rs_disk st);
          st' = st\<lparr>rs_disk := kept\<rparr> in
      (st', if length kept \<noteq> length (rs_disk st)
            then snd (write_disk enc_len fault st' fl) else fl))"

section \<open>Steps and bounds\<close>

datatype store_op =
    Store_Issue "disk_store \<Rightarrow> nat" "io_error option" "u8 list" u32 string stored_selection
  | Store_Drop_Owner string
  | Store_Prune "disk_store \<Rightarrow> nat" "io_error option" "stored_source \<Rightarrow> bool"

fun store_step :: "store_op \<Rightarrow> restore_store \<times> store_file option \<Rightarrow> restore_store \<times> store_file option" where
  "store_step (Store_Issue el fault rnd mode owner sel) (st, fl) =
     snd (issue el fault rnd mode owner sel st fl)"
| "store_step (Store_Drop_Owner owner) (st, fl) = (drop_owner owner st, fl)"
| "store_step (Store_Prune el fault servable) (st, fl) = prune el fault servable st fl"

definition owners_bounded :: "restore_store \<times> store_file option \<Rightarrow> bool" where
  "owners_bounded w \<longleftrightarrow> keys_distinct (rs_memory (fst w))
     \<and> (\<forall>es \<in> snd ` set (rs_memory (fst w)). length es \<le> MAX_MEMORY_TOKENS_PER_OWNER)"

lemma set_alist_update: "set (AList.update k v m) \<subseteq> insert (k, v) (set m)"
  by (induction m) auto

lemma set_delete_subset: "set (AList.delete k m) \<subseteq> set m"
  by (auto simp: AList.delete_eq)

lemma store_step_owners: "owners_bounded w \<Longrightarrow> owners_bounded (store_step op w)"
proof (cases w; cases op)
  fix st fl el fault rnd mode owner sel
  assume inv: "owners_bounded w" and w: "w = (st, fl)"
    and op: "op = Store_Issue el fault rnd mode owner sel"
  show "owners_bounded (store_step op w)"
    using inv set_alist_update
    by (fastforce simp: w op owners_bounded_def issue_def Let_def MAX_MEMORY_TOKENS_PER_OWNER_def
        split: option.splits)
next
  fix st fl owner
  assume "owners_bounded w" "w = (st, fl)" "op = Store_Drop_Owner owner"
  then show "owners_bounded (store_step op w)"
    using set_delete_subset by (fastforce simp: owners_bounded_def drop_owner_def)
next
  fix st fl el fault servable
  assume "owners_bounded w" "w = (st, fl)" "op = Store_Prune el fault servable"
  then show "owners_bounded (store_step op w)"
    by (auto simp: owners_bounded_def prune_def Let_def)
qed

interpretation tokens: capped_store store_step owners_bounded "\<lambda>w. length (rs_disk (fst w))"
    MAX_DISK_TOKENS
proof unfold_locales
  fix w :: "restore_store \<times> store_file option" and op
  assume "length (rs_disk (fst w)) \<le> MAX_DISK_TOKENS"
  then show "length (rs_disk (fst (store_step op w))) \<le> MAX_DISK_TOKENS"
    by (cases w; cases op)
      (auto simp: issue_def prune_def drop_owner_def Let_def
        intro: order_trans [OF length_filter_le])
qed (rule store_step_owners)

section \<open>Hex tokens\<close>

lemma hex_digit_inj: "m < 16 \<Longrightarrow> n < 16 \<Longrightarrow> hex_digit m = hex_digit n \<longleftrightarrow> m = n"
  by (auto simp: hex_digit_def char_of_eq_iff take_bit_nat_eq_self split: if_splits)

lemma unat_u8_bound: "unat (b :: u8) < 256"
  by (rule order_less_le_trans [OF unsigned_less]) simp

lemma hex_byte_inj: "hex_byte a = hex_byte b \<longleftrightarrow> a = b"
proof
  assume "hex_byte a = hex_byte b"
  then have "unat a div 16 = unat b div 16" "unat a mod 16 = unat b mod 16"
    using unat_u8_bound [of a] unat_u8_bound [of b]
    by (auto simp: hex_byte_def hex_digit_inj less_mult_imp_div_less)
  then have "unat a = unat b" by (metis div_mult_mod_eq)
  then show "a = b" by (rule unsigned_word_eqI)
qed simp

lemma length_hex_byte [simp]: "length (hex_byte b) = 2"
  by (simp add: hex_byte_def)

lemma random_token_length: "length (random_token bytes) = 2 * length bytes"
  by (induction bytes) (auto simp: random_token_def)

lemma random_token_inj: "random_token xs = random_token ys \<longleftrightarrow> xs = ys"
proof (induction xs arbitrary: ys)
  case Nil
  show ?case by (cases ys) (auto simp: random_token_def hex_byte_def)
next
  case (Cons x xs)
  show ?case
  proof (cases ys)
    case Nil
    then show ?thesis by (simp add: random_token_def hex_byte_def)
  next
    case (Cons y ys')
    with Cons.IH [of ys'] show ?thesis
      by (simp add: random_token_def append_eq_append_conv hex_byte_inj)
  qed
qed

section \<open>Looking tokens up\<close>

lemma find_token_None: "find_token t es = None \<longleftrightarrow> t \<notin> se_token ` set es"
  by (auto simp: find_token_def find_None_iff)

lemma find_token_append:
  "find_token t (xs @ ys) = (case find_token t xs of Some e \<Rightarrow> Some e | None \<Rightarrow> find_token t ys)"
  by (induction xs) (auto simp: find_token_def)

lemma find_token_keep_newest:
  assumes "t \<notin> se_token ` set es" and "0 < cap"
  shows "find_token t (keep_newest cap (es @ [\<lparr>se_token = t, se_selection = s\<rparr>]))
       = Some \<lparr>se_token = t, se_selection = s\<rparr>"
proof -
  have "\<exists>pre. keep_newest cap (es @ [\<lparr>se_token = t, se_selection = s\<rparr>])
      = pre @ [\<lparr>se_token = t, se_selection = s\<rparr>] \<and> set pre \<subseteq> set es"
    using assms(2) set_drop_subset [of _ es]
    by (auto simp: keep_newest_def)
  then obtain pre where "keep_newest cap (es @ [\<lparr>se_token = t, se_selection = s\<rparr>])
      = pre @ [\<lparr>se_token = t, se_selection = s\<rparr>]" "set pre \<subseteq> set es" by blast
  with assms(1) have "find_token t pre = None" by (auto simp: find_token_None)
  with \<open>keep_newest _ _ = _\<close> show ?thesis
    by (simp add: find_token_append) (simp add: find_token_def)
qed

text \<open>Issuing puts the fresh token where \<open>validate_token\<close> finds it.\<close>

lemma validate_after_issue_disk:
  assumes "rs_data_dir st \<noteq> None"
    and "random_token rnd \<notin> se_token ` set (memory_entries st @ rs_disk st)"
    and "issue el fault rnd 1 owner sel st fl = (Some tok, st', fl')"
  shows "tok = random_token rnd"
    and "validate_token tok app servable st'
       = (if sl_app_id sel = app \<and> servable (sl_source sel) then Some (1, sel) else None)"
proof -
  let ?e = "\<lparr>se_token = random_token rnd, se_selection = sel\<rparr>"
  have disk: "find_token (random_token rnd) (keep_newest MAX_DISK_TOKENS (rs_disk st @ [?e])) = Some ?e"
    using assms(2) by (intro find_token_keep_newest) (auto simp: MAX_DISK_TOKENS_def)
  have mem: "find_token (random_token rnd) (memory_entries st) = None"
    using assms(2) by (auto simp: find_token_None)
  from assms(1,3) show "tok = random_token rnd"
    by (auto simp: issue_def Let_def)
  from assms(1,3) have "st' = st\<lparr>rs_disk := keep_newest MAX_DISK_TOKENS (rs_disk st @ [?e])\<rparr>"
    by (auto simp: issue_def Let_def)
  with disk mem \<open>tok = random_token rnd\<close> show "validate_token tok app servable st'
       = (if sl_app_id sel = app \<and> servable (sl_source sel) then Some (1, sel) else None)"
    by (simp add: validate_token_def memory_entries_def)
qed

section \<open>Properties\<close>


definition sample_selection :: stored_selection where
  "sample_selection = \<lparr>sl_app_id = ''org.x'', sl_source = Stored_Desktop, sl_cursor_mode = 1\<rparr>"


lemma find_token_update:
  "t \<notin> se_token ` set (concat (map snd m)) \<Longrightarrow> find_token t new = Some e \<Longrightarrow>
     find_token t (concat (map snd (AList.update k new m))) = Some e"
proof (induction m)
  case Nil
  then show ?case by simp
next
  case (Cons p m)
  then have "find_token t (snd p) = None" by (simp add: find_token_None image_Un)
  with Cons show ?case by (cases p) (auto simp: find_token_append image_Un)
qed

text \<open>C26: a mode-2 token is valid, for its application, only until the caller's bus name
  vanishes.\<close>

theorem memory_token_dies_with_owner:
  assumes "random_token rnd \<notin> se_token ` set (memory_entries st @ rs_disk st)"
    and "keys_distinct (rs_memory st)"
    and "issue enc_len fault rnd 2 owner sel st fl = (Some tok, st', fl')"
  shows "validate_token tok app servable st'
       = (if sl_app_id sel = app \<and> servable (sl_source sel) then Some (2, sel) else None)
     \<and> validate_token tok app servable (drop_owner owner st') = None"
proof -
  let ?e = "\<lparr>se_token = random_token rnd, se_selection = sel\<rparr>"
  let ?es = "case map_of (rs_memory st) owner of None \<Rightarrow> [] | Some es \<Rightarrow> es"
  let ?new = "keep_newest MAX_MEMORY_TOKENS_PER_OWNER (?es @ [?e])"
  from assms(3) have tok: "tok = random_token rnd"
    and st': "st' = st\<lparr>rs_memory := AList.update owner ?new (rs_memory st)\<rparr>"
    by (auto simp: issue_def Let_def split: if_splits)
  have sub: "set ?es \<subseteq> set (memory_entries st)"
    by (cases "map_of (rs_memory st) owner") (force simp: memory_entries_def dest: map_of_SomeD)+
  have in_new: "find_token tok ?new = Some ?e"
    unfolding tok using assms(1) sub
    by (intro find_token_keep_newest) (auto simp: MAX_MEMORY_TOKENS_PER_OWNER_def)
  have one: "find_token tok (memory_entries st') = Some ?e"
    using find_token_update [OF _ in_new, of "rs_memory st"] assms(1)
    by (simp add: st' tok memory_entries_def image_Un)
  have gone: "tok \<notin> se_token ` set (memory_entries (drop_owner owner st'))"
    using assms(1) tok by (auto simp: st' drop_owner_def memory_entries_def AList.delete_eq
        dest!: subsetD [OF set_alist_update])
  have disk: "tok \<notin> se_token ` set (rs_disk st')" using assms(1) by (auto simp: st' tok)
  have "find_token tok (memory_entries (drop_owner owner st')) = None"
    "find_token tok (rs_disk (drop_owner owner st')) = None"
    using gone disk by (auto simp: find_token_None drop_owner_def)
  with one show ?thesis by (simp add: validate_token_def)
qed

theorem memory_token_dies_with_owner_witness:
  "\<exists>tok st' fl'. issue (\<lambda>_. 100) None [1, 2] 2 '':1.5'' sample_selection (load_store None None) None
       = (Some tok, st', fl')
     \<and> validate_token tok ''org.x'' (\<lambda>_. True) st' = Some (2, sample_selection)
     \<and> validate_token tok ''org.x'' (\<lambda>_. True) (drop_owner '':1.5'' st') = None"
proof -
  let ?st = "load_store None None"
  have fresh: "random_token [1, 2] \<notin> se_token ` set (memory_entries ?st @ rs_disk ?st)"
    by (simp add: load_store_def memory_entries_def)
  have keys: "keys_distinct (rs_memory ?st)" by (simp add: load_store_def)
  obtain tok st' fl' where i: "issue (\<lambda>_. 100) None [1, 2] 2 '':1.5'' sample_selection ?st None
      = (Some tok, st', fl')"
    by (simp add: issue_def Let_def)
  from memory_token_dies_with_owner [OF fresh keys i, of "''org.x''" "\<lambda>_. True"] i show ?thesis
    by (auto simp: sample_selection_def)
qed

text \<open>However tokens are issued, dropped and pruned, the disk store keeps at most 64 of them
  and every bus name at most 16.\<close>

theorem token_store_is_bounded:
  assumes "length (rs_disk st) \<le> 64" and "rs_memory st = []"
  shows "length (rs_disk (fst (fold store_step ops (st, fl)))) \<le> 64
     \<and> (\<forall>(owner, es) \<in> set (rs_memory (fst (fold store_step ops (st, fl)))). length es \<le> 16)"
proof -
  have wf: "owners_bounded (st, fl)" using assms(2) by (simp add: owners_bounded_def)
  have "length (rs_disk (fst (fold store_step ops (st, fl)))) \<le> MAX_DISK_TOKENS"
    using tokens.run_cap [OF wf] assms(1) by (simp add: MAX_DISK_TOKENS_def)
  moreover have "owners_bounded (fold store_step ops (st, fl))" by (rule tokens.run_wf [OF wf])
  ultimately show ?thesis
    by (auto simp: owners_bounded_def MAX_DISK_TOKENS_def MAX_MEMORY_TOKENS_PER_OWNER_def)
qed

theorem token_store_is_bounded_witness:
  "length (rs_disk (fst (fold store_step
     [Store_Issue (\<lambda>_. 100) None [1] 1 '':1.5'' sample_selection, Store_Drop_Owner '':1.5'']
     (load_store (Some ''/d'') None, None)))) \<le> 64"
  by (rule token_store_is_bounded [THEN conjunct1]) (simp_all add: load_store_def read_store_def)

end
