(* ===== verification/Prompter_Contract.thy ===== *)
theory Prompter_Contract
  imports Prelude Ipc_Schema
begin

text \<open>
  The process contract of the one-shot prompter, \<open>crates/atrium-portal-prompter/src/lib.rs\<close>:
  the versioned envelopes, the validation of every request kind before a dialog is shown,
  the validation of every response against its request, and the \<open>SaveFiles\<close> naming. A
  \<open>String\<close> or a \<open>BytePath\<close> is its list of bytes. Error messages are constructors that keep
  the fixed part of the message; whether a path is occupied is a parameter, the answer of
  \<open>symlink_metadata\<close>.
\<close>

definition PROCESS_CONTRACT_VERSION :: u32 where "PROCESS_CONTRACT_VERSION = 6"
definition MAX_PROMPT_TEXT_BYTES :: nat where "MAX_PROMPT_TEXT_BYTES = 16 * 1024"
definition MAX_CHOOSE_APP_CANDIDATES :: nat where "MAX_CHOOSE_APP_CANDIDATES = 64"
definition MAX_CHOOSE_SOURCE_OPTIONS :: nat where "MAX_CHOOSE_SOURCE_OPTIONS = 16"
definition MAX_LAUNCHER_NAME_BYTES :: nat where "MAX_LAUNCHER_NAME_BYTES = 1024"

datatype contract_error =
    Ce_Text string
  | Ce_Accent
  | Ce_Version u32
  | Ce_Count nat
  | Ce_Empty string
  | Ce_Duplicate string
  | Ce_Unknown_Value string string
  | Ce_Not_Offered string
  | Ce_Answers
  | Ce_Remember
  | Ce_Launcher_Name
  | Ce_Path string
  | Ce_Files
  | Ce_Filter
  | Ce_Kind
  | Ce_Message string
  | Ce_Exhausted string

section \<open>Text\<close>

text \<open>
  \<open>value.trim().is_empty()\<close> on UTF-8 bytes: every character has the Unicode White_Space
  property.
\<close>

definition byte_of :: "char \<Rightarrow> nat" where
  "byte_of c = of_char c"

definition white1 :: "char \<Rightarrow> bool" where
  "white1 c \<longleftrightarrow> byte_of c \<in> {9, 10, 11, 12, 13, 32}"

definition white2 :: "char \<Rightarrow> char \<Rightarrow> bool" where
  "white2 c d \<longleftrightarrow> byte_of c = 0xC2 \<and> byte_of d \<in> {0x85, 0xA0}"

definition white3 :: "char \<Rightarrow> char \<Rightarrow> char \<Rightarrow> bool" where
  "white3 c d e \<longleftrightarrow>
     (byte_of c, byte_of d, byte_of e) \<in> {(0xE1, 0x9A, 0x80), (0xE2, 0x81, 0x9F), (0xE3, 0x80, 0x80)}
     \<or> byte_of c = 0xE2 \<and> byte_of d = 0x80
        \<and> (0x80 \<le> byte_of e \<and> byte_of e \<le> 0x8A \<or> byte_of e \<in> {0xA8, 0xA9, 0xAF})"

fun only_white :: "string \<Rightarrow> bool" where
  "only_white [] = True"
| "only_white (c # cs) =
     (if white1 c then only_white cs
      else (case cs of
              [] \<Rightarrow> False
            | d # ds \<Rightarrow>
                if white2 c d then only_white ds
                else (case ds of [] \<Rightarrow> False | e # es \<Rightarrow> white3 c d e \<and> only_white es)))"

definition validate_prompt_text :: "string \<Rightarrow> string \<Rightarrow> bool \<Rightarrow> contract_error + unit" where
  "validate_prompt_text name value allow_empty =
     guard ((\<not> allow_empty \<and> only_white value) \<or> MAX_PROMPT_TEXT_BYTES < length value
            \<or> CHR 0x00 \<in> set value) (Ce_Text name)"

section \<open>Appearance\<close>

datatype prompt_color_scheme = Prompt_System | Prompt_Dark | Prompt_Light

record prompt_appearance =
  pa_color_scheme :: prompt_color_scheme
  pa_accent_color :: "accent_color option"
  pa_high_contrast :: bool
  pa_reduced_motion :: bool

definition validate_appearance :: "prompt_appearance \<Rightarrow> contract_error + unit" where
  "validate_appearance a =
     check_opt (\<lambda>c. guard (ac_red c = 0 \<and> ac_green c = 0 \<and> ac_blue c = 0) Ce_Accent) (pa_accent_color a)"

section \<open>Choices\<close>

record choice =
  ch_id :: string
  ch_label :: string
  ch_options :: "(string \<times> string) list"
  ch_selected :: string

definition check_choice :: "choice \<Rightarrow> contract_error + unit" where
  "check_choice c =
     then_check (guard (list_ex (\<lambda>(i, l). i = [] \<or> l = []) (ch_options c)) (Ce_Empty (ch_id c)))
      (then_check (guard (\<not> distinct (map fst (ch_options c))) (Ce_Duplicate (ch_id c)))
        (if ch_options c = []
         then guard (ch_selected c \<notin> {'''', ''true'', ''false''})
                (Ce_Unknown_Value (ch_id c) (ch_selected c))
         else guard (ch_selected c \<noteq> [] \<and> ch_selected c \<notin> fst ` set (ch_options c))
                (Ce_Unknown_Value (ch_id c) (ch_selected c))))"

definition validate_choices :: "choice list \<Rightarrow> contract_error + unit" where
  "validate_choices cs =
     check_fresh ch_id (\<lambda>c. guard (ch_id c = [] \<or> ch_label c = []) (Ce_Empty (ch_id c)))
       (\<lambda>c. Ce_Duplicate (ch_id c)) check_choice [] cs"

definition valid_answer :: "choice \<Rightarrow> string \<Rightarrow> bool" where
  "valid_answer c selected \<longleftrightarrow>
     (if ch_options c = [] then selected \<in> {''true'', ''false''}
      else selected \<in> fst ` set (ch_options c))"

fun check_answers :: "(string \<times> string) list \<Rightarrow> choice list \<Rightarrow> contract_error + unit" where
  "check_answers ((i, selected) # as) (c # cs) =
     then_check (guard (i \<noteq> ch_id c) (Ce_Not_Offered i))
      (then_check (guard (\<not> valid_answer c selected) (Ce_Unknown_Value i selected))
        (check_answers as cs))"
| "check_answers _ _ = Inr ()"

definition validate_choice_answers ::
  "(string \<times> string) list \<Rightarrow> choice list \<Rightarrow> contract_error + unit" where
  "validate_choice_answers answers cs =
     then_check (guard (length answers \<noteq> length cs) Ce_Answers) (check_answers answers cs)"

section \<open>Confirm and secret\<close>

record confirm_request =
  cr_title :: string
  cr_body :: string
  cr_accept_label :: "string option"
  cr_deny_label :: "string option"
  cr_modal :: bool
  cr_parent_window :: "string option"

definition validate_confirm :: "confirm_request \<Rightarrow> contract_error + unit" where
  "validate_confirm r =
     then_check (validate_prompt_text ''confirmation title'' (cr_title r) False)
      (then_check (validate_prompt_text ''confirmation body'' (cr_body r) False)
      (then_check (check_opt (\<lambda>l. validate_prompt_text ''confirmation accept label'' l False)
                    (cr_accept_label r))
      (then_check (check_opt (\<lambda>l. validate_prompt_text ''confirmation deny label'' l True)
                    (cr_deny_label r))
        (check_opt (\<lambda>w. validate_prompt_text ''confirmation parent window'' w True)
          (cr_parent_window r)))))"

datatype confirm_response = Confirm_Yes | Confirm_No

record secret_request =
  sr_title :: string
  sr_reason :: "string option"

definition validate_secret :: "secret_request \<Rightarrow> contract_error + unit" where
  "validate_secret r =
     then_check (validate_prompt_text ''secret title'' (sr_title r) False)
       (check_opt (\<lambda>x. validate_prompt_text ''secret reason'' x True) (sr_reason r))"

datatype secret_response = Secret_Value string | Secret_Cancelled

text \<open>\<open>take_value\<close> leaves an empty value behind.\<close>

fun take_value :: "secret_response \<Rightarrow> string option \<times> secret_response" where
  "take_value (Secret_Value v) = (Some v, Secret_Value [])"
| "take_value Secret_Cancelled = (None, Secret_Cancelled)"

section \<open>Application chooser\<close>

record app_choice =
  app_id_of :: string
  app_name :: string
  app_icon :: "string option"

record choose_app_request =
  ca_app_id :: string
  ca_title :: string
  ca_content_type :: string
  ca_parent_window :: "string option"
  ca_apps :: "app_choice list"
  ca_choices :: "choice list"

text \<open>The id rule shared by offered applications and sources.\<close>

definition bad_id :: "string \<Rightarrow> bool" where
  "bad_id i \<longleftrightarrow> i = [] \<or> MAX_PROMPT_TEXT_BYTES < length i \<or> CHR 0x00 \<in> set i"

definition validate_choose_app :: "choose_app_request \<Rightarrow> contract_error + unit" where
  "validate_choose_app r =
     then_check (validate_prompt_text ''app chooser title'' (ca_title r) False)
      (then_check (validate_prompt_text ''app chooser content type'' (ca_content_type r) False)
      (then_check (check_opt (\<lambda>w. validate_prompt_text ''app chooser parent window'' w True)
                    (ca_parent_window r))
      (then_check (guard (ca_apps r = [] \<or> MAX_CHOOSE_APP_CANDIDATES < length (ca_apps r))
                    (Ce_Count (length (ca_apps r))))
      (then_check (check_fresh app_id_of (\<lambda>a. guard (bad_id (app_id_of a)) (Ce_Empty (app_id_of a)))
                    (\<lambda>a. Ce_Duplicate (app_id_of a))
                    (\<lambda>a. then_check (validate_prompt_text ''app name'' (app_name a) False)
                          (check_opt (\<lambda>i. validate_prompt_text ''app icon'' i True) (app_icon a)))
                    [] (ca_apps r))
        (validate_choices (ca_choices r))))))"

datatype choose_app_response = App_Selected string "(string \<times> string) list" | App_Cancelled

fun app_answer_valid :: "choose_app_response \<Rightarrow> choose_app_request \<Rightarrow> contract_error + unit" where
  "app_answer_valid (App_Selected app answers) r =
     then_check (guard (app \<notin> app_id_of ` set (ca_apps r)) (Ce_Not_Offered app))
       (validate_choice_answers answers (ca_choices r))"
| "app_answer_valid App_Cancelled r = Inr ()"

section \<open>Source chooser\<close>

record source_choice =
  sc_id :: string
  sc_label :: string
  sc_description :: "string option"

record choose_source_request =
  cq_app_id :: string
  cq_title :: string
  cq_options :: "source_choice list"
  cq_remember_offered :: bool
  cq_parent_window :: "string option"

definition validate_choose_source :: "choose_source_request \<Rightarrow> contract_error + unit" where
  "validate_choose_source r =
     then_check (validate_prompt_text ''source chooser title'' (cq_title r) False)
      (then_check (check_opt (\<lambda>w. validate_prompt_text ''source chooser parent window'' w True)
                    (cq_parent_window r))
      (then_check (guard (cq_options r = [] \<or> MAX_CHOOSE_SOURCE_OPTIONS < length (cq_options r))
                    (Ce_Count (length (cq_options r))))
        (check_fresh sc_id (\<lambda>x. guard (bad_id (sc_id x)) (Ce_Empty (sc_id x)))
          (\<lambda>x. Ce_Duplicate (sc_id x))
          (\<lambda>x. then_check (validate_prompt_text ''source label'' (sc_label x) False)
                (check_opt (\<lambda>d. validate_prompt_text ''source description'' d True)
                  (sc_description x)))
          [] (cq_options r))))"

datatype choose_source_response = Source_Selected string bool | Source_Cancelled

fun source_answer_valid ::
  "choose_source_response \<Rightarrow> choose_source_request \<Rightarrow> contract_error + unit" where
  "source_answer_valid (Source_Selected source remember) r =
     then_check (guard (source \<notin> sc_id ` set (cq_options r)) (Ce_Not_Offered source))
       (guard (remember \<and> \<not> cq_remember_offered r) Ce_Remember)"
| "source_answer_valid Source_Cancelled r = Inr ()"

section \<open>Launcher editor\<close>

record launcher_edit_request =
  le_app_id :: string
  le_title :: string
  le_name :: string
  le_editable_name :: bool
  le_target :: "string option"
  le_icon_label :: "string option"
  le_modal :: bool
  le_parent_window :: "string option"

definition validate_launcher_edit :: "launcher_edit_request \<Rightarrow> contract_error + unit" where
  "validate_launcher_edit r =
     then_check (validate_prompt_text ''launcher editor title'' (le_title r) False)
      (then_check (guard (MAX_LAUNCHER_NAME_BYTES < length (le_name r) \<or> CHR 0x00 \<in> set (le_name r))
                    Ce_Launcher_Name)
      (then_check (guard (\<not> le_editable_name r \<and> only_white (le_name r)) Ce_Launcher_Name)
      (then_check (check_opt (\<lambda>t. validate_prompt_text ''launcher target'' t False) (le_target r))
      (then_check (check_opt (\<lambda>l. validate_prompt_text ''launcher icon label'' l False)
                    (le_icon_label r))
        (check_opt (\<lambda>w. validate_prompt_text ''launcher parent window'' w True)
          (le_parent_window r))))))"

datatype launcher_edit_response = Launcher_Saved string | Launcher_Cancelled

fun launcher_answer_valid ::
  "launcher_edit_response \<Rightarrow> launcher_edit_request \<Rightarrow> contract_error + unit" where
  "launcher_answer_valid (Launcher_Saved name) r =
     then_check (guard (only_white name \<or> MAX_LAUNCHER_NAME_BYTES < length name
                        \<or> CHR 0x00 \<in> set name) Ce_Launcher_Name)
       (guard (\<not> le_editable_name r \<and> name \<noteq> le_name r) Ce_Launcher_Name)"
| "launcher_answer_valid Launcher_Cancelled r = Inr ()"

section \<open>File chooser\<close>

datatype file_chooser_mode = Open_File | Open_Directory | Save_File | Save_Files
datatype filter_rule_kind = Rule_Glob | Rule_Mime

record filter_rule =
  fr_kind :: filter_rule_kind
  fr_value :: string

record file_filter =
  ff_label :: string
  ff_rules :: "filter_rule list"

record file_chooser_request =
  fc_mode :: file_chooser_mode
  fc_app_id :: string
  fc_title :: string
  fc_accept_label :: "string option"
  fc_modal :: bool
  fc_parent_window :: "string option"
  fc_multiple :: bool
  fc_current_folder :: "string option"
  fc_current_name :: "string option"
  fc_current_file :: "string option"
  fc_filters :: "file_filter list"
  fc_current_filter :: "file_filter option"
  fc_choices :: "choice list"
  fc_files :: "string list"

datatype file_chooser_response =
    Files_Selected "string list" "file_filter option" "(string \<times> string) list"
  | Files_Cancelled
  | Files_Failed string

definition validate_basename :: "string \<Rightarrow> contract_error + unit" where
  "validate_basename path =
     then_check (guard (CHR 0x00 \<in> set path) (Ce_Path path))
       (case path_components path of
          [Normal_Comp name] \<Rightarrow> guard (name = []) (Ce_Path path)
        | _ \<Rightarrow> Inl (Ce_Path path))"

definition validate_absolute_path :: "string \<Rightarrow> contract_error + unit" where
  "validate_absolute_path path =
     guard (\<not> path_is_absolute path \<or> CHR 0x00 \<in> set path) (Ce_Path path)"

definition validate_file_chooser :: "file_chooser_request \<Rightarrow> contract_error + unit" where
  "validate_file_chooser r =
     then_check (check_opt validate_absolute_path (fc_current_folder r))
      (then_check (check_opt validate_absolute_path (fc_current_file r))
      (then_check (guard (fc_mode r \<noteq> Save_Files \<and> fc_files r \<noteq> []) Ce_Files)
      (then_check (guard (fc_mode r = Save_Files \<and> fc_files r = []) Ce_Files)
      (then_check (check_all validate_basename (fc_files r))
      (then_check (check_all (\<lambda>f. guard (ff_label f = [] \<or> list_ex (\<lambda>x. fr_value x = []) (ff_rules f))
                                Ce_Filter)
                    (fc_filters r @ (case fc_current_filter r of None \<Rightarrow> [] | Some f \<Rightarrow> [f])))
        (validate_choices (fc_choices r)))))))"

fun expected_paths :: "file_chooser_request \<Rightarrow> nat option" where
  "expected_paths r =
     (case fc_mode r of
        Save_File \<Rightarrow> Some 1
      | Save_Files \<Rightarrow> Some (length (fc_files r))
      | _ \<Rightarrow> if fc_multiple r then None else Some 1)"

fun files_answer_valid ::
  "file_chooser_response \<Rightarrow> file_chooser_request \<Rightarrow> contract_error + unit" where
  "files_answer_valid (Files_Selected paths current answers) r =
     then_check (guard (paths = [] \<or> (case expected_paths r of None \<Rightarrow> False
                                        | Some n \<Rightarrow> length paths \<noteq> n)) (Ce_Count (length paths)))
      (then_check (check_all (\<lambda>p. guard (\<not> path_is_absolute p \<or> CHR 0x00 \<in> set p) (Ce_Path p)) paths)
      (then_check (check_opt (\<lambda>f. guard (\<not> (f \<in> set (fc_filters r)
                                        \<or> fc_filters r = [] \<and> fc_current_filter r = Some f))
                                Ce_Filter) current)
        (validate_choice_answers answers (fc_choices r))))"
| "files_answer_valid _ r = Inr ()"

subsection \<open>SaveFiles naming\<close>

text \<open>\<open>Path::join\<close>.\<close>

definition path_join :: "string \<Rightarrow> string \<Rightarrow> string" where
  "path_join folder name =
     (if path_is_absolute name then name
      else if folder = [] \<or> last folder = CHR ''/'' then folder @ name
      else folder @ ''/'' @ name)"

definition split_extension :: "string \<Rightarrow> string \<times> string option" where
  "split_extension name =
     (let ext = length (takeWhile (\<lambda>c. c \<noteq> CHR ''.'') (rev name)) in
      if ext = length name then (name, None)
      else let dot = length name - ext - 1 in
           if dot = 0 \<or> dot + 1 = length name then (name, None)
           else (take dot name, Some (drop (dot + 1) name)))"

definition suffixed :: "string \<Rightarrow> nat \<Rightarrow> string" where
  "suffixed name k =
     (case split_extension name of
        (stem, ext) \<Rightarrow> stem @ ''('' @ dec_nat k @ '')''
          @ (case ext of None \<Rightarrow> [] | Some e \<Rightarrow> ''.'' @ e))"

text \<open>Membership in the \<open>HashSet\<close> of reserved paths: \<open>Path\<close> equality compares components.\<close>

definition taken :: "(string \<Rightarrow> bool) \<Rightarrow> string list \<Rightarrow> string \<Rightarrow> bool" where
  "taken occupied reserved p \<longleftrightarrow> path_components p \<in> path_components ` set reserved \<or> occupied p"

definition u32_max :: nat where "u32_max = 4294967295"

text \<open>The loop \<open>for suffix in 1..=u32::MAX\<close>.\<close>

function first_free :: "(string \<Rightarrow> bool) \<Rightarrow> string list \<Rightarrow> string \<Rightarrow> string \<Rightarrow> nat \<Rightarrow> string option" where
  "first_free occupied reserved folder name k =
     (if u32_max < k then None
      else let candidate = path_join folder (suffixed name k) in
           if taken occupied reserved candidate then first_free occupied reserved folder name (k + 1)
           else Some candidate)"
  by pat_completeness auto
termination
  by (relation "measure (\<lambda>(_, _, _, _, k). Suc u32_max - k)") auto

declare first_free.simps [simp del]

definition unique_child ::
  "(string \<Rightarrow> bool) \<Rightarrow> string list \<Rightarrow> string \<Rightarrow> string \<Rightarrow> contract_error + string" where
  "unique_child occupied reserved folder name =
     then_check (validate_basename name)
       (let candidate = path_join folder name in
        if \<not> taken occupied reserved candidate then Inr candidate
        else (case first_free occupied reserved folder name 1 of
                Some p \<Rightarrow> Inr p
              | None \<Rightarrow> Inl (Ce_Exhausted name)))"

fun save_paths ::
  "(string \<Rightarrow> bool) \<Rightarrow> string \<Rightarrow> string list \<Rightarrow> string list \<Rightarrow> contract_error + string list" where
  "save_paths occupied folder reserved [] = Inr []"
| "save_paths occupied folder reserved (name # names) =
     and_then (unique_child occupied reserved folder name)
       (\<lambda>p. and_then (save_paths occupied folder (p # reserved) names) (\<lambda>ps. Inr (p # ps)))"

definition finish_paths ::
  "(string \<Rightarrow> bool) \<Rightarrow> file_chooser_request \<Rightarrow> string list \<Rightarrow> contract_error + string list" where
  "finish_paths occupied r selected =
     (if fc_mode r \<noteq> Save_Files then Inr selected
      else (case selected of
              [] \<Rightarrow> Inl Ce_Files
            | folder # _ \<Rightarrow> save_paths occupied folder [] (fc_files r)))"

section \<open>Envelopes\<close>

datatype prompt_request =
    Ask_Files file_chooser_request
  | Ask_Confirm confirm_request
  | Ask_Secret secret_request
  | Ask_App choose_app_request
  | Ask_Source choose_source_request
  | Ask_Launcher launcher_edit_request

fun validate_prompt :: "prompt_request \<Rightarrow> contract_error + unit" where
  "validate_prompt (Ask_Files r) = validate_file_chooser r"
| "validate_prompt (Ask_Confirm r) = validate_confirm r"
| "validate_prompt (Ask_Secret r) = validate_secret r"
| "validate_prompt (Ask_App r) = validate_choose_app r"
| "validate_prompt (Ask_Source r) = validate_choose_source r"
| "validate_prompt (Ask_Launcher r) = validate_launcher_edit r"

record prompter_request =
  pq_version :: u32
  pq_prompt :: prompt_request
  pq_appearance :: "prompt_appearance option"

text \<open>The constructors \<open>file_chooser\<close>, \<open>confirm\<close>, \<open>secret\<close>, .. differ in the prompt only.\<close>

definition prompter_request_new :: "prompt_request \<Rightarrow> prompter_request" where
  "prompter_request_new prompt =
     \<lparr>pq_version = PROCESS_CONTRACT_VERSION, pq_prompt = prompt, pq_appearance = None\<rparr>"

definition with_appearance :: "prompt_appearance \<Rightarrow> prompter_request \<Rightarrow> prompter_request" where
  "with_appearance a r = r\<lparr>pq_appearance := Some a\<rparr>"

definition validate_request :: "prompter_request \<Rightarrow> contract_error + unit" where
  "validate_request r =
     then_check (guard (pq_version r \<noteq> PROCESS_CONTRACT_VERSION) (Ce_Version (pq_version r)))
      (then_check (check_opt validate_appearance (pq_appearance r))
        (validate_prompt (pq_prompt r)))"

definition into_prompt :: "prompter_request \<Rightarrow> contract_error + prompt_request" where
  "into_prompt r = then_check (validate_request r) (Inr (pq_prompt r))"

definition request_into_file_chooser :: "prompter_request \<Rightarrow> contract_error + file_chooser_request" where
  "request_into_file_chooser r =
     and_then (into_prompt r) (\<lambda>p. case p of Ask_Files f \<Rightarrow> Inr f | _ \<Rightarrow> Inl Ce_Kind)"

datatype prompt_result =
    Result_Files file_chooser_response
  | Result_Confirm confirm_response
  | Result_Secret secret_response
  | Result_App choose_app_response
  | Result_Source choose_source_response
  | Result_Launcher launcher_edit_response
  | Result_Failed string

record prompter_response =
  ps_version :: u32
  ps_result :: prompt_result

definition prompter_response_new :: "prompt_result \<Rightarrow> prompter_response" where
  "prompter_response_new result = \<lparr>ps_version = PROCESS_CONTRACT_VERSION, ps_result = result\<rparr>"

definition into_result :: "prompter_response \<Rightarrow> contract_error + prompt_result" where
  "into_result r =
     then_check (guard (ps_version r \<noteq> PROCESS_CONTRACT_VERSION) (Ce_Version (ps_version r)))
       (Inr (ps_result r))"

definition response_into_file_chooser :: "prompter_response \<Rightarrow> contract_error + file_chooser_response" where
  "response_into_file_chooser r =
     and_then (into_result r)
       (\<lambda>p. case p of Result_Files f \<Rightarrow> Inr f
                    | Result_Failed message \<Rightarrow> Inl (Ce_Message message)
                    | _ \<Rightarrow> Inl Ce_Kind)"

section \<open>Answers\<close>

lemma check_answers_ok:
  "length answers = length cs \<Longrightarrow>
   is_ok (check_answers answers cs) \<longleftrightarrow>
     list_all2 (\<lambda>(i, selected) c. i = ch_id c \<and> valid_answer c selected) answers cs"
  by (induction answers cs rule: check_answers.induct) auto

lemma validate_choice_answers_ok:
  "is_ok (validate_choice_answers answers cs) \<longleftrightarrow>
     list_all2 (\<lambda>(i, selected) c. i = ch_id c \<and> valid_answer c selected) answers cs"
proof (cases "length answers = length cs")
  case True
  then show ?thesis by (simp add: validate_choice_answers_def check_answers_ok)
next
  case False
  then show ?thesis by (auto simp: validate_choice_answers_def dest: list_all2_lengthD)
qed

lemma validate_choose_source_ok:
  "is_ok (validate_choose_source r) \<Longrightarrow>
     distinct (map sc_id (cq_options r)) \<and> cq_options r \<noteq> []
     \<and> length (cq_options r) \<le> MAX_CHOOSE_SOURCE_OPTIONS"
  by (simp add: validate_choose_source_def)

lemma source_answer_valid_ok:
  "is_ok (source_answer_valid (Source_Selected source remember) r) \<longleftrightarrow>
     source \<in> sc_id ` set (cq_options r) \<and> (remember \<longrightarrow> cq_remember_offered r)"
  by auto

section \<open>Names and paths\<close>

lemma take_rev_ext:
  assumes "length (takeWhile P (rev xs)) = n" and "n \<noteq> length xs"
  shows "take (length xs - n - 1) xs @ (xs ! (length xs - n - 1)) # drop (length xs - n) xs = xs"
    and "\<not> P (xs ! (length xs - n - 1))"
proof -
  have lt: "n < length xs"
    using assms length_takeWhile_le [of P "rev xs"] by simp
  then have "length xs - n - 1 < length xs" "Suc (length xs - n - 1) = length xs - n" by auto
  then show "take (length xs - n - 1) xs @ (xs ! (length xs - n - 1)) # drop (length xs - n) xs = xs"
    using id_take_nth_drop [of "length xs - n - 1" xs] by simp
  have "\<not> P (rev xs ! n)"
    using nth_length_takeWhile [of P "rev xs"] assms lt by simp
  then show "\<not> P (xs ! (length xs - n - 1))"
    using lt by (simp add: rev_nth)
qed

lemma split_extension_join:
  "split_extension name = (stem, ext) \<Longrightarrow>
     name = stem @ (case ext of None \<Rightarrow> [] | Some e \<Rightarrow> ''.'' @ e)"
proof -
  assume split: "split_extension name = (stem, ext)"
  let ?n = "length (takeWhile (\<lambda>c. c \<noteq> CHR ''.'') (rev name))"
  show ?thesis
  proof (cases "?n = length name")
    case True
    with split show ?thesis by (simp add: split_extension_def)
  next
    case False
    note parts = take_rev_ext [OF refl False]
    have "name ! (length name - ?n - 1) = CHR ''.''" using parts(2) by simp
    with parts(1) have "take (length name - ?n - 1) name @ CHR ''.'' # drop (length name - ?n) name = name"
      by metis
    moreover have "?n < length name"
      using False length_takeWhile_le [of "\<lambda>c. c \<noteq> CHR ''.''" "rev name"] by simp
    then have "Suc (length name - Suc ?n) = length name - ?n" by simp
    ultimately show ?thesis
      using split False by (auto simp: split_extension_def Let_def split: if_splits)
  qed
qed

lemma dec_nat_digits: "c \<in> set (dec_nat n) \<Longrightarrow> \<exists>d<10. c = char_of (48 + d :: nat)"
proof (induction n rule: dec_nat.induct)
  case (1 n)
  show ?case
  proof (cases "n < 10")
    case True
    with 1(2) show ?thesis by (subst (asm) dec_nat.simps) auto
  next
    case False
    with 1(2) have "c \<in> set (dec_nat (n div 10)) \<or> c = char_of (48 + n mod 10)"
      by (subst (asm) dec_nat.simps) auto
    with 1(1) [OF False] show ?thesis
      by (metis mod_less_divisor zero_less_numeral)
  qed
qed

lemma dec_nat_no_slash: "CHR ''/'' \<notin> set (dec_nat n)"
proof
  assume "CHR ''/'' \<in> set (dec_nat n)"
  then obtain d :: nat where "d < 10" "CHR ''/'' = char_of (48 + d)"
    using dec_nat_digits by blast
  then have "of_char (CHR ''/'') = (48 + d) mod 256" by (metis of_char_of)
  with \<open>d < 10\<close> show False by simp
qed

lemma split_slash_append:
  "split_slash acc (xs @ CHR ''/'' # ys) = split_slash acc xs @ split_slash [] ys"
  by (induction xs arbitrary: acc) auto

lemma split_slash_single: "CHR ''/'' \<notin> set xs \<Longrightarrow> split_slash acc xs = [rev acc @ xs]"
  by (induction xs arbitrary: acc) auto

lemma map_filter_append: "List.map_filter f (xs @ ys) = List.map_filter f xs @ List.map_filter f ys"
  by (simp add: List.map_filter_def)

text \<open>Joining a plain name onto an absolute folder adds exactly one component.\<close>

definition plain_name :: "string \<Rightarrow> bool" where
  "plain_name n \<longleftrightarrow> CHR ''/'' \<notin> set n \<and> n \<notin> {'''', ''.'', ''..''}"

lemma component_of_plain: "plain_name n \<Longrightarrow> component_of n = Some (Normal_Comp n)"
  by (simp add: plain_name_def component_of_def)

lemma path_components_join:
  assumes "path_is_absolute folder" and "plain_name n"
  shows "path_components (path_join folder n) = path_components folder @ [Normal_Comp n]"
proof -
  obtain rest where f: "folder = CHR ''/'' # rest"
    using assms(1) by (auto simp: path_is_absolute_def split: list.splits)
  have rel: "\<not> path_is_absolute n"
    using assms(2) by (auto simp: path_is_absolute_def plain_name_def split: list.splits)
  have single: "List.map_filter component_of (split_slash [] n) = [Normal_Comp n]"
    using assms(2) component_of_plain [OF assms(2)]
    by (simp add: split_slash_single plain_name_def List.map_filter_def)
  have empty: "List.map_filter component_of (split_slash [] []) = []"
    by (simp add: component_of_def List.map_filter_def)
  show ?thesis
  proof (cases "last folder = CHR ''/''")
    case False
    then show ?thesis
      using rel single
      by (simp add: f path_join_def path_components_def path_is_absolute_def split_slash_append
          map_filter_append)
  next
    case True
    show ?thesis
    proof (cases "rest = []")
      case True
      with rel single empty show ?thesis
        by (simp add: f path_join_def path_components_def path_is_absolute_def)
    next
      case False
      then obtain pre where pre: "rest = pre @ [CHR ''/'']"
        using True f by (metis append_butlast_last_id last_ConsR)
      show ?thesis
        using rel single empty
        by (simp add: f pre path_join_def path_components_def path_is_absolute_def
            split_slash_append map_filter_append)
    qed
  qed
qed

lemma plain_suffixed:
  assumes "plain_name n"
  shows "plain_name (suffixed n k)"
proof -
  obtain stem ext where se: "split_extension n = (stem, ext)" by fastforce
  have "CHR ''/'' \<notin> set n" using assms by (simp add: plain_name_def)
  with split_extension_join [OF se]
  have "CHR ''/'' \<notin> set stem" "\<forall>e. ext = Some e \<longrightarrow> CHR ''/'' \<notin> set e"
    by (auto split: option.splits)
  then have "CHR ''/'' \<notin> set (suffixed n k)"
    using dec_nat_no_slash by (auto simp: suffixed_def se split: option.splits)
  moreover have "CHR ''('' \<in> set (suffixed n k)"
    by (simp add: suffixed_def se)
  ultimately show ?thesis by (auto simp: plain_name_def)
qed

section \<open>What SaveFiles returns\<close>

lemma first_free_SomeD:
  "first_free occupied reserved folder name k = Some p \<Longrightarrow>
     \<exists>j \<ge> k. j \<le> u32_max \<and> p = path_join folder (suffixed name j)
       \<and> \<not> taken occupied reserved p
       \<and> (\<forall>i. k \<le> i \<and> i < j \<longrightarrow> taken occupied reserved (path_join folder (suffixed name i)))"
proof (induction occupied reserved folder name k rule: first_free.induct)
  case (1 occupied reserved folder name k)
  show ?case
  proof (cases "u32_max < k \<or> \<not> taken occupied reserved (path_join folder (suffixed name k))")
    case True
    with 1(2) show ?thesis
      by (subst (asm) first_free.simps) (auto simp: Let_def split: if_splits)
  next
    case False
    with 1(2) have "first_free occupied reserved folder name (k + 1) = Some p"
      by (subst (asm) first_free.simps) (auto simp: Let_def)
    from 1(1) [OF _ refl _ this] False obtain j where
      "k + 1 \<le> j" "j \<le> u32_max" "p = path_join folder (suffixed name j)"
      "\<not> taken occupied reserved p"
      "\<forall>i. k + 1 \<le> i \<and> i < j \<longrightarrow> taken occupied reserved (path_join folder (suffixed name i))"
      by auto
    moreover have "taken occupied reserved (path_join folder (suffixed name i))"
      if "k \<le> i" "i < j" for i
      using that calculation False by (cases "i = k") auto
    ultimately show ?thesis by (intro exI [of _ j]) auto
  qed
qed

lemma unique_child_Inr:
  assumes "unique_child occupied reserved folder name = Inr p"
  shows "\<not> taken occupied reserved p"
    and "p = path_join folder name \<or> (\<exists>k. p = path_join folder (suffixed name k))"
proof -
  from assms have "\<not> taken occupied reserved p
      \<and> (p = path_join folder name \<or> (\<exists>k. p = path_join folder (suffixed name k)))"
    by (cases "validate_basename name")
      (auto simp: unique_child_def Let_def dest!: first_free_SomeD split: if_splits option.splits)
  then show "\<not> taken occupied reserved p"
    and "p = path_join folder name \<or> (\<exists>k. p = path_join folder (suffixed name k))" by auto
qed

lemma save_paths_Inr:
  "save_paths occupied folder reserved names = Inr ps \<Longrightarrow>
     length ps = length names
     \<and> distinct (map path_components ps)
     \<and> (\<forall>p \<in> set ps. \<not> taken occupied reserved p)
     \<and> list_all2 (\<lambda>p name. p = path_join folder name \<or> (\<exists>k. p = path_join folder (suffixed name k)))
         ps names"
proof (induction names arbitrary: reserved ps)
  case Nil
  then show ?case by simp
next
  case (Cons name names)
  then obtain p qs where p: "unique_child occupied reserved folder name = Inr p"
    and qs: "save_paths occupied folder (p # reserved) names = Inr qs" and ps: "ps = p # qs"
    by auto
  note IH = Cons.IH [OF qs]
  then have "\<forall>q \<in> set qs. path_components q \<noteq> path_components p \<and> \<not> taken occupied reserved q"
    by (auto simp: taken_def)
  with IH unique_child_Inr [OF p] show ?case
    by (auto simp: ps)
qed

text \<open>C25: what \<open>SaveFiles\<close> hands back: one path per suggested name, in order, no two equal as
  paths, none occupied when it was chosen, and each directly inside the selected folder with
  the suggested name or its numbered variant, as long as the names hold no slash.\<close>

theorem save_files_collision_free:
  assumes "finish_paths occupied r (folder # rest) = Inr ps" and "fc_mode r = Save_Files"
    and "path_is_absolute folder" and "\<forall>n \<in> set (fc_files r). plain_name n"
  shows "length ps = length (fc_files r) \<and> distinct (map path_components ps)
     \<and> (\<forall>p \<in> set ps. \<not> occupied p)
     \<and> list_all2 (\<lambda>p n. path_components p = path_components folder @ [Normal_Comp n]
          \<or> (\<exists>k. path_components p = path_components folder @ [Normal_Comp (suffixed n k)]))
        ps (fc_files r)"
proof -
  from assms(1,2) have save: "save_paths occupied folder [] (fc_files r) = Inr ps"
    by (simp add: finish_paths_def)
  note facts = save_paths_Inr [OF save]
  have "list_all2 (\<lambda>p n. path_components p = path_components folder @ [Normal_Comp n]
          \<or> (\<exists>k. path_components p = path_components folder @ [Normal_Comp (suffixed n k)]))
        ps (fc_files r)"
  proof (rule list_all2_all_nthI)
    show "length ps = length (fc_files r)" using facts by simp
  next
    fix i assume i: "i < length ps"
    have n: "plain_name (fc_files r ! i)"
      using assms(4) facts i by auto
    have "ps ! i = path_join folder (fc_files r ! i)
        \<or> (\<exists>k. ps ! i = path_join folder (suffixed (fc_files r ! i) k))"
      using facts i by (auto dest: list_all2_nthD)
    with path_components_join [OF assms(3) n]
      path_components_join [OF assms(3) plain_suffixed [OF n]]
    show "path_components (ps ! i) = path_components folder @ [Normal_Comp (fc_files r ! i)]
        \<or> (\<exists>k. path_components (ps ! i)
              = path_components folder @ [Normal_Comp (suffixed (fc_files r ! i) k)])"
      by metis
  qed
  with facts show ?thesis by (auto simp: taken_def)
qed

definition save_request :: "string list \<Rightarrow> file_chooser_request" where
  "save_request names =
     \<lparr>fc_mode = Save_Files, fc_app_id = ''org.x'', fc_title = ''Save'', fc_accept_label = None,
      fc_modal = True, fc_parent_window = None, fc_multiple = False, fc_current_folder = None,
      fc_current_name = None, fc_current_file = None, fc_filters = [], fc_current_filter = None,
      fc_choices = [], fc_files = names\<rparr>"

lemma digit_chars: "char_of (49 :: nat) = CHR ''1''" "char_of (50 :: nat) = CHR ''2''"
  by code_simp+

lemmas save_eval = digit_chars
  finish_paths_def save_request_def unique_child_def validate_basename_def guard_def
  path_components_def path_is_absolute_def component_of_def List.map_filter_def taken_def
  path_join_def first_free.simps u32_max_def suffixed_def split_extension_def dec_nat.simps
  validate_file_chooser_def validate_choices_def Let_def

theorem save_files_collision_free_witness:
  "finish_paths (\<lambda>p. p = ''/d/a.txt'') (save_request [''a.txt'', ''a.txt'', ''b'']) [''/d'']
     = Inr [''/d/a(1).txt'', ''/d/a(2).txt'', ''/d/b'']
   \<and> distinct (map path_components [''/d/a(1).txt'', ''/d/a(2).txt'', ''/d/b''])"
proof -
  have run: "finish_paths (\<lambda>p. p = ''/d/a.txt'') (save_request [''a.txt'', ''a.txt'', ''b'']) [''/d'']
     = Inr [''/d/a(1).txt'', ''/d/a(2).txt'', ''/d/b'']"
    by (simp add: save_eval)
  moreover have "fc_mode (save_request [''a.txt'', ''a.txt'', ''b'']) = Save_Files"
    by (simp add: save_request_def)
  moreover have "\<forall>n \<in> set (fc_files (save_request [''a.txt'', ''a.txt'', ''b''])). plain_name n"
    by (simp add: save_request_def plain_name_def)
  moreover have "path_is_absolute ''/d''" by (simp add: path_is_absolute_def)
  ultimately show ?thesis
    using save_files_collision_free [of _ _ "''/d''" "[]"] by blast
qed

text \<open>A suggested name with a trailing slash is accepted as a basename, and its numbered
  variant then lies inside the existing entry of that name instead of beside it.\<close>

theorem save_files_can_leave_folder:
  "validate_file_chooser (save_request [''a/'']) = Inr ()
   \<and> finish_paths (\<lambda>p. p = ''/d/a/'') (save_request [''a/'']) [''/d''] = Inr [''/d/a/(1)'']
   \<and> path_components ''/d/a/(1)''
       = path_components ''/d'' @ [Normal_Comp ''a'', Normal_Comp ''(1)'']"
  by (simp add: save_eval)

text \<open>The prompter's answers to the embedded choices are accepted exactly when they answer
  every choice of the request, in order, with one of its options, or with true or false for
  a check button.\<close>

theorem answers_accepted_iff:
  "is_ok (app_answer_valid (App_Selected app answers) r) \<longleftrightarrow>
     app \<in> app_id_of ` set (ca_apps r)
     \<and> list_all2 (\<lambda>(i, selected) c. i = ch_id c
          \<and> (if ch_options c = [] then selected \<in> {''true'', ''false''}
             else selected \<in> fst ` set (ch_options c))) answers (ca_choices r)"
  by (simp add: validate_choice_answers_ok valid_answer_def)

end
