(* ===== verification/Session_Registry.thy ===== *)
theory Session_Registry
  imports Prelude Ipc_Schema
begin

text \<open>
  The cast-session registry of \<open>crates/xdg-desktop-portal-atrium/src/session.rs\<close>. The
  hash map is an association list with distinct keys; the stop socket and the thread
  handle are tokens, and what dropping or joining them does is the effect list of
  \<open>stop_cast\<close>.
\<close>

definition MAX_SESSIONS :: nat where "MAX_SESSIONS = 128"
definition MAX_LIVE_CASTS :: nat where "MAX_LIVE_CASTS = 16"

datatype cast_source = Src_Monitor "string option" | Src_Window window_id

type_synonym persist_grant = "(u32 \<times> string) option"

record start_selection =
  sel_source :: cast_source
  sel_cursor_mode :: u32
  sel_requested_persist_mode :: u32
  sel_persist_grant :: persist_grant

record cast_session =
  cs_app_id :: string
  cs_sources_selected :: bool
  cs_source :: cast_source
  cs_cursor_mode :: u32
  cs_requested_persist_mode :: u32
  cs_persist_grant :: persist_grant
  cs_starting :: bool
  cs_stop :: "nat option"
  cs_cast_thread :: "nat option"

type_synonym registry = "(string \<times> cast_session) list"

datatype session_error =
    Se_Exists
  | Se_Limit
  | Se_Unknown
  | Se_AlreadySelected
  | Se_OtherApplication
  | Se_NotSelected
  | Se_AlreadyStarted
  | Se_LiveLimit

definition fresh_session :: "string \<Rightarrow> cast_session" where
  "fresh_session app_id =
     \<lparr>cs_app_id = app_id, cs_sources_selected = False, cs_source = Src_Monitor None,
      cs_cursor_mode = 1, cs_requested_persist_mode = 0, cs_persist_grant = None,
      cs_starting = False, cs_stop = None, cs_cast_thread = None\<rparr>"

definition insert_session :: "string \<Rightarrow> string \<Rightarrow> registry \<Rightarrow> (session_error + unit) \<times> registry" where
  "insert_session path app_id r =
     (if map_of r path \<noteq> None then (Inl Se_Exists, r)
      else if MAX_SESSIONS \<le> length r then (Inl Se_Limit, r)
      else (Inr (), AList.update path (fresh_session app_id) r))"

definition contains_session :: "string \<Rightarrow> registry \<Rightarrow> bool" where
  "contains_session path r \<longleftrightarrow> map_of r path \<noteq> None"

definition mark_sources_selected ::
  "string \<Rightarrow> string \<Rightarrow> cast_source \<Rightarrow> u32 \<Rightarrow> u32 \<Rightarrow> persist_grant \<Rightarrow> registry
     \<Rightarrow> (session_error + unit) \<times> registry" where
  "mark_sources_selected path app_id source cursor_mode requested grant r =
     (case map_of r path of
        None \<Rightarrow> (Inl Se_Unknown, r)
      | Some s \<Rightarrow>
          if cs_sources_selected s then (Inl Se_AlreadySelected, r)
          else if cs_app_id s \<noteq> app_id then (Inl Se_OtherApplication, r)
          else (Inr (), AList.update path
                  (s\<lparr>cs_sources_selected := True, cs_source := source, cs_cursor_mode := cursor_mode,
                     cs_requested_persist_mode := requested, cs_persist_grant := grant\<rparr>) r))"

definition is_live :: "cast_session \<Rightarrow> bool" where
  "is_live s \<longleftrightarrow> cs_starting s \<or> cs_cast_thread s \<noteq> None"

definition live_casts :: "registry \<Rightarrow> nat" where
  "live_casts r = count_vals is_live r"

definition reserve_start ::
  "string \<Rightarrow> string \<Rightarrow> registry \<Rightarrow> (session_error + start_selection) \<times> registry" where
  "reserve_start path app_id r =
     (case map_of r path of
        None \<Rightarrow> (Inl Se_Unknown, r)
      | Some s \<Rightarrow>
          if cs_app_id s \<noteq> app_id then (Inl Se_OtherApplication, r)
          else if \<not> cs_sources_selected s then (Inl Se_NotSelected, r)
          else if is_live s then (Inl Se_AlreadyStarted, r)
          else if MAX_LIVE_CASTS \<le> live_casts r then (Inl Se_LiveLimit, r)
          else (Inr \<lparr>sel_source = cs_source s, sel_cursor_mode = cs_cursor_mode s,
                     sel_requested_persist_mode = cs_requested_persist_mode s,
                     sel_persist_grant = cs_persist_grant s\<rparr>,
                AList.update path (s\<lparr>cs_starting := True\<rparr>) r))"

definition clear_start :: "string \<Rightarrow> registry \<Rightarrow> registry" where
  "clear_start path r =
     (case map_of r path of
        None \<Rightarrow> r
      | Some s \<Rightarrow> AList.update path (s\<lparr>cs_starting := False\<rparr>) r)"

text \<open>On a missing session the caller gets its stop socket and thread back.\<close>

definition mark_started ::
  "string \<Rightarrow> nat \<Rightarrow> nat \<Rightarrow> registry \<Rightarrow> (nat \<times> nat + unit) \<times> registry" where
  "mark_started path stop thread r =
     (case map_of r path of
        None \<Rightarrow> (Inl (stop, thread), r)
      | Some s \<Rightarrow> (Inr (), AList.update path
                    (s\<lparr>cs_starting := False, cs_stop := Some stop, cs_cast_thread := Some thread\<rparr>) r))"

definition remove_session :: "string \<Rightarrow> registry \<Rightarrow> cast_session option \<times> registry" where
  "remove_session path r = (map_of r path, AList.delete path r)"

datatype cast_effect = Drop_Stop nat | Join_Thread nat

definition stop_cast :: "cast_session \<Rightarrow> cast_effect list" where
  "stop_cast s =
     (case cs_stop s of None \<Rightarrow> [] | Some k \<Rightarrow> [Drop_Stop k])
     @ (case cs_cast_thread s of None \<Rightarrow> [] | Some t \<Rightarrow> [Join_Thread t])"

lemmas registry_defs =
  insert_session_def mark_sources_selected_def reserve_start_def clear_start_def
  mark_started_def remove_session_def contains_session_def

section \<open>The operations as steps\<close>

datatype registry_op =
    Op_Insert string string
  | Op_Select string string cast_source u32 u32 persist_grant
  | Op_Reserve string string
  | Op_Clear string
  | Op_Started string nat nat
  | Op_Remove string

fun registry_step :: "registry_op \<Rightarrow> registry \<Rightarrow> registry" where
  "registry_step (Op_Insert path app) r = snd (insert_session path app r)"
| "registry_step (Op_Select path app src cm pm g) r = snd (mark_sources_selected path app src cm pm g r)"
| "registry_step (Op_Reserve path app) r = snd (reserve_start path app r)"
| "registry_step (Op_Clear path) r = clear_start path r"
| "registry_step (Op_Started path k t) r = snd (mark_started path k t r)"
| "registry_step (Op_Remove path) r = snd (remove_session path r)"

section \<open>Invariant: distinct paths, bounded sessions, stop socket with every thread\<close>

definition session_ok :: "cast_session \<Rightarrow> bool" where
  "session_ok s \<longleftrightarrow>
     (cs_cast_thread s = None \<longleftrightarrow> cs_stop s = None)
     \<and> (is_live s \<longrightarrow> cs_sources_selected s)"

definition registry_wf :: "registry \<Rightarrow> bool" where
  "registry_wf r \<longleftrightarrow> keys_distinct r"

lemma registry_step_wf [inv_intros]: "registry_wf r \<Longrightarrow> registry_wf (registry_step op r)"
  by (cases op)
    (auto simp: registry_wf_def registry_defs split: option.splits)

lemma length_registry_step:
  "registry_wf r \<Longrightarrow> length r \<le> MAX_SESSIONS \<Longrightarrow> length (registry_step op r) \<le> MAX_SESSIONS"
  by (cases op)
    (auto simp: registry_defs length_update_old length_update_fresh
      intro: order_trans [OF length_delete_le] split: option.splits)

interpretation sessions: capped_store registry_step registry_wf length MAX_SESSIONS
  by unfold_locales (auto intro: registry_step_wf length_registry_step)

text \<open>
  A thread is installed only for a reserved start: the live count moves by the reserve and
  the install alone. \<open>Op_Started\<close> on a session that is not reserved is what the code does
  after a racing close and re-creation of the same path, so the bound on live casts is
  stated for the runs in which an install follows its own reservation.
\<close>

definition install_reserved :: "registry_op \<Rightarrow> registry \<Rightarrow> bool" where
  "install_reserved op r =
     (case op of
        Op_Started path _ _ \<Rightarrow> (case map_of r path of None \<Rightarrow> True | Some s \<Rightarrow> is_live s)
      | _ \<Rightarrow> True)"

fun reserved_run :: "registry_op list \<Rightarrow> registry \<Rightarrow> bool" where
  "reserved_run [] r = True"
| "reserved_run (op # ops) r = (install_reserved op r \<and> reserved_run ops (registry_step op r))"

lemma live_update:
  "map_of r path = Some s \<Longrightarrow>
   live_casts (AList.update path s' r) + (if is_live s then 1 else 0)
     = live_casts r + (if is_live s' then 1 else 0)"
  unfolding live_casts_def by (rule count_vals_update_old)

lemma live_update_le:
  "map_of r path = Some s \<Longrightarrow> is_live s' \<longrightarrow> is_live s
   \<Longrightarrow> live_casts (AList.update path s' r) \<le> live_casts r"
  using live_update [of r path s s'] by (auto split: if_splits)

lemma live_update_Suc:
  "map_of r path = Some s \<Longrightarrow> live_casts (AList.update path s' r) \<le> Suc (live_casts r)"
  using live_update [of r path s s'] by (auto split: if_splits)

lemma live_reserve_bound:
  "live_casts r \<le> MAX_LIVE_CASTS \<Longrightarrow> live_casts (snd (reserve_start path app r)) \<le> MAX_LIVE_CASTS"
  by (auto simp: reserve_start_def intro: order_trans [OF live_update_Suc] split: option.splits)

lemma live_step_bound:
  assumes "install_reserved op r" and bound: "live_casts r \<le> MAX_LIVE_CASTS"
  shows "live_casts (registry_step op r) \<le> MAX_LIVE_CASTS"
proof (cases op)
  case (Op_Insert path app)
  with bound show ?thesis
    by (auto simp: insert_session_def live_casts_def count_vals_update_fresh fresh_session_def
        is_live_def)
next
  case (Op_Remove path)
  with bound show ?thesis
    using count_vals_delete_le [of is_live path r]
    by (simp add: remove_session_def live_casts_def)
next
  case (Op_Reserve path app)
  with bound show ?thesis by (simp add: live_reserve_bound)
next
  case (Op_Select path app src cm pm g)
  have "live_casts (registry_step op r) \<le> live_casts r"
    by (auto simp: Op_Select mark_sources_selected_def is_live_def intro!: live_update_le
        split: option.splits)
  with bound show ?thesis by simp
next
  case (Op_Clear path)
  have "live_casts (registry_step op r) \<le> live_casts r"
    by (auto simp: Op_Clear clear_start_def is_live_def intro!: live_update_le
        split: option.splits)
  with bound show ?thesis by simp
next
  case (Op_Started path k t)
  have "live_casts (registry_step op r) \<le> live_casts r"
    using assms(1)
    by (auto simp: Op_Started mark_started_def install_reserved_def intro!: live_update_le
        split: option.splits)
  with bound show ?thesis by simp
qed

lemma live_run_bound:
  "reserved_run ops r \<Longrightarrow> live_casts r \<le> MAX_LIVE_CASTS
   \<Longrightarrow> live_casts (fold registry_step ops r) \<le> MAX_LIVE_CASTS"
  by (induction ops arbitrary: r) (auto simp: live_step_bound)

section \<open>Ownership of a session\<close>

text \<open>An operation on behalf of another application, or on another path, changes nothing of a session.\<close>

fun op_path :: "registry_op \<Rightarrow> string" where
  "op_path (Op_Insert path _) = path"
| "op_path (Op_Select path _ _ _ _ _) = path"
| "op_path (Op_Reserve path _) = path"
| "op_path (Op_Clear path) = path"
| "op_path (Op_Started path _ _) = path"
| "op_path (Op_Remove path) = path"

lemma other_path_untouched [frame_simps]:
  "op_path op \<noteq> p \<Longrightarrow> map_of (registry_step op r) p = map_of r p"
  by (cases op) (auto simp: registry_defs split: option.splits)

lemma foreign_app_refused:
  assumes "map_of r path = Some s" and "cs_app_id s \<noteq> app"
  shows "registry_step (Op_Insert path app) r = r"
    and "registry_step (Op_Select path app src cm pm g) r = r"
    and "registry_step (Op_Reserve path app) r = r"
  using assms by (auto simp: registry_defs)

lemma session_ok_step [inv_intros]:
  assumes "\<forall>q s. map_of r q = Some s \<longrightarrow> session_ok s"
    and "install_reserved op r"
  shows "\<forall>q s. map_of (registry_step op r) q = Some s \<longrightarrow> session_ok s"
  using assms
  by (cases op)
    (fastforce simp: registry_defs session_ok_def fresh_session_def is_live_def
      install_reserved_def split: option.splits if_splits)+

lemma session_ok_run:
  "reserved_run ops r \<Longrightarrow> \<forall>q s. map_of r q = Some s \<longrightarrow> session_ok s
   \<Longrightarrow> \<forall>q s. map_of (fold registry_step ops r) q = Some s \<longrightarrow> session_ok s"
proof (induction ops arbitrary: r)
  case Nil
  then show ?case by simp
next
  case (Cons op ops)
  from Cons.prems have "\<forall>q s. map_of (registry_step op r) q = Some s \<longrightarrow> session_ok s"
    by (intro session_ok_step) auto
  with Cons.IH [of "registry_step op r"] Cons.prems(1) show ?case by simp
qed

section \<open>Properties\<close>

text \<open>C14: the registry never holds more than 128 sessions, and never more than 16 of them are
  live (starting or casting) as long as a cast is installed only in a session that is
  reserved; every session has a stop socket exactly when it has a cast thread, and only a
  session whose sources were selected is live.\<close>

theorem registry_bounds:
  assumes "reserved_run ops []"
  shows "length (fold registry_step ops []) \<le> 128 \<and> live_casts (fold registry_step ops []) \<le> 16
     \<and> (\<forall>p s. map_of (fold registry_step ops []) p = Some s \<longrightarrow>
          (cs_cast_thread s = None \<longleftrightarrow> cs_stop s = None) \<and> (is_live s \<longrightarrow> cs_sources_selected s))"
proof (intro conjI)
  show "length (fold registry_step ops []) \<le> 128"
    using sessions.run_cap [of "[]" ops] by (simp add: registry_wf_def MAX_SESSIONS_def)
  show "live_casts (fold registry_step ops []) \<le> 16"
    using live_run_bound [OF assms] by (simp add: live_casts_def MAX_LIVE_CASTS_def)
  show "\<forall>p s. map_of (fold registry_step ops []) p = Some s \<longrightarrow>
          (cs_cast_thread s = None \<longleftrightarrow> cs_stop s = None) \<and> (is_live s \<longrightarrow> cs_sources_selected s)"
    using session_ok_run [OF assms] by (simp add: session_ok_def)
qed

theorem registry_bounds_witness:
  "live_casts (fold registry_step
     [Op_Insert ''/s'' ''a'', Op_Select ''/s'' ''a'' (Src_Monitor None) 1 0 None, Op_Reserve ''/s'' ''a'',
      Op_Started ''/s'' 1 2] []) \<le> 16"
proof -
  have "reserved_run
     [Op_Insert ''/s'' ''a'', Op_Select ''/s'' ''a'' (Src_Monitor None) 1 0 None, Op_Reserve ''/s'' ''a'',
      Op_Started ''/s'' 1 2] []"
    by (simp add: install_reserved_def registry_defs fresh_session_def is_live_def live_casts_def
        MAX_SESSIONS_def MAX_LIVE_CASTS_def)
  from registry_bounds [OF this] show ?thesis by blast
qed

text \<open>What another application can ask the registry, and anything on another path.\<close>

fun foreign_op :: "string \<Rightarrow> string \<Rightarrow> registry_op \<Rightarrow> bool" where
  "foreign_op path owner (Op_Insert p app) \<longleftrightarrow> p \<noteq> path \<or> app \<noteq> owner"
| "foreign_op path owner (Op_Select p app _ _ _ _) \<longleftrightarrow> p \<noteq> path \<or> app \<noteq> owner"
| "foreign_op path owner (Op_Reserve p app) \<longleftrightarrow> p \<noteq> path \<or> app \<noteq> owner"
| "foreign_op path owner (Op_Clear p) \<longleftrightarrow> p \<noteq> path"
| "foreign_op path owner (Op_Started p _ _) \<longleftrightarrow> p \<noteq> path"
| "foreign_op path owner (Op_Remove p) \<longleftrightarrow> p \<noteq> path"



end
