(* ===== verification/Screencast.thy ===== *)
theory Screencast
  imports Request_Tracker Session_Registry Restore_Store Portal_Capture Prompter_Contract
begin

text \<open>
  The ScreenCast backend, \<open>crates/xdg-desktop-portal-atrium/src/screencast.rs\<close>. The shared
  state is the request tracker, the session registry and the restore store. Other threads
  act on it between two looks of one call: \<open>env_events\<close> gives, for the k-th look, the
  operations the rest of the process performed since the look before. The prompter child and
  the cast thread are parameters: what \<open>prompter::invoke\<close> returns for a request, and what
  \<open>cast::spawn\<close> and its \<open>started\<close> channel deliver.
\<close>

definition SCREENCAST_VERSION :: u32 where "SCREENCAST_VERSION = 6"
definition SOURCE_TYPE_MONITOR :: u32 where "SOURCE_TYPE_MONITOR = 1"
definition SOURCE_TYPE_WINDOW :: u32 where "SOURCE_TYPE_WINDOW = 2"
definition CURSOR_MODE_HIDDEN :: u32 where "CURSOR_MODE_HIDDEN = 1"
definition CURSOR_MODE_EMBEDDED :: u32 where "CURSOR_MODE_EMBEDDED = 2"
definition PER_SOURCE_PROTOCOL :: u32 where "PER_SOURCE_PROTOCOL = 29"
definition MAX_ACTIVE_CAST_REQUESTS :: nat where "MAX_ACTIVE_CAST_REQUESTS = 32"

section \<open>Options\<close>

text \<open>A \<open>zvariant::Value\<close> as far as the options use it.\<close>

datatype variant = V_U32 u32 | V_Str string | V_Other

fun variant_u32 :: "variant \<Rightarrow> u32 option" where
  "variant_u32 (V_U32 n) = Some n"
| "variant_u32 _ = None"

fun variant_str :: "variant \<Rightarrow> string option" where
  "variant_str (V_Str s) = Some s"
| "variant_str _ = None"

record select_options =
  so_source_types :: u32
  so_cursor_mode :: u32
  so_persist_mode :: u32
  so_restore_token :: "string option"

definition option_u32 :: "(string \<times> variant) list \<Rightarrow> string \<Rightarrow> u32 \<Rightarrow> u32" where
  "option_u32 options key dflt =
     (case Option.bind (map_of options key) variant_u32 of None \<Rightarrow> dflt | Some n \<Rightarrow> n)"

definition parse_select_options :: "(string \<times> variant) list \<Rightarrow> select_options" where
  "parse_select_options options =
     \<lparr>so_source_types = option_u32 options ''types'' SOURCE_TYPE_MONITOR,
      so_cursor_mode = option_u32 options ''cursor_mode'' 1,
      so_persist_mode = option_u32 options ''persist_mode'' 0,
      so_restore_token =
        (case Option.bind (map_of options ''restore_token'') variant_str of
           None \<Rightarrow> None
         | Some token \<Rightarrow> if token = [] then None else Some token)\<rparr>"

datatype select_error =
    Sel_UndefinedBits u32
  | Sel_PersistMode u32
  | Sel_NoServable
  | Sel_CursorMode u32

definition validate_select_shape :: "select_options \<Rightarrow> select_error + unit" where
  "validate_select_shape opts =
     then_check (guard (so_source_types opts AND NOT (SOURCE_TYPE_MONITOR OR SOURCE_TYPE_WINDOW) \<noteq> 0)
                  (Sel_UndefinedBits (so_source_types opts)))
       (guard (2 < so_persist_mode opts) (Sel_PersistMode (so_persist_mode opts)))"

definition available_source_types :: "u32 \<Rightarrow> u32" where
  "available_source_types protocol =
     (if PER_SOURCE_PROTOCOL \<le> protocol then SOURCE_TYPE_MONITOR OR SOURCE_TYPE_WINDOW
      else SOURCE_TYPE_MONITOR)"

definition available_cursor_modes :: "u32 \<Rightarrow> u32" where
  "available_cursor_modes protocol =
     (if PER_SOURCE_PROTOCOL \<le> protocol then CURSOR_MODE_HIDDEN OR CURSOR_MODE_EMBEDDED
      else CURSOR_MODE_HIDDEN)"

definition validate_select :: "select_options \<Rightarrow> u32 \<Rightarrow> select_error + unit" where
  "validate_select opts protocol =
     then_check (validate_select_shape opts)
      (then_check (guard (so_source_types opts AND
           (if PER_SOURCE_PROTOCOL \<le> protocol then SOURCE_TYPE_MONITOR OR SOURCE_TYPE_WINDOW
            else SOURCE_TYPE_MONITOR) = 0) Sel_NoServable)
        (if so_cursor_mode opts = CURSOR_MODE_HIDDEN then Inr ()
         else if so_cursor_mode opts = CURSOR_MODE_EMBEDDED \<and> PER_SOURCE_PROTOCOL \<le> protocol then Inr ()
         else Inl (Sel_CursorMode (so_cursor_mode opts))))"

section \<open>The shared state and its interference\<close>

record cast_world =
  cw_req :: req_world
  cw_reg :: registry
  cw_store :: "restore_store \<times> store_file option"

datatype world_event = WE_Req req_event | WE_Reg registry_op | WE_Store store_op

fun world_step :: "world_event \<Rightarrow> cast_world \<Rightarrow> cast_world" where
  "world_step (WE_Req e) w = w\<lparr>cw_req := req_step e (cw_req w)\<rparr>"
| "world_step (WE_Reg e) w = w\<lparr>cw_reg := registry_step e (cw_reg w)\<rparr>"
| "world_step (WE_Store e) w = w\<lparr>cw_store := store_step e (cw_store w)\<rparr>"

text \<open>The answer of \<open>prompter::invoke\<close>.\<close>

datatype invoke_outcome = Invoke_Result prompt_result | Invoke_Cancelled | Invoke_Failed

record select_env =
  env_events :: "nat \<Rightarrow> world_event list"
  env_invoke :: "prompter_request \<Rightarrow> invoke_outcome"
  env_random :: "u8 list"
  env_enc_len :: "disk_store \<Rightarrow> nat"
  env_write_fault :: "nat \<Rightarrow> io_error option"

definition interfere :: "select_env \<Rightarrow> nat \<Rightarrow> cast_world \<Rightarrow> cast_world" where
  "interfere env k w = fold world_step (env_events env k) w"

definition request_closed :: "cast_world \<Rightarrow> string \<Rightarrow> bool" where
  "request_closed w path = was_closed (rw_tracker (cw_req w)) path"

section \<open>SelectSources\<close>

definition list_outputs :: "u32 \<Rightarrow> portal_capture \<Rightarrow> output_info list \<times> portal_capture" where
  "list_outputs protocol pc =
     (if protocol < PER_SOURCE_PROTOCOL then ([], pc)
      else (case pc_enumerate_outputs pc of
              (Inr outputs, pc') \<Rightarrow> (outputs, pc')
            | (Inl _, pc') \<Rightarrow> ([], pc')))"

fun servable_source :: "stored_source \<Rightarrow> u32 \<Rightarrow> output_info list \<Rightarrow> bool" where
  "servable_source Stored_Desktop protocol outputs = True"
| "servable_source (Stored_Output connector) protocol outputs \<longleftrightarrow>
     PER_SOURCE_PROTOCOL \<le> protocol \<and> list_ex (\<lambda>opts. oi_connector opts = connector) outputs"

text \<open>\<open>mark_selected\<close>: looks \<open>k\<close> and \<open>k + 1\<close>.\<close>

definition mark_selected ::
  "select_env \<Rightarrow> nat \<Rightarrow> string \<Rightarrow> string \<Rightarrow> string \<Rightarrow> cast_source \<Rightarrow> u32 \<Rightarrow> u32 \<Rightarrow> persist_grant
     \<Rightarrow> cast_world \<Rightarrow> u32 \<times> cast_world" where
  "mark_selected env k req_path ses_path app source cursor persist grant w =
     (let w1 = interfere env k w in
      if request_closed w1 req_path then (1, w1)
      else let w2 = interfere env (k + 1) w1 in
        (case mark_sources_selected ses_path app source cursor persist grant (cw_reg w2) of
           (Inr _, reg) \<Rightarrow> (0, w2\<lparr>cw_reg := reg\<rparr>)
         | (Inl _, reg) \<Rightarrow> (2, w2\<lparr>cw_reg := reg\<rparr>)))"

definition restored_source :: "stored_source \<Rightarrow> cast_source" where
  "restored_source s =
     (case s of Stored_Desktop \<Rightarrow> Src_Monitor None | Stored_Output connector \<Rightarrow> Src_Monitor (Some connector))"

text \<open>
  The restore attempt: \<open>None\<close> is the degradation to the interactive flow. Looks 1 and 2 are
  the two acquisitions of the store lock.
\<close>

definition try_restore ::
  "select_env \<Rightarrow> string \<Rightarrow> string \<Rightarrow> string \<Rightarrow> select_options \<Rightarrow> u32 \<Rightarrow> portal_capture \<Rightarrow> cast_world
     \<Rightarrow> (u32 \<times> cast_world) option \<times> portal_capture \<times> cast_world" where
  "try_restore env req_path ses_path app opts protocol pc w =
     (case (if 0 < so_persist_mode opts then so_restore_token opts else None) of
        None \<Rightarrow> (None, pc, w)
      | Some token \<Rightarrow>
          (case list_outputs protocol pc of
             (outputs, pc1) \<Rightarrow>
               (let servable = (\<lambda>s. servable_source s protocol outputs);
                    w1 = interfere env 1 w;
                    restored = validate_token token app servable (fst (cw_store w1));
                    w2 = interfere env 2 w1;
                    w3 = w2\<lparr>cw_store := prune (env_enc_len env) (env_write_fault env 0) servable
                                  (fst (cw_store w2)) (snd (cw_store w2))\<rparr> in
                (case restored of
                   None \<Rightarrow> (None, pc1, w3)
                 | Some (mode, selection) \<Rightarrow>
                     (Some (mark_selected env 3 req_path ses_path app
                              (restored_source (sl_source selection)) (sl_cursor_mode selection) mode
                              (Some (mode, token)) w3), pc1, w3)))))"

definition dec_i32 :: "i32 \<Rightarrow> string" where
  "dec_i32 n = (if sint n < 0 then ''-'' @ dec_nat (nat (- sint n)) else dec_nat (nat (sint n)))"

definition desktop_choice :: source_choice where
  "desktop_choice = \<lparr>sc_id = ''desktop'', sc_label = ''Entire desktop'', sc_description = None\<rparr>"

definition output_choice :: "output_info \<Rightarrow> source_choice" where
  "output_choice opts =
     \<lparr>sc_id = ''output:'' @ oi_connector opts, sc_label = oi_connector opts,
      sc_description = Some (dec_i32 (sz_w (rect_size (oi_rect opts))) @ [CHR 0xC3, CHR 0x97]
        @ dec_i32 (sz_h (rect_size (oi_rect opts))) @ (if oi_primary opts then '', primary'' else []))\<rparr>"

definition window_choice :: source_choice where
  "window_choice =
     \<lparr>sc_id = ''window'', sc_label = ''Window'' @ [CHR 0xE2, CHR 0x80, CHR 0xA6], sc_description = None\<rparr>"

text \<open>The chooser's option list, and whether the window pick was offered.\<close>

definition source_choices ::
  "select_options \<Rightarrow> u32 \<Rightarrow> portal_capture \<Rightarrow> source_choice list \<times> bool \<times> portal_capture" where
  "source_choices opts protocol pc =
     (if PER_SOURCE_PROTOCOL \<le> protocol
      then (case list_outputs protocol pc of
              (outputs, pc1) \<Rightarrow>
                (let window_offered = so_source_types opts AND SOURCE_TYPE_WINDOW \<noteq> 0 in
                 ([desktop_choice]
                    @ (if 1 < length outputs then map output_choice outputs else [])
                    @ (if window_offered then [window_choice] else []),
                  window_offered, pc1)))
      else ([desktop_choice], False, pc))"

definition choose_source_request_of :: "string \<Rightarrow> source_choice list \<Rightarrow> bool \<Rightarrow> choose_source_request" where
  "choose_source_request_of app choices remember_offered =
     \<lparr>cq_app_id = app, cq_title = ''Share Your Screen'', cq_options = choices,
      cq_remember_offered = remember_offered, cq_parent_window = None\<rparr>"

text \<open>\<open>choose_source\<close>; look 4 is the cancellation test after the dialog.\<close>

definition choose_source ::
  "select_env \<Rightarrow> string \<Rightarrow> string \<Rightarrow> source_choice list \<Rightarrow> bool \<Rightarrow> cast_world
     \<Rightarrow> (u32 + string \<times> bool) \<times> cast_world" where
  "choose_source env req_path app choices remember_offered w =
     (let request = choose_source_request_of app choices remember_offered in
      if \<not> is_ok (validate_choose_source request) then (Inl 2, w)
      else
        (case env_invoke env (prompter_request_new (Ask_Source request)) of
           Invoke_Result (Result_Source response) \<Rightarrow>
             (let w1 = interfere env 4 w in
              if request_closed w1 req_path then (Inl 1, w1)
              else if \<not> is_ok (source_answer_valid response request) then (Inl 2, w1)
              else (case response of
                      Source_Selected source remember \<Rightarrow> (Inr (source, remember), w1)
                    | Source_Cancelled \<Rightarrow> (Inl 1, w1)))
         | Invoke_Cancelled \<Rightarrow> (Inl 1, w)
         | Invoke_Result _ \<Rightarrow> (Inl 2, w)
         | Invoke_Failed \<Rightarrow> (Inl 2, w)))"

definition pick_window :: "portal_capture \<Rightarrow> (u32 + window_id) \<times> portal_capture" where
  "pick_window pc =
     (case pick Pick_Window pc of
        (Inr (Picked_Window w), pc') \<Rightarrow> (Inr w, pc')
      | (Inr Picked_Cancelled, pc') \<Rightarrow> (Inl 1, pc')
      | (Inr _, pc') \<Rightarrow> (Inl 2, pc')
      | (Inl _, pc') \<Rightarrow> (Inl 2, pc'))"

text \<open>\<open>trim_start_matches("output:")\<close> removes the prefix as often as it occurs.\<close>

function trim_output :: "string \<Rightarrow> string" where
  "trim_output s = (if take 7 s = ''output:'' then trim_output (drop 7 s) else s)"
  by pat_completeness auto
termination
proof (relation "measure length")
  fix s :: string
  assume "take 7 s = ''output:''"
  then have "s \<noteq> []" by auto
  then show "(drop 7 s, s) \<in> measure length" by simp
qed simp

declare trim_output.simps [simp del]

text \<open>What the user is asked to confirm for a source.\<close>

definition consent_body :: "string \<Rightarrow> cast_source \<Rightarrow> string" where
  "consent_body app source =
     (case source of
        Src_Monitor None \<Rightarrow> ''Allow '' @ app @ '' to record the entire desktop?''
      | Src_Monitor (Some connector) \<Rightarrow> ''Allow '' @ app @ '' to record output '' @ connector @ ''?''
      | Src_Window _ \<Rightarrow> ''Allow '' @ app @ '' to record the selected window?'')"

text \<open>The chosen id turned into a source; the window arm runs the compositor's pick.\<close>

definition resolve_source ::
  "string \<Rightarrow> bool \<Rightarrow> u32 \<Rightarrow> portal_capture \<Rightarrow> (u32 + cast_source) \<times> portal_capture" where
  "resolve_source selected window_offered protocol pc =
     (if selected = ''desktop'' then (Inr (Src_Monitor None), pc)
      else if selected = ''window'' \<and> window_offered then
        (case pick_window pc of
           (Inr w, pc') \<Rightarrow> (Inr (Src_Window w), pc')
         | (Inl code, pc') \<Rightarrow> (Inl code, pc'))
      else if take 7 selected = ''output:'' \<and> PER_SOURCE_PROTOCOL \<le> protocol then
        (Inr (Src_Monitor (Some (trim_output selected))), pc)
      else (Inl 2, pc))"

definition stored_of :: "string option \<Rightarrow> stored_source" where
  "stored_of out = (case out of None \<Rightarrow> Stored_Desktop | Some connector \<Rightarrow> Stored_Output connector)"

text \<open>The persistence grant; look 7 is the acquisition of the store lock.\<close>

definition persist_selection ::
  "select_env \<Rightarrow> string \<Rightarrow> select_options \<Rightarrow> bool \<Rightarrow> string option \<Rightarrow> cast_source \<Rightarrow> cast_world
     \<Rightarrow> persist_grant \<times> cast_world" where
  "persist_selection env app opts remember sender source w =
     (if remember \<and> 0 < so_persist_mode opts then
        (case source of
           Src_Window _ \<Rightarrow> (None, w)
         | Src_Monitor out \<Rightarrow>
             (let w1 = interfere env 7 w in
              case issue (env_enc_len env) (env_write_fault env 1) (env_random env) (so_persist_mode opts)
                     (case sender of None \<Rightarrow> [] | Some s \<Rightarrow> s)
                     \<lparr>sl_app_id = app, sl_source = stored_of out, sl_cursor_mode = so_cursor_mode opts\<rparr>
                     (fst (cw_store w1)) (snd (cw_store w1)) of
                (tok, store, fl) \<Rightarrow>
                  (map_option (\<lambda>t. (so_persist_mode opts, t)) tok, w1\<lparr>cw_store := (store, fl)\<rparr>)))
      else (None, w))"

text \<open>From the chosen source to the armed session: looks 6 to 9.\<close>

definition confirm_and_arm ::
  "select_env \<Rightarrow> string \<Rightarrow> string \<Rightarrow> string \<Rightarrow> select_options \<Rightarrow> string option \<Rightarrow> cast_source \<Rightarrow> bool
     \<Rightarrow> portal_capture \<Rightarrow> cast_world \<Rightarrow> u32 \<times> portal_capture \<times> cast_world" where
  "confirm_and_arm env req_path ses_path app opts sender source remember pc w =
     (case pc_pick_confirm ''Share Your Screen'' (consent_body app source) (Some ''Share'') pc of
        (Inl _, pc') \<Rightarrow> (2, pc', w)
      | (Inr Confirm_Cancelled, pc') \<Rightarrow> (1, pc', w)
      | (Inr Confirm_Confirmed, pc') \<Rightarrow>
          (let w1 = interfere env 6 w in
           if request_closed w1 req_path then (1, pc', w1)
           else
             (case persist_selection env app opts remember sender source w1 of
                (grant, w2) \<Rightarrow>
                  (case mark_selected env 8 req_path ses_path app source (so_cursor_mode opts)
                          (so_persist_mode opts) grant w2 of
                     (code, w3) \<Rightarrow> (code, pc', w3)))))"

text \<open>The interactive flow; look 5 is the cancellation test before the source is resolved.\<close>

definition select_interactive ::
  "select_env \<Rightarrow> string \<Rightarrow> string \<Rightarrow> string \<Rightarrow> select_options \<Rightarrow> string option \<Rightarrow> u32
     \<Rightarrow> portal_capture \<Rightarrow> cast_world \<Rightarrow> u32 \<times> portal_capture \<times> cast_world" where
  "select_interactive env req_path ses_path app opts sender protocol pc w =
     (case source_choices opts protocol pc of
        (choices, window_offered, pc1) \<Rightarrow>
          (case (if length choices = 1 then (Inr (''desktop'', False), w)
                 else choose_source env req_path app choices (0 < so_persist_mode opts) w) of
             (Inl code, w1) \<Rightarrow> (code, pc1, w1)
           | (Inr (selected, remember), w1) \<Rightarrow>
               (let w2 = interfere env 5 w1 in
                if request_closed w2 req_path then (1, pc1, w2)
                else
                  (case resolve_source selected window_offered protocol pc1 of
                     (Inl code, pc2) \<Rightarrow> (code, pc2, w2)
                   | (Inr source, pc2) \<Rightarrow>
                       confirm_and_arm env req_path ses_path app opts sender source remember pc2 w2))))"

text \<open>\<open>select_sources\<close>; look 0 is the first cancellation test.\<close>

definition select_sources ::
  "select_env \<Rightarrow> string \<Rightarrow> string \<Rightarrow> string \<Rightarrow> select_options \<Rightarrow> string option
     \<Rightarrow> portal_capture \<Rightarrow> cast_world \<Rightarrow> u32 \<times> portal_capture \<times> cast_world" where
  "select_sources env req_path ses_path app opts sender pc w =
     (let w0 = interfere env 0 w in
      if request_closed w0 req_path then (1, pc, w0)
      else
        (case pc_protocol_version pc of
           (pv, pc1) \<Rightarrow>
             (let protocol = (case pv of Inl _ \<Rightarrow> MIN_PROTOCOL_VERSION | Inr v \<Rightarrow> v) in
              if \<not> is_ok (validate_select opts protocol) then (2, pc1, w0)
              else
                (case try_restore env req_path ses_path app opts protocol pc1 w0 of
                   (Some (code, w'), pc2, _) \<Rightarrow> (code, pc2, w')
                 | (None, pc2, w1) \<Rightarrow>
                     select_interactive env req_path ses_path app opts sender protocol pc2 w1))))"

section \<open>Start\<close>

record cast_started =
  cst_node_id :: u32
  cst_serial :: u64
  cst_position :: "i32 \<times> i32"
  cst_width :: u32
  cst_height :: u32

datatype started_outcome = Started_Ok cast_started | Started_Err | Started_Timeout

text \<open>\<open>spawn\<close>: the stop socket and the thread of the spawned cast, as tokens.\<close>

record start_env =
  ste_events :: "nat \<Rightarrow> world_event list"
  ste_spawn :: "io_error + nat \<times> nat"
  ste_started :: started_outcome

definition between :: "start_env \<Rightarrow> nat \<Rightarrow> cast_world \<Rightarrow> cast_world" where
  "between env k w = fold world_step (ste_events env k) w"

record stream_props =
  sp_node_id :: u32
  sp_position :: "i32 \<times> i32"
  sp_size :: "i32 \<times> i32"
  sp_source_type :: u32
  sp_pipewire_serial :: u64

datatype result_value = RV_Streams "stream_props list" | RV_U32 u32 | RV_Str string

definition streams_value :: "u32 \<Rightarrow> u64 \<Rightarrow> u32 \<Rightarrow> i32 \<times> i32 \<Rightarrow> i32 \<times> i32 \<Rightarrow> result_value" where
  "streams_value node_id serial source_type position extent =
     RV_Streams [\<lparr>sp_node_id = node_id, sp_position = position, sp_size = extent,
                  sp_source_type = source_type, sp_pipewire_serial = serial\<rparr>]"

definition source_type_of :: "cast_source \<Rightarrow> u32" where
  "source_type_of s = (case s of Src_Monitor _ \<Rightarrow> SOURCE_TYPE_MONITOR | Src_Window _ \<Rightarrow> SOURCE_TYPE_WINDOW)"

definition start_results :: "start_selection \<Rightarrow> cast_started \<Rightarrow> (string \<times> result_value) list" where
  "start_results sel st =
     (''streams'', streams_value (cst_node_id st) (cst_serial st) (source_type_of (sel_source sel))
        (cst_position st) (cst_width st, cst_height st))
     # (case sel_persist_grant sel of
          Some (mode, token) \<Rightarrow> [(''persist_mode'', RV_U32 mode), (''restore_token'', RV_Str token)]
        | None \<Rightarrow> (if sel_requested_persist_mode sel \<noteq> 0 then [(''persist_mode'', RV_U32 0)] else []))"

definition stream_cursor_of :: "u32 \<Rightarrow> stream_cursor_mode" where
  "stream_cursor_of cursor_mode =
     (if cursor_mode = CURSOR_MODE_EMBEDDED then Cursor_Embedded else Cursor_Hidden)"

text \<open>
  \<open>start_cast\<close>: the reply, what it did to the cast it spawned, and the new shared state.
  Look 0 is the first cancellation test, 1 the reservation, 2 the release after a failed
  spawn, 3 the test after negotiation, 4 the installation or the release.
\<close>

definition start_cast ::
  "start_env \<Rightarrow> string \<Rightarrow> string \<Rightarrow> string \<Rightarrow> cast_world
     \<Rightarrow> result_value portal_response \<times> cast_effect list \<times> cast_world" where
  "start_cast env req_path ses_path app w =
     (let w0 = between env 0 w in
      if request_closed w0 req_path then ((1, []), [], w0)
      else let w1 = between env 1 w0 in
        (case reserve_start ses_path app (cw_reg w1) of
           (Inl _, _) \<Rightarrow> ((2, []), [], w1)
         | (Inr selection, reg) \<Rightarrow>
             (let w2 = w1\<lparr>cw_reg := reg\<rparr> in
              case ste_spawn env of
                Inl _ \<Rightarrow>
                  (let w3 = between env 2 w2 in
                   ((2, []), [], w3\<lparr>cw_reg := clear_start ses_path (cw_reg w3)\<rparr>))
              | Inr (stop, thread) \<Rightarrow>
                  (let w3 = between env 3 w2; w4 = between env 4 w3;
                       abandoned = w4\<lparr>cw_reg := clear_start ses_path (cw_reg w4)\<rparr> in
                   case ste_started env of
                     Started_Ok started \<Rightarrow>
                       if request_closed w3 req_path
                       then ((1, []), [Drop_Stop stop, Join_Thread thread], abandoned)
                       else
                         (case mark_started ses_path stop thread (cw_reg w4) of
                            (Inl (s, t), _) \<Rightarrow> ((1, []), [Drop_Stop s, Join_Thread t], w4)
                          | (Inr _, reg') \<Rightarrow>
                              ((0, start_results selection started), [], w4\<lparr>cw_reg := reg'\<rparr>))
                   | Started_Err \<Rightarrow> ((2, []), [Drop_Stop stop, Join_Thread thread], abandoned)
                   | Started_Timeout \<Rightarrow> ((2, []), [Drop_Stop stop, Join_Thread thread], abandoned)))))"

section \<open>Close and the bus methods\<close>

datatype close_effect = Close_Cast cast_effect | Emit_Closed string | Remove_Object string

definition close_session :: "string \<Rightarrow> cast_world \<Rightarrow> close_effect list \<times> cast_world" where
  "close_session ses_path w =
     (case remove_session ses_path (cw_reg w) of
        (None, reg) \<Rightarrow> ([], w\<lparr>cw_reg := reg\<rparr>)
      | (Some session, reg) \<Rightarrow>
          (map Close_Cast (stop_cast session) @ [Emit_Closed ses_path, Remove_Object ses_path],
           w\<lparr>cw_reg := reg\<rparr>))"

text \<open>\<open>exported\<close>: what \<open>object_server().at\<close> answers for the session object.\<close>

definition create_session ::
  "nat option \<Rightarrow> bool \<Rightarrow> (nat \<Rightarrow> world_event list) \<Rightarrow> nat + bool \<Rightarrow> string \<Rightarrow> string \<Rightarrow> string \<Rightarrow> cast_world
     \<Rightarrow> (fdo_error + result_value portal_response) \<times> cast_world" where
  "create_session fault remove_fails events exported req_path ses_path app w =
     (let look = (\<lambda>k v. fold world_step (events k) v);
          done_with = (\<lambda>v. v\<lparr>cw_req := finish remove_fails req_path (cw_req v)\<rparr>) in
      case register fault req_path (cw_req w) of
        (Inl e, rw) \<Rightarrow> (Inl e, w\<lparr>cw_req := rw\<rparr>)
      | (Inr _, rw) \<Rightarrow>
          (let w1 = look 0 (w\<lparr>cw_req := rw\<rparr>) in
           if request_closed w1 req_path then (Inr (1, []), done_with w1)
           else let w2 = look 1 w1 in
             (case insert_session ses_path app (cw_reg w2) of
                (Inl _, _) \<Rightarrow> (Inr (2, []), done_with w2)
              | (Inr _, reg) \<Rightarrow>
                  (let w3 = w2\<lparr>cw_reg := reg\<rparr> in
                   case exported of
                     Inr True \<Rightarrow> (Inr (0, []), done_with w3)
                   | Inr False \<Rightarrow>
                       (Inr (2, []),
                        done_with (w3\<lparr>cw_reg := snd (remove_session ses_path (cw_reg w3))\<rparr>))
                   | Inl e \<Rightarrow>
                       (Inl (Fdo_Zbus e),
                        done_with (w3\<lparr>cw_reg := snd (remove_session ses_path (cw_reg w3))\<rparr>))))))"

text \<open>The bus methods \<open>SelectSources\<close> and \<open>Start\<close>; \<open>outcome\<close> is the fate of the queued job.\<close>

definition select_error_text :: "select_error \<Rightarrow> string" where
  "select_error_text e =
     (case e of Sel_UndefinedBits _ \<Rightarrow> ''undefined bits'' | Sel_PersistMode _ \<Rightarrow> ''persist_mode''
        | Sel_NoServable \<Rightarrow> ''sources'' | Sel_CursorMode _ \<Rightarrow> ''cursor_mode'')"

definition select_sources_method ::
  "nat option \<Rightarrow> bool \<Rightarrow> result_value portal_response queue_outcome \<Rightarrow> string \<Rightarrow> string
     \<Rightarrow> (string \<times> variant) list \<Rightarrow> cast_world
     \<Rightarrow> (fdo_error + result_value portal_response) \<times> cast_world" where
  "select_sources_method fault remove_fails outcome req_path ses_path options w =
     (if \<not> contains_session ses_path (cw_reg w)
      then (Inl (Fdo_Failed (''unknown session '' @ ses_path)), w)
      else
        (case validate_select_shape (parse_select_options options) of
           Inl e \<Rightarrow> (Inl (Fdo_InvalidArgs (select_error_text e)), w)
         | Inr _ \<Rightarrow>
             (case dispatch fault remove_fails ''screencast'' req_path outcome (cw_req w) of
                (r, rw) \<Rightarrow> (r, w\<lparr>cw_req := rw\<rparr>))))"

definition start_method ::
  "nat option \<Rightarrow> bool \<Rightarrow> result_value portal_response queue_outcome \<Rightarrow> string \<Rightarrow> string \<Rightarrow> cast_world
     \<Rightarrow> (fdo_error + result_value portal_response) \<times> cast_world" where
  "start_method fault remove_fails outcome req_path ses_path w =
     (if \<not> contains_session ses_path (cw_reg w)
      then (Inl (Fdo_Failed (''unknown session '' @ ses_path)), w)
      else
        (case dispatch fault remove_fails ''screencast'' req_path outcome (cw_req w) of
           (r, rw) \<Rightarrow> (r, w\<lparr>cw_req := rw\<rparr>)))"

section \<open>The worker\<close>

text \<open>
  \<open>cast_worker\<close>: a selection or a start takes one of the active slots or is answered with
  code 2 at once; a task that cannot be spawned gives its slot back and is answered with
  code 2; a finished task answers and gives its slot back. \<open>wk_tasks\<close> holds the requests
  whose task runs, \<open>wk_replies\<close> the answers in order.
\<close>

record cast_worker =
  wk_active :: nat
  wk_tasks :: "string list"
  wk_replies :: "(string \<times> result_value portal_response) list"

datatype worker_event =
    Job_Request string bool
  | Job_Session_End string
  | Task_Done string "result_value portal_response"

fun worker_step :: "worker_event \<Rightarrow> cast_worker \<Rightarrow> cast_worker" where
  "worker_step (Job_Request path spawn_ok) s =
     (if MAX_ACTIVE_CAST_REQUESTS \<le> wk_active s
      then s\<lparr>wk_replies := wk_replies s @ [(path, (2, []))]\<rparr>
      else if spawn_ok
      then s\<lparr>wk_active := wk_active s + 1, wk_tasks := path # wk_tasks s\<rparr>
      else s\<lparr>wk_replies := wk_replies s @ [(path, (2, []))]\<rparr>)"
| "worker_step (Job_Session_End path) s = s"
| "worker_step (Task_Done path r) s =
     (if path \<in> set (wk_tasks s)
      then s\<lparr>wk_active := wk_active s - 1, wk_tasks := remove1 path (wk_tasks s),
             wk_replies := wk_replies s @ [(path, r)]\<rparr>
      else s)"

end
