(* ===== verification/Screencast_Safety.thy ===== *)
theory Screencast_Safety
  imports Screencast
begin

text \<open>
  What the ScreenCast backend guarantees: a session is armed only after consent or by a
  valid token, only with a source that was offered, never for a cancelled request; a
  spawned cast is owned by exactly one session or stopped; the worker is bounded.
\<close>

section \<open>Interference\<close>

definition req_events :: "world_event list \<Rightarrow> req_event list" where
  "req_events = List.map_filter (\<lambda>e. case e of WE_Req r \<Rightarrow> Some r | _ \<Rightarrow> None)"

definition reg_events :: "world_event list \<Rightarrow> registry_op list" where
  "reg_events = List.map_filter (\<lambda>e. case e of WE_Reg r \<Rightarrow> Some r | _ \<Rightarrow> None)"

lemma world_fold_req: "cw_req (fold world_step es w) = fold req_step (req_events es) (cw_req w)"
proof (induction es arbitrary: w)
  case Nil
  then show ?case by (simp add: req_events_def List.map_filter_def)
next
  case (Cons e es)
  then show ?case by (cases e) (simp_all add: req_events_def List.map_filter_def)
qed

lemma world_fold_reg: "cw_reg (fold world_step es w) = fold registry_step (reg_events es) (cw_reg w)"
proof (induction es arbitrary: w)
  case Nil
  then show ?case by (simp add: reg_events_def List.map_filter_def)
next
  case (Cons e es)
  then show ?case by (cases e) (simp_all add: reg_events_def List.map_filter_def)
qed

text \<open>The other threads never finish the request that is being served.\<close>

definition serves :: "(nat \<Rightarrow> world_event list) \<Rightarrow> string \<Rightarrow> bool" where
  "serves events path \<longleftrightarrow> (\<forall>k rf. WE_Req (Ev_Finish rf path) \<notin> set (events k))"

definition closes :: "(nat \<Rightarrow> world_event list) \<Rightarrow> nat \<Rightarrow> string \<Rightarrow> bool" where
  "closes events k path \<longleftrightarrow> WE_Req (Ev_Close path) \<in> set (events k)"

lemma req_events_iff: "r \<in> set (req_events es) \<longleftrightarrow> WE_Req r \<in> set es"
  by (induction es) (auto simp: req_events_def List.map_filter_def split: world_event.splits)

lemma fold_active:
  "p \<in> rt_active (rw_tracker w) \<Longrightarrow> \<forall>rf. Ev_Finish rf p \<notin> set es
   \<Longrightarrow> p \<in> rt_active (rw_tracker (fold req_step es w))"
proof (induction es arbitrary: w)
  case Nil
  then show ?case by simp
next
  case (Cons e es)
  then have "p \<in> rt_active (rw_tracker (req_step e w))" by (auto intro!: active_step)
  with Cons show ?case by simp
qed

definition in_service :: "cast_world \<Rightarrow> string \<Rightarrow> bool" where
  "in_service w path \<longleftrightarrow> path \<in> rt_active (rw_tracker (cw_req w))"

lemma interfere_service:
  assumes "serves (env_events env) p" and "in_service w p"
  shows "in_service (interfere env k w) p"
    and "request_closed (interfere env k w) p \<longleftrightarrow> closes (env_events env) k p \<or> request_closed w p"
proof -
  have nofin: "\<forall>rf. Ev_Finish rf p \<notin> set (req_events (env_events env k))"
    using assms(1) by (simp add: serves_def req_events_iff)
  show "in_service (interfere env k w) p"
    using assms(2) nofin
    by (simp add: in_service_def interfere_def world_fold_req fold_active)
  show "request_closed (interfere env k w) p \<longleftrightarrow> closes (env_events env) k p \<or> request_closed w p"
    using closed_run_iff [of p "cw_req w" "req_events (env_events env k)"] assms(2) nofin
    by (simp add: in_service_def interfere_def world_fold_req request_closed_def closes_def
        req_events_iff)
qed

text \<open>Changing only the registry or the store leaves the request's state alone.\<close>

lemma service_update [simp]:
  "in_service (w\<lparr>cw_reg := r\<rparr>) p = in_service w p"
  "in_service (w\<lparr>cw_store := s\<rparr>) p = in_service w p"
  "request_closed (w\<lparr>cw_reg := r\<rparr>) p = request_closed w p"
  "request_closed (w\<lparr>cw_store := s\<rparr>) p = request_closed w p"
  by (simp_all add: in_service_def request_closed_def)

section \<open>Arming\<close>

lemma mark_selected_0:
  assumes "mark_selected env k rp sp app src cursor persist grant w = (0, w')"
  shows "\<not> request_closed (interfere env k w) rp"
    and "mark_sources_selected sp app src cursor persist grant
           (cw_reg (interfere env (k + 1) (interfere env k w))) = (Inr (), cw_reg w')"
  using assms by (auto simp: mark_selected_def Let_def split: if_splits prod.splits sum.splits)

lemma mark_sources_selected_armed:
  assumes "mark_sources_selected sp app src cursor persist grant r = (Inr (), r')"
  shows "\<exists>s. map_of r sp = Some s \<and> cs_app_id s = app \<and> \<not> cs_sources_selected s
     \<and> map_of r' sp = Some (s\<lparr>cs_sources_selected := True, cs_source := src,
          cs_cursor_mode := cursor, cs_requested_persist_mode := persist, cs_persist_grant := grant\<rparr>)"
  using assms by (auto simp: mark_sources_selected_def split: option.splits if_splits)

section \<open>Which sources are offered\<close>

definition source_offered :: "select_options \<Rightarrow> u32 \<Rightarrow> output_info list \<Rightarrow> cast_source \<Rightarrow> bool" where
  "source_offered opts protocol outputs src \<longleftrightarrow>
     (case src of
        Src_Monitor None \<Rightarrow> True
      | Src_Monitor (Some c) \<Rightarrow>
          PER_SOURCE_PROTOCOL \<le> protocol \<and> (\<exists>out \<in> set outputs. c = trim_output (oi_connector out))
      | Src_Window _ \<Rightarrow>
          PER_SOURCE_PROTOCOL \<le> protocol \<and> so_source_types opts AND SOURCE_TYPE_WINDOW \<noteq> 0)"

lemma trim_output_prefix: "trim_output (''output:'' @ s) = trim_output s"
  by (subst trim_output.simps) simp

lemma trim_output_plain: "take 7 s \<noteq> ''output:'' \<Longrightarrow> trim_output s = s"
  by (subst trim_output.simps) simp

lemma choice_ids [simp]:
  "sc_id desktop_choice = ''desktop''" "sc_id window_choice = ''window''"
  "sc_id (output_choice out) = ''output:'' @ oi_connector out"
  by (simp_all add: desktop_choice_def window_choice_def output_choice_def)

lemma source_choices_ids:
  assumes "source_choices opts protocol pc = (choices, offered, pc')"
  shows "offered \<longleftrightarrow> PER_SOURCE_PROTOCOL \<le> protocol \<and> so_source_types opts AND SOURCE_TYPE_WINDOW \<noteq> 0"
    and "sc_id ` set choices \<subseteq> {''desktop''}
           \<union> (\<lambda>out. ''output:'' @ oi_connector out) ` set (fst (list_outputs protocol pc))
           \<union> (if offered then {''window''} else {})"
    and "length choices = 1 \<Longrightarrow> choices = [desktop_choice]"
  using assms by (auto simp: source_choices_def Let_def split: if_splits prod.splits)

lemma choose_source_Inr:
  assumes "choose_source env rp app choices ro w = (Inr (selected, remember), w1)"
  shows "selected \<in> sc_id ` set choices" and "remember \<Longrightarrow> ro"
    and "w1 = interfere env 4 w" and "\<not> request_closed w1 rp"
  using assms
  by (auto simp: choose_source_def Let_def choose_source_request_of_def
      split: if_splits invoke_outcome.splits prompt_result.splits choose_source_response.splits)

lemma resolve_cases:
  "resolve_source ''desktop'' offered protocol pc = (Inr (Src_Monitor None), pc)"
  "resolve_source (''output:'' @ c) offered protocol pc =
     (if PER_SOURCE_PROTOCOL \<le> protocol then (Inr (Src_Monitor (Some (trim_output c))), pc)
      else (Inl 2, pc))"
  "resolve_source ''window'' True protocol pc = (Inr src, pc') \<Longrightarrow> \<exists>w. src = Src_Window w"
  using trim_output_prefix [of c]
  by (auto simp: resolve_source_def split: prod.splits sum.splits)

lemma resolve_source_offered:
  assumes "resolve_source selected offered protocol pc = (Inr src, pc')"
    and "selected \<in> {''desktop''} \<union> (\<lambda>out. ''output:'' @ oi_connector out) ` set outputs
          \<union> (if offered then {''window''} else {})"
    and "offered \<longleftrightarrow> PER_SOURCE_PROTOCOL \<le> protocol \<and> so_source_types opts AND SOURCE_TYPE_WINDOW \<noteq> 0"
  shows "source_offered opts protocol outputs src"
proof -
  consider "selected = ''desktop''"
    | out where "out \<in> set outputs" "selected = ''output:'' @ oi_connector out"
    | "selected = ''window''" offered
    using assms(2) by (auto split: if_splits)
  then show ?thesis
  proof cases
    case 1
    with assms(1) have "src = Src_Monitor None" by (simp add: resolve_cases(1))
    then show ?thesis by (simp add: source_offered_def)
  next
    case 2
    with assms(1) have "PER_SOURCE_PROTOCOL \<le> protocol" "src = Src_Monitor (Some (trim_output (oi_connector out)))"
      by (simp_all only: resolve_cases(2)) (simp_all split: if_splits)
    with 2(1) show ?thesis by (auto simp: source_offered_def)
  next
    case 3
    with assms(1) have "resolve_source ''window'' True protocol pc = (Inr src, pc')" by simp
    from resolve_cases(3) [OF this] obtain w where "src = Src_Window w" by blast
    with 3 assms(3) show ?thesis by (simp add: source_offered_def)
  qed
qed

section \<open>The capture client along a selection\<close>

lemma list_outputs_frame:
  assumes "capture_inv pc" and "list_outputs protocol pc = (outputs, pc')"
  shows "capture_inv pc' \<and> prompts_asked pc' = prompts_asked pc"
  using assms
  by (auto simp: list_outputs_def dest: capture_ops_frame(2) split: if_splits prod.splits sum.splits)

lemma source_choices_frame:
  assumes "capture_inv pc" and "source_choices opts protocol pc = (choices, offered, pc')"
  shows "capture_inv pc'"
  using assms list_outputs_frame [OF assms(1)]
  by (auto simp: source_choices_def Let_def split: if_splits prod.splits)

lemma resolve_source_frame:
  assumes "capture_inv pc" and "resolve_source selected offered protocol pc = (r, pc')"
  shows "capture_inv pc'"
proof -
  have pick: "capture_inv q'" if "pick_window pc = (x, q')" for x q'
  proof -
    obtain y q where q: "pick Pick_Window pc = (y, q)" by fastforce
    from interactive_frame [OF assms(1) client_calls_send_once(4) q [unfolded pick_def]]
    have "capture_inv q" by simp
    moreover have "q' = q"
      using that q by (auto simp: pick_window_def split: sum.splits pick_result.splits)
    ultimately show ?thesis by simp
  qed
  show ?thesis
    using assms(2) pick assms(1)
    by (auto simp: resolve_source_def split: if_splits prod.splits sum.splits)
qed

lemma confirm_and_arm_0:
  assumes "capture_inv pc"
    and "confirm_and_arm env rp sp app opts sender src remember pc w = (0, pc', w')"
  shows "pc_pick_confirm ''Share Your Screen'' (consent_body app src) (Some ''Share'') pc
           = (Inr Confirm_Confirmed, pc')"
    and "prompts_asked pc' = prompts_asked pc
           @ [Req_PickConfirm ''Share Your Screen'' (consent_body app src) (Some ''Share'')]"
    and "\<exists>grant w2. persist_selection env app opts remember sender src (interfere env 6 w) = (grant, w2)
           \<and> \<not> request_closed (interfere env 6 w) rp
           \<and> mark_selected env 8 rp sp app src (so_cursor_mode opts) (so_persist_mode opts) grant w2
               = (0, w')"
proof -
  obtain r q where q: "pc_pick_confirm ''Share Your Screen'' (consent_body app src) (Some ''Share'') pc
      = (r, q)" by fastforce
  from assms(2) q show c: "pc_pick_confirm ''Share Your Screen'' (consent_body app src) (Some ''Share'') pc
           = (Inr Confirm_Confirmed, pc')"
    by (auto simp: confirm_and_arm_def Let_def
        split: sum.splits confirm_pick_result.splits if_splits prod.splits)
  show "prompts_asked pc' = prompts_asked pc
           @ [Req_PickConfirm ''Share Your Screen'' (consent_body app src) (Some ''Share'')]"
    using interactive_frame [OF assms(1) client_calls_send_once(5) c [unfolded pc_pick_confirm_def]]
    by simp
  from assms(2) c show "\<exists>grant w2.
      persist_selection env app opts remember sender src (interfere env 6 w) = (grant, w2)
           \<and> \<not> request_closed (interfere env 6 w) rp
           \<and> mark_selected env 8 rp sp app src (so_cursor_mode opts) (so_persist_mode opts) grant w2
               = (0, w')"
    by (auto simp: confirm_and_arm_def Let_def split: if_splits prod.splits)
qed

lemma persist_selection_grant:
  assumes "persist_selection env app opts remember sender src w = (grant, w2)" and "grant = Some (m, t)"
  shows "remember" and "0 < so_persist_mode opts" and "m = so_persist_mode opts"
    and "\<exists>out. src = Src_Monitor out"
  using assms by (auto simp: persist_selection_def Let_def split: if_splits cast_source.splits prod.splits)

lemma persist_selection_service [simp]:
  assumes "persist_selection env app opts remember sender src w = (grant, w2)"
    and "serves (env_events env) p" and "in_service w p"
  shows "in_service w2 p" and "request_closed w p \<Longrightarrow> request_closed w2 p"
  using assms interfere_service [OF assms(2,3)]
  by (auto simp: persist_selection_def Let_def split: if_splits cast_source.splits prod.splits)

text \<open>A failure code is never 0.\<close>

lemma failure_codes:
  "choose_source env rp app choices ro w = (Inl code, w1) \<Longrightarrow> code \<noteq> 0"
  "resolve_source selected offered protocol pc = (Inl code, pc') \<Longrightarrow> code \<noteq> 0"
  by (auto simp: choose_source_def resolve_source_def pick_window_def Let_def
      split: if_splits invoke_outcome.splits prompt_result.splits choose_source_response.splits
        prod.splits sum.splits pick_result.splits)

text \<open>The parts of a successful interactive selection.\<close>

lemma select_interactive_0:
  assumes "capture_inv pc"
    and "select_interactive env rp sp app opts sender protocol pc w = (0, pc', w')"
  obtains src remember pc1 pc2 w1 where
    "capture_inv pc2"
    "source_offered opts protocol (fst (list_outputs protocol pc)) src"
    "remember \<Longrightarrow> 0 < so_persist_mode opts"
    "w1 = w \<or> w1 = interfere env 4 w"
    "\<not> request_closed (interfere env 5 w1) rp"
    "confirm_and_arm env rp sp app opts sender src remember pc2 (interfere env 5 w1) = (0, pc', w')"
proof -
  obtain choices offered pc1 where sc: "source_choices opts protocol pc = (choices, offered, pc1)"
    by (metis prod_cases3)
  note ids = source_choices_ids [OF sc]
  obtain c w1 where cw: "(if length choices = 1 then (Inr (''desktop'', False), w)
        else choose_source env rp app choices (0 < so_persist_mode opts) w) = (c, w1)" by fastforce
  from assms(2) sc cw obtain selected remember where c: "c = Inr (selected, remember)"
    using failure_codes(1) by (cases c) (fastforce simp: select_interactive_def split: if_splits)+
  have sel: "selected \<in> sc_id ` set choices" "remember \<Longrightarrow> 0 < so_persist_mode opts"
      "w1 = w \<or> w1 = interfere env 4 w"
    using cw c ids(3) choose_source_Inr [of env rp app choices "0 < so_persist_mode opts" w]
    by (auto split: if_splits)
  obtain r pc2 where r: "resolve_source selected offered protocol pc1 = (r, pc2)" by fastforce
  from assms(2) sc cw c r obtain src where src: "r = Inr src"
    and fin: "\<not> request_closed (interfere env 5 w1) rp"
      "confirm_and_arm env rp sp app opts sender src remember pc2 (interfere env 5 w1) = (0, pc', w')"
    using failure_codes(2) by (cases r) (fastforce simp: select_interactive_def Let_def split: if_splits)+
  have "capture_inv pc2"
    using resolve_source_frame [OF source_choices_frame [OF assms(1) sc] r] .
  moreover have "source_offered opts protocol (fst (list_outputs protocol pc)) src"
    using resolve_source_offered [OF r [unfolded src] _ ids(1)] sel(1) ids(2) by blast
  ultimately show ?thesis using that fin sel by blast
qed

text \<open>The parts of a successful restore.\<close>

lemma try_restore_Some:
  assumes "try_restore env rp sp app opts protocol pc w = (Some (0, w'), pc', wx)"
  obtains token mode sel store w3 where
    "0 < so_persist_mode opts" "so_restore_token opts = Some token"
    "validate_token token app
       (\<lambda>s. servable_source s protocol (fst (list_outputs protocol pc))) store = Some (mode, sel)"
    "mark_selected env 3 rp sp app (restored_source (sl_source sel)) (sl_cursor_mode sel) mode
       (Some (mode, token)) w3 = (0, w')"
    "pc' = snd (list_outputs protocol pc)"
    "cw_req w3 = cw_req (interfere env 2 (interfere env 1 w))"
  using assms
  by (auto simp: try_restore_def Let_def split: option.splits prod.splits if_splits)

lemma try_restore_None:
  assumes "try_restore env rp sp app opts protocol pc w = (None, pc', w')" and "capture_inv pc"
  shows "capture_inv pc'"
    and "cw_req w' = cw_req w \<or> cw_req w' = cw_req (interfere env 2 (interfere env 1 w))"
proof -
  show "capture_inv pc'"
    using assms list_outputs_frame [OF assms(2)]
    by (auto simp: try_restore_def Let_def split: option.splits prod.splits if_splits)
  show "cw_req w' = cw_req w \<or> cw_req w' = cw_req (interfere env 2 (interfere env 1 w))"
    using assms(1)
    by (auto simp: try_restore_def Let_def split: option.splits prod.splits if_splits)
qed

text \<open>A successful selection is a restore or an interactive one.\<close>

lemma select_sources_0:
  assumes "select_sources env rp sp app opts sender pc w = (0, pc', w')" and "capture_inv pc"
  obtains (restored) protocol pc1 wx where
      "\<not> request_closed (interfere env 0 w) rp" "capture_inv pc1" "prompts_asked pc1 = prompts_asked pc"
      "try_restore env rp sp app opts protocol pc1 (interfere env 0 w) = (Some (0, w'), pc', wx)"
  | (asked) protocol pc2 w1 where
      "\<not> request_closed (interfere env 0 w) rp" "capture_inv pc2"
      "cw_req w1 = cw_req (interfere env 0 w)
         \<or> cw_req w1 = cw_req (interfere env 2 (interfere env 1 (interfere env 0 w)))"
      "select_interactive env rp sp app opts sender protocol pc2 w1 = (0, pc', w')"
proof -
  obtain pv pc1 where pv: "pc_protocol_version pc = (pv, pc1)" by fastforce
  let ?v = "case pv of Inl _ \<Rightarrow> MIN_PROTOCOL_VERSION | Inr v \<Rightarrow> v"
  have pc1: "capture_inv pc1" "prompts_asked pc1 = prompts_asked pc"
    using capture_ops_frame(1) [OF assms(2) pv] by auto
  obtain t pc2 w1 where t: "try_restore env rp sp app opts ?v pc1 (interfere env 0 w) = (t, pc2, w1)"
    by (metis prod_cases3)
  from assms(1) pv have open0: "\<not> request_closed (interfere env 0 w) rp"
    by (auto simp: select_sources_def Let_def split: if_splits)
  show ?thesis
  proof (cases t)
    case None
    with t have t0: "try_restore env rp sp app opts ?v pc1 (interfere env 0 w) = (None, pc2, w1)"
      by simp
    from assms(1) pv t0 open0
    have "select_interactive env rp sp app opts sender ?v pc2 w1 = (0, pc', w')"
      by (auto simp: select_sources_def Let_def split: if_splits)
    with asked open0 try_restore_None [OF t0 pc1(1)] show ?thesis by blast
  next
    case (Some cw)
    obtain code w2 where cw: "cw = (code, w2)" by fastforce
    from assms(1) pv t open0 Some cw have "code = 0" "w2 = w'" "pc2 = pc'"
      by (auto simp: select_sources_def Let_def split: if_splits)
    with restored [OF open0 pc1] t Some cw show ?thesis by blast
  qed
qed

section \<open>Properties of SelectSources\<close>

text \<open>
  A source armed by consent: it was on offer for the client's mask and the compositor's
  outputs, and the last question put to the user named the application and this source and
  was confirmed. A token grant comes from the requested mode, for a monitor source only.
\<close>

definition by_consent ::
  "string \<Rightarrow> select_options \<Rightarrow> portal_capture \<Rightarrow> cast_source \<Rightarrow> u32 \<Rightarrow> u32 \<Rightarrow> persist_grant \<Rightarrow> bool" where
  "by_consent app opts pc' src cursor persist grant \<longleftrightarrow>
     (\<exists>protocol pc1. source_offered opts protocol (fst (list_outputs protocol pc1)) src)
     \<and> (\<exists>pc2. pc_pick_confirm ''Share Your Screen'' (consent_body app src) (Some ''Share'') pc2
               = (Inr Confirm_Confirmed, pc')
          \<and> prompts_asked pc' = prompts_asked pc2
               @ [Req_PickConfirm ''Share Your Screen'' (consent_body app src) (Some ''Share'')])
     \<and> cursor = so_cursor_mode opts \<and> persist = so_persist_mode opts
     \<and> (\<forall>m t. grant = Some (m, t) \<longrightarrow> 0 < m \<and> m = so_persist_mode opts
          \<and> (\<exists>out. src = Src_Monitor out))"

text \<open>A source armed by a token: the presented token resolves, for this application and
  against the compositor's outputs, to the stored selection, which is armed as it is.\<close>

definition by_token ::
  "string \<Rightarrow> select_options \<Rightarrow> cast_source \<Rightarrow> u32 \<Rightarrow> u32 \<Rightarrow> persist_grant \<Rightarrow> bool" where
  "by_token app opts src cursor persist grant \<longleftrightarrow>
     (\<exists>protocol pc1 token mode sel store.
        so_restore_token opts = Some token \<and> 0 < so_persist_mode opts
        \<and> validate_token token app
            (\<lambda>x. servable_source x protocol (fst (list_outputs protocol pc1))) store = Some (mode, sel)
        \<and> src = restored_source (sl_source sel) \<and> cursor = sl_cursor_mode sel
        \<and> persist = mode \<and> grant = Some (mode, token))"



section \<open>A concrete selection\<close>

definition sample_env :: select_env where
  "sample_env = \<lparr>env_events = (\<lambda>_. []), env_invoke = (\<lambda>_. Invoke_Failed), env_random = replicate 16 7,
     env_enc_len = (\<lambda>_. 100), env_write_fault = (\<lambda>_. None)\<rparr>"

definition sample_opts :: select_options where
  "sample_opts = \<lparr>so_source_types = 1, so_cursor_mode = 1, so_persist_mode = 0, so_restore_token = None\<rparr>"

definition sample_world :: cast_world where
  "sample_world =
     \<lparr>cw_req = \<lparr>rw_objects = {''/r''}, rw_tracker = \<lparr>rt_active = {''/r''}, rt_closed = {}\<rparr>\<rparr>,
      cw_reg = [(''/s'', fresh_session ''org.x'')],
      cw_store = (load_store None None, None)\<rparr>"

definition sample_capture :: portal_capture where
  "sample_capture = capture_new
     (\<lambda>_ _. granting_dial 29 [Resp_Outputs [], Resp_ConfirmPicked Confirm_Confirmed])"

lemma sample_protocol:
  "\<exists>c. pc_protocol_version sample_capture = (Inr 29, c)
     \<and> pc_client c = Some \<lparr>c_msgs = [Inr (Msg_Response (Resp_Outputs [])),
              Inr (Msg_Response (Resp_ConfirmPicked Confirm_Confirmed))], c_fds = [], c_faults = [],
            c_sent = [hello_request portal_caps (Some LOCAL_PORTAL_SCOPE) 29], c_caps = portal_caps,
            c_lease = Some \<lparr>lg_id = 1, lg_ttl_ms = 900000, lg_renewable = True\<rparr>,
            c_version = 29, c_pending = []\<rparr>
     \<and> pc_clock c = [] \<and> pc_timeouts c = []"
  by (simp add: pc_protocol_version_def sample_capture_def get_client_new remember_protocol_version_def)
    (simp add: capture_new_def)

lemma get_client_live:
  "pc_client p = Some c \<Longrightarrow> pc_clock p = [] \<Longrightarrow> pc_timeouts p = [] \<Longrightarrow> get_client p = (Inr c, p)"
  by (simp add: get_client_def set_io_timeout_def renew_if_due_def now_def LEASE_TTL_MS_def)

lemma sample_select: "fst (select_sources sample_env ''/r'' ''/s'' ''org.x'' sample_opts None
    sample_capture sample_world) = 0"
proof -
  obtain c where c: "pc_protocol_version sample_capture = (Inr 29, c)"
     "pc_client c = Some \<lparr>c_msgs = [Inr (Msg_Response (Resp_Outputs [])),
              Inr (Msg_Response (Resp_ConfirmPicked Confirm_Confirmed))], c_fds = [], c_faults = [],
            c_sent = [hello_request portal_caps (Some LOCAL_PORTAL_SCOPE) 29], c_caps = portal_caps,
            c_lease = Some \<lparr>lg_id = 1, lg_ttl_ms = 900000, lg_renewable = True\<rparr>,
            c_version = 29, c_pending = []\<rparr>"
     "pc_clock c = []" "pc_timeouts c = []"
    using sample_protocol by blast
  have closed: "\<not> request_closed sample_world ''/r''"
    by (simp add: request_closed_def sample_world_def was_closed_def)
  have ok: "is_ok (validate_select sample_opts 29)"
    by (simp add: validate_select_def validate_select_shape_def sample_opts_def SOURCE_TYPE_MONITOR_def
        SOURCE_TYPE_WINDOW_def CURSOR_MODE_HIDDEN_def PER_SOURCE_PROTOCOL_def)
  have still: "interfere sample_env k w = w" for k w
    by (simp add: interfere_def sample_env_def)
  have arm: "mark_sources_selected ''/s'' ''org.x'' src cur per gr (cw_reg sample_world)
      = (Inr (), snd (mark_sources_selected ''/s'' ''org.x'' src cur per gr (cw_reg sample_world)))"
    for src cur per gr
    by (simp add: mark_sources_selected_def sample_world_def fresh_session_def)
  show ?thesis
    using closed ok
    by (simp add: select_sources_def still c try_restore_def sample_opts_def
        select_interactive_def source_choices_def list_outputs_def PER_SOURCE_PROTOCOL_def
        pc_enumerate_outputs_def with_retry_def get_client_live Ipc_Client.enumerate_outputs_def
        request_reply_def write_req_def read_response_def read_value_def SOURCE_TYPE_WINDOW_def
        resolve_cases(1) confirm_and_arm_def pc_pick_confirm_def interactive_def pick_confirm_def
        set_io_timeout_def persist_selection_def mark_selected_def Let_def)
      (subst arm, simp)
qed



section \<open>Properties of Start\<close>

lemma clear_start_idle: "map_of (clear_start sp r) sp = Some s \<Longrightarrow> \<not> cs_starting s"
  by (auto simp: clear_start_def split: option.splits)

lemma mark_started_cases:
  "mark_started sp k t r = (Inl x, r') \<Longrightarrow> x = (k, t) \<and> r' = r \<and> map_of r sp = None"
  "mark_started sp k t r = (Inr u, r') \<Longrightarrow>
     \<exists>s. map_of r' sp = Some s \<and> cs_stop s = Some k \<and> cs_cast_thread s = Some t \<and> \<not> cs_starting s"
  by (auto simp: mark_started_def split: option.splits)

text \<open>C4: a cast that Start spawned is never lost. Either the reply is success and the cast is
  installed, stop socket and thread, in a session no longer marked as starting; or the reply
  is a failure without results, the cast has been told to stop and has been joined, and no
  start reservation is left on the session; or Start was refused before anything was
  spawned.\<close>

theorem spawned_cast_is_owned:
  assumes "start_cast env rp sp app w = ((code, res), eff, w')" and "ste_spawn env = Inr (k, t)"
  shows "code = 0 \<and> eff = []
       \<and> (\<exists>s. map_of (cw_reg w') sp = Some s \<and> cs_stop s = Some k \<and> cs_cast_thread s = Some t
            \<and> \<not> cs_starting s)
     \<or> code \<noteq> 0 \<and> res = [] \<and> eff = [Drop_Stop k, Join_Thread t]
       \<and> (\<forall>s. map_of (cw_reg w') sp = Some s \<longrightarrow> \<not> cs_starting s)
     \<or> code \<noteq> 0 \<and> res = [] \<and> eff = []
       \<and> (request_closed (between env 0 w) rp
          \<or> \<not> is_ok (fst (reserve_start sp app (cw_reg (between env 1 (between env 0 w))))))"
proof (cases "request_closed (between env 0 w) rp")
  case True
  with assms(1) show ?thesis by (auto simp: start_cast_def)
next
  case open0: False
  obtain x reg where x: "reserve_start sp app (cw_reg (between env 1 (between env 0 w))) = (x, reg)"
    by fastforce
  show ?thesis
  proof (cases x)
    case (Inl e)
    with assms(1) open0 x show ?thesis by (auto simp: start_cast_def Let_def)
  next
    case (Inr sel)
    show ?thesis
      using assms open0 x Inr clear_start_idle mark_started_cases
      by (simp add: start_cast_def Let_def split: started_outcome.splits if_splits prod.splits sum.splits)
        (fastforce)+
  qed
qed


section \<open>A concrete start\<close>

definition armed_world :: "string \<Rightarrow> cast_world" where
  "armed_world app = sample_world\<lparr>cw_reg := [(''/s'', (fresh_session app)\<lparr>cs_sources_selected := True,
     cs_requested_persist_mode := 2\<rparr>)]\<rparr>"

definition sample_started :: cast_started where
  "sample_started = \<lparr>cst_node_id = 42, cst_serial = 7, cst_position = (0, 0), cst_width = 640,
     cst_height = 480\<rparr>"

definition start_env_with :: "world_event list \<Rightarrow> start_env" where
  "start_env_with late = \<lparr>ste_events = (\<lambda>k. if k = 4 then late else []), ste_spawn = Inr (1, 2),
     ste_started = Started_Ok sample_started\<rparr>"

lemmas start_eval =
  start_cast_def between_def start_env_with_def armed_world_def sample_world_def request_closed_def
  was_closed_def reserve_start_def fresh_session_def is_live_def live_casts_def MAX_LIVE_CASTS_def
  mark_started_def Let_def

lemma sample_start:
  "\<exists>res w'. start_cast (start_env_with []) ''/r'' ''/s'' ''org.x'' (armed_world ''org.x'') = ((0, res), [], w')"
  by (simp add: start_eval)

theorem spawned_cast_is_owned_witness:
  "\<exists>res w' s. start_cast (start_env_with []) ''/r'' ''/s'' ''org.x'' (armed_world ''org.x'')
       = ((0, res), [], w') \<and> map_of (cw_reg w') ''/s'' = Some s \<and> cs_stop s = Some 1"
proof -
  obtain res w' where run: "start_cast (start_env_with []) ''/r'' ''/s'' ''org.x'' (armed_world ''org.x'')
       = ((0, res), [], w')" using sample_start by blast
  have "ste_spawn (start_env_with []) = Inr (1, 2)" by (simp add: start_env_with_def)
  from spawned_cast_is_owned [OF run this] run show ?thesis by auto
qed


text \<open>The installation looks the session up by its path alone: when the session is closed and
  the path is taken again by another application while the cast negotiates, the cast is
  installed in the new session, whose owner selected nothing.\<close>

theorem start_can_install_in_a_reused_path:
  "\<exists>res w' s. start_cast (start_env_with [WE_Reg (Op_Remove ''/s''), WE_Reg (Op_Insert ''/s'' ''org.y'')])
       ''/r'' ''/s'' ''org.x'' (armed_world ''org.x'') = ((0, res), [], w')
     \<and> map_of (cw_reg w') ''/s'' = Some s \<and> cs_app_id s = ''org.y'' \<and> \<not> cs_sources_selected s
     \<and> cs_stop s = Some 1"
  by (simp add: start_eval remove_session_def insert_session_def MAX_SESSIONS_def)

section \<open>The worker\<close>

definition worker_inv :: "cast_worker \<Rightarrow> bool" where
  "worker_inv s \<longleftrightarrow> wk_active s = length (wk_tasks s) \<and> wk_active s \<le> MAX_ACTIVE_CAST_REQUESTS"

lemma worker_step_inv [inv_intros]: "worker_inv s \<Longrightarrow> worker_inv (worker_step e s)"
  by (cases e) (auto simp: worker_inv_def length_remove1)

interpretation worker: guarded_machine worker_step worker_inv
  by unfold_locales (rule worker_step_inv)

definition worker_init :: cast_worker where
  "worker_init = \<lparr>wk_active = 0, wk_tasks = [], wk_replies = []\<rparr>"

text \<open>How often a path was requested, and how often it was answered or is being worked on.\<close>

definition requests_of :: "string \<Rightarrow> worker_event list \<Rightarrow> nat" where
  "requests_of p es = length (filter (\<lambda>e. case e of Job_Request q _ \<Rightarrow> q = p | _ \<Rightarrow> False) es)"

definition answers_of :: "string \<Rightarrow> cast_worker \<Rightarrow> nat" where
  "answers_of p s = count_list (map fst (wk_replies s)) p + count_list (wk_tasks s) p"

lemma count_remove1: "x \<in> set xs \<Longrightarrow> count_list (remove1 x xs) y + (if x = y then 1 else 0) = count_list xs y"
  by (induction xs) auto

lemma worker_step_answers:
  "answers_of p (worker_step e s)
     = answers_of p s + (case e of Job_Request q _ \<Rightarrow> if q = p then 1 else 0 | _ \<Rightarrow> 0)"
proof (cases e)
  case (Task_Done path r)
  show ?thesis
    using count_remove1 [of path "wk_tasks s" p]
    by (auto simp: Task_Done answers_of_def split: if_splits)
qed (auto simp: answers_of_def)

lemma worker_run_answers:
  "answers_of p (fold worker_step es s) = answers_of p s + requests_of p es"
  by (induction es arbitrary: s)
    (auto simp: worker_step_answers requests_of_def split: worker_event.splits)

text \<open>The screencast worker never runs more than 32 selections and starts at a time, and
  accounts for every request: each one has been answered, or its task is still running,
  exactly once, whether the limit refused it, its thread could not be spawned, or its task
  finished.\<close>

theorem worker_answers_each_request_once:
  "wk_active (fold worker_step es worker_init) \<le> 32
   \<and> wk_active (fold worker_step es worker_init) = length (wk_tasks (fold worker_step es worker_init))
   \<and> count_list (map fst (wk_replies (fold worker_step es worker_init))) p
       + count_list (wk_tasks (fold worker_step es worker_init)) p = requests_of p es"
proof -
  have "worker_inv worker_init" by (simp add: worker_inv_def worker_init_def)
  from worker.run_inv [OF this, of es] worker_run_answers [of p es worker_init] show ?thesis
    by (simp add: worker_inv_def MAX_ACTIVE_CAST_REQUESTS_def answers_of_def worker_init_def)
qed

end
