(* ===== verification/Cast_Format.thy ===== *)
theory Cast_Format
  imports Prelude Ipc_Schema
begin

text \<open>
  Pixel formats and parameter pods,
  \<open>crates/xdg-desktop-portal-atrium/src/cast/format.rs\<close>. The libspa constants (property
  keys, object types, raw format numbers) are the record \<open>spa\<close>; the serializer and the
  parser of libspa are the parameters \<open>ser\<close> and \<open>deser\<close>. A pod value has the constructors the
  code builds and inspects.
\<close>

datatype video_format =
    VF_BGRx | VF_RGBx | VF_BGRA | VF_RGBA | VF_xBGR | VF_ABGR | VF_xRGB | VF_ARGB

datatype 'a choice_enum =
    Choice_None 'a
  | Choice_Range 'a 'a 'a
  | Choice_Step 'a 'a 'a 'a
  | Choice_Enum 'a "'a list"
  | Choice_Flags 'a "'a list"

datatype pod_value =
    Pod_Id u32
  | Pod_Int i32
  | Pod_Long i64
  | Pod_Rectangle "u32 \<times> u32"
  | Pod_Choice_Id "u32 choice_enum"
  | Pod_Choice_Int "i32 choice_enum"
  | Pod_Choice_Long "i64 choice_enum"
  | Pod_Choice_Rectangle "(u32 \<times> u32) choice_enum"
  | Pod_Choice_Fraction "(u32 \<times> u32) choice_enum"
  | Pod_Object u32 u32 "(u32 \<times> bool \<times> pod_value) list"
  | Pod_Other

text \<open>A property is its key, the MANDATORY flag and its value.\<close>

type_synonym pod_property = "u32 \<times> bool \<times> pod_value"

record spa =
  k_media_type :: u32
  k_media_subtype :: u32
  k_video_format :: u32
  k_video_modifier :: u32
  k_video_size :: u32
  k_video_framerate :: u32
  v_video :: u32
  v_raw :: u32
  o_format :: u32
  i_enum_format :: u32
  o_buffers :: u32
  i_buffers :: u32
  raw_format :: "video_format \<Rightarrow> u32"

definition FRAMERATE_DEFAULT :: "u32 \<times> u32" where "FRAMERATE_DEFAULT = (60, 1)"
definition FRAMERATE_MIN :: "u32 \<times> u32" where "FRAMERATE_MIN = (1, 1)"
definition FRAMERATE_MAX :: "u32 \<times> u32" where "FRAMERATE_MAX = (360, 1)"
definition DMABUF_DATA_TYPE_BIT :: u32 where "DMABUF_DATA_TYPE_BIT = push_bit 3 1"
definition ALL_DATA_TYPES :: u32 where
  "ALL_DATA_TYPES = push_bit 1 1 OR push_bit 2 1 OR DMABUF_DATA_TYPE_BIT"
definition SHM_POOL_BUFFERS :: nat where "SHM_POOL_BUFFERS = 4"
definition DRM_FORMAT_MOD_LINEAR :: u64 where "DRM_FORMAT_MOD_LINEAR = 0"

section \<open>The announced format\<close>

datatype announced_format = Ann_Shm video_format | Ann_Dmabuf u32 u64 video_format

fun spa_format :: "announced_format \<Rightarrow> video_format" where
  "spa_format (Ann_Shm f) = f"
| "spa_format (Ann_Dmabuf _ _ f) = f"

definition fourcc :: "char \<Rightarrow> char \<Rightarrow> char \<Rightarrow> char \<Rightarrow> u32" where
  "fourcc a b c d = of_char a OR push_bit 8 (of_char b) OR push_bit 16 (of_char c)
     OR push_bit 24 (of_char d)"

definition spa_format_for_drm :: "u32 \<Rightarrow> video_format option" where
  "spa_format_for_drm f =
     (if f = fourcc CHR ''X'' CHR ''R'' CHR ''2'' CHR ''4'' then Some VF_BGRx
      else if f = fourcc CHR ''A'' CHR ''R'' CHR ''2'' CHR ''4'' then Some VF_BGRA
      else if f = fourcc CHR ''X'' CHR ''B'' CHR ''2'' CHR ''4'' then Some VF_RGBx
      else if f = fourcc CHR ''A'' CHR ''B'' CHR ''2'' CHR ''4'' then Some VF_RGBA
      else if f = fourcc CHR ''R'' CHR ''X'' CHR ''2'' CHR ''4'' then Some VF_xBGR
      else if f = fourcc CHR ''R'' CHR ''A'' CHR ''2'' CHR ''4'' then Some VF_ABGR
      else if f = fourcc CHR ''B'' CHR ''X'' CHR ''2'' CHR ''4'' then Some VF_xRGB
      else if f = fourcc CHR ''B'' CHR ''A'' CHR ''2'' CHR ''4'' then Some VF_ARGB
      else None)"

text \<open>The error names the unsupported fourcc.\<close>

fun announce :: "stream_pixel_format \<Rightarrow> u32 + announced_format" where
  "announce Wire_Bgra8 = Inr (Ann_Shm VF_BGRx)"
| "announce Wire_Rgba8 = Inr (Ann_Shm VF_RGBx)"
| "announce (Wire_Dmabuf drm modifier) =
     (case spa_format_for_drm drm of
        None \<Rightarrow> Inl drm
      | Some f \<Rightarrow> Inr (Ann_Dmabuf drm modifier f))"

section \<open>Reading pods\<close>

record fixated_format =
  fx_spa_format :: u32
  fx_width :: u32
  fx_height :: u32
  fx_modifier :: "u64 option"

fun choice_default :: "'a choice_enum \<Rightarrow> 'a" where
  "choice_default (Choice_None v) = v"
| "choice_default (Choice_Range d _ _) = d"
| "choice_default (Choice_Step d _ _ _) = d"
| "choice_default (Choice_Enum d _) = d"
| "choice_default (Choice_Flags d _) = d"

fun pod_value_id :: "pod_value \<Rightarrow> u32 option" where
  "pod_value_id (Pod_Id i) = Some i"
| "pod_value_id (Pod_Choice_Id c) = Some (choice_default c)"
| "pod_value_id _ = None"

fun pod_value_rectangle :: "pod_value \<Rightarrow> (u32 \<times> u32) option" where
  "pod_value_rectangle (Pod_Rectangle r) = Some r"
| "pod_value_rectangle (Pod_Choice_Rectangle c) = Some (choice_default c)"
| "pod_value_rectangle _ = None"

fun pod_value_long :: "pod_value \<Rightarrow> i64 option" where
  "pod_value_long (Pod_Long n) = Some n"
| "pod_value_long (Pod_Choice_Long c) = Some (choice_default c)"
| "pod_value_long _ = None"

text \<open>The loop over the properties: a later property of the same key replaces the earlier.\<close>

definition scan_property ::
  "spa \<Rightarrow> pod_property \<Rightarrow> u32 option \<times> (u32 \<times> u32) option \<times> u64 option
     \<Rightarrow> u32 option \<times> (u32 \<times> u32) option \<times> u64 option" where
  "scan_property spa p acc =
     (case (p, acc) of
        ((key, _, value), (format, extent, modifier)) \<Rightarrow>
          (if key = k_video_format spa then (pod_value_id value, extent, modifier)
           else if key = k_video_size spa then (format, pod_value_rectangle value, modifier)
           else if key = k_video_modifier spa then (format, extent, pod_value_long value)
           else acc))"

definition parse_format_param :: "spa \<Rightarrow> ('b \<Rightarrow> pod_value option) \<Rightarrow> 'b \<Rightarrow> fixated_format option" where
  "parse_format_param spa deser param =
     (case deser param of
        Some (Pod_Object _ _ properties) \<Rightarrow>
          (case fold (scan_property spa) properties (None, None, None) of
             (Some format, Some (width, height), modifier) \<Rightarrow>
               Some \<lparr>fx_spa_format = format, fx_width = width, fx_height = height,
                     fx_modifier = modifier\<rparr>
           | _ \<Rightarrow> None)
      | _ \<Rightarrow> None)"

fun first_data_types :: "pod_property list \<Rightarrow> u32 option" where
  "first_data_types [] = None"
| "first_data_types ((key, _, value) # ps) =
     (if key \<noteq> 6 then first_data_types ps
      else (case value of
              Pod_Int bits \<Rightarrow> Some bits
            | Pod_Choice_Int c \<Rightarrow> Some (choice_default c)
            | _ \<Rightarrow> None))"

definition parse_buffers_data_types :: "('b \<Rightarrow> pod_value option) \<Rightarrow> 'b \<Rightarrow> u32 option" where
  "parse_buffers_data_types deser param =
     (case deser param of Some (Pod_Object _ _ properties) \<Rightarrow> first_data_types properties | _ \<Rightarrow> None)"

section \<open>Building pods\<close>

definition format_object :: "spa \<Rightarrow> u32 \<Rightarrow> u32 \<Rightarrow> video_format \<Rightarrow> u64 option \<Rightarrow> pod_value" where
  "format_object spa width height f modifier =
     Pod_Object (o_format spa) (i_enum_format spa)
       ([(k_media_type spa, False, Pod_Id (v_video spa)),
         (k_media_subtype spa, False, Pod_Id (v_raw spa)),
         (k_video_format spa, False, Pod_Id (raw_format spa f))]
        @ (case modifier of
             None \<Rightarrow> []
           | Some m \<Rightarrow> [(k_video_modifier spa, True, Pod_Choice_Long (Choice_Enum m [m]))])
        @ [(k_video_size spa, False, Pod_Rectangle (width, height)),
           (k_video_framerate spa, False,
             Pod_Choice_Fraction (Choice_Range FRAMERATE_DEFAULT FRAMERATE_MIN FRAMERATE_MAX))])"

definition format_pod ::
  "spa \<Rightarrow> (pod_value \<Rightarrow> 'b) \<Rightarrow> u32 \<Rightarrow> u32 \<Rightarrow> video_format \<Rightarrow> u64 option \<Rightarrow> 'b" where
  "format_pod spa ser width height f modifier = ser (format_object spa width height f modifier)"

definition format_pods ::
  "spa \<Rightarrow> (pod_value \<Rightarrow> 'b) \<Rightarrow> u32 \<Rightarrow> u32 \<Rightarrow> announced_format \<Rightarrow> bool \<Rightarrow> 'b list" where
  "format_pods spa ser width height announced has_slots =
     (case announced of
        Ann_Dmabuf _ modifier f \<Rightarrow>
          if has_slots
          then [format_pod spa ser width height f (Some modifier), format_pod spa ser width height f None]
          else [format_pod spa ser width height f None]
      | Ann_Shm f \<Rightarrow> [format_pod spa ser width height f None])"

text \<open>\<open>u32::try_from(n).unwrap_or(0).clamp(2, 8)\<close>.\<close>

definition buffers_default :: "nat \<Rightarrow> u32" where
  "buffers_default n = (let v = (if n < 2 ^ 32 then of_nat n else 0) in max 2 (min 8 v))"

definition buffers_pod :: "spa \<Rightarrow> (pod_value \<Rightarrow> 'b) \<Rightarrow> nat \<Rightarrow> i32 \<Rightarrow> i32 \<Rightarrow> 'b" where
  "buffers_pod spa ser default_buffers stride bytes =
     ser (Pod_Object (o_buffers spa) (i_buffers spa)
       [(1, False, Pod_Choice_Int (Choice_Range (buffers_default default_buffers) 2 8)),
        (2, False, Pod_Int 1),
        (3, False, Pod_Int bytes),
        (4, False, Pod_Int stride),
        (6, False, Pod_Choice_Int (Choice_Flags ALL_DATA_TYPES []))])"

section \<open>Properties\<close>

definition spa_keys_distinct :: "spa \<Rightarrow> bool" where
  "spa_keys_distinct spa \<longleftrightarrow>
     distinct [k_media_type spa, k_media_subtype spa, k_video_format spa, k_video_modifier spa,
               k_video_size spa, k_video_framerate spa]"

text \<open>C19: what the cast offers is what it understands: as long as libspa reads back what it
  serialized and its property keys differ, parsing any offered format gives the offered
  pixel format and geometry, and the modifier of the compositor exactly on the preferred
  entry of a slot stream; the plain entry is always last.\<close>

theorem offered_formats_parse_back:
  assumes "\<And>v. deser (ser v) = Some v" and "spa_keys_distinct spa"
  shows "map (parse_format_param spa deser) (format_pods spa ser width height announced has_slots)
     = map (\<lambda>m. Some \<lparr>fx_spa_format = raw_format spa (spa_format announced), fx_width = width,
                    fx_height = height, fx_modifier = m\<rparr>)
        (case announced of
           Ann_Dmabuf _ modifier _ \<Rightarrow> if has_slots then [Some modifier, None] else [None]
         | Ann_Shm _ \<Rightarrow> [None])"
proof -
  have one: "parse_format_param spa deser (format_pod spa ser width height f m)
      = Some \<lparr>fx_spa_format = raw_format spa f, fx_width = width, fx_height = height,
              fx_modifier = m\<rparr>" for f m
    using assms
    by (cases m) (auto simp: parse_format_param_def format_pod_def format_object_def
        scan_property_def spa_keys_distinct_def)
  show ?thesis by (cases announced) (simp_all add: format_pods_def one)
qed

definition sample_spa :: spa where
  "sample_spa = \<lparr>k_media_type = 1, k_media_subtype = 2, k_video_format = 0x20001,
     k_video_modifier = 0x20002, k_video_size = 0x20003, k_video_framerate = 0x20004, v_video = 2,
     v_raw = 1, o_format = 0x40003, i_enum_format = 3, o_buffers = 0x40004, i_buffers = 5,
     raw_format = (\<lambda>f. if f = VF_BGRx then 8 else 7)\<rparr>"

theorem offered_formats_parse_back_witness:
  "map (parse_format_param sample_spa Some)
       (format_pods sample_spa id 64 48 (Ann_Dmabuf 5 9 VF_BGRx) True)
     = map (\<lambda>m. Some \<lparr>fx_spa_format = 8, fx_width = 64, fx_height = 48, fx_modifier = m\<rparr>)
         [Some 9, None]"
  using offered_formats_parse_back [of Some id sample_spa 64 48 "Ann_Dmabuf 5 9 VF_BGRx" True]
  by (simp add: spa_keys_distinct_def sample_spa_def)

lemma buffers_default_bounds: "2 \<le> buffers_default n" "buffers_default n \<le> 8"
  by (simp_all add: buffers_default_def Let_def)

lemma buffers_offer_accepts_all:
  "deser (ser v) = Some v \<Longrightarrow>
   v = Pod_Object (o_buffers spa) (i_buffers spa)
       [(1, False, Pod_Choice_Int (Choice_Range (buffers_default n) 2 8)), (2, False, Pod_Int 1),
        (3, False, Pod_Int bytes), (4, False, Pod_Int stride),
        (6, False, Pod_Choice_Int (Choice_Flags ALL_DATA_TYPES []))]
   \<Longrightarrow> parse_buffers_data_types deser (buffers_pod spa ser n stride bytes) = Some ALL_DATA_TYPES"
  by (simp add: parse_buffers_data_types_def buffers_pod_def)

lemma announce_dmabuf:
  "announce w = Inr (Ann_Dmabuf drm m f) \<Longrightarrow> w = Wire_Dmabuf drm m \<and> spa_format_for_drm drm = Some f"
  by (cases w) (auto split: option.splits)

lemma announce_wire_dmabuf:
  "announce (Wire_Dmabuf drm m) = Inr a \<Longrightarrow> \<exists>f. a = Ann_Dmabuf drm m f"
  by (auto split: option.splits)

end
