(* ===== verification/Cast_Frame.thy ===== *)
theory Cast_Frame
  imports Cast_Format Ipc_Client
begin

text \<open>
  Received frames, \<open>crates/xdg-desktop-portal-atrium/src/cast/frame.rs\<close>, and the row copy of
  \<open>cast/copy.rs\<close>. An index out of range of a slice is a panic, the result \<open>None\<close>.
\<close>

definition MAX_FRAME_BYTES :: nat where "MAX_FRAME_BYTES = 256 * 1024 * 1024"

datatype frame_payload = Fp_Descriptor file_desc u32 "rect list" | Fp_Slot u32 "rect list"

datatype frame_error =
    Fe_Geometry
  | Fe_Stride
  | Fe_No_Slots
  | Fe_Slot_Range
  | Fe_Slot_Payload
  | Fe_Not_Packed
  | Fe_Tiled
  | Fe_Mismatch
  | Fe_Frame_Len

section \<open>Validation\<close>

definition validate_frame ::
  "stream_frame \<Rightarrow> u32 \<Rightarrow> u32 \<Rightarrow> announced_format \<Rightarrow> nat \<Rightarrow> frame_error + frame_payload" where
  "validate_frame fr width height announced slot_count =
     (if sf_width fr \<noteq> width \<or> sf_height fr \<noteq> height then Inl Fe_Geometry
      else if unat (sf_stride fr) < unat width * 4 \<or> i32_max < unat (sf_stride fr) then Inl Fe_Stride
      else
        (case sf_slot fr of
           Some slot \<Rightarrow>
             (if slot_count = 0 then Inl Fe_No_Slots
              else if slot_count \<le> unat slot then Inl Fe_Slot_Range
              else if sf_payload fr \<noteq> Pay_Slot then Inl Fe_Slot_Payload
              else Inr (Fp_Slot slot (sf_damage fr)))
         | None \<Rightarrow>
             (case (announced, sf_format fr, sf_payload fr) of
                (Ann_Shm _, Wire_Bgra8, Pay_Memfd f) \<Rightarrow>
                  (if unat (sf_stride fr) \<noteq> unat width * 4 then Inl Fe_Not_Packed
                   else Inr (Fp_Descriptor f (sf_stride fr) (sf_damage fr)))
              | (Ann_Shm _, Wire_Rgba8, Pay_Memfd f) \<Rightarrow>
                  (if unat (sf_stride fr) \<noteq> unat width * 4 then Inl Fe_Not_Packed
                   else Inr (Fp_Descriptor f (sf_stride fr) (sf_damage fr)))
              | (Ann_Dmabuf drm modifier _, Wire_Dmabuf frame_drm frame_modifier, Pay_Dmabuf f) \<Rightarrow>
                  (if frame_drm = drm \<and> frame_modifier = modifier
                   then (if modifier \<noteq> DRM_FORMAT_MOD_LINEAR then Inl Fe_Tiled
                         else Inr (Fp_Descriptor f (sf_stride fr) (sf_damage fr)))
                   else Inl Fe_Mismatch)
              | _ \<Rightarrow> Inl Fe_Mismatch)))"

definition frame_len :: "u32 \<Rightarrow> u32 \<Rightarrow> frame_error + nat" where
  "frame_len width height =
     (case Option.bind (checked_mul_usize (unat width) (unat height)) (\<lambda>p. checked_mul_usize p 4) of
        None \<Rightarrow> Inl Fe_Frame_Len
      | Some bytes \<Rightarrow>
          if width = 0 \<or> height = 0 \<or> MAX_FRAME_BYTES < bytes then Inl Fe_Frame_Len else Inr bytes)"

section \<open>The row copy\<close>

definition copy_row :: "u8 list \<Rightarrow> nat \<Rightarrow> nat \<Rightarrow> nat \<Rightarrow> u8 list \<Rightarrow> u8 list option" where
  "copy_row src src_start dest_start n dest =
     (if src_start + n \<le> length src \<and> dest_start + n \<le> length dest
      then Some (take dest_start dest @ take n (drop src_start src) @ drop (dest_start + n) dest)
      else None)"

text \<open>The loop \<open>for row in 0..height\<close>, \<open>row\<close> rows done.\<close>

fun copy_from :: "nat \<Rightarrow> nat \<Rightarrow> u8 list \<Rightarrow> nat \<Rightarrow> nat \<Rightarrow> u8 list \<Rightarrow> u8 list option" where
  "copy_from 0 row src src_stride row_bytes dest = Some dest"
| "copy_from (Suc n) row src src_stride row_bytes dest =
     Option.bind (copy_row src (row * src_stride) (row * row_bytes) row_bytes dest)
       (copy_from n (Suc row) src src_stride row_bytes)"

definition copy_rows :: "u8 list \<Rightarrow> nat \<Rightarrow> u8 list \<Rightarrow> nat \<Rightarrow> nat \<Rightarrow> u8 list option" where
  "copy_rows src src_stride dest row_bytes height =
     (if src_stride = row_bytes then copy_row src 0 0 (height * row_bytes) dest
      else copy_from height 0 src src_stride row_bytes dest)"

section \<open>Lemmas on validation\<close>

lemma frame_len_Inr:
  assumes "frame_len width height = Inr bytes"
  shows "bytes = unat width * unat height * 4" and "bytes \<le> MAX_FRAME_BYTES"
    and "0 < unat width" and "0 < unat height"
  using assms
  by (auto simp: frame_len_def checked_mul_usize_def unat_gt_0 split: option.splits if_splits bind_splits)

lemma validate_frame_descriptor:
  assumes "validate_frame fr width height announced n = Inr (Fp_Descriptor f stride damage)"
  shows "sf_width fr = width" and "sf_height fr = height"
    and "unat width * 4 \<le> unat stride" and "unat stride \<le> i32_max"
    and "sf_slot fr = None" and "stride = sf_stride fr"
    and "case announced of
           Ann_Shm _ \<Rightarrow> sf_payload fr = Pay_Memfd f \<and> unat stride = unat width * 4
         | Ann_Dmabuf _ m _ \<Rightarrow> sf_payload fr = Pay_Dmabuf f \<and> m = DRM_FORMAT_MOD_LINEAR"
  using assms
  by (auto simp: validate_frame_def
      split: if_splits option.splits announced_format.splits stream_pixel_format.splits
        stream_payload.splits)

lemma validate_frame_slot:
  assumes "validate_frame fr width height announced n = Inr (Fp_Slot slot damage)"
  shows "unat slot < n" and "sf_slot fr = Some slot" and "sf_payload fr = Pay_Slot"
  using assms
  by (auto simp: validate_frame_def
      split: if_splits option.splits announced_format.splits stream_pixel_format.splits
        stream_payload.splits)

section \<open>Lemmas on the copy\<close>

lemma copy_row_Some:
  assumes "copy_row src s d n dest = Some dest'"
  shows "length dest' = length dest"
    and "i < n \<Longrightarrow> dest' ! (d + i) = src ! (s + i)"
    and "j < d \<or> d + n \<le> j \<Longrightarrow> j < length dest \<Longrightarrow> dest' ! j = dest ! j"
proof -
  from assms have b: "s + n \<le> length src" "d + n \<le> length dest"
    and dest': "dest' = take d dest @ take n (drop s src) @ drop (d + n) dest"
    by (auto simp: copy_row_def split: if_splits)
  show "length dest' = length dest" using b by (simp add: dest')
  show "i < n \<Longrightarrow> dest' ! (d + i) = src ! (s + i)"
    using b by (simp add: dest' nth_append)
  show "j < d \<or> d + n \<le> j \<Longrightarrow> j < length dest \<Longrightarrow> dest' ! j = dest ! j"
  proof -
    define mid where "mid = take n (drop s src)"
    have "length mid = n" using b(1) by (simp add: mid_def)
    then show "j < d \<or> d + n \<le> j \<Longrightarrow> j < length dest \<Longrightarrow> dest' ! j = dest ! j"
      using b(2) by (auto simp: dest' mid_def [symmetric] nth_append min_def)
  qed
qed

lemma row_fits:
  fixes row rows :: nat
  assumes "row < rows" and "stride * (rows - 1) + row_bytes \<le> len"
  shows "row * stride + row_bytes \<le> len"
proof -
  have "row * stride \<le> (rows - 1) * stride"
    using assms(1) by (intro mult_le_mono1) simp
  moreover have "(rows - 1) * stride = stride * (rows - 1)" by (rule mult.commute)
  ultimately show ?thesis using assms(2) by linarith
qed

lemma row_end: "(row :: nat) < rows \<Longrightarrow> row * rb + rb \<le> rows * rb"
  by (metis Suc_leI add.commute mult_Suc mult_le_mono1)

lemma copy_from_Some:
  assumes "row + n = rows" and "0 < rows" and "stride * (rows - 1) + rb \<le> length src"
    and "rows * rb \<le> length dest"
  shows "\<exists>dest'. copy_from n row src stride rb dest = Some dest' \<and> length dest' = length dest
     \<and> (\<forall>r i. row \<le> r \<and> r < rows \<and> i < rb \<longrightarrow> dest' ! (r * rb + i) = src ! (r * stride + i))
     \<and> (\<forall>j. j < row * rb \<or> rows * rb \<le> j \<longrightarrow> j < length dest \<longrightarrow> dest' ! j = dest ! j)"
  using assms
proof (induction n arbitrary: row dest)
  case 0
  then show ?case by auto
next
  case (Suc n)
  have lt: "row < rows" using Suc.prems(1) by simp
  have src_ok: "row * stride + rb \<le> length src" by (rule row_fits [OF lt Suc.prems(3)])
  have dest_ok: "row * rb + rb \<le> length dest" using row_end [OF lt, of rb] Suc.prems(4) by simp
  obtain d1 where d1: "copy_row src (row * stride) (row * rb) rb dest = Some d1"
    using src_ok dest_ok by (simp add: copy_row_def)
  note row = copy_row_Some [OF d1]
  have "Suc row + n = rows" using Suc.prems(1) by simp
  from Suc.IH [OF this Suc.prems(2,3), of d1] row(1) Suc.prems(4) obtain d2 where
    d2: "copy_from n (Suc row) src stride rb d1 = Some d2" "length d2 = length d1"
    and content: "\<forall>r i. Suc row \<le> r \<and> r < rows \<and> i < rb \<longrightarrow> d2 ! (r * rb + i) = src ! (r * stride + i)"
    and frame: "\<forall>j. j < Suc row * rb \<or> rows * rb \<le> j \<longrightarrow> j < length d1 \<longrightarrow> d2 ! j = d1 ! j"
    by auto
  have "d2 ! (r * rb + i) = src ! (r * stride + i)" if "row \<le> r" "r < rows" "i < rb" for r i
  proof (cases "r = row")
    case True
    have "row * rb + i < Suc row * rb" using that(3) by simp
    moreover have "row * rb + i < length d1" using that(3) dest_ok row(1) by simp
    ultimately have "d2 ! (row * rb + i) = d1 ! (row * rb + i)" using frame by blast
    with row(2) that(3) True show ?thesis by simp
  next
    case False
    with that content show ?thesis by simp
  qed
  moreover have "d2 ! j = dest ! j" if "j < row * rb \<or> rows * rb \<le> j" "j < length dest" for j
  proof -
    have "j < row * rb \<or> row * rb + rb \<le> j" using that(1) row_end [OF lt, of rb] by linarith
    then have "d1 ! j = dest ! j" using row(3) that(2) by blast
    moreover have "d2 ! j = d1 ! j"
      using frame that row(1) by (metis add_lessD1 add.commute mult_Suc trans_less_add1)
    ultimately show ?thesis by simp
  qed
  ultimately show ?case using d1 d2 row(1) by auto
qed

lemma copy_rows_exact:
  assumes "0 < height" and "row_bytes \<le> stride"
    and "stride * (height - 1) + row_bytes \<le> length src" and "height * row_bytes \<le> length dest"
  shows "\<exists>dest'. copy_rows src stride dest row_bytes height = Some dest' \<and> length dest' = length dest
     \<and> (\<forall>r i. r < height \<and> i < row_bytes \<longrightarrow> dest' ! (r * row_bytes + i) = src ! (r * stride + i))
     \<and> (\<forall>j. height * row_bytes \<le> j \<and> j < length dest \<longrightarrow> dest' ! j = dest ! j)"
proof (cases "stride = row_bytes")
  case False
  from copy_from_Some [of 0 height height stride row_bytes src dest] assms False show ?thesis
    by (auto simp: copy_rows_def)
next
  case True
  have src_ok: "height * row_bytes \<le> length src"
  proof -
    have "height * row_bytes = row_bytes * (height - 1) + row_bytes"
      using assms(1) by (metis Suc_diff_1 add.commute mult.commute mult_Suc)
    with assms(3) True show ?thesis by simp
  qed
  then obtain dest' where d: "copy_row src 0 0 (height * row_bytes) dest = Some dest'"
    using assms(4) by (simp add: copy_row_def)
  note row = copy_row_Some [OF d]
  have "dest' ! (r * row_bytes + i) = src ! (r * stride + i)" if "r < height" "i < row_bytes" for r i
  proof -
    have "r * row_bytes + i < height * row_bytes"
      using row_end [OF that(1), of row_bytes] that(2) by linarith
    with row(2) [of "r * row_bytes + i"] True show ?thesis by simp
  qed
  with row(1,3) d True show ?thesis by (auto simp: copy_rows_def)
qed

section \<open>Properties\<close>


definition sample_fd :: file_desc where
  "sample_fd = \<lparr>fd_regular = True, fd_len = Inr 8192, fd_seals = Some 15, fd_seek = None,
     fd_mappable = True, fd_bytes = []\<rparr>"

definition sample_frame :: "u32 option \<Rightarrow> stream_payload \<Rightarrow> stream_frame" where
  "sample_frame slot payload = \<lparr>sf_stream_id = 1, sf_sequence = 0, sf_width = 64, sf_height = 32,
     sf_stride = 256, sf_format = Wire_Bgra8, sf_damage = [], sf_dropped = 0, sf_slot = slot,
     sf_payload = payload\<rparr>"


end
