(* ===== verification/Cast_Meta.thy ===== *)
theory Cast_Meta
  imports Cast_Format
begin

text \<open>
  Buffer metadata, \<open>crates/xdg-desktop-portal-atrium/src/cast/meta.rs\<close>. A meta block is named
  by its data pointer; \<open>meta_mem\<close> is the memory behind the pointers, headers and region
  arrays. The live array of a buffer is what \<open>spa_buffer_find_meta\<close> searches; the snapshot is
  what \<open>add_buffer\<close> recorded. How many regions \<open>spa_meta_check\<close> admits in a block of a given
  size is the parameter \<open>cap\<close>; the sizes and type numbers of libspa are the record \<open>spa_meta\<close>.
\<close>

definition MAX_DAMAGE_REGIONS :: nat where "MAX_DAMAGE_REGIONS = 16"

record spa_meta = spa +
  o_meta :: u32
  i_meta :: u32
  t_header :: u32
  t_damage :: u32
  sizeof_header :: i32
  sizeof_region :: i32

record meta_entry =
  me_type :: u32
  me_data :: nat
  me_size :: u32

type_synonym meta_snapshot = "(u32 \<times> (nat \<times> u32)) list"

record meta_header =
  mh_flags :: u32
  mh_offset :: u32
  mh_pts :: i64
  mh_dts_offset :: i64
  mh_seq :: u64

record region =
  rg_x :: i32
  rg_y :: i32
  rg_width :: u32
  rg_height :: u32

record meta_mem =
  mm_header :: "nat \<Rightarrow> meta_header"
  mm_damage :: "nat \<Rightarrow> region list"

definition zero_region :: region where
  "zero_region = \<lparr>rg_x = 0, rg_y = 0, rg_width = 0, rg_height = 0\<rparr>"

section \<open>Finding a meta block\<close>

text \<open>\<open>live\<close> is \<open>None\<close> for a buffer without an \<open>spa_buffer\<close>.\<close>

definition snapshot_metas :: "meta_entry list option \<Rightarrow> meta_snapshot" where
  "snapshot_metas live =
     (case live of
        None \<Rightarrow> []
      | Some es \<Rightarrow> fold (\<lambda>e m. AList.update (me_type e) (me_data e, me_size e) m) es [])"

definition find_meta :: "meta_entry list option \<Rightarrow> u32 \<Rightarrow> meta_snapshot \<Rightarrow> (nat \<times> u32) option" where
  "find_meta live t snapshot =
     (case Option.bind live (List.find (\<lambda>e. me_type e = t)) of
        Some e \<Rightarrow> Some (me_data e, me_size e)
      | None \<Rightarrow> map_of snapshot t)"

section \<open>Offers\<close>

definition header_meta_pod :: "spa_meta \<Rightarrow> (pod_value \<Rightarrow> 'b) \<Rightarrow> 'b" where
  "header_meta_pod s ser =
     ser (Pod_Object (o_meta s) (i_meta s)
       [(1, False, Pod_Id (t_header s)), (2, False, Pod_Int (sizeof_header s))])"

definition damage_meta_pod :: "spa_meta \<Rightarrow> (pod_value \<Rightarrow> 'b) \<Rightarrow> 'b" where
  "damage_meta_pod s ser =
     ser (Pod_Object (o_meta s) (i_meta s)
       [(1, False, Pod_Id (t_damage s)),
        (2, False, Pod_Int (of_nat MAX_DAMAGE_REGIONS * sizeof_region s))])"

text \<open>The monotonic clock reading as nanoseconds.\<close>

definition monotonic_pts_nanos :: "i64 \<Rightarrow> i64 \<Rightarrow> i64" where
  "monotonic_pts_nanos sec nsec = sec * 1000000000 + nsec"

section \<open>Attaching\<close>

definition attach_header ::
  "spa_meta \<Rightarrow> meta_entry list option \<Rightarrow> meta_snapshot \<Rightarrow> u64 \<Rightarrow> i64 \<Rightarrow> meta_mem \<Rightarrow> meta_mem" where
  "attach_header s live snapshot seq pts mem =
     (case find_meta live (t_header s) snapshot of
        None \<Rightarrow> mem
      | Some (data, _) \<Rightarrow>
          mem\<lparr>mm_header := (mm_header mem)(data :=
            \<lparr>mh_flags = 0, mh_offset = 0, mh_pts = pts, mh_dts_offset = 0, mh_seq = seq\<rparr>)\<rparr>)"

definition damage_rects :: "rect list \<Rightarrow> u32 \<Rightarrow> u32 \<Rightarrow> rect list" where
  "damage_rects damage width height =
     (if MAX_DAMAGE_REGIONS < length damage then [rect_new 0 0 width height] else damage)"

definition region_of :: "rect \<Rightarrow> region" where
  "region_of r = \<lparr>rg_x = pt_x (rect_origin r), rg_y = pt_y (rect_origin r),
     rg_width = i32_clamp0 (sz_w (rect_size r)), rg_height = i32_clamp0 (sz_h (rect_size r))\<rparr>"

text \<open>The loop over the regions of the block: region \<open>index\<close> and those behind it.\<close>

fun write_regions :: "nat \<Rightarrow> rect list \<Rightarrow> region list" where
  "write_regions 0 rects = []"
| "write_regions (Suc n) [] = zero_region # write_regions n []"
| "write_regions (Suc n) (r # rs) = region_of r # write_regions n rs"

definition attach_damage ::
  "spa_meta \<Rightarrow> (u32 \<Rightarrow> nat) \<Rightarrow> meta_entry list option \<Rightarrow> meta_snapshot \<Rightarrow> rect list \<Rightarrow> u32 \<Rightarrow> u32
     \<Rightarrow> meta_mem \<Rightarrow> meta_mem" where
  "attach_damage s cap live snapshot damage width height mem =
     (case find_meta live (t_damage s) snapshot of
        None \<Rightarrow> mem
      | Some (data, bytes) \<Rightarrow>
          mem\<lparr>mm_damage := (mm_damage mem)(data :=
            write_regions (cap bytes) (damage_rects damage width height))\<rparr>)"

section \<open>Lemmas\<close>

lemma length_write_regions [simp]: "length (write_regions n rs) = n"
  by (induction n rs rule: write_regions.induct) auto

lemma nth_write_regions:
  "i < n \<Longrightarrow> write_regions n rs ! i = (if i < length rs then region_of (rs ! i) else zero_region)"
  by (induction n rs arbitrary: i rule: write_regions.induct) (auto simp: nth_Cons split: nat.splits)

lemma fold_snapshot_other:
  "t \<notin> me_type ` set es \<Longrightarrow>
     map_of (fold (\<lambda>e m. AList.update (me_type e) (me_data e, me_size e) m) es m) t = map_of m t"
  by (induction es arbitrary: m) auto

lemma fold_snapshot_in:
  "distinct (map me_type es) \<Longrightarrow> e \<in> set es \<Longrightarrow>
     map_of (fold (\<lambda>e m. AList.update (me_type e) (me_data e, me_size e) m) es m) (me_type e)
       = Some (me_data e, me_size e)"
proof (induction es arbitrary: m)
  case Nil
  then show ?case by simp
next
  case (Cons a es)
  show ?case
  proof (cases "e = a")
    case True
    with Cons.prems show ?thesis by (simp add: fold_snapshot_other)
  next
    case False
    with Cons show ?thesis by simp
  qed
qed

text \<open>The block is still found after PipeWire zeroed the types of the live array.\<close>

lemma find_meta_survives_zeroing:
  assumes "distinct (map me_type es)" and "e \<in> set es" and "me_type e \<noteq> 0"
  shows "find_meta (Some (map (\<lambda>x. x\<lparr>me_type := 0\<rparr>) es)) (me_type e) (snapshot_metas (Some es))
       = Some (me_data e, me_size e)"
proof -
  have "List.find (\<lambda>x. me_type x = me_type e) (map (\<lambda>x. x\<lparr>me_type := 0\<rparr>) es) = None"
    using assms(3) by (auto simp: find_None_iff)
  with fold_snapshot_in [OF assms(1,2)] show ?thesis
    by (simp add: find_meta_def snapshot_metas_def)
qed

text \<open>C17: the damage a consumer reads is never stale and never too small for a block of the
  offered capacity: every region of the block is overwritten; up to sixteen rectangles
  arrive unchanged apart from negative extents, which become empty, with the rest zeroed;
  more than sixteen arrive as one region covering the whole frame.\<close>

theorem damage_is_complete_and_fresh:
  assumes "find_meta live (t_damage s) snapshot = Some (data, bytes)" and "16 \<le> cap bytes"
  shows "let regions = mm_damage (attach_damage s cap live snapshot damage width height mem) data in
       length regions = cap bytes
     \<and> (if 16 < length damage
        then regions ! 0 = region_of (rect_new 0 0 width height)
           \<and> (\<forall>i. 0 < i \<and> i < cap bytes \<longrightarrow> regions ! i = zero_region)
        else (\<forall>i < length damage. regions ! i = region_of (damage ! i))
           \<and> (\<forall>i. length damage \<le> i \<and> i < cap bytes \<longrightarrow> regions ! i = zero_region))"
  using assms
  by (auto simp: attach_damage_def Let_def damage_rects_def MAX_DAMAGE_REGIONS_def nth_write_regions)

definition sample_spa_meta :: spa_meta where
  "sample_spa_meta = spa.extend sample_spa \<lparr>o_meta = 1, i_meta = 2, t_header = 1, t_damage = 3,
     sizeof_header = 32, sizeof_region = 16\<rparr>"

theorem damage_is_complete_and_fresh_witness:
  "mm_damage (attach_damage sample_spa_meta (\<lambda>b. unat b div 16) (Some [])
       [(3, (77, 256))] (replicate 17 (rect_new 1 1 2 2)) 640 480
       \<lparr>mm_header = \<lambda>_. undefined, mm_damage = \<lambda>_. []\<rparr>) 77 ! 0 = region_of (rect_new 0 0 640 480)"
proof -
  have f: "find_meta (Some []) (t_damage sample_spa_meta) [(3, (77, 256))] = Some (77, 256)"
    by (simp add: find_meta_def sample_spa_meta_def spa.defs)
  have c: "16 \<le> (\<lambda>b. unat b div 16) (256 :: u32)" by simp
  show ?thesis
    using damage_is_complete_and_fresh [OF f, of "\<lambda>b. unat b div 16" "replicate 17 (rect_new 1 1 2 2)"]
    by (simp add: Let_def)
qed

text \<open>A block smaller than the offer keeps only the first rectangles: the damage is
  under-reported.\<close>

theorem small_block_truncates_damage:
  assumes "find_meta live (t_damage s) snapshot = Some (data, bytes)"
    and "cap bytes < length damage" and "length damage \<le> 16"
  shows "mm_damage (attach_damage s cap live snapshot damage width height mem) data
       = map region_of (take (cap bytes) damage)"
  using assms
  by (intro nth_equalityI)
    (auto simp: attach_damage_def damage_rects_def MAX_DAMAGE_REGIONS_def nth_write_regions)

end
