(* ===== verification/Cast_State.thy ===== *)
theory Cast_State
  imports Cast_Frame Cast_Meta Ipc_Link
begin

text \<open>
  The shared state of one cast, \<open>crates/xdg-desktop-portal-atrium/src/cast/state.rs\<close>: the
  compositor-side transport with its slot table, the delivery negotiation, the latest frame.
  Pool buffers are numbers. Everything runs on the cast thread's main loop, so one operation
  is one atomic step on the record \<open>cast\<close>. \<open>ca_queued\<close> and \<open>ca_slot_log\<close> are history
  variables: what was queued to PipeWire, and the slot frames received and slot releases
  issued since the live compositor stream started.
\<close>

definition STREAM_MAX_FPS :: u32 where "STREAM_MAX_FPS = 60"

datatype delivery_mode = Mode_Shm | Mode_Dmabuf

record slot_binding =
  sb_pool :: "nat option"
  sb_in_flight :: bool

record transport =
  tr_stream_id :: u64
  tr_target :: stream_target
  tr_cursor :: stream_cursor_mode
  tr_dmabuf :: bool
  tr_width :: u32
  tr_height :: u32
  tr_announced :: announced_format
  tr_offered_modifier :: "u64 option"
  tr_slot_files :: "stream_slot list"
  tr_bindings :: "slot_binding list"

text \<open>A queued buffer, with the sequence number and the damage its metadata carries.\<close>

datatype queued =
    Queued_Slot nat u32 u64 "rect list"
  | Queued_Copy nat "u8 list" u64 "rect list"

datatype slot_event = Slot_Got u32 | Slot_Released u32

record cast =
  ca_transport :: transport
  ca_mode :: delivery_mode
  ca_data_types :: "u32 option"
  ca_latest :: "frame_payload option"
  ca_pending :: bool
  ca_pool :: "nat list"
  ca_pool_mem :: "(nat \<times> nat) list"
  ca_client :: client
  ca_running :: bool
  ca_sequence :: u64
  ca_dropped :: u64
  ca_warned :: bool
  ca_metas :: "(nat \<times> meta_snapshot) list"
  ca_meta_mem :: meta_mem
  ca_returned :: "nat list"
  ca_queued :: "queued list"
  ca_slot_log :: "slot_event list"

datatype cast_error =
    Xe_Stop io_error
  | Xe_Start io_error
  | Xe_Geometry
  | Xe_Format
  | Xe_Unsupported u32
  | Xe_Superseded
  | Xe_Frame_Len frame_error

section \<open>Negotiation and transport\<close>

definition forwarding_eligible :: "cast \<Rightarrow> bool" where
  "forwarding_eligible c \<longleftrightarrow> ca_mode c = Mode_Dmabuf
     \<and> (case ca_data_types c of None \<Rightarrow> True | Some bits \<Rightarrow> bits AND DMABUF_DATA_TYPE_BIT \<noteq> 0)"

definition free_binding :: slot_binding where
  "free_binding = \<lparr>sb_pool = None, sb_in_flight = False\<rparr>"

definition slots_of :: "stream_started \<Rightarrow> stream_slot list" where
  "slots_of started = (case st_slots started of None \<Rightarrow> [] | Some table \<Rightarrow> table)"

definition offered_for :: "announced_format \<Rightarrow> nat \<Rightarrow> u64 option" where
  "offered_for announced slot_count =
     (case announced of
        Ann_Dmabuf _ modifier _ \<Rightarrow> if 0 < slot_count then Some modifier else None
      | Ann_Shm _ \<Rightarrow> None)"

definition transport_new ::
  "stream_started \<Rightarrow> stream_target \<Rightarrow> stream_cursor_mode \<Rightarrow> bool \<Rightarrow> u32 + transport \<times> announced_format" where
  "transport_new started target cursor dmabuf =
     and_then (announce (st_format started)) (\<lambda>announced.
       (let slots = slots_of started in
        Inr (\<lparr>tr_stream_id = st_stream_id started, tr_target = target, tr_cursor = cursor,
              tr_dmabuf = dmabuf, tr_width = st_width started, tr_height = st_height started,
              tr_announced = announced, tr_offered_modifier = offered_for announced (length slots),
              tr_slot_files = slots, tr_bindings = replicate (length slots) free_binding\<rparr>,
             announced)))"

definition cpu_mappable :: "transport \<Rightarrow> bool" where
  "cpu_mappable t =
     (case tr_announced t of
        Ann_Shm _ \<Rightarrow> True
      | Ann_Dmabuf _ modifier _ \<Rightarrow> modifier = DRM_FORMAT_MOD_LINEAR)"

definition is_dmabuf :: "announced_format \<Rightarrow> bool" where
  "is_dmabuf a = (case a of Ann_Dmabuf _ _ _ \<Rightarrow> True | Ann_Shm _ \<Rightarrow> False)"

definition swap_restarted ::
  "stream_started \<Rightarrow> bool \<Rightarrow> transport \<Rightarrow> u32 + transport \<times> announced_format" where
  "swap_restarted started dmabuf t =
     and_then (announce (st_format started)) (\<lambda>announced.
       Inr (t\<lparr>tr_stream_id := st_stream_id started, tr_width := st_width started,
              tr_height := st_height started, tr_dmabuf := dmabuf, tr_announced := announced,
              tr_slot_files := slots_of started,
              tr_bindings := replicate (length (slots_of started)) free_binding\<rparr>, announced))"

section \<open>Slot releases and the latest frame\<close>

definition release_slot :: "u32 \<Rightarrow> cast \<Rightarrow> cast" where
  "release_slot slot c =
     (if tr_slot_files (ca_transport c) = [] then c
      else c\<lparr>ca_client := snd (release_stream_buffer (tr_stream_id (ca_transport c)) slot (ca_client c)),
             ca_slot_log := ca_slot_log c @ [Slot_Released slot]\<rparr>)"

definition replace_latest :: "frame_payload \<Rightarrow> cast \<Rightarrow> cast" where
  "replace_latest payload c =
     (let superseded = ca_latest c; c1 = c\<lparr>ca_latest := Some payload\<rparr>;
          c2 = (case (ca_pending c, superseded) of
                  (True, Some (Fp_Slot slot _)) \<Rightarrow> release_slot slot c1
                | _ \<Rightarrow> c1) in
      c2\<lparr>ca_pending := True\<rparr>)"

section \<open>Restarts\<close>

text \<open>The new stream takes over: the frames and slots of the old one are forgotten.\<close>

definition take_over :: "transport \<Rightarrow> cast \<Rightarrow> cast" where
  "take_over t c = c\<lparr>ca_transport := t, ca_latest := None, ca_pending := False, ca_slot_log := []\<rparr>"

definition wants_dmabuf :: "transport \<Rightarrow> u64 option \<Rightarrow> bool" where
  "wants_dmabuf t fixated_modifier =
     (case (tr_offered_modifier t, fixated_modifier) of
        (Some offered, Some fixated) \<Rightarrow> fixated = offered | _ \<Rightarrow> False)"

definition needs_switch :: "transport \<Rightarrow> bool \<Rightarrow> bool" where
  "needs_switch t want_dmabuf =
     (if want_dmabuf then \<not> is_dmabuf (tr_announced t)
      else is_dmabuf (tr_announced t) \<and> \<not> cpu_mappable t)"

text \<open>The restart itself: the part of \<open>sync_transport\<close> behind its early return.\<close>

definition switch_transport :: "bool \<Rightarrow> cast \<Rightarrow> (cast_error + unit) \<times> cast" where
  "switch_transport want_dmabuf c =
     (let t = ca_transport c in
      case stop_output_stream (tr_stream_id t) (ca_client c) of
        (Inl e, cl) \<Rightarrow> (Inl (Xe_Stop e), c\<lparr>ca_client := cl\<rparr>)
      | (Inr _, cl) \<Rightarrow>
          (case start_output_stream (Some STREAM_MAX_FPS) (tr_target t) want_dmabuf
                  (Some (tr_cursor t)) cl of
             (Inl e, cl2) \<Rightarrow> (Inl (Xe_Start e), c\<lparr>ca_client := cl2\<rparr>)
           | (Inr started, cl2) \<Rightarrow>
               (let c2 = c\<lparr>ca_client := cl2\<rparr> in
                if st_width started \<noteq> tr_width t \<or> st_height started \<noteq> tr_height t
                then (Inl Xe_Geometry, c2)
                else
                  (case announce (st_format started) of
                     Inl f \<Rightarrow> (Inl (Xe_Unsupported f), c2)
                   | Inr announced \<Rightarrow>
                       if spa_format announced \<noteq> spa_format (tr_announced t)
                       then (Inl Xe_Format, c2)
                       else
                         (case swap_restarted started want_dmabuf t of
                            Inl f \<Rightarrow> (Inl (Xe_Unsupported f), c2)
                          | Inr (t', _) \<Rightarrow> (Inr (), take_over t' c2))))))"

definition sync_transport :: "u64 option \<Rightarrow> cast \<Rightarrow> (cast_error + unit) \<times> cast" where
  "sync_transport fixated_modifier c =
     (let want_dmabuf = wants_dmabuf (ca_transport c) fixated_modifier in
      if \<not> needs_switch (ca_transport c) want_dmabuf then (Inr (), c)
      else switch_transport want_dmabuf c)"

definition mode_for :: "transport \<Rightarrow> u64 option \<Rightarrow> delivery_mode" where
  "mode_for t fixated_modifier =
     (case (tr_announced t, fixated_modifier) of
        (Ann_Dmabuf _ modifier _, Some m) \<Rightarrow>
          if m = modifier \<and> tr_slot_files t \<noteq> [] then Mode_Dmabuf else Mode_Shm
      | _ \<Rightarrow> Mode_Shm)"

text \<open>The mismatches of format and geometry are only logged.\<close>

definition apply_fixated_format :: "fixated_format \<Rightarrow> cast \<Rightarrow> cast" where
  "apply_fixated_format fixated c =
     (case sync_transport (fx_modifier fixated) c of
        (Inl _, c1) \<Rightarrow> c1\<lparr>ca_running := False\<rparr>
      | (Inr _, c1) \<Rightarrow> c1\<lparr>ca_mode := mode_for (ca_transport c1) (fx_modifier fixated)\<rparr>)"

definition restart_stream_geometry ::
  "u64 \<Rightarrow> u32 \<Rightarrow> u32 \<Rightarrow> cast \<Rightarrow> (cast_error + announced_format \<times> nat) \<times> cast" where
  "restart_stream_geometry stream_id width height c =
     (let t = ca_transport c in
      if tr_stream_id t \<noteq> stream_id then (Inl Xe_Superseded, c)
      else (case frame_len width height of
        Inl e \<Rightarrow> (Inl (Xe_Frame_Len e), c)
      | Inr _ \<Rightarrow>
        (case stop_output_stream (tr_stream_id t) (ca_client c) of
           (Inl e, cl) \<Rightarrow> (Inl (Xe_Stop e), c\<lparr>ca_client := cl\<rparr>)
         | (Inr _, cl) \<Rightarrow>
             (case start_output_stream (Some STREAM_MAX_FPS) (tr_target t) (tr_dmabuf t)
                     (Some (tr_cursor t)) cl of
                (Inl e, cl2) \<Rightarrow> (Inl (Xe_Start e), c\<lparr>ca_client := cl2\<rparr>)
              | (Inr started, cl2) \<Rightarrow>
                  (let c2 = c\<lparr>ca_client := cl2\<rparr> in
                   if st_width started \<noteq> width \<or> st_height started \<noteq> height
                   then (Inl Xe_Geometry, c2)
                   else
                     (case swap_restarted started (tr_dmabuf t) t of
                        Inl f \<Rightarrow> (Inl (Xe_Unsupported f), c2)
                      | Inr (t', announced) \<Rightarrow>
                          (Inr (announced, length (tr_slot_files t')),
                           take_over (t'\<lparr>tr_offered_modifier :=
                             offered_for announced (length (tr_slot_files t'))\<rparr>) c2)))))))"

section \<open>Well-formed transports\<close>

text \<open>
  One binding per slot; a slot table only with a dmabuf format; the slots share one layout
  and their descriptors are at least that long; no pool buffer is bound to two slots; a slot
  is in flight only in its bound pool buffer.
\<close>

definition slots_wf :: "announced_format \<Rightarrow> stream_slot list \<Rightarrow> bool" where
  "slots_wf announced slots \<longleftrightarrow>
     (slots \<noteq> [] \<longrightarrow> is_dmabuf announced) \<and> length slots < 2 ^ 32
     \<and> (\<exists>stride b. \<forall>x \<in> set slots. ss_stride x = stride \<and> ss_byte_len x = b
          \<and> (\<exists>len. fd_len (ss_file x) = Inr len \<and> b \<le> len))"

definition transport_wf :: "transport \<Rightarrow> bool" where
  "transport_wf t \<longleftrightarrow>
     length (tr_bindings t) = length (tr_slot_files t)
     \<and> slots_wf (tr_announced t) (tr_slot_files t)
     \<and> distinct (List.map_filter sb_pool (tr_bindings t))
     \<and> (\<forall>b \<in> set (tr_bindings t). sb_in_flight b \<longrightarrow> sb_pool b \<noteq> None)"

lemma free_binding_simps [simp]: "sb_pool free_binding = None" "sb_in_flight free_binding = False"
  by (simp_all add: free_binding_def)

lemma map_filter_replicate_free [simp]: "List.map_filter sb_pool (replicate n free_binding) = []"
  by (induction n) (auto simp: List.map_filter_def)

text \<open>What the compositor connection promises about a started stream.\<close>

lemma started_slots_wf:
  assumes "start_output_stream fps target dmabuf cursor cl = (Inr s, cl')"
    and "announce (st_format s) = Inr announced"
  shows "slots_wf announced (slots_of s)"
proof (cases "st_slots s")
  case None
  then show ?thesis by (simp add: slots_wf_def slots_of_def)
next
  case (Some table)
  from link.start_slots [OF assms(1) Some] assms(2) Some show ?thesis
    by (auto simp: slots_wf_def slots_of_def is_dmabuf_def split: option.splits)
qed

lemma swap_restarted_wf:
  assumes "start_output_stream fps target dmabuf cursor cl = (Inr s, cl')"
    and "swap_restarted s db t = Inr (t', announced)"
  shows "transport_wf t'" and "tr_announced t' = announced" and "tr_slot_files t' = slots_of s"
    and "tr_width t' = st_width s" and "tr_height t' = st_height s"
    and "tr_stream_id t' = st_stream_id s" and "announce (st_format s) = Inr announced"
    and "\<forall>b \<in> set (tr_bindings t'). \<not> sb_in_flight b"
    and "tr_target t' = tr_target t" and "tr_cursor t' = tr_cursor t"
  using assms started_slots_wf [OF assms(1)]
  by (auto simp: swap_restarted_def transport_wf_def)

lemma transport_new_wf:
  assumes "start_output_stream fps target dmabuf cursor cl = (Inr s, cl')"
    and "transport_new s target' cursor' db = Inr (t, announced)"
  shows "transport_wf t"
  using assms(2) started_slots_wf [OF assms(1)]
  by (auto simp: transport_new_def transport_wf_def Let_def)

lemma transport_wf_offer [simp]:
  "transport_wf (t\<lparr>tr_offered_modifier := m\<rparr>) = transport_wf t"
  by (simp add: transport_wf_def)

text \<open>A restart either leaves the transport alone or installs a well-formed one.\<close>

lemma sync_transport_wf:
  assumes "transport_wf (ca_transport c)" and "sync_transport m c = (r, c')"
  shows "transport_wf (ca_transport c')"
  using assms swap_restarted_wf(1)
  by (auto simp: sync_transport_def switch_transport_def Let_def take_over_def
      split: if_splits sum.splits prod.splits)

lemma restart_geometry_wf:
  assumes "transport_wf (ca_transport c)" and "restart_stream_geometry sid w h c = (r, c')"
  shows "transport_wf (ca_transport c')"
  using assms swap_restarted_wf(1)
  by (auto simp: restart_stream_geometry_def Let_def take_over_def
      split: if_splits sum.splits prod.splits)

section \<open>Restarts do what was negotiated\<close>

text \<open>What the compositor starts when the cast restarts the stream with the given opt-in.\<close>

definition restarted :: "bool \<Rightarrow> cast \<Rightarrow> stream_started option" where
  "restarted dmabuf c =
     (case stop_output_stream (tr_stream_id (ca_transport c)) (ca_client c) of
        (Inl _, _) \<Rightarrow> None
      | (Inr _, cl) \<Rightarrow>
          (case start_output_stream (Some STREAM_MAX_FPS) (tr_target (ca_transport c)) dmabuf
                  (Some (tr_cursor (ca_transport c))) cl of
             (Inl _, _) \<Rightarrow> None
           | (Inr s, _) \<Rightarrow> Some s))"

lemma switch_transport_Inr:
  assumes "switch_transport db c = (Inr (), c')"
  shows "\<exists>s t' announced. restarted db c = Some s
     \<and> st_width s = tr_width (ca_transport c) \<and> st_height s = tr_height (ca_transport c)
     \<and> announce (st_format s) = Inr announced
     \<and> spa_format announced = spa_format (tr_announced (ca_transport c))
     \<and> swap_restarted s db (ca_transport c) = Inr (t', announced)
     \<and> ca_transport c' = t' \<and> ca_latest c' = None \<and> \<not> ca_pending c' \<and> ca_slot_log c' = []"
  using assms
  by (auto simp: switch_transport_def Let_def restarted_def take_over_def swap_restarted_def
      split: if_splits sum.splits prod.splits)

lemma swap_restarted_fields:
  "swap_restarted s db t = Inr (t', announced) \<Longrightarrow>
     tr_offered_modifier t' = tr_offered_modifier t \<and> tr_announced t' = announced
     \<and> tr_slot_files t' = slots_of s \<and> tr_target t' = tr_target t \<and> tr_cursor t' = tr_cursor t
     \<and> tr_width t' = st_width s \<and> tr_height t' = st_height s
     \<and> (\<forall>b \<in> set (tr_bindings t'). \<not> sb_in_flight b)"
  by (auto simp: swap_restarted_def)

lemma wants_dmabuf_iff: "wants_dmabuf t m \<longleftrightarrow> (\<exists>x. m = Some x \<and> tr_offered_modifier t = Some x)"
  by (auto simp: wants_dmabuf_def split: option.splits)

lemma no_switch_serves:
  "\<not> needs_switch t db \<Longrightarrow> db \<and> is_dmabuf (tr_announced t) \<or> cpu_mappable t"
  by (auto simp: needs_switch_def cpu_mappable_def is_dmabuf_def
      split: if_splits announced_format.splits)

text \<open>The offered modifier of a tiled slot stream is the one its slots have.\<close>

definition offer_ok :: "transport \<Rightarrow> bool" where
  "offer_ok t \<longleftrightarrow>
     (case tr_announced t of
        Ann_Dmabuf _ m _ \<Rightarrow> m = DRM_FORMAT_MOD_LINEAR
           \<or> (tr_offered_modifier t \<noteq> None \<longrightarrow> tr_offered_modifier t = Some m \<and> tr_slot_files t \<noteq> [])
      | Ann_Shm _ \<Rightarrow> True)"

lemma offer_ok_new:
  "transport_new s target cursor db = Inr (t, a) \<Longrightarrow> offer_ok t"
  by (auto simp: transport_new_def offer_ok_def offered_for_def Let_def
      split: announced_format.splits if_splits)



text \<open>A geometry restart succeeds only for the live stream and only when the restarted
  stream has exactly the announced geometry, which passed the frame size bound; it reuses
  target, cursor mode and dmabuf opt-in, re-offers the restarted stream's own modifier, and
  forgets every frame and slot of the stopped stream.\<close>

theorem geometry_restart_matches_event:
  assumes "transport_wf (ca_transport c)"
    and "restart_stream_geometry sid width height c = (Inr (announced, count), c')"
  shows "sid = tr_stream_id (ca_transport c)
     \<and> tr_width (ca_transport c') = width \<and> tr_height (ca_transport c') = height
     \<and> is_ok (frame_len width height)
     \<and> tr_target (ca_transport c') = tr_target (ca_transport c)
     \<and> tr_cursor (ca_transport c') = tr_cursor (ca_transport c)
     \<and> tr_dmabuf (ca_transport c') = tr_dmabuf (ca_transport c)
     \<and> transport_wf (ca_transport c') \<and> offer_ok (ca_transport c')
     \<and> tr_announced (ca_transport c') = announced \<and> count = length (tr_slot_files (ca_transport c'))
     \<and> ca_latest c' = None \<and> \<not> ca_pending c'
     \<and> (\<forall>b \<in> set (tr_bindings (ca_transport c')). \<not> sb_in_flight b)"
  using restart_geometry_wf [OF assms] assms(2)
  by (auto simp: restart_stream_geometry_def Let_def take_over_def swap_restarted_def offer_ok_def
      offered_for_def split: if_splits sum.splits prod.splits announced_format.splits)

section \<open>A concrete restart\<close>

definition reply_client :: "response list \<Rightarrow> client" where
  "reply_client replies =
     \<lparr>c_msgs = map (\<lambda>r. Inr (Msg_Response r)) replies, c_fds = [], c_faults = [], c_sent = [],
      c_caps = \<lparr>cap_query = True, cap_control = True, cap_input = False, cap_session = False,
               cap_interaction_domain = False\<rparr>,
      c_lease = None, c_version = 29, c_pending = []\<rparr>"

definition tiled_slot :: stream_slot where
  "tiled_slot = \<lparr>ss_file = sample_fd, ss_stride = 256, ss_byte_len = 8192\<rparr>"

definition sample_transport :: transport where
  "sample_transport =
     \<lparr>tr_stream_id = 1, tr_target = Target_Output None, tr_cursor = Cursor_Hidden, tr_dmabuf = True,
      tr_width = 64, tr_height = 32, tr_announced = Ann_Dmabuf 0x34325258 5 VF_BGRx,
      tr_offered_modifier = Some 5, tr_slot_files = [tiled_slot, tiled_slot],
      tr_bindings = [free_binding, free_binding]\<rparr>"

definition cast_init :: "transport \<Rightarrow> client \<Rightarrow> cast" where
  "cast_init t cl =
     \<lparr>ca_transport = t, ca_mode = Mode_Shm, ca_data_types = None, ca_latest = None,
      ca_pending = False, ca_pool = [], ca_pool_mem = [], ca_client = cl, ca_running = True,
      ca_sequence = 0, ca_dropped = 0, ca_warned = False, ca_metas = [],
      ca_meta_mem = \<lparr>mm_header = (\<lambda>_. \<lparr>mh_flags = 0, mh_offset = 0, mh_pts = 0, mh_dts_offset = 0,
        mh_seq = 0\<rparr>), mm_damage = (\<lambda>_. [])\<rparr>, ca_returned = [],
      ca_queued = [], ca_slot_log = []\<rparr>"

definition sample_cast :: "u32 \<Rightarrow> cast" where
  "sample_cast width = cast_init sample_transport
     (reply_client [Resp_StreamOutputStopped 1,
        Resp_StreamOutputStarted 2 width 32 Wire_Bgra8 None None None])"

lemma sample_transport_wf: "transport_wf sample_transport" "offer_ok sample_transport"
  by (auto simp: transport_wf_def sample_transport_def slots_wf_def is_dmabuf_def tiled_slot_def
      sample_fd_def offer_ok_def List.map_filter_def)

lemmas restart_eval =
  sample_cast_def cast_init_def sample_transport_def reply_client_def stop_output_stream_def
  start_output_stream_def write_req_def read_slot_table_def Let_def

lemma sample_restarted:
  "restarted db (sample_cast w) = Some \<lparr>st_stream_id = 2, st_width = w, st_height = 32,
     st_format = Wire_Bgra8, st_slots = None\<rparr>"
  by (simp add: restarted_def restart_eval)

lemma sample_fixation: "ca_running (apply_fixated_format
    \<lparr>fx_spa_format = 8, fx_width = 64, fx_height = 32, fx_modifier = None\<rparr> (sample_cast 64))"
  by (simp add: apply_fixated_format_def sync_transport_def wants_dmabuf_def needs_switch_def
      switch_transport_def swap_restarted_def take_over_def is_dmabuf_def cpu_mappable_def
      DRM_FORMAT_MOD_LINEAR_def restart_eval)



theorem geometry_restart_matches_event_witness:
  "\<exists>a n c'. restart_stream_geometry 1 128 32 (sample_cast 128) = (Inr (a, n), c')
     \<and> tr_width (ca_transport c') = 128"
proof -
  obtain a n c' where r: "restart_stream_geometry 1 128 32 (sample_cast 128) = (Inr (a, n), c')"
    by (simp add: restart_stream_geometry_def frame_len_def checked_mul_usize_def usize_limit_def
        MAX_FRAME_BYTES_def swap_restarted_def restart_eval)
  have wf: "transport_wf (ca_transport (sample_cast 128))"
    using sample_transport_wf by (simp add: sample_cast_def cast_init_def)
  from geometry_restart_matches_event [OF wf r] r show ?thesis by simp
qed

text \<open>The check of \<open>sync_transport\<close> compares the restarted stream's pixel format but not its
  modifier: a compositor that answers the dmabuf opt-in with another tiled modifier leaves
  the copy path facing pixels it must not map.\<close>

theorem restart_accepts_another_modifier:
  "let c = (sample_cast 64)\<lparr>ca_transport := sample_transport\<lparr>tr_announced := Ann_Shm VF_BGRx,
               tr_slot_files := [], tr_bindings := []\<rparr>,
             ca_client := reply_client [Resp_StreamOutputStopped 1,
               Resp_StreamOutputStarted 2 64 32 (Wire_Dmabuf 0x34325258 9) None None None]\<rparr>;
       c' = apply_fixated_format \<lparr>fx_spa_format = 8, fx_width = 64, fx_height = 32,
              fx_modifier = Some 5\<rparr> c in
     ca_running c' \<and> ca_mode c' = Mode_Shm \<and> \<not> cpu_mappable (ca_transport c')"
  by (simp add: apply_fixated_format_def sync_transport_def wants_dmabuf_def needs_switch_def
      switch_transport_def swap_restarted_def take_over_def is_dmabuf_def cpu_mappable_def
      DRM_FORMAT_MOD_LINEAR_def restart_eval mode_for_def spa_format_for_drm_def fourcc_def)

end
