(* ===== verification/Cast_Publish.thy ===== *)
theory Cast_Publish
  imports Cast_State
begin

text \<open>
  The PipeWire \<open>process\<close> path, \<open>crates/xdg-desktop-portal-atrium/src/cast/publish.rs\<close>, and
  the copy transport of \<open>cast/copy.rs\<close>. \<open>ca_returned\<close> holds the buffers that successive
  \<open>dequeue_raw_buffer\<close> calls answer with. The data block of a buffer is its pool memory; a
  buffer without one has a null data pointer. \<open>cast_env\<close> is what libspa and the clock
  contribute to the metadata.
\<close>

record cast_env =
  ce_meta :: spa_meta
  ce_cap :: "u32 \<Rightarrow> nat"
  ce_live :: "nat \<Rightarrow> meta_entry list option"
  ce_pts :: i64

section \<open>The copy path\<close>

definition drop_frame :: "cast \<Rightarrow> cast" where
  "drop_frame c = c\<lparr>ca_dropped := ca_dropped c + 1\<rparr>"

text \<open>The mapped bytes of a file of the given length; unwritten bytes read as zero.\<close>

definition mapped_bytes :: "file_desc \<Rightarrow> nat \<Rightarrow> u8 list" where
  "mapped_bytes f len = take len (fd_bytes f @ replicate len 0)"

definition attach_metas ::
  "cast_env \<Rightarrow> nat \<Rightarrow> rect list \<Rightarrow> u32 \<Rightarrow> u32 \<Rightarrow> cast \<Rightarrow> cast" where
  "attach_metas env buf damage width height c =
     (let snapshot = (case map_of (ca_metas c) buf of None \<Rightarrow> [] | Some m \<Rightarrow> m) in
      c\<lparr>ca_sequence := ca_sequence c + 1,
        ca_meta_mem :=
          attach_damage (ce_meta env) (ce_cap env) (ce_live env buf) snapshot damage width height
            (attach_header (ce_meta env) (ce_live env buf) snapshot (ca_sequence c) (ce_pts env)
              (ca_meta_mem c))\<rparr>)"

text \<open>The next free buffer: the oldest stashed one, else one that PipeWire hands out.\<close>

definition take_buffer :: "cast \<Rightarrow> nat option \<times> cast" where
  "take_buffer c =
     (case ca_pool c of
        b # bs \<Rightarrow> (Some b, c\<lparr>ca_pool := bs\<rparr>)
      | [] \<Rightarrow> (case ca_returned c of
                 b # bs \<Rightarrow> (Some b, c\<lparr>ca_returned := bs\<rparr>)
               | [] \<Rightarrow> (None, c)))"

definition copy_into_pool ::
  "cast_env \<Rightarrow> file_desc \<Rightarrow> u32 \<Rightarrow> u32 \<Rightarrow> u32 \<Rightarrow> rect list \<Rightarrow> cast \<Rightarrow> bool \<times> cast" where
  "copy_into_pool env f stride width height damage c =
     (let h = unat height; row_bytes = unat width * 4; needed = unat stride * (h - 1) + row_bytes in
      case fd_len f of
        Inl _ \<Rightarrow> (True, drop_frame c)
      | Inr src_len \<Rightarrow>
          if unat src_len < needed \<or> MAX_FRAME_BYTES < needed then (True, drop_frame c)
          else if \<not> fd_mappable f then (True, (drop_frame c)\<lparr>ca_warned := True\<rparr>)
          else
            (case take_buffer c of
               (None, c1) \<Rightarrow> (False, c1)
             | (Some buf, c1) \<Rightarrow>
                 (case map_of (ca_pool_mem c1) buf of
                    None \<Rightarrow> (True, drop_frame (c1\<lparr>ca_pool := ca_pool c1 @ [buf]\<rparr>))
                  | Some cap \<Rightarrow>
                      if cap < h * row_bytes
                      then (True, drop_frame (c1\<lparr>ca_pool := ca_pool c1 @ [buf]\<rparr>))
                      else
                        (case copy_rows (mapped_bytes f (unat src_len)) (unat stride)
                                (replicate cap 0) row_bytes h of
                           None \<Rightarrow> (True, c1\<lparr>ca_running := False\<rparr>)
                         | Some dest \<Rightarrow>
                             (let c2 = attach_metas env buf damage width height c1 in
                              (True, c2\<lparr>ca_queued := ca_queued c2
                                 @ [Queued_Copy buf (take (h * row_bytes) dest) (ca_sequence c1)
                                      damage]\<rparr>))))))"

section \<open>Reclaiming\<close>

text \<open>One returned buffer: a bound slot in flight is released, an unbound buffer is stashed.\<close>

definition reclaim_one :: "nat \<Rightarrow> cast \<Rightarrow> cast" where
  "reclaim_one buf c =
     (case find_index (\<lambda>b. sb_pool b = Some buf) (tr_bindings (ca_transport c)) of
        Some slot \<Rightarrow>
          if sb_in_flight (tr_bindings (ca_transport c) ! slot)
          then release_slot (of_nat slot)
                 (c\<lparr>ca_transport := (ca_transport c)\<lparr>tr_bindings :=
                    (tr_bindings (ca_transport c))
                      [slot := (tr_bindings (ca_transport c) ! slot)\<lparr>sb_in_flight := False\<rparr>]\<rparr>\<rparr>)
          else c
      | None \<Rightarrow> c\<lparr>ca_pool := ca_pool c @ [buf]\<rparr>)"

definition reclaim_returned_buffers :: "cast \<Rightarrow> cast" where
  "reclaim_returned_buffers c = fold reclaim_one (ca_returned c) (c\<lparr>ca_returned := []\<rparr>)"

section \<open>Publishing\<close>

definition publish_slot :: "cast_env \<Rightarrow> u32 \<Rightarrow> rect list \<Rightarrow> cast \<Rightarrow> cast" where
  "publish_slot env slot damage c =
     (let t = ca_transport c in
      if length (tr_bindings t) \<le> unat slot then drop_frame c
      else
        (let b = tr_bindings t ! unat slot in
         if sb_in_flight b then drop_frame c
         else
           (case (forwarding_eligible c, sb_pool b) of
              (True, Some buf) \<Rightarrow>
                (let c1 = c\<lparr>ca_transport := t\<lparr>tr_bindings :=
                             (tr_bindings t)[unat slot := b\<lparr>sb_in_flight := True\<rparr>]\<rparr>\<rparr>;
                     c2 = attach_metas env buf damage (tr_width t) (tr_height t) c1 in
                 c2\<lparr>ca_queued := ca_queued c2 @ [Queued_Slot buf slot (ca_sequence c1) damage]\<rparr>)
            | _ \<Rightarrow>
                if \<not> cpu_mappable t then release_slot slot (drop_frame c)
                else
                  (let sl = tr_slot_files t ! unat slot in
                   release_slot slot
                     (snd (copy_into_pool env (ss_file sl) (ss_stride sl) (tr_width t) (tr_height t)
                             damage c))))))"

definition process_frame :: "cast_env \<Rightarrow> cast \<Rightarrow> cast" where
  "process_frame env c0 =
     (let c = reclaim_returned_buffers c0 in
      if \<not> ca_pending c then c
      else
        (case ca_latest c of
           None \<Rightarrow> c\<lparr>ca_pending := False\<rparr>
         | Some (Fp_Descriptor f stride damage) \<Rightarrow>
             (case copy_into_pool env f stride (tr_width (ca_transport c)) (tr_height (ca_transport c))
                     damage c of
                (True, c1) \<Rightarrow> c1\<lparr>ca_pending := False\<rparr>
              | (False, c1) \<Rightarrow> c1)
         | Some (Fp_Slot slot damage) \<Rightarrow> (publish_slot env slot damage c)\<lparr>ca_pending := False\<rparr>))"

end
