(* ===== verification/Cast_Loop.thy ===== *)
theory Cast_Loop
  imports Cast_Publish Screencast
begin

text \<open>
  The cast thread, \<open>crates/xdg-desktop-portal-atrium/src/cast/mod.rs\<close>: the fallible start,
  the callbacks of the PipeWire stream, registry, timers and sockets as steps of one event
  loop, and the teardown. The record \<open>cast_loop\<close> extends the stream state by what the
  closures capture. PipeWire, the compositor and the session owner choose the events.
\<close>

section \<open>Start state\<close>

text \<open>\<open>sx_sent\<close> is what went over the \<open>started\<close> channel.\<close>

record start_state =
  sx_sender :: bool
  sx_paused :: "(u32 \<times> u32 \<times> u32) option"
  sx_serials :: "(u32 \<times> u64) list"
  sx_position :: "i32 \<times> i32"
  sx_completed :: bool
  sx_sent :: "(unit + cast_started) list"

definition try_complete :: "start_state \<Rightarrow> start_state" where
  "try_complete st =
     (case sx_paused st of
        None \<Rightarrow> st
      | Some (node_id, width, height) \<Rightarrow>
          (case map_of (sx_serials st) node_id of
             None \<Rightarrow> st
           | Some serial \<Rightarrow>
               if sx_sender st
               then st\<lparr>sx_sender := False, sx_completed := True,
                       sx_sent := sx_sent st @ [Inr \<lparr>cst_node_id = node_id, cst_serial = serial,
                         cst_position = sx_position st, cst_width = width, cst_height = height\<rparr>]\<rparr>
               else st))"

definition record_serial :: "u32 \<Rightarrow> u64 option \<Rightarrow> start_state \<Rightarrow> start_state" where
  "record_serial node serial st =
     (case serial of None \<Rightarrow> st | Some n \<Rightarrow> st\<lparr>sx_serials := AList.update node n (sx_serials st)\<rparr>)"

section \<open>Starting the cast\<close>

datatype run_error = Re_Connect io_error | Re_Start io_error | Re_Frame frame_error | Re_Format u32

definition target_of_source :: "cast_source \<Rightarrow> stream_target" where
  "target_of_source source =
     (case source of Src_Monitor out \<Rightarrow> Target_Output out | Src_Window w \<Rightarrow> Target_Window w)"

text \<open>The origin reported for a connector; any failure is \<open>(0, 0)\<close>.\<close>

definition source_position :: "cast_source \<Rightarrow> client \<Rightarrow> (i32 \<times> i32) \<times> client" where
  "source_position source cl =
     (case source of
        Src_Monitor (Some connector) \<Rightarrow>
          (case Ipc_Client.enumerate_outputs cl of
             (Inr outputs, cl') \<Rightarrow>
               ((case List.find (\<lambda>info. oi_connector info = connector) outputs of
                   Some info \<Rightarrow> (pt_x (rect_origin (oi_rect info)), pt_y (rect_origin (oi_rect info)))
                 | None \<Rightarrow> (0, 0)), cl')
           | (Inl _, cl') \<Rightarrow> ((0, 0), cl'))
      | _ \<Rightarrow> ((0, 0), cl))"

definition start_stream ::
  "io_error + client \<Rightarrow> cast_source \<Rightarrow> stream_cursor_mode \<Rightarrow> run_error + cast \<times> (i32 \<times> i32)" where
  "start_stream conn source cursor =
     (case conn of
        Inl e \<Rightarrow> Inl (Re_Connect e)
      | Inr cl \<Rightarrow>
          (case start_output_stream (Some STREAM_MAX_FPS) (target_of_source source) True
                  (Some cursor) cl of
             (Inl e, _) \<Rightarrow> Inl (Re_Start e)
           | (Inr info, cl1) \<Rightarrow>
               (case source_position source cl1 of
                  (position, cl2) \<Rightarrow>
                    (case frame_len (st_width info) (st_height info) of
                       Inl e \<Rightarrow> Inl (Re_Frame e)
                     | Inr _ \<Rightarrow>
                         (case transport_new info (target_of_source source) cursor True of
                            Inl f \<Rightarrow> Inl (Re_Format f)
                          | Inr (t, _) \<Rightarrow> Inr (cast_init t cl2, position))))))"

section \<open>The loop\<close>

datatype buffer_data = Data_Dmabuf nat u64 u32 | Data_MemFd nat u32

record offer =
  of_width :: u32
  of_height :: u32
  of_announced :: announced_format
  of_has_slots :: bool

record buffers_offer =
  bo_buffers :: u32
  bo_stride :: i32
  bo_bytes :: i32

record cast_loop =
  lp_cast :: cast
  lp_streaming :: bool
  lp_start :: start_state
  lp_compositor_dropped :: u64
  lp_session_ended :: nat
  lp_stopped_by_owner :: bool
  lp_triggers :: nat
  lp_offers :: "offer list"
  lp_buffers_offers :: "buffers_offer list"
  lp_data :: "(nat \<times> buffer_data) list"

definition offer_of :: "transport \<Rightarrow> offer" where
  "offer_of t = \<lparr>of_width = tr_width t, of_height = tr_height t, of_announced = tr_announced t,
     of_has_slots = (tr_slot_files t \<noteq> [])\<rparr>"

definition loop_init :: "cast \<Rightarrow> i32 \<times> i32 \<Rightarrow> cast_loop" where
  "loop_init c position =
     \<lparr>lp_cast = c, lp_streaming = False,
      lp_start = \<lparr>sx_sender = True, sx_paused = None, sx_serials = [], sx_position = position,
                  sx_completed = False, sx_sent = []\<rparr>,
      lp_compositor_dropped = 0, lp_session_ended = 0, lp_stopped_by_owner = False,
      lp_triggers = 0, lp_offers = [offer_of (ca_transport c)], lp_buffers_offers = [],
      lp_data = []\<rparr>"

definition update_cast :: "(cast \<Rightarrow> cast) \<Rightarrow> cast_loop \<Rightarrow> cast_loop" where
  "update_cast f l = l\<lparr>lp_cast := f (lp_cast l)\<rparr>"

definition quit :: "cast_loop \<Rightarrow> cast_loop" where
  "quit = update_cast (\<lambda>c. c\<lparr>ca_running := False\<rparr>)"

definition trigger :: "cast_loop \<Rightarrow> cast_loop" where
  "trigger l = l\<lparr>lp_triggers := lp_triggers l + 1\<rparr>"

definition end_cast :: "cast_loop \<Rightarrow> cast_loop" where
  "end_cast l = quit (l\<lparr>lp_session_ended := lp_session_ended l + 1\<rparr>)"

subsection \<open>Stream state changes\<close>

datatype pw_state = Pw_Error | Pw_Unconnected | Pw_Connecting | Pw_Paused | Pw_Streaming

definition on_error :: "cast_loop \<Rightarrow> cast_loop" where
  "on_error l =
     quit (l\<lparr>lp_start := (let st = lp_start l in
       if sx_sender st then st\<lparr>sx_sender := False, sx_sent := sx_sent st @ [Inl ()]\<rparr> else st)\<rparr>)"

definition on_paused :: "u32 \<Rightarrow> u64 option \<Rightarrow> cast_loop \<Rightarrow> cast_loop" where
  "on_paused node_id serial l =
     (let t = ca_transport (lp_cast l); st = record_serial node_id serial (lp_start l) in
      l\<lparr>lp_start := try_complete (st\<lparr>sx_paused := Some (node_id, tr_width t, tr_height t)\<rparr>)\<rparr>)"

text \<open>\<open>node_id\<close> and \<open>serial\<close> are the stream's node id and \<open>object.serial\<close> property.\<close>

definition on_state_changed :: "pw_state \<Rightarrow> u32 \<Rightarrow> u64 option \<Rightarrow> cast_loop \<Rightarrow> cast_loop" where
  "on_state_changed new node_id serial l0 =
     (let l = l0\<lparr>lp_streaming := (new = Pw_Streaming)\<rparr> in
      if new = Pw_Error then on_error l
      else if new = Pw_Paused then on_paused node_id serial l
      else if new = Pw_Streaming \<and> ca_latest (lp_cast l) \<noteq> None
      then trigger (update_cast (\<lambda>c. c\<lparr>ca_pending := True\<rparr>) l)
      else l)"

subsection \<open>Parameters\<close>

definition layout_offer :: "cast \<Rightarrow> buffers_offer" where
  "layout_offer c =
     (let t = ca_transport c in
      case (if ca_mode c = Mode_Dmabuf then tr_slot_files t else []) of
        slot # _ \<Rightarrow>
          \<lparr>bo_buffers = buffers_default (length (tr_slot_files t)), bo_stride = ss_stride slot,
           bo_bytes = ucast (ss_byte_len slot)\<rparr>
      | [] \<Rightarrow>
          \<lparr>bo_buffers = buffers_default SHM_POOL_BUFFERS, bo_stride = tr_width t * 4,
           bo_bytes = tr_width t * tr_height t * 4\<rparr>)"

text \<open>\<open>fixated\<close> is what \<open>parse_format_param\<close> made of the parameter.\<close>

definition on_format :: "fixated_format option \<Rightarrow> cast_loop \<Rightarrow> cast_loop" where
  "on_format fixated l0 =
     (let l = (case fixated of None \<Rightarrow> l0 | Some fx \<Rightarrow> update_cast (apply_fixated_format fx) l0) in
      l\<lparr>lp_buffers_offers := lp_buffers_offers l @ [layout_offer (lp_cast l)]\<rparr>)"

definition on_buffers :: "u32 option \<Rightarrow> cast_loop \<Rightarrow> cast_loop" where
  "on_buffers bits l =
     (case bits of None \<Rightarrow> l | Some b \<Rightarrow> update_cast (\<lambda>c. c\<lparr>ca_data_types := Some b\<rparr>) l)"

subsection \<open>Pool buffers\<close>

definition bind_slot :: "nat \<Rightarrow> cast \<Rightarrow> nat option \<times> cast" where
  "bind_slot buf c =
     (if forwarding_eligible c
      then (case find_index (\<lambda>b. sb_pool b = None) (tr_bindings (ca_transport c)) of
              None \<Rightarrow> (None, c)
            | Some i \<Rightarrow>
                (Some i, c\<lparr>ca_transport := (ca_transport c)\<lparr>tr_bindings :=
                   (tr_bindings (ca_transport c))
                     [i := (tr_bindings (ca_transport c) ! i)\<lparr>sb_pool := Some buf\<rparr>]\<rparr>\<rparr>))
      else (None, c))"

text \<open>\<open>has_data\<close>: the buffer has a data and a chunk slot; \<open>fault\<close>: the pool memory could not be
  allocated.\<close>

definition on_add_buffer ::
  "nat \<Rightarrow> meta_entry list option \<Rightarrow> bool \<Rightarrow> io_error option \<Rightarrow> cast_loop \<Rightarrow> cast_loop" where
  "on_add_buffer buf live has_data fault l =
     (let c0 = (lp_cast l)\<lparr>ca_metas := AList.update buf (snapshot_metas live) (ca_metas (lp_cast l))\<rparr> in
      case bind_slot buf c0 of
        (bound, c1) \<Rightarrow>
          (let l1 = l\<lparr>lp_cast := c1\<rparr>; t = ca_transport c1 in
           if \<not> has_data then l1
           else
             (case bound of
                Some i \<Rightarrow>
                  l1\<lparr>lp_data := AList.update buf
                       (Data_Dmabuf i (ss_byte_len (tr_slot_files t ! i)) (ss_stride (tr_slot_files t ! i)))
                       (lp_data l1)\<rparr>
              | None \<Rightarrow>
                  (let frame_bytes = unat (tr_width t) * unat (tr_height t) * 4 in
                   case fault of
                     Some _ \<Rightarrow> l1
                   | None \<Rightarrow>
                       l1\<lparr>lp_data := AList.update buf (Data_MemFd frame_bytes (tr_width t * 4)) (lp_data l1),
                          lp_cast := c1\<lparr>ca_pool_mem := AList.update buf frame_bytes (ca_pool_mem c1)\<rparr>\<rparr>))))"

definition remove_binding :: "nat \<Rightarrow> cast \<Rightarrow> cast" where
  "remove_binding buf c =
     (case find_index (\<lambda>b. sb_pool b = Some buf) (tr_bindings (ca_transport c)) of
        None \<Rightarrow> c
      | Some i \<Rightarrow>
          (let b = tr_bindings (ca_transport c) ! i;
               c1 = c\<lparr>ca_transport := (ca_transport c)\<lparr>tr_bindings :=
                      (tr_bindings (ca_transport c))[i := free_binding]\<rparr>\<rparr> in
           if sb_in_flight b then release_slot (of_nat i) c1 else c1))"

definition on_remove_buffer :: "nat \<Rightarrow> cast_loop \<Rightarrow> cast_loop" where
  "on_remove_buffer buf =
     update_cast (\<lambda>c. remove_binding buf
       (c\<lparr>ca_metas := AList.delete buf (ca_metas c), ca_pool_mem := AList.delete buf (ca_pool_mem c),
          ca_pool := filter (\<lambda>b. b \<noteq> buf) (ca_pool c)\<rparr>))"

subsection \<open>Compositor traffic\<close>

text \<open>A valid frame of the live stream becomes the latest frame; a slot it names is now ours.\<close>

definition accept_frame :: "frame_payload \<Rightarrow> cast \<Rightarrow> cast" where
  "accept_frame payload c =
     replace_latest payload
       (case payload of
          Fp_Slot slot _ \<Rightarrow> c\<lparr>ca_slot_log := ca_slot_log c @ [Slot_Got slot]\<rparr>
        | Fp_Descriptor _ _ _ \<Rightarrow> c)"

definition on_frame :: "stream_frame \<Rightarrow> cast_loop \<Rightarrow> cast_loop" where
  "on_frame fr l0 =
     (let l = l0\<lparr>lp_compositor_dropped := sf_dropped fr\<rparr>; t = ca_transport (lp_cast l) in
      if sf_stream_id fr \<noteq> tr_stream_id t then l
      else
        (case validate_frame fr (tr_width t) (tr_height t) (tr_announced t) (length (tr_slot_files t)) of
           Inl _ \<Rightarrow> l
         | Inr payload \<Rightarrow> trigger (update_cast (accept_frame payload) l)))"

definition on_geometry :: "u64 \<Rightarrow> u32 \<Rightarrow> u32 \<Rightarrow> cast_loop \<Rightarrow> cast_loop" where
  "on_geometry stream_id width height l =
     (if stream_id \<noteq> tr_stream_id (ca_transport (lp_cast l)) then l
      else
        (case restart_stream_geometry stream_id width height (lp_cast l) of
           (Inr (announced, slot_count), c') \<Rightarrow>
             l\<lparr>lp_cast := c', lp_offers := lp_offers l
                @ [\<lparr>of_width = width, of_height = height, of_announced = announced,
                    of_has_slots = (0 < slot_count)\<rparr>]\<rparr>
         | (Inl _, c') \<Rightarrow> end_cast (l\<lparr>lp_cast := c'\<rparr>)))"

definition on_ipc :: "cast_loop \<Rightarrow> cast_loop" where
  "on_ipc l0 =
     (case next_stream_message (ca_client (lp_cast l0)) of
        (r, cl) \<Rightarrow>
          (let l = update_cast (\<lambda>c. c\<lparr>ca_client := cl\<rparr>) l0 in
           case r of
             Inr (SM_Frame fr) \<Rightarrow> on_frame fr l
           | Inr SM_LeaseRenewed \<Rightarrow> l
           | Inr (SM_GeometryChanged sid w h) \<Rightarrow> on_geometry sid w h l
           | Inr (SM_Ended _ _) \<Rightarrow> end_cast l
           | Inl _ \<Rightarrow> end_cast l))"

subsection \<open>Timers and sockets\<close>

definition on_stop :: "cast_loop \<Rightarrow> cast_loop" where
  "on_stop l = quit (l\<lparr>lp_stopped_by_owner := True\<rparr>)"

definition on_lease_timer :: "cast_loop \<Rightarrow> cast_loop" where
  "on_lease_timer =
     update_cast (\<lambda>c. c\<lparr>ca_client := snd (request_lease_renewal 900000 (ca_client c))\<rparr>)"

definition on_keepalive :: "cast_loop \<Rightarrow> cast_loop" where
  "on_keepalive l =
     (if \<not> lp_streaming l then l
      else if \<not> (ca_pending (lp_cast l)
                 \<or> list_ex sb_in_flight (tr_bindings (ca_transport (lp_cast l)))) then l
      else trigger l)"

definition on_global :: "u32 \<Rightarrow> u64 option \<Rightarrow> cast_loop \<Rightarrow> cast_loop" where
  "on_global node serial l =
     (case serial of
        None \<Rightarrow> l
      | Some _ \<Rightarrow> l\<lparr>lp_start := try_complete (record_serial node serial (lp_start l))\<rparr>)"

section \<open>Steps\<close>

datatype loop_event =
    Lev_Global u32 "u64 option"
  | Lev_State pw_state u32 "u64 option"
  | Lev_Format "fixated_format option"
  | Lev_Buffers "u32 option"
  | Lev_Add_Buffer nat "meta_entry list option" bool "io_error option"
  | Lev_Remove_Buffer nat
  | Lev_Return nat
  | Lev_Process cast_env
  | Lev_Ipc
  | Lev_Stop
  | Lev_Lease
  | Lev_Keepalive

fun handle :: "loop_event \<Rightarrow> cast_loop \<Rightarrow> cast_loop" where
  "handle (Lev_Global node serial) = on_global node serial"
| "handle (Lev_State new node_id serial) = on_state_changed new node_id serial"
| "handle (Lev_Format fx) = on_format fx"
| "handle (Lev_Buffers bits) = on_buffers bits"
| "handle (Lev_Add_Buffer buf live has_data fault) = on_add_buffer buf live has_data fault"
| "handle (Lev_Remove_Buffer buf) = on_remove_buffer buf"
| "handle (Lev_Return buf) = update_cast (\<lambda>c. c\<lparr>ca_returned := ca_returned c @ [buf]\<rparr>)"
| "handle (Lev_Process env) = update_cast (process_frame env)"
| "handle Lev_Ipc = on_ipc"
| "handle Lev_Stop = on_stop"
| "handle Lev_Lease = on_lease_timer"
| "handle Lev_Keepalive = on_keepalive"

text \<open>After \<open>quit\<close> the loop dispatches no further callback.\<close>

definition loop_step :: "loop_event \<Rightarrow> cast_loop \<Rightarrow> cast_loop" where
  "loop_step e l = (if ca_running (lp_cast l) then handle e l else l)"

section \<open>Teardown\<close>

definition teardown_releases :: "transport \<Rightarrow> (u64 \<times> u32) list" where
  "teardown_releases t =
     map (\<lambda>i. (tr_stream_id t, of_nat i))
       (filter (\<lambda>i. sb_in_flight (tr_bindings t ! i)) [0 ..< length (tr_bindings t)])"

definition teardown :: "cast_loop \<Rightarrow> cast_loop" where
  "teardown l =
     (let c = lp_cast l;
          cl = fold (\<lambda>(sid, slot) cl. snd (release_stream_buffer sid slot cl))
                 (teardown_releases (ca_transport c)) (ca_client c) in
      l\<lparr>lp_cast := c\<lparr>ca_pool_mem := [], ca_client := cl,
            ca_slot_log := ca_slot_log c
              @ map (\<lambda>(sid, slot). Slot_Released slot) (teardown_releases (ca_transport c))\<rparr>,
        lp_session_ended := lp_session_ended l
          + (if sx_completed (lp_start l) \<and> \<not> lp_stopped_by_owner l then 1 else 0)\<rparr>)"

end
