(* ===== verification/Cast_Slots.thy ===== *)
theory Cast_Slots
  imports Cast_Loop
begin

text \<open>
  The ledger of the compositor's slots over whole runs of the cast thread: every slot the
  compositor hands over is either still held, by a queued pool buffer or by the frame that
  waits to be published, or it has been released, and that exactly once.
\<close>

section \<open>The ledger\<close>

text \<open>The slot is in a pool buffer the consumer has, or in the frame waiting for the next cycle.\<close>

definition held :: "cast \<Rightarrow> u32 \<Rightarrow> bool" where
  "held c s \<longleftrightarrow> unat s < length (tr_bindings (ca_transport c))
     \<and> sb_in_flight (tr_bindings (ca_transport c) ! unat s)"

fun payload_slot :: "frame_payload option \<Rightarrow> u32 option" where
  "payload_slot (Some (Fp_Slot slot _)) = Some slot"
| "payload_slot _ = None"

definition waiting :: "cast \<Rightarrow> u32 \<Rightarrow> bool" where
  "waiting c s \<longleftrightarrow> ca_pending c \<and> payload_slot (ca_latest c) = Some s"

definition got :: "cast \<Rightarrow> u32 \<Rightarrow> nat" where
  "got c s = count_list (ca_slot_log c) (Slot_Got s)"

definition released :: "cast \<Rightarrow> u32 \<Rightarrow> nat" where
  "released c s = count_list (ca_slot_log c) (Slot_Released s)"

definition latest_in_range :: "cast \<Rightarrow> bool" where
  "latest_in_range c \<longleftrightarrow>
     (\<forall>slot \<in> set_option (payload_slot (ca_latest c)).
        unat slot < length (tr_slot_files (ca_transport c)))"

definition ledger :: "cast \<Rightarrow> bool" where
  "ledger c \<longleftrightarrow>
     (\<forall>s. got c s = released c s + of_bool (held c s) + of_bool (waiting c s)
        \<and> \<not> (held c s \<and> waiting c s))"

definition slots_inv :: "cast \<Rightarrow> bool" where
  "slots_inv c \<longleftrightarrow> transport_wf (ca_transport c) \<and> latest_in_range c \<and> ledger c"

text \<open>Everything the ledger depends on.\<close>

definition slot_view ::
  "cast \<Rightarrow> transport \<times> frame_payload option \<times> bool \<times> slot_event list" where
  "slot_view c = (ca_transport c, ca_latest c, ca_pending c, ca_slot_log c)"

lemmas ledger_defs = held_def waiting_def got_def released_def latest_in_range_def ledger_def

lemma slots_inv_view:
  assumes "slot_view c' = slot_view c"
  shows "slots_inv c' = slots_inv c" and "held c' = held c" and "waiting c' = waiting c"
    and "got c' = got c" and "released c' = released c"
proof -
  from assms have v: "ca_transport c' = ca_transport c" "ca_latest c' = ca_latest c"
    "ca_pending c' = ca_pending c" "ca_slot_log c' = ca_slot_log c"
    by (simp_all add: slot_view_def)
  show h: "held c' = held c" and w: "waiting c' = waiting c" and g: "got c' = got c"
    and r: "released c' = released c"
    by (simp_all add: fun_eq_iff held_def waiting_def got_def released_def v)
  show "slots_inv c' = slots_inv c"
    by (simp only: slots_inv_def ledger_def latest_in_range_def v h w g r)
qed

section \<open>Steps that leave the view alone\<close>

lemma attach_metas_view [simp]: "slot_view (attach_metas env buf damage w h c) = slot_view c"
  by (simp add: attach_metas_def slot_view_def Let_def)

lemma drop_frame_view [simp]: "slot_view (drop_frame c) = slot_view c"
  by (simp add: drop_frame_def slot_view_def)

lemma take_buffer_view: "take_buffer c = (b, c') \<Longrightarrow> slot_view c' = slot_view c"
  by (auto simp: take_buffer_def slot_view_def split: list.splits)

lemma view_more [simp]:
  "slot_view (c\<lparr>ca_warned := x1\<rparr>) = slot_view c"
  "slot_view (c\<lparr>ca_pool := x2\<rparr>) = slot_view c"
  "slot_view (c\<lparr>ca_running := x3\<rparr>) = slot_view c"
  "slot_view (c\<lparr>ca_queued := x4\<rparr>) = slot_view c"
  "slot_view (c\<lparr>ca_returned := x5\<rparr>) = slot_view c"
  "slot_view (c\<lparr>ca_client := x6\<rparr>) = slot_view c"
  "slot_view (c\<lparr>ca_mode := x7\<rparr>) = slot_view c"
  "slot_view (c\<lparr>ca_data_types := x8\<rparr>) = slot_view c"
  "slot_view (c\<lparr>ca_metas := x9\<rparr>) = slot_view c"
  "slot_view (c\<lparr>ca_pool_mem := x10\<rparr>) = slot_view c"
  by (simp_all add: slot_view_def)

lemmas slots_inv_updates [simp] = view_more [THEN slots_inv_view(1)]

lemma copy_into_pool_view:
  "copy_into_pool env f stride w h damage c = (b, c') \<Longrightarrow> slot_view c' = slot_view c"
  by (auto simp: copy_into_pool_def Let_def dest!: take_buffer_view
      split: if_splits sum.splits prod.splits option.splits)

section \<open>Releasing\<close>

lemma release_slot_fields [simp]:
  "ca_transport (release_slot s c) = ca_transport c"
  "ca_latest (release_slot s c) = ca_latest c"
  "ca_pending (release_slot s c) = ca_pending c"
  "ca_slot_log (release_slot s c)
     = (if tr_slot_files (ca_transport c) = [] then ca_slot_log c else ca_slot_log c @ [Slot_Released s])"
  by (simp_all add: release_slot_def)

lemma wf_binding_in_flight:
  "transport_wf t \<Longrightarrow> i < length (tr_bindings t) \<Longrightarrow> sb_in_flight (tr_bindings t ! i)
     \<Longrightarrow> sb_pool (tr_bindings t ! i) \<noteq> None"
  by (meson nth_mem transport_wf_def)

lemma wf_lengths:
  "transport_wf t \<Longrightarrow> length (tr_bindings t) = length (tr_slot_files t) \<and> length (tr_slot_files t) < 2 ^ 32"
  by (simp add: transport_wf_def slots_wf_def)

lemma map_filter_update_subset:
  "i < length bs \<Longrightarrow> sb_pool b = None \<or> sb_pool b = sb_pool (bs ! i) \<Longrightarrow>
     distinct (List.map_filter sb_pool bs) \<Longrightarrow>
     distinct (List.map_filter sb_pool (bs[i := b]))
     \<and> set (List.map_filter sb_pool (bs[i := b])) \<subseteq> set (List.map_filter sb_pool bs)"
proof (induction bs arbitrary: i)
  case Nil
  then show ?case by simp
next
  case (Cons x xs)
  then show ?case
    by (cases i) (auto simp: List.map_filter_simps split: option.splits)
qed

text \<open>Changing a binding without binding a new pool buffer keeps the transport well-formed.\<close>

lemma wf_update_binding:
  assumes "transport_wf t" and "i < length (tr_bindings t)"
    and "sb_pool b = None \<or> sb_pool b = sb_pool (tr_bindings t ! i)"
    and "sb_in_flight b \<longrightarrow> sb_pool b \<noteq> None"
  shows "transport_wf (t\<lparr>tr_bindings := (tr_bindings t)[i := b]\<rparr>)"
  using assms map_filter_update_subset [OF assms(2,3)] set_update_subset_insert [of "tr_bindings t" i b]
  by (auto simp: transport_wf_def)

text \<open>How the ledger's terms change under the primitive updates.\<close>

abbreviation set_binding :: "nat \<Rightarrow> slot_binding \<Rightarrow> cast \<Rightarrow> cast" where
  "set_binding i b c \<equiv> c\<lparr>ca_transport := (ca_transport c)\<lparr>tr_bindings :=
     (tr_bindings (ca_transport c))[i := b]\<rparr>\<rparr>"

lemma set_binding_ledger [simp]:
  "i < length (tr_bindings (ca_transport c)) \<Longrightarrow>
     held (set_binding i b c) s = (if unat s = i then sb_in_flight b else held c s)"
  "waiting (set_binding i b c) s = waiting c s"
  "got (set_binding i b c) s = got c s"
  "released (set_binding i b c) s = released c s"
  "latest_in_range (set_binding i b c) = latest_in_range c"
  by (auto simp: ledger_defs)

lemma release_slot_ledger [simp]:
  "held (release_slot slot c) s = held c s"
  "waiting (release_slot slot c) s = waiting c s"
  "got (release_slot slot c) s = got c s"
  "tr_slot_files (ca_transport c) \<noteq> [] \<Longrightarrow>
     released (release_slot slot c) s = released c s + of_bool (s = slot)"
  "latest_in_range (release_slot slot c) = latest_in_range c"
  by (auto simp: ledger_defs)

lemma pending_ledger [simp]:
  "held (c\<lparr>ca_pending := p\<rparr>) s = held c s"
  "got (c\<lparr>ca_pending := p\<rparr>) s = got c s"
  "released (c\<lparr>ca_pending := p\<rparr>) s = released c s"
  "\<not> waiting (c\<lparr>ca_pending := False\<rparr>) s"
  "latest_in_range (c\<lparr>ca_pending := p\<rparr>) = latest_in_range c"
  by (simp_all add: ledger_defs)

lemma of_nat_slot:
  assumes "transport_wf t" and "i < length (tr_bindings t)"
  shows "(s = (of_nat i :: u32)) = (unat s = i)"
proof -
  from wf_lengths [OF assms(1)] assms(2) have "i < 2 ^ 32" by simp
  then have "unat (of_nat i :: u32) = i" by (simp add: unsigned_of_nat take_bit_nat_eq_self)
  then show ?thesis by auto
qed

lemma ledgerD:
  "ledger c \<Longrightarrow> got c s = released c s + of_bool (held c s) + of_bool (waiting c s)"
  "ledger c \<Longrightarrow> held c s \<Longrightarrow> \<not> waiting c s"
  by (auto simp: ledger_def)

section \<open>Reclaiming and unbinding\<close>

text \<open>Freeing a slot in flight and releasing it, whatever becomes of its pool binding.\<close>

lemma free_and_release_inv:
  assumes inv: "slots_inv c" and i: "i < length (tr_bindings (ca_transport c))"
    and fl: "sb_in_flight (tr_bindings (ca_transport c) ! i)"
    and b: "\<not> sb_in_flight b" "sb_pool b = None \<or> sb_pool b = sb_pool (tr_bindings (ca_transport c) ! i)"
  shows "slots_inv (release_slot (of_nat i) (set_binding i b c))"
proof -
  from inv have wf: "transport_wf (ca_transport c)" and r: "latest_in_range c" and l: "ledger c"
    by (simp_all add: slots_inv_def)
  from wf_lengths [OF wf] i have ne: "tr_slot_files (ca_transport c) \<noteq> []" by auto
  have h: "held c s" if "unat s = i" for s using that i fl by (simp add: held_def)
  have "ledger (release_slot (of_nat i) (set_binding i b c))"
    unfolding ledger_def
  proof (intro allI)
    fix s
    show "got (release_slot (of_nat i) (set_binding i b c)) s
        = released (release_slot (of_nat i) (set_binding i b c)) s
          + of_bool (held (release_slot (of_nat i) (set_binding i b c)) s)
          + of_bool (waiting (release_slot (of_nat i) (set_binding i b c)) s)
      \<and> \<not> (held (release_slot (of_nat i) (set_binding i b c)) s
           \<and> waiting (release_slot (of_nat i) (set_binding i b c)) s)"
      using ledgerD [OF l, of s] h [of s] i ne b of_nat_slot [OF wf i, of s] by auto
  qed
  with r wf_update_binding [OF wf i b(2)] b(1) show ?thesis by (simp add: slots_inv_def)
qed

text \<open>Changing the binding of a slot that is not in flight.\<close>

lemma rebind_idle_inv:
  assumes inv: "slots_inv c" and i: "i < length (tr_bindings (ca_transport c))"
    and fl: "sb_in_flight b = sb_in_flight (tr_bindings (ca_transport c) ! i)"
    and wf': "transport_wf ((ca_transport c)\<lparr>tr_bindings := (tr_bindings (ca_transport c))[i := b]\<rparr>)"
  shows "slots_inv (set_binding i b c)"
proof -
  have h: "held (set_binding i b c) s = held c s" for s
    using i fl by (auto simp: held_def nth_list_update)
  have w: "waiting (set_binding i b c) s = waiting c s"
    and g: "got (set_binding i b c) s = got c s"
    and r: "released (set_binding i b c) s = released c s" for s by simp_all
  from inv wf' show ?thesis
    unfolding slots_inv_def ledger_def h w g r by simp
qed

lemma reclaim_one_inv [inv_intros]: "slots_inv c \<Longrightarrow> slots_inv (reclaim_one buf c)"
  by (auto simp: reclaim_one_def dest!: find_index_SomeD intro!: free_and_release_inv
      split: option.splits)

lemma fold_reclaim_inv: "slots_inv c \<Longrightarrow> slots_inv (fold reclaim_one bufs c)"
  by (induction bufs arbitrary: c) (auto intro: reclaim_one_inv)

lemma reclaim_returned_inv [inv_intros]:
  "slots_inv c \<Longrightarrow> slots_inv (reclaim_returned_buffers c)"
  by (simp add: reclaim_returned_buffers_def fold_reclaim_inv)

lemma remove_binding_inv [inv_intros]: "slots_inv c \<Longrightarrow> slots_inv (remove_binding buf c)"
proof (cases "find_index (\<lambda>b. sb_pool b = Some buf) (tr_bindings (ca_transport c))")
  case None
  then show "slots_inv c \<Longrightarrow> ?thesis" by (simp add: remove_binding_def)
next
  case (Some i)
  assume inv: "slots_inv c"
  from find_index_SomeD [OF Some] have i: "i < length (tr_bindings (ca_transport c))" by simp
  from inv have wf: "transport_wf (ca_transport c)" by (simp add: slots_inv_def)
  show ?thesis
  proof (cases "sb_in_flight (tr_bindings (ca_transport c) ! i)")
    case True
    with Some free_and_release_inv [OF inv i True, of free_binding] show ?thesis
      by (simp add: remove_binding_def Let_def)
  next
    case False
    with Some rebind_idle_inv [OF inv i, of free_binding]
      wf_update_binding [OF wf i, of free_binding] show ?thesis
      by (simp add: remove_binding_def Let_def)
  qed
qed

section \<open>Publishing\<close>

text \<open>The frame waiting for this cycle is done with: dropped, copied and released, or queued.\<close>

lemma publish_slot_inv:
  assumes inv: "slots_inv c" and pend: "ca_pending c" and lat: "ca_latest c = Some (Fp_Slot slot damage)"
  shows "slots_inv ((publish_slot env slot damage c)\<lparr>ca_pending := False\<rparr>)"
proof -
  from inv have wf: "transport_wf (ca_transport c)" and r: "latest_in_range c" and l: "ledger c"
    by (simp_all add: slots_inv_def)
  have w: "waiting c s = (s = slot)" for s using pend lat by (auto simp: waiting_def)
  from r lat have "unat slot < length (tr_slot_files (ca_transport c))" by (simp add: latest_in_range_def)
  with wf_lengths [OF wf] have i: "unat slot < length (tr_bindings (ca_transport c))"
    and ne: "tr_slot_files (ca_transport c) \<noteq> []" by auto
  from ledgerD(2) [OF l] w have nh: "\<not> held c slot" by blast
  with i have nf: "\<not> sb_in_flight (tr_bindings (ca_transport c) ! unat slot)" by (simp add: held_def)
  text \<open>Releasing the frame's slot on the way, with the view otherwise unchanged.\<close>
  have rel: "slots_inv ((release_slot slot c')\<lparr>ca_pending := False\<rparr>)"
    if v: "slot_view c' = slot_view c" for c'
  proof -
    from v have t: "ca_transport c' = ca_transport c" by (simp add: slot_view_def)
    have "ledger ((release_slot slot c')\<lparr>ca_pending := False\<rparr>)"
      unfolding ledger_def
      using ledgerD [OF l] ne w by (simp add: t slots_inv_view(2-5) [OF v])
    moreover from inv have "slots_inv c'" by (simp only: slots_inv_view(1) [OF v])
    ultimately show ?thesis by (simp add: slots_inv_def)
  qed
  show ?thesis
  proof (cases "forwarding_eligible c \<and> sb_pool (tr_bindings (ca_transport c) ! unat slot) \<noteq> None")
    case True
    then obtain buf where buf: "sb_pool (tr_bindings (ca_transport c) ! unat slot) = Some buf" by auto
    define b where "b = (tr_bindings (ca_transport c) ! unat slot)\<lparr>sb_in_flight := True\<rparr>"
    let ?c = "(set_binding (unat slot) b c)\<lparr>ca_pending := False\<rparr>"
    have v: "slot_view ((publish_slot env slot damage c)\<lparr>ca_pending := False\<rparr>) = slot_view ?c"
      using i nf True buf
      by (simp add: publish_slot_def Let_def b_def slot_view_def attach_metas_def)
    have "ledger ?c"
      unfolding ledger_def using ledgerD [OF l] nh w i by (auto simp: b_def word_unat_eq_iff)
    moreover have "transport_wf (ca_transport ?c)"
      using wf_update_binding [OF wf i, of b] buf by (simp add: b_def)
    moreover from r have "latest_in_range ?c" by (simp add: i)
    ultimately have "slots_inv ?c" by (simp add: slots_inv_def)
    with slots_inv_view(1) [OF v] show ?thesis by simp
  next
    case False
    show ?thesis
    proof (cases "cpu_mappable (ca_transport c)")
      case True
      obtain fin c' where c': "copy_into_pool env (ss_file (tr_slot_files (ca_transport c) ! unat slot))
          (ss_stride (tr_slot_files (ca_transport c) ! unat slot)) (tr_width (ca_transport c))
          (tr_height (ca_transport c)) damage c = (fin, c')" by fastforce
      with False True i nf have "publish_slot env slot damage c = release_slot slot c'"
        by (auto simp: publish_slot_def Let_def split: option.splits bool.splits)
      with rel [OF copy_into_pool_view [OF c']] show ?thesis by simp
    next
      case nm: False
      with False i nf have "publish_slot env slot damage c = release_slot slot (drop_frame c)"
        by (auto simp: publish_slot_def Let_def split: option.splits bool.splits)
      with rel [of "drop_frame c"] show ?thesis by simp
    qed
  qed
qed

text \<open>A frame that is not a slot frame can be marked done at any time.\<close>

lemma unpend_inv:
  assumes "slots_inv c" and "payload_slot (ca_latest c) = None"
  shows "slots_inv (c\<lparr>ca_pending := p\<rparr>)"
proof -
  have w: "\<not> waiting c s" "\<not> waiting (c\<lparr>ca_pending := p\<rparr>) s" for s
    using assms(2) by (simp_all add: waiting_def)
  from assms(1) show ?thesis by (simp add: slots_inv_def ledger_def w)
qed

lemma process_frame_inv [inv_intros]: "slots_inv c \<Longrightarrow> slots_inv (process_frame env c)"
proof -
  assume "slots_inv c"
  then have inv: "slots_inv (reclaim_returned_buffers c)" (is "slots_inv ?c") by (rule inv_intros)
  show ?thesis
  proof (cases "ca_pending ?c")
    case False
    with inv show ?thesis by (simp add: process_frame_def Let_def)
  next
    case True
    show ?thesis
    proof (cases "ca_latest ?c")
      case None
      with True unpend_inv [OF inv] show ?thesis by (simp add: process_frame_def Let_def)
    next
      case (Some fp)
      show ?thesis
      proof (cases fp)
        case (Fp_Slot slot damage)
        with True Some publish_slot_inv [OF inv True] show ?thesis
          by (simp add: process_frame_def Let_def)
      next
        case (Fp_Descriptor f stride damage)
        obtain fin c' where c': "copy_into_pool env f stride (tr_width (ca_transport ?c))
            (tr_height (ca_transport ?c)) damage ?c = (fin, c')" by fastforce
        note view = copy_into_pool_view [OF c']
        from inv have v: "slots_inv c'" by (simp only: slots_inv_view(1) [OF view])
        from view Some Fp_Descriptor have "payload_slot (ca_latest c') = None"
          by (simp add: slot_view_def)
        with True Some Fp_Descriptor c' v unpend_inv [OF v] show ?thesis
          by (cases fin) (simp_all add: process_frame_def Let_def)
      qed
    qed
  qed
qed

section \<open>New frames and new streams\<close>

text \<open>A frame arrives; if it names a slot, that slot was ours to receive.\<close>

fun slot_events :: "(u32 \<Rightarrow> slot_event) \<Rightarrow> u32 option \<Rightarrow> slot_event list" where
  "slot_events ev None = []"
| "slot_events ev (Some s) = [ev s]"

lemma count_slot_events [simp]:
  "count_list (slot_events Slot_Got x) (Slot_Got s) = of_bool (x = Some s)"
  "count_list (slot_events Slot_Released x) (Slot_Released s) = of_bool (x = Some s)"
  "count_list (slot_events Slot_Got x) (Slot_Released s) = 0"
  "count_list (slot_events Slot_Released x) (Slot_Got s) = 0"
  by (cases x; simp)+

lemma accept_frame_fields [simp]:
  "ca_transport (accept_frame payload c) = ca_transport c"
  "ca_latest (accept_frame payload c) = Some payload"
  "ca_pending (accept_frame payload c)"
  "ca_slot_log (accept_frame payload c) = ca_slot_log c
     @ slot_events Slot_Got (payload_slot (Some payload))
     @ slot_events Slot_Released
         (if ca_pending c \<and> tr_slot_files (ca_transport c) \<noteq> [] then payload_slot (ca_latest c)
          else None)"
proof -
  have "ca_transport (accept_frame payload c) = ca_transport c
    \<and> ca_latest (accept_frame payload c) = Some payload \<and> ca_pending (accept_frame payload c)
    \<and> ca_slot_log (accept_frame payload c) = ca_slot_log c
       @ slot_events Slot_Got (payload_slot (Some payload))
       @ slot_events Slot_Released
         (if ca_pending c \<and> tr_slot_files (ca_transport c) \<noteq> [] then payload_slot (ca_latest c)
          else None)"
  proof (cases "ca_latest c")
    case None
    then show ?thesis
      by (cases payload; cases "ca_pending c") (simp_all add: accept_frame_def replace_latest_def)
  next
    case (Some fp)
    then show ?thesis
      by (cases fp; cases payload; cases "ca_pending c")
        (simp_all add: accept_frame_def replace_latest_def)
  qed
  then show "ca_transport (accept_frame payload c) = ca_transport c"
    "ca_latest (accept_frame payload c) = Some payload" "ca_pending (accept_frame payload c)"
    "ca_slot_log (accept_frame payload c) = ca_slot_log c
       @ slot_events Slot_Got (payload_slot (Some payload))
       @ slot_events Slot_Released
         (if ca_pending c \<and> tr_slot_files (ca_transport c) \<noteq> [] then payload_slot (ca_latest c)
          else None)"
    by blast+
qed

lemma accept_frame_inv:
  assumes inv: "slots_inv c"
    and rng: "\<And>slot damage. payload = Fp_Slot slot damage \<Longrightarrow>
      unat slot < length (tr_slot_files (ca_transport c)) \<and> got c slot = released c slot"
  shows "slots_inv (accept_frame payload c)"
proof -
  from inv have wf: "transport_wf (ca_transport c)" and r: "latest_in_range c" and l: "ledger c"
    by (simp_all add: slots_inv_def)
  let ?c = "accept_frame payload c"
  have h: "held ?c s = held c s" for s by (simp add: held_def)
  have w: "waiting ?c s = (payload_slot (Some payload) = Some s)" for s by (simp add: waiting_def)
  have g: "got ?c s = got c s + of_bool (payload_slot (Some payload) = Some s)" for s
    by (simp add: got_def)
  have ne: "tr_slot_files (ca_transport c) \<noteq> []" if "waiting c s" for s
    using that r by (auto simp: waiting_def latest_in_range_def)
  have rl: "released ?c s = released c s + of_bool (waiting c s)" for s
    using ne [of s] by (auto simp: released_def waiting_def)
  have "ledger ?c"
    unfolding ledger_def
  proof (intro allI)
    fix s
    show "got ?c s = released ?c s + of_bool (held ?c s) + of_bool (waiting ?c s)
      \<and> \<not> (held ?c s \<and> waiting ?c s)"
      unfolding h w g rl using ledgerD [OF l, of s] rng
      by (cases payload) auto
  qed
  moreover from rng have "latest_in_range ?c"
    by (cases payload) (auto simp: latest_in_range_def)
  ultimately show ?thesis using wf by (simp add: slots_inv_def)
qed

text \<open>A restarted stream begins with an empty ledger.\<close>

lemma take_over_inv:
  assumes "transport_wf t" and "\<forall>b \<in> set (tr_bindings t). \<not> sb_in_flight b"
  shows "slots_inv (take_over t c)"
  using assms by (auto simp: slots_inv_def ledger_defs take_over_def)

lemma sync_transport_inv:
  assumes "slots_inv c" and "sync_transport m c = (r, c')"
  shows "slots_inv c'"
  using assms take_over_inv swap_restarted_wf(1,8)
  by (auto simp: sync_transport_def switch_transport_def Let_def
      split: if_splits sum.splits prod.splits)

lemma apply_fixated_inv [inv_intros]: "slots_inv c \<Longrightarrow> slots_inv (apply_fixated_format fx c)"
  using sync_transport_inv
  by (auto simp: apply_fixated_format_def split: sum.splits prod.splits)

lemma restart_geometry_inv:
  assumes "slots_inv c" and "restart_stream_geometry sid w h c = (r, c')"
  shows "slots_inv c'"
  using assms take_over_inv swap_restarted_wf(1,8)
  by (auto simp: restart_stream_geometry_def Let_def
      split: if_splits sum.splits prod.splits)

section \<open>The events of the loop\<close>

text \<open>
  What the environment keeps to: the compositor hands a slot over only when every earlier
  hand-over of it has been released; PipeWire does not announce a buffer it already
  announced; and the stream does not reach \<open>Streaming\<close> while an already published slot frame
  is the latest (the code would publish that frame a second time).
\<close>

definition fresh_slot :: "stream_frame \<Rightarrow> cast \<Rightarrow> bool" where
  "fresh_slot fr c \<longleftrightarrow>
     (\<forall>s \<in> set_option (sf_slot fr).
        sf_stream_id fr = tr_stream_id (ca_transport c) \<longrightarrow> got c s = released c s)"

fun loop_env_ok :: "loop_event \<Rightarrow> cast_loop \<Rightarrow> bool" where
  "loop_env_ok (Lev_State new _ _) l \<longleftrightarrow>
     new = Pw_Streaming \<longrightarrow> payload_slot (ca_latest (lp_cast l)) \<noteq> None \<longrightarrow> ca_pending (lp_cast l)"
| "loop_env_ok (Lev_Add_Buffer buf _ _ _) l \<longleftrightarrow>
     (\<forall>b \<in> set (tr_bindings (ca_transport (lp_cast l))). sb_pool b \<noteq> Some buf)"
| "loop_env_ok Lev_Ipc l \<longleftrightarrow>
     (case fst (next_stream_message (ca_client (lp_cast l))) of
        Inr (SM_Frame fr) \<Rightarrow> fresh_slot fr (lp_cast l) | _ \<Rightarrow> True)"
| "loop_env_ok _ l \<longleftrightarrow> True"

abbreviation loop_inv :: "cast_loop \<Rightarrow> bool" where
  "loop_inv l \<equiv> slots_inv (lp_cast l)"

lemma loop_helpers [simp]:
  "lp_cast (update_cast f l) = f (lp_cast l)"
  "lp_cast (trigger l) = lp_cast l"
  "loop_inv (quit l) = loop_inv l"
  "loop_inv (end_cast l) = loop_inv l"
  by (simp_all add: update_cast_def trigger_def quit_def end_cast_def)

lemma on_state_changed_inv:
  assumes "loop_inv l" and "loop_env_ok (Lev_State new n serial) l"
  shows "loop_inv (on_state_changed new n serial l)"
proof -
  have "slots_inv ((lp_cast l)\<lparr>ca_pending := True\<rparr>)" if "new = Pw_Streaming"
  proof (cases "payload_slot (ca_latest (lp_cast l))")
    case None
    with unpend_inv [OF assms(1)] show ?thesis by simp
  next
    case (Some slot)
    with assms(2) that have "(lp_cast l)\<lparr>ca_pending := True\<rparr> = lp_cast l" by simp
    with assms(1) show ?thesis by simp
  qed
  with assms(1) show ?thesis
    by (auto simp: on_state_changed_def on_error_def on_paused_def Let_def)
qed

lemma distinct_bind:
  "i < length bs \<Longrightarrow> sb_pool (bs ! i) = None \<Longrightarrow> sb_pool b = Some buf \<Longrightarrow>
     \<forall>x \<in> set bs. sb_pool x \<noteq> Some buf \<Longrightarrow> distinct (List.map_filter sb_pool bs) \<Longrightarrow>
     distinct (List.map_filter sb_pool (bs[i := b]))
     \<and> set (List.map_filter sb_pool (bs[i := b])) = insert buf (set (List.map_filter sb_pool bs))"
proof (induction bs arbitrary: i)
  case Nil
  then show ?case by simp
next
  case (Cons x xs)
  have "buf \<notin> set (List.map_filter sb_pool xs)"
    using Cons.prems(4) by (auto simp: List.map_filter_def)
  with Cons show ?case
    by (cases i) (auto simp: List.map_filter_simps split: option.splits)
qed

lemma bind_slot_inv:
  assumes inv: "slots_inv c" and fresh: "\<forall>b \<in> set (tr_bindings (ca_transport c)). sb_pool b \<noteq> Some buf"
  shows "slots_inv (snd (bind_slot buf c))"
proof (cases "forwarding_eligible c")
  case False
  with inv show ?thesis by (simp add: bind_slot_def)
next
  case el: True
  show ?thesis
  proof (cases "find_index (\<lambda>b. sb_pool b = None) (tr_bindings (ca_transport c))")
    case None
    with inv show ?thesis by (simp add: bind_slot_def)
  next
    case (Some i)
    let ?b = "(tr_bindings (ca_transport c) ! i)\<lparr>sb_pool := Some buf\<rparr>"
    from find_index_SomeD [OF Some] have i: "i < length (tr_bindings (ca_transport c))"
      and free: "sb_pool (tr_bindings (ca_transport c) ! i) = None" by simp_all
    from inv have wf: "transport_wf (ca_transport c)" by (simp add: slots_inv_def)
    have "transport_wf ((ca_transport c)\<lparr>tr_bindings := (tr_bindings (ca_transport c))[i := ?b]\<rparr>)"
      using wf distinct_bind [OF i free _ fresh, of ?b]
        set_update_subset_insert [of "tr_bindings (ca_transport c)" i ?b]
      by (auto simp: transport_wf_def)
    with el Some rebind_idle_inv [OF inv i, of ?b] show ?thesis by (simp add: bind_slot_def)
  qed
qed

lemma on_add_buffer_inv:
  assumes "loop_inv l" and "loop_env_ok (Lev_Add_Buffer buf live has_data fault) l"
  shows "loop_inv (on_add_buffer buf live has_data fault l)"
proof -
  let ?c = "(lp_cast l)\<lparr>ca_metas := AList.update buf (snapshot_metas live) (ca_metas (lp_cast l))\<rparr>"
  obtain bound c1 where b: "bind_slot buf ?c = (bound, c1)" by fastforce
  from bind_slot_inv [of ?c buf] assms b have "slots_inv c1" by simp
  with b show ?thesis
    by (auto simp: on_add_buffer_def Let_def split: option.splits)
qed

lemma on_remove_buffer_inv: "loop_inv l \<Longrightarrow> loop_inv (on_remove_buffer buf l)"
  by (simp add: on_remove_buffer_def remove_binding_inv)

lemma on_frame_inv:
  assumes "loop_inv l" and "fresh_slot fr (lp_cast l)"
  shows "loop_inv (on_frame fr l)"
proof -
  have "slots_inv (accept_frame payload (lp_cast l))"
    if "sf_stream_id fr = tr_stream_id (ca_transport (lp_cast l))"
      and "validate_frame fr w h a (length (tr_slot_files (ca_transport (lp_cast l)))) = Inr payload"
    for payload w h a
  proof (rule accept_frame_inv [OF assms(1)])
    fix slot damage
    assume p: "payload = Fp_Slot slot damage"
    from validate_frame_slot(1,2) [OF that(2) [unfolded p]] assms(2) that(1)
    show "unat slot < length (tr_slot_files (ca_transport (lp_cast l)))
      \<and> got (lp_cast l) slot = released (lp_cast l) slot"
      by (simp add: fresh_slot_def)
  qed
  with assms(1) show ?thesis
    by (auto simp: on_frame_def Let_def split: sum.splits)
qed

lemma on_geometry_inv: "loop_inv l \<Longrightarrow> loop_inv (on_geometry sid w h l)"
  using restart_geometry_inv
  by (auto simp: on_geometry_def split: sum.splits prod.splits)

lemma on_ipc_inv:
  assumes "loop_inv l" and "loop_env_ok Lev_Ipc l"
  shows "loop_inv (on_ipc l)"
proof -
  obtain r cl where m: "next_stream_message (ca_client (lp_cast l)) = (r, cl)" by fastforce
  let ?l = "update_cast (\<lambda>c. c\<lparr>ca_client := cl\<rparr>) l"
  from assms(1) have inv: "loop_inv ?l" by simp
  have "loop_inv (on_frame fr ?l)" if "r = Inr (SM_Frame fr)" for fr
  proof (rule on_frame_inv [OF inv])
    from assms(2) m that have "fresh_slot fr (lp_cast l)" by simp
    then show "fresh_slot fr (lp_cast ?l)" by (simp add: fresh_slot_def got_def released_def)
  qed
  with inv m show ?thesis
    by (auto simp: on_ipc_def Let_def on_geometry_inv split: sum.splits stream_message.splits)
qed

lemma on_simple_inv:
  "loop_inv l \<Longrightarrow> loop_inv (on_global node serial l)"
  "loop_inv l \<Longrightarrow> loop_inv (on_format fx l)"
  "loop_inv l \<Longrightarrow> loop_inv (on_buffers bits l)"
  "loop_inv l \<Longrightarrow> loop_inv (on_stop l)"
  "loop_inv l \<Longrightarrow> loop_inv (on_lease_timer l)"
  "loop_inv l \<Longrightarrow> loop_inv (on_keepalive l)"
  by (auto simp: on_global_def on_format_def on_buffers_def on_stop_def on_lease_timer_def
      on_keepalive_def Let_def apply_fixated_inv split: option.splits)

lemma loop_step_inv: "loop_inv l \<Longrightarrow> loop_env_ok e l \<Longrightarrow> loop_inv (loop_step e l)"
proof (cases "ca_running (lp_cast l)")
  case False
  then show "loop_inv l \<Longrightarrow> ?thesis" by (simp add: loop_step_def)
next
  case True
  assume "loop_inv l" and "loop_env_ok e l"
  with True show ?thesis
    by (cases e)
      (simp_all only: loop_step_def if_True handle.simps on_state_changed_inv on_add_buffer_inv
        on_remove_buffer_inv on_ipc_inv on_simple_inv loop_helpers slots_inv_updates
        process_frame_inv)
qed

interpretation cast_run: environment_machine loop_step loop_env_ok loop_inv
  by unfold_locales (rule loop_step_inv)

text \<open>A freshly started cast has an empty ledger.\<close>

lemma start_stream_inv:
  assumes "start_stream conn source cursor = Inr (c, pos)"
  shows "slots_inv c"
proof -
  from assms obtain info cl t a cl' cl'' where
    "start_output_stream (Some STREAM_MAX_FPS) (target_of_source source) True (Some cursor) cl = (Inr info, cl')"
    and t: "transport_new info (target_of_source source) cursor True = Inr (t, a)"
    and c: "c = cast_init t cl''"
    by (auto simp: start_stream_def split: sum.splits prod.splits)
  from transport_new_wf [OF this(1) t] have wf: "transport_wf t" .
  from t have "\<forall>b \<in> set (tr_bindings t). \<not> sb_in_flight b"
    by (auto simp: transport_new_def Let_def)
  with wf c show ?thesis by (auto simp: slots_inv_def ledger_defs cast_init_def)
qed

section \<open>Teardown\<close>

lemma count_list_distinct: "distinct xs \<Longrightarrow> count_list xs x = of_bool (x \<in> set xs)"
  by (induction xs) auto

lemma teardown_count:
  assumes "transport_wf (ca_transport c)"
  shows "count_list (map (\<lambda>(sid, slot). Slot_Released slot) (teardown_releases (ca_transport c)))
      (Slot_Released s) = of_bool (held c s)"
proof -
  let ?bs = "tr_bindings (ca_transport c)"
  let ?xs = "map (\<lambda>i. Slot_Released (of_nat i)) (filter (\<lambda>i. sb_in_flight (?bs ! i)) [0 ..< length ?bs])"
  have eq: "map (\<lambda>(sid, slot). Slot_Released slot) (teardown_releases (ca_transport c)) = ?xs"
    by (simp add: teardown_releases_def)
  have u: "(of_nat i :: u32) = x \<longleftrightarrow> unat x = i" if "i < length ?bs" for i x
    using of_nat_slot [OF assms that, of x] by auto
  have un: "unat (of_nat i :: u32) = i" if "i < length ?bs" for i
    using u [OF that] by blast
  have "distinct ?xs"
    by (auto simp: distinct_map inj_on_def u) (use of_nat_slot [OF assms] in metis)
  moreover have "Slot_Released s \<in> set ?xs \<longleftrightarrow> held c s"
    by (auto simp: held_def u un image_iff)
  ultimately show ?thesis by (simp only: eq count_list_distinct)
qed


section \<open>A concrete run\<close>

text \<open>A tiled stream of two slots, and one frame in slot 0.\<close>

definition fd_message :: "io_error + recv_result" where
  "fd_message = Inr \<lparr>rv_received = 1, rv_marker = BLOB_MARKER, rv_ctrunc = False,
     rv_fd = Some sample_fd\<rparr>"

definition slot_frame :: wire_msg where
  "slot_frame = Msg_Event (Event_StreamFrame 1 0 64 32 256 (Wire_Dmabuf 0x34325258 5) [] 0 8192 (Some 0))"

definition slot_env :: cast_env where
  "slot_env = \<lparr>ce_meta = sample_spa_meta, ce_cap = (\<lambda>b. unat b div 16), ce_live = (\<lambda>_. None),
     ce_pts = 0\<rparr>"

definition slot_cast :: cast where
  "slot_cast = cast_init sample_transport ((reply_client [])\<lparr>c_msgs := [Inr slot_frame],
     c_sent := [Req_StreamOutputStart (Some 60) (Target_Output None) (Some True) (Some Cursor_Hidden)]\<rparr>)"

definition slot_run :: "loop_event list" where
  "slot_run =
     [Lev_Format (Some \<lparr>fx_spa_format = 8, fx_width = 64, fx_height = 32, fx_modifier = Some 5\<rparr>),
      Lev_Add_Buffer 7 None True None, Lev_Ipc, Lev_Process slot_env, Lev_Return 7,
      Lev_Process slot_env]"

definition slot_client :: client where
  "slot_client = (reply_client [])
     \<lparr>c_msgs := [Inr (Msg_Response (Resp_StreamOutputStarted 1 64 32 (Wire_Dmabuf 0x34325258 5)
         (Some 2) (Some 256) (Some 8192))), Inr slot_frame],
      c_fds := [fd_message, fd_message]\<rparr>"

lemma receive_two_slots:
  "c_fds c = [fd_message, fd_message] \<Longrightarrow>
     receive_slots 2 256 8192 c = (Inr [tiled_slot, tiled_slot], c\<lparr>c_fds := []\<rparr>)"
  unfolding numeral_2_eq_2
  by (simp add: receive_dmabuf_file_def validate_len_def MAX_BLOB_BYTES_def receive_fd_def
      fd_message_def sample_fd_def seek_start_def tiled_slot_def)

lemma slot_start:
  "start_stream (Inr slot_client) (Src_Monitor None) Cursor_Hidden = Inr (slot_cast, (0, 0))"
  by (simp add: start_stream_def slot_client_def reply_client_def start_output_stream_def Let_def
      write_req_def target_of_source_def read_slot_table_def receive_two_slots
      source_position_def frame_len_def checked_mul_usize_def usize_limit_def MAX_FRAME_BYTES_def
      transport_new_def slots_of_def offered_for_def slot_cast_def sample_transport_def
      STREAM_MAX_FPS_def cast_init_def spa_format_for_drm_def fourcc_def)

lemmas loop_eval =
  loop_step_def on_format_def update_cast_def apply_fixated_format_def sync_transport_def
  wants_dmabuf_def needs_switch_def is_dmabuf_def mode_for_def layout_offer_def on_add_buffer_def
  snapshot_metas_def bind_slot_def forwarding_eligible_def on_ipc_def next_stream_message_def
  on_frame_def validate_frame_def trigger_def accept_frame_def replace_latest_def process_frame_def
  reclaim_returned_buffers_def reclaim_one_def publish_slot_def attach_metas_def release_slot_def
  write_req_def release_stream_buffer_def i32_max_def Let_def

text \<open>The casts the run goes through: the frame waits, is queued, and has been released.\<close>

definition waiting_cast :: cast where
  "waiting_cast = slot_cast
     \<lparr>ca_mode := Mode_Dmabuf, ca_latest := Some (Fp_Slot 0 []), ca_pending := True,
      ca_metas := [(7, [])],
      ca_transport := sample_transport\<lparr>tr_bindings :=
        [\<lparr>sb_pool = Some 7, sb_in_flight = False\<rparr>, free_binding]\<rparr>,
      ca_client := (ca_client slot_cast)\<lparr>c_msgs := []\<rparr>, ca_slot_log := [Slot_Got 0]\<rparr>"

definition queued_cast :: cast where
  "queued_cast = waiting_cast
     \<lparr>ca_pending := False, ca_sequence := 1, ca_queued := [Queued_Slot 7 0 0 []],
      ca_transport := sample_transport\<lparr>tr_bindings :=
        [\<lparr>sb_pool = Some 7, sb_in_flight = True\<rparr>, free_binding]\<rparr>\<rparr>"

definition published_cast :: cast where
  "published_cast = queued_cast
     \<lparr>ca_transport := ca_transport waiting_cast,
      ca_client := (ca_client waiting_cast)\<lparr>c_sent := c_sent (ca_client slot_cast)
        @ [Req_StreamBufferRelease 1 0]\<rparr>,
      ca_slot_log := [Slot_Got 0, Slot_Released 0]\<rparr>"

lemma attach_nothing:
  "map_of (ca_metas c) buf = Some [] \<Longrightarrow>
     attach_metas slot_env buf damage w h c = c\<lparr>ca_sequence := ca_sequence c + 1\<rparr>"
  by (simp add: attach_metas_def slot_env_def attach_header_def attach_damage_def find_meta_def Let_def)

lemmas slot_casts = waiting_cast_def slot_cast_def cast_init_def sample_transport_def reply_client_def

lemma slot_run_waits:
  "lp_cast (fold loop_step (take 3 slot_run) (loop_init slot_cast (0, 0))) = waiting_cast"
  by (simp add: slot_run_def loop_init_def slot_casts slot_frame_def loop_eval)

lemma waiting_is_queued: "process_frame slot_env waiting_cast = queued_cast"
  by (simp add: process_frame_def reclaim_returned_buffers_def publish_slot_def Let_def
      forwarding_eligible_def attach_nothing queued_cast_def slot_casts)

lemma returned_is_released:
  "process_frame slot_env (queued_cast\<lparr>ca_returned := [7]\<rparr>) = published_cast"
  by (simp add: process_frame_def reclaim_returned_buffers_def reclaim_one_def release_slot_def
      release_stream_buffer_def write_req_def Let_def published_cast_def queued_cast_def slot_casts)

lemma slot_run_end:
  "lp_cast (fold loop_step slot_run (loop_init slot_cast (0, 0))) = published_cast"
proof -
  let ?l = "fold loop_step (take 3 slot_run) (loop_init slot_cast (0, 0))"
  have c: "lp_cast ?l = waiting_cast" by (rule slot_run_waits)
  have "lp_cast (fold loop_step [Lev_Process slot_env, Lev_Return 7, Lev_Process slot_env] ?l)
      = published_cast"
    using waiting_is_queued returned_is_released
    by (simp add: loop_step_def c) (simp add: queued_cast_def slot_casts)
  then show ?thesis by (simp add: slot_run_def)
qed

lemma slot_run_ok: "env_run loop_env_ok loop_step slot_run (loop_init slot_cast (0, 0))"
  by (simp add: slot_run_def loop_init_def slot_casts slot_frame_def loop_eval fresh_slot_def
      got_def released_def)


text \<open>Why the run must not reach \<open>Streaming\<close> with a published slot frame as the latest: the frame
  counts as waiting again, and its slot, handed over once, is released twice.\<close>

lemma streaming_republishes_a_released_slot:
  assumes "lp_cast l = published_cast"
  shows "got (lp_cast l) 0 = 1
     \<and> released (lp_cast (fold loop_step [Lev_State Pw_Streaming 3 None, Lev_Process slot_env,
          Lev_Return 7, Lev_Process slot_env] l)) 0 = 2"
proof -
  have q: "process_frame slot_env (published_cast\<lparr>ca_pending := True\<rparr>)
      = queued_cast\<lparr>ca_sequence := 2, ca_queued := [Queued_Slot 7 0 0 [], Queued_Slot 7 0 1 []],
          ca_client := ca_client published_cast, ca_slot_log := ca_slot_log published_cast\<rparr>"
    by (simp add: process_frame_def reclaim_returned_buffers_def publish_slot_def Let_def
        forwarding_eligible_def attach_nothing published_cast_def queued_cast_def slot_casts)
  show ?thesis
    using assms q
    by (simp add: loop_step_def on_state_changed_def trigger_def update_cast_def published_cast_def
        queued_cast_def slot_casts process_frame_def reclaim_returned_buffers_def reclaim_one_def
        release_slot_def release_stream_buffer_def write_req_def got_def released_def Let_def)
qed

end
