(* ===== verification/Cast_Delivery.thy ===== *)
theory Cast_Delivery
  imports Cast_Loop
begin

text \<open>
  What reaches the two ends of a cast: the pixels of the copy path, and the answer to Start.
\<close>

section \<open>The copy path\<close>

lemma length_mapped_bytes [simp]: "length (mapped_bytes f len) = len"
  by (simp add: mapped_bytes_def)

lemma nth_mapped_bytes:
  "j < len \<Longrightarrow> mapped_bytes f len ! j = (if j < length (fd_bytes f) then fd_bytes f ! j else 0)"
  by (simp add: mapped_bytes_def nth_append)

lemma take_buffer_fields:
  assumes "take_buffer c = (b, c1)"
  shows "ca_queued c1 = ca_queued c" and "ca_dropped c1 = ca_dropped c"
    and "ca_running c1 = ca_running c" and "ca_sequence c1 = ca_sequence c"
    and "b = None \<Longrightarrow> ca_pool c = [] \<and> ca_returned c = [] \<and> c1 = c"
    and "b = Some buf \<Longrightarrow> buf \<in> set (ca_pool c @ ca_returned c)"
  using assms by (auto simp: take_buffer_def split: list.splits)

lemma attach_metas_fields [simp]:
  "ca_queued (attach_metas env buf damage w h c) = ca_queued c"
  "ca_dropped (attach_metas env buf damage w h c) = ca_dropped c"
  "ca_running (attach_metas env buf damage w h c) = ca_running c"
  "ca_sequence (attach_metas env buf damage w h c) = ca_sequence c + 1"
  by (simp_all add: attach_metas_def Let_def)

text \<open>The byte a consumer must find at place \<open>i\<close> of row \<open>r\<close>.\<close>

definition pixel_byte :: "file_desc \<Rightarrow> nat \<Rightarrow> nat \<Rightarrow> nat \<Rightarrow> u8" where
  "pixel_byte f stride r i =
     (if r * stride + i < length (fd_bytes f) then fd_bytes f ! (r * stride + i) else 0)"

lemma copied_pixels:
  assumes "0 < h" and "rb \<le> stride" and "stride * (h - 1) + rb \<le> len" and "h * rb \<le> cap"
  shows "\<exists>dest. copy_rows (mapped_bytes f len) stride (replicate cap 0) rb h = Some dest
     \<and> length (take (h * rb) dest) = h * rb
     \<and> (\<forall>r < h. \<forall>i < rb. take (h * rb) dest ! (r * rb + i) = pixel_byte f stride r i)"
proof -
  from copy_rows_exact [OF assms(1,2), of "mapped_bytes f len" "replicate cap 0"] assms(3,4)
  obtain dest where d: "copy_rows (mapped_bytes f len) stride (replicate cap 0) rb h = Some dest"
    "length dest = cap"
    and px: "\<And>r i. r < h \<Longrightarrow> i < rb \<Longrightarrow> dest ! (r * rb + i) = mapped_bytes f len ! (r * stride + i)"
    by auto
  have "take (h * rb) dest ! (r * rb + i) = pixel_byte f stride r i" if "r < h" "i < rb" for r i
  proof -
    have "r * stride + rb \<le> len" by (rule row_fits [OF that(1) assms(3)])
    with that px [OF that] row_end [OF that(1), of rb] show ?thesis
      by (simp add: nth_mapped_bytes pixel_byte_def)
  qed
  with d assms(4) show ?thesis by auto
qed

text \<open>C5: the copy path delivers the frame or says so. For a frame of at least one row whose
  stride holds a row, a cycle either queues one buffer that was free, holding exactly the
  pixels of the frame row by row without the padding, with the next sequence number and the
  frame's damage; or counts the frame as dropped and queues nothing; or, when no buffer is
  free, changes nothing at all and asks for a retry. It never reads or writes out of bounds.\<close>

theorem copy_path_delivers_or_reports:
  assumes "copy_into_pool env f stride width height damage c = (fin, c')"
    and "0 < unat height" and "unat width * 4 \<le> unat stride"
  shows "ca_running c' = ca_running c
     \<and> (if fin
        then ca_queued c' = ca_queued c \<and> ca_dropped c' = ca_dropped c + 1
           \<or> (\<exists>buf bytes. ca_queued c' = ca_queued c @ [Queued_Copy buf bytes (ca_sequence c) damage]
                \<and> buf \<in> set (ca_pool c @ ca_returned c)
                \<and> ca_sequence c' = ca_sequence c + 1 \<and> ca_dropped c' = ca_dropped c
                \<and> length bytes = unat height * (unat width * 4)
                \<and> (\<forall>r < unat height. \<forall>i < unat width * 4.
                     bytes ! (r * (unat width * 4) + i) = pixel_byte f (unat stride) r i))
        else c' = c \<and> ca_pool c = [] \<and> ca_returned c = [])"
proof -
  let ?h = "unat height" and ?rb = "unat width * 4" and ?s = "unat stride"
  show ?thesis
  proof (cases "fd_len f")
    case (Inl e)
    with assms(1) show ?thesis by (auto simp: copy_into_pool_def drop_frame_def Let_def)
  next
    case (Inr src_len)
    show ?thesis
    proof (cases "unat src_len < ?s * (?h - 1) + ?rb \<or> MAX_FRAME_BYTES < ?s * (?h - 1) + ?rb
        \<or> \<not> fd_mappable f")
      case True
      with assms(1) Inr show ?thesis
        by (auto simp: copy_into_pool_def drop_frame_def Let_def split: if_splits)
    next
      case ok: False
      obtain b c1 where t: "take_buffer c = (b, c1)" by fastforce
      note tb = take_buffer_fields [OF t]
      show ?thesis
      proof (cases b)
        case None
        with assms(1) Inr ok t tb show ?thesis by (auto simp: copy_into_pool_def Let_def)
      next
        case (Some buf)
        show ?thesis
        proof (cases "\<exists>cap. map_of (ca_pool_mem c1) buf = Some cap \<and> ?h * ?rb \<le> cap")
          case False
          with assms(1) Inr ok t tb Some show ?thesis
            by (auto simp: copy_into_pool_def drop_frame_def Let_def not_le split: option.splits if_splits)
        next
          case True
          then obtain cap where cap: "map_of (ca_pool_mem c1) buf = Some cap" "?h * ?rb \<le> cap" by blast
          from copied_pixels [OF assms(2,3) _ cap(2), of "unat src_len" f] ok obtain dest where
            d: "copy_rows (mapped_bytes f (unat src_len)) ?s (replicate cap 0) ?rb ?h = Some dest"
            and px: "length (take (?h * ?rb) dest) = ?h * ?rb"
              "\<forall>r < ?h. \<forall>i < ?rb. take (?h * ?rb) dest ! (r * ?rb + i) = pixel_byte f ?s r i"
            by auto
          define q where "q = Queued_Copy buf (take (?h * ?rb) dest) (ca_sequence c1) damage"
          from assms(1) Inr ok t Some cap d have fin: "fin"
            and c': "c' = (attach_metas env buf damage width height c1)
              \<lparr>ca_queued := ca_queued (attach_metas env buf damage width height c1) @ [q]\<rparr>"
            by (auto simp: copy_into_pool_def Let_def q_def)
          from tb(6) [OF Some] have "buf \<in> set (ca_pool c @ ca_returned c)" .
          with fin c' tb px show ?thesis
            by (simp add: q_def del: length_take nth_take)
        qed
      qed
    qed
  qed
qed

section \<open>The answer to Start\<close>

text \<open>
  The sender is used at most once; while it is unused, the paused node's serial is not known
  (otherwise the start would have completed).
\<close>

definition start_wf :: "start_state \<Rightarrow> bool" where
  "start_wf st \<longleftrightarrow>
     (if sx_sender st
      then sx_sent st = [] \<and> \<not> sx_completed st
         \<and> (\<forall>n \<in> set_option (map_option fst (sx_paused st)). map_of (sx_serials st) n = None)
      else length (sx_sent st) = 1 \<and> sx_completed st = is_ok (hd (sx_sent st)))"

text \<open>What a completed start reports has been reported by PipeWire before, in some order.\<close>

definition announced_serial :: "loop_event list \<Rightarrow> u32 \<Rightarrow> u64 \<Rightarrow> bool" where
  "announced_serial es node serial \<longleftrightarrow>
     Lev_Global node (Some serial) \<in> set es \<or> Lev_State Pw_Paused node (Some serial) \<in> set es"

definition paused_node :: "loop_event list \<Rightarrow> u32 \<Rightarrow> bool" where
  "paused_node es node \<longleftrightarrow> (\<exists>serial. Lev_State Pw_Paused node serial \<in> set es)"

definition start_grounded :: "loop_event list \<Rightarrow> i32 \<times> i32 \<Rightarrow> start_state \<Rightarrow> bool" where
  "start_grounded es pos st \<longleftrightarrow>
     sx_position st = pos
     \<and> (\<forall>n \<in> set_option (map_option fst (sx_paused st)). paused_node es n)
     \<and> (\<forall>n serial. map_of (sx_serials st) n = Some serial \<longrightarrow> announced_serial es n serial)
     \<and> (\<forall>cs. Inr cs \<in> set (sx_sent st) \<longrightarrow> cst_position cs = pos
          \<and> paused_node es (cst_node_id cs) \<and> announced_serial es (cst_node_id cs) (cst_serial cs))"

lemma try_complete_wf:
  assumes "sx_sender st \<longrightarrow> sx_sent st = [] \<and> \<not> sx_completed st"
    and "\<not> sx_sender st \<longrightarrow> length (sx_sent st) = 1 \<and> sx_completed st = is_ok (hd (sx_sent st))"
  shows "start_wf (try_complete st)"
  using assms
  by (auto simp: try_complete_def start_wf_def split: option.splits prod.splits)

lemma start_wf_parts:
  "start_wf st \<Longrightarrow> sx_sender st \<Longrightarrow> sx_sent st = [] \<and> \<not> sx_completed st"
  "start_wf st \<Longrightarrow> \<not> sx_sender st \<Longrightarrow> length (sx_sent st) = 1 \<and> sx_completed st = is_ok (hd (sx_sent st))"
  by (auto simp: start_wf_def)

lemma record_serial_fields [simp]:
  "sx_sender (record_serial n s st) = sx_sender st"
  "sx_sent (record_serial n s st) = sx_sent st"
  "sx_completed (record_serial n s st) = sx_completed st"
  "sx_paused (record_serial n s st) = sx_paused st"
  "sx_position (record_serial n s st) = sx_position st"
  "map_of (sx_serials (record_serial n s st)) k =
     (if k = n \<and> s \<noteq> None then s else map_of (sx_serials st) k)"
  by (auto simp: record_serial_def split: option.splits)

text \<open>The events that touch the start state, and the others.\<close>

lemma start_untouched:
  "lp_start (on_format fx l) = lp_start l"
  "lp_start (on_buffers bits l) = lp_start l"
  "lp_start (on_add_buffer buf live has_data fault l) = lp_start l"
  "lp_start (on_remove_buffer buf l) = lp_start l"
  "lp_start (on_ipc l) = lp_start l"
  "lp_start (on_stop l) = lp_start l"
  "lp_start (on_lease_timer l) = lp_start l"
  "lp_start (on_keepalive l) = lp_start l"
  "lp_start (update_cast f l) = lp_start l"
  by (auto simp: on_format_def on_buffers_def on_add_buffer_def on_remove_buffer_def on_ipc_def
      on_frame_def on_geometry_def on_stop_def on_lease_timer_def on_keepalive_def update_cast_def
      end_cast_def quit_def trigger_def Let_def
      split: option.splits prod.splits sum.splits stream_message.splits)

lemma start_after_state:
  "lp_start (on_state_changed new n serial l) =
     (if new = Pw_Error then (if sx_sender (lp_start l)
        then (lp_start l)\<lparr>sx_sender := False, sx_sent := sx_sent (lp_start l) @ [Inl ()]\<rparr>
        else lp_start l)
      else if new = Pw_Paused
      then try_complete ((record_serial n serial (lp_start l))
        \<lparr>sx_paused := Some (n, tr_width (ca_transport (lp_cast l)), tr_height (ca_transport (lp_cast l)))\<rparr>)
      else lp_start l)"
  by (auto simp: on_state_changed_def on_error_def on_paused_def Let_def quit_def update_cast_def
      trigger_def)

lemma start_after_global:
  "lp_start (on_global n serial l) =
     (if serial = None then lp_start l else try_complete (record_serial n serial (lp_start l)))"
  by (auto simp: on_global_def split: option.splits)

lemma loop_step_start_wf: "start_wf (lp_start l) \<Longrightarrow> start_wf (lp_start (loop_step e l))"
  by (cases e)
    (auto simp: loop_step_def start_untouched start_after_state start_after_global
      intro!: try_complete_wf dest: start_wf_parts, auto simp: start_wf_def)

interpretation starting: guarded_machine loop_step "\<lambda>l. start_wf (lp_start l)"
  by unfold_locales (rule loop_step_start_wf)

subsection \<open>Reports are grounded\<close>

lemma announced_mono:
  "announced_serial es n serial \<Longrightarrow> announced_serial (es @ [e]) n serial"
  "paused_node es n \<Longrightarrow> paused_node (es @ [e]) n"
  by (auto simp: announced_serial_def paused_node_def)

lemma grounded_mono: "start_grounded es pos st \<Longrightarrow> start_grounded (es @ [e]) pos st"
  by (auto simp: start_grounded_def announced_mono)

lemma try_complete_grounded: "start_grounded es pos st \<Longrightarrow> start_grounded es pos (try_complete st)"
  by (auto simp: try_complete_def start_grounded_def split: option.splits prod.splits)

lemma record_grounded:
  assumes "start_grounded es pos st" and "\<And>n. serial = Some n \<Longrightarrow> announced_serial es node n"
  shows "start_grounded es pos (record_serial node serial st)"
  using assms by (auto simp: start_grounded_def)

lemma loop_step_grounded:
  assumes "start_grounded es pos (lp_start l)"
  shows "start_grounded (es @ [e]) pos (lp_start (loop_step e l))"
proof (cases "ca_running (lp_cast l)")
  case False
  with grounded_mono [OF assms] show ?thesis by (simp add: loop_step_def)
next
  case True
  note g = grounded_mono [OF assms, of e]
  show ?thesis
  proof (cases e)
    case (Lev_Global node serial)
    have "start_grounded (es @ [e]) pos (record_serial node serial (lp_start l))"
      by (rule record_grounded [OF g]) (simp add: announced_serial_def Lev_Global)
    with True g Lev_Global show ?thesis
      by (auto simp: loop_step_def start_after_global try_complete_grounded)
  next
    case (Lev_State new node serial)
    have "start_grounded (es @ [e]) pos
        ((record_serial node serial (lp_start l))\<lparr>sx_paused := Some (node, w, h)\<rparr>)"
      if "new = Pw_Paused" for w h
    proof -
      have "start_grounded (es @ [e]) pos (record_serial node serial (lp_start l))"
        by (rule record_grounded [OF g]) (simp add: announced_serial_def Lev_State that)
      then show ?thesis using Lev_State that
        by (auto simp: start_grounded_def paused_node_def)
    qed
    then have "start_grounded (es @ [e]) pos (try_complete
        ((record_serial node serial (lp_start l))\<lparr>sx_paused := Some (node, w, h)\<rparr>))"
      if "new = Pw_Paused" for w h
      using that by (intro try_complete_grounded) simp
    moreover have "start_grounded (es @ [e]) pos
        ((lp_start l)\<lparr>sx_sender := False, sx_sent := sx_sent (lp_start l) @ [Inl ()]\<rparr>)"
      using g by (auto simp: start_grounded_def)
    ultimately show ?thesis
      using True g Lev_State by (auto simp: loop_step_def start_after_state)
  qed (use True g in \<open>simp_all add: loop_step_def start_untouched\<close>)
qed

lemma run_grounded:
  "start_grounded es pos (lp_start (fold loop_step es (loop_init c pos)))"
proof (induction es rule: rev_induct)
  case Nil
  show ?case by (simp add: start_grounded_def loop_init_def)
next
  case (snoc e es)
  from loop_step_grounded [OF this] show ?case by simp
qed

subsection \<open>Completion\<close>

definition start_alive :: "loop_event list \<Rightarrow> cast_loop \<Rightarrow> bool" where
  "start_alive es l \<longleftrightarrow> (ca_running (lp_cast l) \<longrightarrow>
     (\<forall>r \<in> set (sx_sent (lp_start l)). is_ok r)
     \<and> ((\<exists>n. paused_node es n) \<longrightarrow> sx_paused (lp_start l) \<noteq> None)
     \<and> (\<forall>n serial. announced_serial es n serial \<longrightarrow> map_of (sx_serials (lp_start l)) n \<noteq> None))"

lemma try_complete_fields [simp]:
  "sx_paused (try_complete st) = sx_paused st"
  "sx_serials (try_complete st) = sx_serials st"
  "(\<forall>r \<in> set (sx_sent (try_complete st)). is_ok r) = (\<forall>r \<in> set (sx_sent st). is_ok r)"
  by (auto simp: try_complete_def split: option.splits prod.splits)

lemma loop_step_alive:
  assumes "start_alive es l"
  shows "start_alive (es @ [e]) (loop_step e l)"
proof (cases "ca_running (lp_cast l)")
  case False
  then show ?thesis by (simp add: start_alive_def loop_step_def)
next
  case True
  with assms have a: "\<forall>r \<in> set (sx_sent (lp_start l)). is_ok r"
    "(\<exists>n. paused_node es n) \<longrightarrow> sx_paused (lp_start l) \<noteq> None"
    "\<forall>n serial. announced_serial es n serial \<longrightarrow> map_of (sx_serials (lp_start l)) n \<noteq> None"
    by (auto simp: start_alive_def)
  show ?thesis
  proof (cases e)
    case (Lev_Global node serial)
    with True a show ?thesis
      by (auto simp: start_alive_def loop_step_def start_after_global announced_serial_def paused_node_def)
  next
    case (Lev_State new node serial)
    show ?thesis
    proof (cases "new = Pw_Error")
      case True
      then show ?thesis
        by (simp add: start_alive_def Lev_State loop_step_def on_state_changed_def on_error_def
            quit_def update_cast_def)
    next
      case False
      with \<open>ca_running (lp_cast l)\<close> a Lev_State show ?thesis
        by (auto simp: start_alive_def loop_step_def start_after_state announced_serial_def
            paused_node_def)
    qed
  qed (use True a in \<open>auto simp: start_alive_def loop_step_def start_untouched announced_serial_def
        paused_node_def\<close>)
qed

lemma run_alive: "start_alive es (fold loop_step es (loop_init c pos))"
proof (induction es rule: rev_induct)
  case Nil
  show ?case by (simp add: start_alive_def loop_init_def announced_serial_def paused_node_def)
next
  case (snoc e es)
  from loop_step_alive [OF this] show ?case by simp
qed

lemma init_start_wf: "start_wf (lp_start (loop_init c pos))"
  by (simp add: start_wf_def loop_init_def)

text \<open>C11: Start gets at most one answer, and a truthful one. A success names the position the
  cast was started with and a node that did reach \<open>Paused\<close> with a serial that was announced for
  it. And the answer does come: while the cast is alive, once PipeWire has paused the stream's
  node and announced its serial, in either order, the success has been sent.\<close>

theorem start_is_answered_once:
  assumes "\<And>n. paused_node es n \<Longrightarrow> n = node"
  shows "let l = fold loop_step es (loop_init c pos); sent = sx_sent (lp_start l) in
     length sent \<le> 1
     \<and> (\<forall>cs. Inr cs \<in> set sent \<longrightarrow> cst_position cs = pos \<and> cst_node_id cs = node
          \<and> paused_node es node \<and> announced_serial es node (cst_serial cs))
     \<and> (ca_running (lp_cast l) \<and> paused_node es node \<and> announced_serial es node serial
          \<longrightarrow> (\<exists>cs. sent = [Inr cs]))"
proof -
  let ?l = "fold loop_step es (loop_init c pos)"
  from starting.run_inv [OF init_start_wf] have wf: "start_wf (lp_start ?l)" .
  note gr = run_grounded [of es pos c] and al = run_alive [of es c pos]
  have "length (sx_sent (lp_start ?l)) \<le> 1"
    using wf by (auto simp: start_wf_def split: if_splits)
  moreover have "cst_position cs = pos \<and> cst_node_id cs = node
      \<and> paused_node es node \<and> announced_serial es node (cst_serial cs)"
    if "Inr cs \<in> set (sx_sent (lp_start ?l))" for cs
    using gr that assms by (auto simp: start_grounded_def)
  moreover have "\<exists>cs. sx_sent (lp_start ?l) = [Inr cs]"
    if run: "ca_running (lp_cast ?l)" and p: "paused_node es node" and s: "announced_serial es node serial"
  proof -
    from al run p s have ok: "\<forall>r \<in> set (sx_sent (lp_start ?l)). is_ok r"
      and "sx_paused (lp_start ?l) \<noteq> None" "map_of (sx_serials (lp_start ?l)) node \<noteq> None"
      by (auto simp: start_alive_def)
    moreover from this(2) gr assms have "map_option fst (sx_paused (lp_start ?l)) = Some node"
      by (auto simp: start_grounded_def)
    ultimately have "\<not> sx_sender (lp_start ?l)" using wf by (auto simp: start_wf_def)
    with wf have "length (sx_sent (lp_start ?l)) = 1" by (simp add: start_wf_def)
    with ok show ?thesis by (cases "sx_sent (lp_start ?l)") (auto simp: is_ok_iff)
  qed
  ultimately show ?thesis by (simp add: Let_def)
qed

section \<open>Concrete runs\<close>

definition padded_fd :: file_desc where
  "padded_fd = sample_fd\<lparr>fd_len := Inr 12, fd_bytes := [1, 2, 3, 4, 99, 99, 99, 99, 5, 6, 7, 8]\<rparr>"

theorem copy_path_delivers_or_reports_witness:
  "\<exists>c' bytes. copy_into_pool
       \<lparr>ce_meta = sample_spa_meta, ce_cap = \<lambda>_. 0, ce_live = \<lambda>_. None, ce_pts = 0\<rparr> padded_fd 8 1 2 []
       ((sample_cast 1)\<lparr>ca_pool := [5], ca_pool_mem := [(5, 8)]\<rparr>) = (True, c')
     \<and> ca_queued c' = [Queued_Copy 5 bytes 0 []] \<and> length bytes = 8 \<and> bytes ! 4 = 5"
proof -
  let ?env = "\<lparr>ce_meta = sample_spa_meta, ce_cap = \<lambda>_. 0, ce_live = \<lambda>_. None, ce_pts = 0\<rparr>"
  let ?c = "(sample_cast 1)\<lparr>ca_pool := [5], ca_pool_mem := [(5, 8)]\<rparr>"
  obtain dest where "copy_rows (mapped_bytes padded_fd 12) 8 (replicate 8 0) 4 2 = Some dest"
    using copied_pixels [of 2 4 8 12 8 padded_fd] by auto
  moreover have "fd_len padded_fd = Inr 12" "fd_mappable padded_fd"
    by (simp_all add: padded_fd_def sample_fd_def)
  ultimately obtain c' where r: "copy_into_pool ?env padded_fd 8 1 2 [] ?c = (True, c')"
    and q: "ca_queued c' \<noteq> []"
    by (simp add: copy_into_pool_def MAX_FRAME_BYTES_def take_buffer_def Let_def)
  have "ca_queued ?c = []" "ca_pool ?c = [5]" "ca_returned ?c = []" "ca_sequence ?c = 0"
    by (simp_all add: sample_cast_def cast_init_def)
  with copy_path_delivers_or_reports [OF r] q obtain bytes where
    b: "ca_queued c' = [Queued_Copy 5 bytes 0 []]" "length bytes = 8"
      "\<forall>r < 2. \<forall>i < 4. bytes ! (r * 4 + i) = pixel_byte padded_fd 8 r i"
    by auto
  from b(3) [rule_format, of 1 0] have "bytes ! 4 = pixel_byte padded_fd 8 1 0" by simp
  then have "bytes ! 4 = 5" by (simp add: pixel_byte_def padded_fd_def)
  with r b show ?thesis by blast
qed

theorem start_is_answered_once_witness:
  "\<exists>cs. sx_sent (lp_start (fold loop_step [Lev_State Pw_Paused 42 None, Lev_Global 42 (Some 7)]
        (loop_init (sample_cast 64) (10, 20)))) = [Inr cs]
     \<and> cst_node_id cs = 42 \<and> cst_serial cs = 7 \<and> cst_position cs = (10, 20)"
proof -
  let ?es = "[Lev_State Pw_Paused 42 None, Lev_Global 42 (Some 7)]"
  have "paused_node ?es n \<Longrightarrow> n = 42" for n by (simp add: paused_node_def)
  have run: "ca_running (lp_cast (fold loop_step ?es (loop_init (sample_cast 64) (10, 20))))"
    by (simp add: loop_step_def on_state_changed_def on_paused_def on_global_def loop_init_def
        sample_cast_def cast_init_def Let_def)
  show ?thesis
    using start_is_answered_once [of ?es 42 "sample_cast 64" "(10, 20)" 7] run
    by (auto simp: Let_def announced_serial_def paused_node_def)
qed

end
