(* ===== verification/Settings_Portal.thy ===== *)
theory Settings_Portal
  imports Ipc_Client Prompter_Contract "HOL-Library.Sublist"
begin

text \<open>
  The Settings portal, \<open>crates/xdg-desktop-portal-atrium/src/settings.rs\<close>: the projection of
  the compositor's preferences to setting keys, the signals of a change, the watcher that
  follows the compositor. An \<open>f64\<close> is its bit pattern, or stays symbolic where the code divides
  a colour component by 255.
\<close>

definition APPEARANCE_NAMESPACE :: string where "APPEARANCE_NAMESPACE = ''org.freedesktop.appearance''"
definition GTK_INTERFACE_NAMESPACE :: string where
  "GTK_INTERFACE_NAMESPACE = ''org.gnome.desktop.interface''"
definition COLOR_SCHEME_KEY :: string where "COLOR_SCHEME_KEY = ''color-scheme''"
definition ACCENT_COLOR_KEY :: string where "ACCENT_COLOR_KEY = ''accent-color''"
definition CONTRAST_KEY :: string where "CONTRAST_KEY = ''contrast''"
definition REDUCED_MOTION_KEY :: string where "REDUCED_MOTION_KEY = ''reduced-motion''"

lemmas key_defs = APPEARANCE_NAMESPACE_def GTK_INTERFACE_NAMESPACE_def COLOR_SCHEME_KEY_def
  ACCENT_COLOR_KEY_def CONTRAST_KEY_def REDUCED_MOTION_KEY_def

section \<open>Values\<close>

datatype f64 = F64_Bits u64 | F64_Over_255 u8

datatype setting_value =
    SV_U32 u32
  | SV_I32 i32
  | SV_F64 u64
  | SV_Bool bool
  | SV_Str string
  | SV_Color f64 f64 f64

text \<open>The IEEE comparison of two \<open>f64\<close> values: a NaN differs from itself, the zeros are equal.\<close>

definition f64_nan :: "u64 \<Rightarrow> bool" where
  "f64_nan b \<longleftrightarrow> 0x7FF0000000000000 < (b AND 0x7FFFFFFFFFFFFFFF)"

definition f64_eq :: "u64 \<Rightarrow> u64 \<Rightarrow> bool" where
  "f64_eq a b \<longleftrightarrow> \<not> f64_nan a \<and> \<not> f64_nan b
     \<and> (a = b \<or> a AND 0x7FFFFFFFFFFFFFFF = 0 \<and> b AND 0x7FFFFFFFFFFFFFFF = 0)"

fun portal_color_scheme :: "color_scheme \<Rightarrow> u32" where
  "portal_color_scheme Scheme_System = 0"
| "portal_color_scheme Scheme_Dark = 1"
| "portal_color_scheme Scheme_Light = 2"

fun gtk_color_scheme :: "color_scheme \<Rightarrow> string" where
  "gtk_color_scheme Scheme_System = ''default''"
| "gtk_color_scheme Scheme_Dark = ''prefer-dark''"
| "gtk_color_scheme Scheme_Light = ''prefer-light''"

fun contrast_value :: "contrast \<Rightarrow> u32" where
  "contrast_value Contrast_Normal = 0"
| "contrast_value Contrast_High = 1"

definition normalized :: "accent_color \<Rightarrow> setting_value" where
  "normalized a = SV_Color (F64_Over_255 (ac_red a)) (F64_Over_255 (ac_green a)) (F64_Over_255 (ac_blue a))"

text \<open>The out-of-range components that stand for no accent: three times \<open>-1.0\<close>.\<close>

definition unset_accent :: setting_value where
  "unset_accent = (let m = F64_Bits 0xBFF0000000000000 in SV_Color m m m)"

section \<open>The projection\<close>

type_synonym setting_key = "string \<times> string"

definition setting_entries :: "desktop_preferences \<Rightarrow> (setting_key \<times> setting_value) list" where
  "setting_entries p =
     [((APPEARANCE_NAMESPACE, COLOR_SCHEME_KEY), SV_U32 (portal_color_scheme (dp_color_scheme p))),
      ((APPEARANCE_NAMESPACE, CONTRAST_KEY), SV_U32 (contrast_value (dp_contrast p))),
      ((APPEARANCE_NAMESPACE, REDUCED_MOTION_KEY), SV_U32 (if dp_reduced_motion p then 1 else 0)),
      ((GTK_INTERFACE_NAMESPACE, COLOR_SCHEME_KEY), SV_Str (gtk_color_scheme (dp_color_scheme p))),
      ((GTK_INTERFACE_NAMESPACE, ''font-name''), SV_Str (dp_font_name p)),
      ((GTK_INTERFACE_NAMESPACE, ''monospace-font-name''), SV_Str (dp_monospace_font_name p)),
      ((GTK_INTERFACE_NAMESPACE, ''text-scaling-factor''), SV_F64 (dp_text_scale p)),
      ((GTK_INTERFACE_NAMESPACE, ''icon-theme''), SV_Str (dp_icon_theme p)),
      ((GTK_INTERFACE_NAMESPACE, ''cursor-theme''), SV_Str (dp_cursor_theme p)),
      ((GTK_INTERFACE_NAMESPACE, ''cursor-size''), SV_I32 (ucast (dp_cursor_size p))),
      ((GTK_INTERFACE_NAMESPACE, ''enable-animations''), SV_Bool (\<not> dp_reduced_motion p))]
     @ (case dp_accent_color p of
          None \<Rightarrow> []
        | Some accent \<Rightarrow> [((APPEARANCE_NAMESPACE, ACCENT_COLOR_KEY), normalized accent)])"

definition setting_lookup :: "desktop_preferences \<Rightarrow> setting_key \<Rightarrow> setting_value option" where
  "setting_lookup p k = map_option snd (List.find (\<lambda>e. fst e = k) (setting_entries p))"

definition strip_star :: "string \<Rightarrow> string option" where
  "strip_star pat = (if pat \<noteq> [] \<and> last pat = CHR ''*'' then Some (butlast pat) else None)"

definition namespace_matches :: "string \<Rightarrow> string \<Rightarrow> bool" where
  "namespace_matches pat ns \<longleftrightarrow> pat = [] \<or> pat = ns
     \<or> (case strip_star pat of None \<Rightarrow> False | Some p \<Rightarrow> take (length p) ns = p)"

definition namespace_wanted :: "string list \<Rightarrow> string \<Rightarrow> bool" where
  "namespace_wanted pats ns \<longleftrightarrow> pats = [] \<or> list_ex (\<lambda>pat. namespace_matches pat ns) pats"

text \<open>The nested dictionary: an entry goes into its namespace's own map.\<close>

definition put_setting ::
  "setting_key \<times> setting_value \<Rightarrow> (string \<times> (string \<times> setting_value) list) list
     \<Rightarrow> (string \<times> (string \<times> setting_value) list) list" where
  "put_setting e out =
     (case e of ((ns, key), v) \<Rightarrow>
        AList.update ns (AList.update key v (case map_of out ns of None \<Rightarrow> [] | Some m \<Rightarrow> m)) out)"

definition read_all_values ::
  "desktop_preferences \<Rightarrow> string list \<Rightarrow> (string \<times> (string \<times> setting_value) list) list" where
  "read_all_values p pats =
     fold put_setting (filter (\<lambda>e. namespace_wanted pats (fst (fst e))) (setting_entries p)) []"

section \<open>Changes\<close>

definition changed_settings ::
  "desktop_preferences \<Rightarrow> desktop_preferences \<Rightarrow> (setting_key \<times> setting_value) list" where
  "changed_settings p q =
     (if dp_color_scheme p \<noteq> dp_color_scheme q
      then [((APPEARANCE_NAMESPACE, COLOR_SCHEME_KEY), SV_U32 (portal_color_scheme (dp_color_scheme q))),
            ((GTK_INTERFACE_NAMESPACE, COLOR_SCHEME_KEY), SV_Str (gtk_color_scheme (dp_color_scheme q)))]
      else [])
     @ (if dp_accent_color p \<noteq> dp_accent_color q
        then [((APPEARANCE_NAMESPACE, ACCENT_COLOR_KEY),
               (case dp_accent_color q of None \<Rightarrow> unset_accent | Some a \<Rightarrow> normalized a))]
        else [])
     @ (if dp_contrast p \<noteq> dp_contrast q
        then [((APPEARANCE_NAMESPACE, CONTRAST_KEY), SV_U32 (contrast_value (dp_contrast q)))]
        else [])
     @ (if dp_reduced_motion p \<noteq> dp_reduced_motion q
        then [((APPEARANCE_NAMESPACE, REDUCED_MOTION_KEY), SV_U32 (if dp_reduced_motion q then 1 else 0)),
              ((GTK_INTERFACE_NAMESPACE, ''enable-animations''), SV_Bool (\<not> dp_reduced_motion q))]
        else [])
     @ (if dp_font_name p \<noteq> dp_font_name q
        then [((GTK_INTERFACE_NAMESPACE, ''font-name''), SV_Str (dp_font_name q))] else [])
     @ (if dp_monospace_font_name p \<noteq> dp_monospace_font_name q
        then [((GTK_INTERFACE_NAMESPACE, ''monospace-font-name''), SV_Str (dp_monospace_font_name q))]
        else [])
     @ (if \<not> f64_eq (dp_text_scale p) (dp_text_scale q)
        then [((GTK_INTERFACE_NAMESPACE, ''text-scaling-factor''), SV_F64 (dp_text_scale q))] else [])
     @ (if dp_icon_theme p \<noteq> dp_icon_theme q
        then [((GTK_INTERFACE_NAMESPACE, ''icon-theme''), SV_Str (dp_icon_theme q))] else [])
     @ (if dp_cursor_theme p \<noteq> dp_cursor_theme q
        then [((GTK_INTERFACE_NAMESPACE, ''cursor-theme''), SV_Str (dp_cursor_theme q))] else [])
     @ (if dp_cursor_size p \<noteq> dp_cursor_size q
        then [((GTK_INTERFACE_NAMESPACE, ''cursor-size''), SV_I32 (ucast (dp_cursor_size q)))] else [])"

section \<open>The prompter's view\<close>

fun prompt_scheme :: "color_scheme \<Rightarrow> prompt_color_scheme" where
  "prompt_scheme Scheme_System = Prompt_System"
| "prompt_scheme Scheme_Dark = Prompt_Dark"
| "prompt_scheme Scheme_Light = Prompt_Light"

definition prompt_appearance_of :: "desktop_preferences \<Rightarrow> prompt_appearance" where
  "prompt_appearance_of p =
     \<lparr>pa_color_scheme = prompt_scheme (dp_color_scheme p), pa_accent_color = dp_accent_color p,
      pa_high_contrast = (dp_contrast p = Contrast_High), pa_reduced_motion = dp_reduced_motion p\<rparr>"

section \<open>The store and its watcher\<close>

text \<open>
  What one update does to the world: the signals it emits and whether it re-skins the
  notification daemon. A failed emission is only logged.
\<close>

record settings_world =
  sw_preferences :: desktop_preferences
  sw_signals :: "(setting_key \<times> setting_value) list"
  sw_pushes :: "prompt_appearance list"

definition update_and_emit :: "desktop_preferences \<Rightarrow> settings_world \<Rightarrow> settings_world" where
  "update_and_emit q w =
     (let p = sw_preferences w in
      w\<lparr>sw_preferences := q,
        sw_pushes := sw_pushes w @
          (if dp_color_scheme p \<noteq> dp_color_scheme q \<or> dp_accent_color p \<noteq> dp_accent_color q
              \<or> dp_contrast p \<noteq> dp_contrast q \<or> dp_reduced_motion p \<noteq> dp_reduced_motion q
           then [prompt_appearance_of q] else []),
        sw_signals := sw_signals w @ changed_settings p q\<rparr>)"

definition query_caps :: connection_capabilities where
  "query_caps = \<lparr>cap_query = True, cap_control = False, cap_input = False, cap_session = False,
     cap_interaction_domain = False\<rparr>"

text \<open>The snapshot taken before the bus name is acquired.\<close>

definition prime_store :: "(u32 \<Rightarrow> dial) \<Rightarrow> desktop_preferences \<Rightarrow> desktop_preferences" where
  "prime_store net p =
     (case connect_inner net query_caps None of
        Inl _ \<Rightarrow> p
      | Inr c \<Rightarrow> (case settings c of (Inl _, _) \<Rightarrow> p | (Inr snapshot, _) \<Rightarrow> snapshot))"

text \<open>The event loop of one subscription; it only ends with an error.\<close>

lemma next_event_consumes:
  "next_event c = (Inr e, c') \<Longrightarrow> length (c_msgs c') < length (c_msgs c)"
  by (auto simp: next_event_def read_value_def split: prod.splits sum.splits list.splits)

function watch_events :: "client \<Rightarrow> client \<Rightarrow> settings_world \<Rightarrow> io_error \<times> settings_world" where
  "watch_events events query w =
     (case next_event events of
        (Inl e, _) \<Rightarrow> (e, w)
      | (Inr (Event_SettingsChanged _), events') \<Rightarrow>
          (case settings query of
             (Inl e, _) \<Rightarrow> (e, w)
           | (Inr p, query') \<Rightarrow> watch_events events' query' (update_and_emit p w))
      | (Inr _, events') \<Rightarrow> watch_events events' query w)"
  by pat_completeness auto
termination
  by (relation "measure (\<lambda>(events, query, w). length (c_msgs events))")
    (auto dest!: next_event_consumes [OF sym])

declare watch_events.simps [simp del]

definition watch_connection ::
  "(u32 \<Rightarrow> dial) \<Rightarrow> (u32 \<Rightarrow> dial) \<Rightarrow> io_error option \<Rightarrow> settings_world \<Rightarrow> io_error \<times> settings_world" where
  "watch_connection net1 net2 timeout_fault w =
     (case connect_inner net1 query_caps None of
        Inl e \<Rightarrow> (e, w)
      | Inr events \<Rightarrow>
          (case subscribe events of
             (Inl e, _) \<Rightarrow> (e, w)
           | (Inr _, events1) \<Rightarrow>
               (case timeout_fault of
                  Some e \<Rightarrow> (e, w)
                | None \<Rightarrow>
                    (case connect_inner net2 query_caps None of
                       Inl e \<Rightarrow> (e, w)
                     | Inr query \<Rightarrow>
                         (case settings query of
                            (Inl e, _) \<Rightarrow> (e, w)
                          | (Inr p, query1) \<Rightarrow>
                              watch_events events1 query1 (update_and_emit p w))))))"

text \<open>The watcher thread: one subscription attempt after another, the store kept between them.\<close>

definition watch_loop ::
  "((u32 \<Rightarrow> dial) \<times> (u32 \<Rightarrow> dial) \<times> io_error option) list \<Rightarrow> settings_world \<Rightarrow> settings_world" where
  "watch_loop attempts w =
     fold (\<lambda>(net1, net2, fault) w. snd (watch_connection net1 net2 fault w)) attempts w"

section \<open>The served interface\<close>

datatype settings_error = Setting_NotFound string

definition settings_read ::
  "desktop_preferences \<Rightarrow> string \<Rightarrow> string \<Rightarrow> settings_error + setting_value" where
  "settings_read p ns key =
     (case setting_lookup p (ns, key) of
        None \<Rightarrow> Inl (Setting_NotFound (ns @ '' '' @ key))
      | Some v \<Rightarrow> Inr v)"

section \<open>Lemmas\<close>

lemma setting_lookup_map_of: "setting_lookup p = map_of (setting_entries p)"
proof
  have find: "map_option snd (List.find (\<lambda>e. fst e = k) es) = map_of es k"
    for k and es :: "(setting_key \<times> setting_value) list"
    by (induction es) auto
  show "setting_lookup p k = map_of (setting_entries p) k" for k
    by (simp add: setting_lookup_def find)
qed

text \<open>Every key the portal serves.\<close>

definition setting_keys :: "setting_key list" where
  "setting_keys =
     [(APPEARANCE_NAMESPACE, COLOR_SCHEME_KEY), (APPEARANCE_NAMESPACE, CONTRAST_KEY),
      (APPEARANCE_NAMESPACE, REDUCED_MOTION_KEY), (GTK_INTERFACE_NAMESPACE, COLOR_SCHEME_KEY),
      (GTK_INTERFACE_NAMESPACE, ''font-name''), (GTK_INTERFACE_NAMESPACE, ''monospace-font-name''),
      (GTK_INTERFACE_NAMESPACE, ''text-scaling-factor''), (GTK_INTERFACE_NAMESPACE, ''icon-theme''),
      (GTK_INTERFACE_NAMESPACE, ''cursor-theme''), (GTK_INTERFACE_NAMESPACE, ''cursor-size''),
      (GTK_INTERFACE_NAMESPACE, ''enable-animations''), (APPEARANCE_NAMESPACE, ACCENT_COLOR_KEY)]"

lemma lookup_known:
  "setting_lookup p (APPEARANCE_NAMESPACE, COLOR_SCHEME_KEY) = Some (SV_U32 (portal_color_scheme (dp_color_scheme p)))"
  "setting_lookup p (APPEARANCE_NAMESPACE, CONTRAST_KEY) = Some (SV_U32 (contrast_value (dp_contrast p)))"
  "setting_lookup p (APPEARANCE_NAMESPACE, REDUCED_MOTION_KEY) = Some (SV_U32 (if dp_reduced_motion p then 1 else 0))"
  "setting_lookup p (GTK_INTERFACE_NAMESPACE, COLOR_SCHEME_KEY) = Some (SV_Str (gtk_color_scheme (dp_color_scheme p)))"
  "setting_lookup p (GTK_INTERFACE_NAMESPACE, ''font-name'') = Some (SV_Str (dp_font_name p))"
  "setting_lookup p (GTK_INTERFACE_NAMESPACE, ''monospace-font-name'') = Some (SV_Str (dp_monospace_font_name p))"
  "setting_lookup p (GTK_INTERFACE_NAMESPACE, ''text-scaling-factor'') = Some (SV_F64 (dp_text_scale p))"
  "setting_lookup p (GTK_INTERFACE_NAMESPACE, ''icon-theme'') = Some (SV_Str (dp_icon_theme p))"
  "setting_lookup p (GTK_INTERFACE_NAMESPACE, ''cursor-theme'') = Some (SV_Str (dp_cursor_theme p))"
  "setting_lookup p (GTK_INTERFACE_NAMESPACE, ''cursor-size'') = Some (SV_I32 (ucast (dp_cursor_size p)))"
  "setting_lookup p (GTK_INTERFACE_NAMESPACE, ''enable-animations'') = Some (SV_Bool (\<not> dp_reduced_motion p))"
  "setting_lookup p (APPEARANCE_NAMESPACE, ACCENT_COLOR_KEY) = map_option normalized (dp_accent_color p)"
  by (simp_all add: setting_lookup_map_of setting_entries_def key_defs split: option.splits)

text \<open>A group of signals that is there or not, read at one key.\<close>

lemma optional_group:
  "map_of g k = None \<Longrightarrow> map_of ((if c then g else []) @ rest) k = map_of rest k"
  "map_of g k = Some v \<Longrightarrow> map_of rest k = None
     \<Longrightarrow> map_of ((if c then g else []) @ rest) k = (if c then Some v else None)"
  "map_of g k = None \<Longrightarrow> map_of (if c then g else []) k = None"
  "map_of g k = Some v \<Longrightarrow> map_of (if c then g else []) k = (if c then Some v else None)"
  by (auto simp: map_add_def)

lemma changed_scheme_and_contrast:
  "map_of (changed_settings p q) (APPEARANCE_NAMESPACE, COLOR_SCHEME_KEY)
     = (if dp_color_scheme p \<noteq> dp_color_scheme q then setting_lookup q (APPEARANCE_NAMESPACE, COLOR_SCHEME_KEY) else None)"
  "map_of (changed_settings p q) (APPEARANCE_NAMESPACE, CONTRAST_KEY)
     = (if dp_contrast p \<noteq> dp_contrast q then setting_lookup q (APPEARANCE_NAMESPACE, CONTRAST_KEY) else None)"
  unfolding lookup_known unfolding changed_settings_def key_defs
  by (simp_all add: optional_group cong: if_cong split del: if_split del: map_of_append)

lemma changed_motion_and_gtk_scheme:
  "map_of (changed_settings p q) (APPEARANCE_NAMESPACE, REDUCED_MOTION_KEY)
     = (if dp_reduced_motion p \<noteq> dp_reduced_motion q then setting_lookup q (APPEARANCE_NAMESPACE, REDUCED_MOTION_KEY) else None)"
  "map_of (changed_settings p q) (GTK_INTERFACE_NAMESPACE, COLOR_SCHEME_KEY)
     = (if dp_color_scheme p \<noteq> dp_color_scheme q then setting_lookup q (GTK_INTERFACE_NAMESPACE, COLOR_SCHEME_KEY) else None)"
  unfolding lookup_known unfolding changed_settings_def key_defs
  by (simp_all add: optional_group cong: if_cong split del: if_split del: map_of_append)

lemma changed_fonts:
  "map_of (changed_settings p q) (GTK_INTERFACE_NAMESPACE, ''font-name'')
     = (if dp_font_name p \<noteq> dp_font_name q then setting_lookup q (GTK_INTERFACE_NAMESPACE, ''font-name'') else None)"
  "map_of (changed_settings p q) (GTK_INTERFACE_NAMESPACE, ''monospace-font-name'')
     = (if dp_monospace_font_name p \<noteq> dp_monospace_font_name q then setting_lookup q (GTK_INTERFACE_NAMESPACE, ''monospace-font-name'') else None)"
  unfolding lookup_known unfolding changed_settings_def key_defs
  by (simp_all add: optional_group cong: if_cong split del: if_split del: map_of_append)

lemma changed_scale_and_icons:
  "map_of (changed_settings p q) (GTK_INTERFACE_NAMESPACE, ''text-scaling-factor'')
     = (if \<not> f64_eq (dp_text_scale p) (dp_text_scale q) then setting_lookup q (GTK_INTERFACE_NAMESPACE, ''text-scaling-factor'') else None)"
  "map_of (changed_settings p q) (GTK_INTERFACE_NAMESPACE, ''icon-theme'')
     = (if dp_icon_theme p \<noteq> dp_icon_theme q then setting_lookup q (GTK_INTERFACE_NAMESPACE, ''icon-theme'') else None)"
  unfolding lookup_known unfolding changed_settings_def key_defs
  by (simp_all add: optional_group cong: if_cong split del: if_split del: map_of_append)

lemma changed_cursor:
  "map_of (changed_settings p q) (GTK_INTERFACE_NAMESPACE, ''cursor-theme'')
     = (if dp_cursor_theme p \<noteq> dp_cursor_theme q then setting_lookup q (GTK_INTERFACE_NAMESPACE, ''cursor-theme'') else None)"
  "map_of (changed_settings p q) (GTK_INTERFACE_NAMESPACE, ''cursor-size'')
     = (if dp_cursor_size p \<noteq> dp_cursor_size q then setting_lookup q (GTK_INTERFACE_NAMESPACE, ''cursor-size'') else None)"
  unfolding lookup_known unfolding changed_settings_def key_defs
  by (simp_all add: optional_group cong: if_cong split del: if_split del: map_of_append)

lemma changed_animations_and_accent:
  "map_of (changed_settings p q) (GTK_INTERFACE_NAMESPACE, ''enable-animations'')
     = (if dp_reduced_motion p \<noteq> dp_reduced_motion q then setting_lookup q (GTK_INTERFACE_NAMESPACE, ''enable-animations'') else None)"
  "map_of (changed_settings p q) (APPEARANCE_NAMESPACE, ACCENT_COLOR_KEY)
     = (if dp_accent_color p \<noteq> dp_accent_color q
        then Some (case dp_accent_color q of None \<Rightarrow> unset_accent | Some a \<Rightarrow> normalized a) else None)"
  unfolding lookup_known unfolding changed_settings_def key_defs
  by (simp_all add: optional_group cong: if_cong split del: if_split del: map_of_append)

lemmas changed_known = changed_scheme_and_contrast changed_motion_and_gtk_scheme changed_fonts
  changed_scale_and_icons changed_cursor changed_animations_and_accent

lemma unknown_keys:
  assumes "k \<notin> set setting_keys"
  shows "setting_lookup p k = None" and "map_of (changed_settings p q) k = None"
proof -
  note ne = assms [unfolded setting_keys_def list.set insert_iff de_Morgan_disj]
  show "setting_lookup p k = None"
    using ne by (simp add: setting_lookup_map_of setting_entries_def split: option.split)
  show "map_of (changed_settings p q) k = None"
    unfolding changed_settings_def using ne
    by (simp add: optional_group split del: if_split del: map_of_append)
qed

lemma subseq_optional: "subseq (map fst (if c then g else [])) (map fst g)"
  by simp

lemma distinct_subseq: "subseq xs ys \<Longrightarrow> distinct ys \<Longrightarrow> distinct xs \<and> set xs \<subseteq> set ys"
  by (induction rule: list_emb.induct) auto

lemma changed_distinct: "distinct (map fst (changed_settings p q))"
proof -
  have "subseq (map fst (changed_settings p q))
     ([(APPEARANCE_NAMESPACE, COLOR_SCHEME_KEY), (GTK_INTERFACE_NAMESPACE, COLOR_SCHEME_KEY)]
      @ [(APPEARANCE_NAMESPACE, ACCENT_COLOR_KEY)] @ [(APPEARANCE_NAMESPACE, CONTRAST_KEY)]
      @ [(APPEARANCE_NAMESPACE, REDUCED_MOTION_KEY), (GTK_INTERFACE_NAMESPACE, ''enable-animations'')]
      @ [(GTK_INTERFACE_NAMESPACE, ''font-name'')] @ [(GTK_INTERFACE_NAMESPACE, ''monospace-font-name'')]
      @ [(GTK_INTERFACE_NAMESPACE, ''text-scaling-factor'')] @ [(GTK_INTERFACE_NAMESPACE, ''icon-theme'')]
      @ [(GTK_INTERFACE_NAMESPACE, ''cursor-theme'')] @ [(GTK_INTERFACE_NAMESPACE, ''cursor-size'')])"
    (is "subseq _ ?keys")
    unfolding changed_settings_def map_append
    by (intro list_emb_append_mono) simp_all
  moreover have "distinct ?keys" by (simp add: key_defs)
  ultimately show ?thesis by (blast dest: distinct_subseq)
qed

section \<open>A client's view\<close>

text \<open>
  A client keeps the values it has read, and every signal replaces one of them. Its view is in
  sync with the preferences when every key has the value \<open>Read\<close> would return. The unset accent
  stands for a missing key, and the text scale is compared as the code compares it.
\<close>

definition apply_signals ::
  "(setting_key \<times> setting_value) list \<Rightarrow> (setting_key \<Rightarrow> setting_value option)
     \<Rightarrow> setting_key \<Rightarrow> setting_value option" where
  "apply_signals sigs view = fold (\<lambda>(k, v) m. m(k \<mapsto> v)) sigs view"

fun same_value :: "setting_value option \<Rightarrow> setting_value option \<Rightarrow> bool" where
  "same_value (Some (SV_F64 a)) (Some (SV_F64 b)) \<longleftrightarrow> a = b \<or> f64_eq a b"
| "same_value (Some v) None \<longleftrightarrow> v = unset_accent"
| "same_value x y \<longleftrightarrow> x = y"

definition view_in_sync :: "(setting_key \<Rightarrow> setting_value option) \<Rightarrow> desktop_preferences \<Rightarrow> bool" where
  "view_in_sync view p \<longleftrightarrow> (\<forall>k. same_value (view k) (setting_lookup p k))"

lemma same_value_refl [simp]: "same_value x x"
  by (cases x; cases "the x") auto

lemma apply_signals_map_of:
  assumes "keys_distinct sigs"
  shows "apply_signals sigs view k = (case map_of sigs k of None \<Rightarrow> view k | Some v \<Rightarrow> Some v)"
  using assms
proof (induction sigs arbitrary: view)
  case Nil
  show ?case by (simp add: apply_signals_def)
next
  case (Cons e sigs)
  obtain k' v where e: "e = (k', v)" by (cases e)
  have "apply_signals (e # sigs) view = apply_signals sigs (view(k' \<mapsto> v))"
    by (simp add: apply_signals_def e)
  moreover have "map_of sigs k' = None"
    using Cons.prems by (simp add: e map_of_eq_None_iff)
  ultimately show ?case using Cons by (simp add: e split: option.split)
qed

lemma apply_signals_append: "apply_signals (a @ b) view = apply_signals b (apply_signals a view)"
  by (simp add: apply_signals_def)

lemma map_of_rev_distinct: "keys_distinct m \<Longrightarrow> map_of (rev m) k = map_of m k"
  by (induction m) (auto simp: map_add_def split: option.split simp flip: map_of_eq_None_iff)

lemma f64_eq_trans: "f64_eq a b \<Longrightarrow> f64_eq b c \<Longrightarrow> f64_eq a c"
  by (auto simp: f64_eq_def)

text \<open>One update: the signals bring a view in sync with the new preferences.\<close>

lemma plain_key_sync:
  assumes "map_of ch k = (if c then lq else None)" "lq = Some x" "same_value (view k) lp" "\<not> c \<Longrightarrow> lp = lq"
  shows "same_value (case map_of ch k of None \<Rightarrow> view k | Some v \<Rightarrow> Some v) lq"
  using assms by auto

lemma changed_signals_sync:
  assumes sync: "view_in_sync view p"
  shows "view_in_sync (apply_signals (changed_settings p q) view) q"
proof -
  let ?ch = "changed_settings p q"
  let ?ok = "\<lambda>k. same_value (case map_of ?ch k of None \<Rightarrow> view k | Some v \<Rightarrow> Some v) (setting_lookup q k)"
  have old: "same_value (view k) (setting_lookup p k)" for k
    using sync unfolding view_in_sync_def by (rule spec)
  have accent: "?ok (APPEARANCE_NAMESPACE, ACCENT_COLOR_KEY)"
    using old [of "(APPEARANCE_NAMESPACE, ACCENT_COLOR_KEY)"]
    by (cases "dp_accent_color p = dp_accent_color q")
      (auto simp: changed_known lookup_known split: option.split)
  have scale: "?ok (GTK_INTERFACE_NAMESPACE, ''text-scaling-factor'')"
    using old [of "(GTK_INTERFACE_NAMESPACE, ''text-scaling-factor'')"]
    by (cases "f64_eq (dp_text_scale p) (dp_text_scale q)")
      (auto simp: changed_known lookup_known elim!: same_value.elims intro: f64_eq_trans)
  have "?ok k" if "k \<in> set setting_keys" for k
    using that unfolding setting_keys_def list.set
    by (elim insertE emptyE; hypsubst)
      ((rule accent scale | rule plain_key_sync, rule changed_known, rule lookup_known,
        rule old, simp add: lookup_known)+)
  then have "?ok k" for k
    using old [of k] by (cases "k \<in> set setting_keys") (simp_all add: unknown_keys)
  then show ?thesis
    by (simp add: view_in_sync_def apply_signals_map_of [OF changed_distinct])
qed

definition followed :: "prompt_appearance \<Rightarrow> (setting_key \<Rightarrow> setting_value option) \<Rightarrow> settings_world \<Rightarrow> bool" where
  "followed a view w \<longleftrightarrow> view_in_sync (apply_signals (sw_signals w) view) (sw_preferences w)
     \<and> prompt_appearance_of (sw_preferences w) = last (a # sw_pushes w)"

lemma update_and_emit_followed [inv_intros]:
  "followed a view w \<Longrightarrow> followed a view (update_and_emit q w)"
  by (auto simp: followed_def update_and_emit_def Let_def apply_signals_append changed_signals_sync
      prompt_appearance_of_def)

lemma watch_events_followed [inv_intros]:
  "followed a view w \<Longrightarrow> followed a view (snd (watch_events events query w))"
proof (induction events query w rule: watch_events.induct)
  case (1 events query w)
  then show ?case
    by (subst watch_events.simps) (auto simp: update_and_emit_followed split: prod.split sum.split event.split)
qed

lemma watch_connection_followed [inv_intros]:
  "followed a view w \<Longrightarrow> followed a view (snd (watch_connection net1 net2 fault w))"
  by (auto simp: watch_connection_def split: prod.split sum.split option.split intro: inv_intros)

lemma followed_start: "followed (prompt_appearance_of p) (setting_lookup p)
    \<lparr>sw_preferences = p, sw_signals = [], sw_pushes = []\<rparr>"
  by (simp add: followed_def view_in_sync_def apply_signals_def)


text \<open>
  ReadAll and Read agree. A key is in the nested dictionary of ReadAll exactly when its
  namespace is asked for, and then with the value Read returns; Read fails exactly on the keys
  without a value.
\<close>

theorem read_all_agrees_with_read:
  "(case map_of (read_all_values p pats) ns of None \<Rightarrow> None | Some m \<Rightarrow> map_of m key)
     = (if namespace_wanted pats ns
        then (case settings_read p ns key of Inl _ \<Rightarrow> None | Inr v \<Rightarrow> Some v) else None)"
proof -
  let ?at = "\<lambda>out. case map_of out ns of None \<Rightarrow> None | Some m \<Rightarrow> map_of m key"
  have nested: "?at (fold put_setting es out)
      = (case map_of (rev es) (ns, key) of None \<Rightarrow> ?at out | Some v \<Rightarrow> Some v)" for es out
    by (induction es arbitrary: out)
      (auto simp: put_setting_def map_add_def split: option.splits prod.splits)
  have filt: "map_of (filter (\<lambda>e. namespace_wanted pats (fst (fst e))) es) (ns, key)
      = (if namespace_wanted pats ns then map_of es (ns, key) else None)"
    for es :: "(setting_key \<times> setting_value) list"
    by (induction es) auto
  have "keys_distinct (setting_entries p)"
    by (simp add: setting_entries_def key_defs split: option.split)
  then have "keys_distinct (filter (\<lambda>e. namespace_wanted pats (fst (fst e))) (setting_entries p))"
    by (rule distinct_map_filter)
  then show ?thesis
    by (auto simp: read_all_values_def nested map_of_rev_distinct filt settings_read_def
        setting_lookup_map_of split: option.split)
qed

end
