(* ===== verification/Portal_Values.thy ===== *)
theory Portal_Values
  imports Prompter_Contract
begin

text \<open>
  What the portal interfaces share: the variants of a vardict with the conversions the code
  applies to them (\<open>String::try_from\<close>, \<open>Vec::<String>::try_from\<close> and their kin, zvariant's documented
  conversions), and the text predicates of \<open>str\<close> on UTF-8 bytes.
\<close>

section \<open>Variants\<close>

datatype dbus_value =
    DV_Str string
  | DV_Bool bool
  | DV_Byte u8
  | DV_U32 u32
  | DV_I32 i32
  | DV_U64 u64
  | DV_F64 nat nat
  | DV_Array "dbus_value list"
  | DV_Dict "(string \<times> dbus_value) list"
  | DV_Struct "dbus_value list"
  | DV_Variant dbus_value
  | DV_Other

text \<open>\<open>DV_F64 n d\<close> is the double nearest to \<open>n / d\<close>.\<close>

type_synonym vardict = "(string \<times> dbus_value) list"

fun as_str :: "dbus_value \<Rightarrow> string option" where
  "as_str (DV_Str s) = Some s"
| "as_str _ = None"

fun as_bool :: "dbus_value \<Rightarrow> bool option" where
  "as_bool (DV_Bool b) = Some b"
| "as_bool _ = None"

fun as_u32 :: "dbus_value \<Rightarrow> u32 option" where
  "as_u32 (DV_U32 n) = Some n"
| "as_u32 _ = None"

fun as_byte :: "dbus_value \<Rightarrow> u8 option" where
  "as_byte (DV_Byte b) = Some b"
| "as_byte _ = None"

fun as_dict :: "dbus_value \<Rightarrow> vardict option" where
  "as_dict (DV_Dict d) = Some d"
| "as_dict _ = None"

text \<open>An element of an array may itself be a variant.\<close>

fun unwrap_variant :: "dbus_value \<Rightarrow> dbus_value" where
  "unwrap_variant (DV_Variant v) = v"
| "unwrap_variant v = v"

text \<open>All elements convert, or the conversion fails.\<close>

fun all_some :: "('a \<Rightarrow> 'b option) \<Rightarrow> 'a list \<Rightarrow> 'b list option" where
  "all_some f [] = Some []"
| "all_some f (x # xs) =
     (case f x of None \<Rightarrow> None | Some y \<Rightarrow> map_option ((#) y) (all_some f xs))"

fun as_array :: "(dbus_value \<Rightarrow> 'a option) \<Rightarrow> dbus_value \<Rightarrow> 'a list option" where
  "as_array f (DV_Array vs) = all_some (\<lambda>v. f (unwrap_variant v)) vs"
| "as_array f _ = None"

abbreviation as_strings :: "dbus_value \<Rightarrow> string list option" where
  "as_strings \<equiv> as_array as_str"

abbreviation as_dicts :: "dbus_value \<Rightarrow> vardict list option" where
  "as_dicts \<equiv> as_array as_dict"

text \<open>\<open>options.get(key).and_then(|value| T::try_from(value).ok())\<close>: an absent or mistyped option.\<close>

definition opt_get :: "(dbus_value \<Rightarrow> 'a option) \<Rightarrow> vardict \<Rightarrow> string \<Rightarrow> 'a option" where
  "opt_get f m key = Option.bind (map_of m key) f"

lemma length_all_some: "all_some f xs = Some ys \<Longrightarrow> length ys = length xs"
  by (induction xs arbitrary: ys) (auto split: option.splits)

lemma all_some_set: "all_some f xs = Some ys \<Longrightarrow> y \<in> set ys \<Longrightarrow> \<exists>x \<in> set xs. f x = Some y"
  by (induction xs arbitrary: ys) (auto split: option.splits)

section \<open>Text\<close>

text \<open>\<open>chars().count()\<close>: the bytes that are not UTF-8 continuation bytes.\<close>

definition char_count :: "string \<Rightarrow> nat" where
  "char_count s = length (filter (\<lambda>c. \<not> (0x80 \<le> byte_of c \<and> byte_of c \<le> 0xBF)) s)"

text \<open>\<open>chars().any(char::is_control)\<close>: C0, DEL and C1 (encoded as \<open>C2 80\<close> to \<open>C2 9F\<close>).\<close>

fun has_control :: "string \<Rightarrow> bool" where
  "has_control [] = False"
| "has_control (c # cs) =
     (byte_of c < 32 \<or> byte_of c = 127
      \<or> byte_of c = 0xC2 \<and> (case cs of [] \<Rightarrow> False | d # _ \<Rightarrow> 0x80 \<le> byte_of d \<and> byte_of d \<le> 0x9F)
      \<or> has_control cs)"

abbreviation has_nul :: "string \<Rightarrow> bool" where
  "has_nul s \<equiv> CHR 0x00 \<in> set s"

fun join_with :: "string \<Rightarrow> string list \<Rightarrow> string" where
  "join_with sep [] = []"
| "join_with sep [s] = s"
| "join_with sep (s # ss) = s @ sep @ join_with sep ss"

lemma char_count_le: "char_count s \<le> length s"
  by (simp add: char_count_def)

lemma byte_of_NUL [simp]: "byte_of (CHR 0x00) = 0"
  by (simp add: byte_of_def)

lemma control_free_nul_free: "\<not> has_control s \<Longrightarrow> \<not> has_nul s"
  by (induction s) auto

text \<open>A non-empty list of optional parts joined is empty only if no part is there.\<close>

lemma join_with_Nil: "\<forall>s \<in> set ss. s \<noteq> [] \<Longrightarrow> join_with sep ss = [] \<longleftrightarrow> ss = []"
  by (induction sep ss rule: join_with.induct) auto

section \<open>Computations that may panic\<close>

datatype 'a run = Panicked | Value 'a

definition run_then :: "'a run \<Rightarrow> ('a \<Rightarrow> 'b run) \<Rightarrow> 'b run" where
  "run_then r f = (case r of Panicked \<Rightarrow> Panicked | Value x \<Rightarrow> f x)"

lemma run_then_simps [simp]: "run_then Panicked f = Panicked" "run_then (Value x) f = f x"
  by (simp_all add: run_then_def)

definition run_map :: "('a \<Rightarrow> 'b) \<Rightarrow> 'a run \<Rightarrow> 'b run" where
  "run_map f r = run_then r (\<lambda>x. Value (f x))"

lemma run_map_simps [simp]: "run_map f Panicked = Panicked" "run_map f (Value x) = Value (f x)"
  by (simp_all add: run_map_def)

end
