(* ===== verification/Inhibit_Portal.thy ===== *)
theory Inhibit_Portal
  imports Request_Tracker Portal_Values "HOL-Library.Multiset"
begin

text \<open>
  The Inhibit portal, \<open>crates/xdg-desktop-portal-atrium/src/inhibit.rs\<close>: the registry of live
  inhibitions and monitor sessions, the logind client, and the served methods. A logind lock is
  the descriptor logind returned; the world keeps every lock taken and every lock closed, so
  that a lock that is neither closed nor held by a record would show. What logind and the object
  server answer is a parameter of each step.
\<close>

definition INHIBIT_LOGOUT :: u32 where "INHIBIT_LOGOUT = 1"
definition INHIBIT_USER_SWITCH :: u32 where "INHIBIT_USER_SWITCH = 2"
definition INHIBIT_SUSPEND :: u32 where "INHIBIT_SUSPEND = 4"
definition INHIBIT_IDLE :: u32 where "INHIBIT_IDLE = 8"

definition KNOWN_FLAGS :: u32 where
  "KNOWN_FLAGS = INHIBIT_LOGOUT OR INHIBIT_USER_SWITCH OR INHIBIT_SUSPEND OR INHIBIT_IDLE"

definition MAX_INHIBIT_OBJECTS :: nat where "MAX_INHIBIT_OBJECTS = 64"
definition INHIBIT_MAX_REASON_BYTES :: nat where "INHIBIT_MAX_REASON_BYTES = 16 * 1024"

section \<open>The logind client\<close>

type_synonym lock_fd = nat

datatype logind_reply = Logind_Lock lock_fd | Logind_Malformed string | Logind_Failed string

text \<open>
  What the system answers: whether the system bus can be reached, and the reply to a call
  \<open>Inhibit(what, who, why, mode)\<close>.
\<close>

record logind_env =
  le_bus_fault :: "string option"
  le_reply :: "string \<Rightarrow> string \<Rightarrow> string \<Rightarrow> string \<Rightarrow> logind_reply"

text \<open>The flag is the cached connection; a failed call drops it.\<close>

definition logind_inhibit ::
  "logind_env \<Rightarrow> string \<Rightarrow> string \<Rightarrow> string \<Rightarrow> string \<Rightarrow> bool \<Rightarrow> (string + lock_fd) \<times> bool" where
  "logind_inhibit env what who why mode conn =
     (if \<not> conn \<and> le_bus_fault env \<noteq> None
      then (Inl (''system bus unavailable: '' @ the (le_bus_fault env)), conn)
      else (case le_reply env what who why mode of
              Logind_Lock fd \<Rightarrow> (Inr fd, True)
            | Logind_Malformed e \<Rightarrow> (Inl (''logind returned a malformed lock: '' @ e), True)
            | Logind_Failed e \<Rightarrow> (Inl (''logind Inhibit('' @ what @ '') failed: '' @ e), False)))"

section \<open>The registry\<close>

record inhibit_record =
  ir_app_id :: string
  ir_flags :: u32
  ir_lock :: "lock_fd option"

record inhibit_world =
  iw_requests :: "(string \<times> inhibit_record) list"
  iw_monitors :: "string list"
  iw_conn :: bool
  iw_taken :: "lock_fd list"
  iw_closed :: "lock_fd list"
  iw_req :: req_world
  iw_sessions :: "string set"

definition inhibit_init :: inhibit_world where
  "inhibit_init = \<lparr>iw_requests = [], iw_monitors = [], iw_conn = False, iw_taken = [], iw_closed = [],
     iw_req = req_init, iw_sessions = {}\<rparr>"

definition inhibit_live :: "inhibit_world \<Rightarrow> nat" where
  "inhibit_live w = length (iw_requests w) + length (iw_monitors w)"

fun opt_list :: "'a option \<Rightarrow> 'a list" where
  "opt_list None = []"
| "opt_list (Some x) = [x]"

text \<open>Dropping a lock closes its descriptor, which releases the inhibition.\<close>

definition close_lock :: "lock_fd option \<Rightarrow> inhibit_world \<Rightarrow> inhibit_world" where
  "close_lock l w = w\<lparr>iw_closed := iw_closed w @ opt_list l\<rparr>"

definition path_taken :: "inhibit_world \<Rightarrow> string \<Rightarrow> bool" where
  "path_taken w path \<longleftrightarrow> map_of (iw_requests w) path \<noteq> None \<or> path \<in> set (iw_monitors w)"

text \<open>A refusal drops the lock argument.\<close>

definition add_request ::
  "string \<Rightarrow> string \<Rightarrow> u32 \<Rightarrow> lock_fd option \<Rightarrow> inhibit_world \<Rightarrow> (string + unit) \<times> inhibit_world" where
  "add_request path app flags lock w =
     (if path_taken w path
      then (Inl (''inhibit object '' @ path @ '' is already active''), close_lock lock w)
      else if MAX_INHIBIT_OBJECTS \<le> inhibit_live w
      then (Inl ''inhibit limit reached'', close_lock lock w)
      else (Inr (), w\<lparr>iw_requests :=
              AList.update path \<lparr>ir_app_id = app, ir_flags = flags, ir_lock = lock\<rparr> (iw_requests w)\<rparr>))"

text \<open>The removed record is dropped by both callers.\<close>

definition remove_request :: "string \<Rightarrow> inhibit_world \<Rightarrow> inhibit_world" where
  "remove_request path w =
     (case map_of (iw_requests w) path of
        None \<Rightarrow> w
      | Some r \<Rightarrow> close_lock (ir_lock r) (w\<lparr>iw_requests := AList.delete path (iw_requests w)\<rparr>))"

definition add_monitor :: "string \<Rightarrow> inhibit_world \<Rightarrow> (string + unit) \<times> inhibit_world" where
  "add_monitor path w =
     (if path_taken w path then (Inl (''inhibit object '' @ path @ '' is already active''), w)
      else if MAX_INHIBIT_OBJECTS \<le> inhibit_live w then (Inl ''inhibit limit reached'', w)
      else (Inr (), w\<lparr>iw_monitors := path # iw_monitors w\<rparr>))"

definition remove_monitor :: "string \<Rightarrow> inhibit_world \<Rightarrow> inhibit_world" where
  "remove_monitor path w = w\<lparr>iw_monitors := removeAll path (iw_monitors w)\<rparr>"

section \<open>Taking an inhibition\<close>

definition logind_what :: "u32 \<Rightarrow> string" where
  "logind_what flags =
     join_with '':'' ((if flags AND INHIBIT_IDLE \<noteq> 0 then [''idle''] else [])
                    @ (if flags AND INHIBIT_SUSPEND \<noteq> 0 then [''sleep''] else []))"

definition inhibit_who :: "string \<Rightarrow> string" where
  "inhibit_who app = (if app = [] then ''A sandboxed application'' else app)"

definition inhibit_why :: "string option \<Rightarrow> string" where
  "inhibit_why reason =
     (case reason of
        None \<Rightarrow> ''Portal inhibition request''
      | Some r \<Rightarrow> if r = [] then ''Portal inhibition request'' else r)"

definition apply_inhibit ::
  "logind_env \<Rightarrow> string \<Rightarrow> string \<Rightarrow> u32 \<Rightarrow> string option \<Rightarrow> inhibit_world
     \<Rightarrow> (string + unit) \<times> inhibit_world" where
  "apply_inhibit env path app flags reason w =
     (if flags = 0 \<or> flags AND NOT KNOWN_FLAGS \<noteq> 0
      then (Inl ''unsupported or empty inhibit flags'', w)
      else let what = logind_what flags in
        if what = [] then add_request path app flags None w
        else (case logind_inhibit env what (inhibit_who app) (inhibit_why reason) ''block'' (iw_conn w) of
                (Inl e, conn) \<Rightarrow> (Inl e, w\<lparr>iw_conn := conn\<rparr>)
              | (Inr fd, conn) \<Rightarrow>
                  add_request path app flags (Some fd)
                    (w\<lparr>iw_conn := conn, iw_taken := iw_taken w @ [fd]\<rparr>)))"

definition parse_reason :: "vardict \<Rightarrow> string + string option" where
  "parse_reason options =
     (case opt_get as_str options ''reason'' of
        None \<Rightarrow> Inr None
      | Some r \<Rightarrow>
          if INHIBIT_MAX_REASON_BYTES < length r \<or> has_nul r
          then Inl ''reason is oversized or contains NUL'' else Inr (Some r))"

section \<open>The object server\<close>

text \<open>
  \<open>at\<close> fails, or answers whether the interface was new at the path. Inhibit requests share the
  Request interface, and with it the exported paths, with every other portal request.
\<close>

definition export_request :: "nat option \<Rightarrow> string \<Rightarrow> inhibit_world \<Rightarrow> (nat + bool) \<times> inhibit_world" where
  "export_request fault path w =
     (case fault of
        Some e \<Rightarrow> (Inl e, w)
      | None \<Rightarrow>
          if path \<in> rw_objects (iw_req w) then (Inr False, w)
          else (Inr True, w\<lparr>iw_req := (iw_req w)\<lparr>rw_objects := insert path (rw_objects (iw_req w))\<rparr>\<rparr>))"

definition export_session :: "nat option \<Rightarrow> string \<Rightarrow> inhibit_world \<Rightarrow> (nat + bool) \<times> inhibit_world" where
  "export_session fault path w =
     (case fault of
        Some e \<Rightarrow> (Inl e, w)
      | None \<Rightarrow>
          if path \<in> iw_sessions w then (Inr False, w)
          else (Inr True, w\<lparr>iw_sessions := insert path (iw_sessions w)\<rparr>))"

definition unexport_request :: "bool \<Rightarrow> string \<Rightarrow> inhibit_world \<Rightarrow> inhibit_world" where
  "unexport_request fails path w =
     (if fails then w
      else w\<lparr>iw_req := (iw_req w)\<lparr>rw_objects := rw_objects (iw_req w) - {path}\<rparr>\<rparr>)"

definition unexport_session :: "bool \<Rightarrow> string \<Rightarrow> inhibit_world \<Rightarrow> inhibit_world" where
  "unexport_session fails path w = (if fails then w else w\<lparr>iw_sessions := iw_sessions w - {path}\<rparr>)"

section \<open>The served methods\<close>

definition inhibit ::
  "logind_env \<Rightarrow> nat option \<Rightarrow> string \<Rightarrow> string \<Rightarrow> u32 \<Rightarrow> vardict \<Rightarrow> inhibit_world
     \<Rightarrow> (fdo_error + unit) \<times> inhibit_world" where
  "inhibit env at_fault path app flags options w =
     (case parse_reason options of
        Inl e \<Rightarrow> (Inl (Fdo_InvalidArgs e), w)
      | Inr reason \<Rightarrow>
          (case apply_inhibit env path app flags reason w of
             (Inl e, w1) \<Rightarrow> (Inl (Fdo_Failed e), w1)
           | (Inr _, w1) \<Rightarrow>
               (case export_request at_fault path w1 of
                  (Inl e, w2) \<Rightarrow> (Inl (Fdo_Zbus e), w2)
                | (Inr False, w2) \<Rightarrow>
                    (Inl (Fdo_Failed (''request handle '' @ path @ '' is already active'')),
                     remove_request path w2)
                | (Inr True, w2) \<Rightarrow> (Inr (), w2))))"

text \<open>\<open>path_ok\<close>: the session path is a valid object path again when the signal is built.\<close>

definition create_monitor_inner ::
  "nat option \<Rightarrow> bool \<Rightarrow> string \<Rightarrow> inhibit_world \<Rightarrow> (fdo_error + u32) \<times> inhibit_world" where
  "create_monitor_inner at_fault path_ok path w =
     (case add_monitor path w of
        (Inl _, w1) \<Rightarrow> (Inr 2, w1)
      | (Inr _, w1) \<Rightarrow>
          (case export_session at_fault path w1 of
             (Inl e, w2) \<Rightarrow> (Inl (Fdo_Zbus e), w2)
           | (Inr False, w2) \<Rightarrow> (Inr 2, remove_monitor path w2)
           | (Inr True, w2) \<Rightarrow>
               (if path_ok then (Inr 0, w2) else (Inl (Fdo_Failed ''invalid object path''), w2))))"

definition create_monitor ::
  "nat option \<Rightarrow> bool \<Rightarrow> nat option \<Rightarrow> bool \<Rightarrow> string \<Rightarrow> string \<Rightarrow> inhibit_world
     \<Rightarrow> (fdo_error + u32) \<times> inhibit_world" where
  "create_monitor reg_fault remove_fails at_fault path_ok path session w =
     (case register reg_fault path (iw_req w) of
        (Inl e, rq) \<Rightarrow> (Inl e, w\<lparr>iw_req := rq\<rparr>)
      | (Inr _, rq) \<Rightarrow>
          (case create_monitor_inner at_fault path_ok session (w\<lparr>iw_req := rq\<rparr>) of
             (r, w1) \<Rightarrow> (r, w1\<lparr>iw_req := finish remove_fails path (iw_req w1)\<rparr>)))"

definition query_end_response :: "string \<Rightarrow> inhibit_world \<Rightarrow> fdo_error + unit" where
  "query_end_response path w =
     (if path \<in> set (iw_monitors w) then Inr ()
      else Inl (Fdo_InvalidArgs (''unknown inhibit monitor session '' @ path)))"

definition close_inhibit :: "bool \<Rightarrow> string \<Rightarrow> inhibit_world \<Rightarrow> inhibit_world" where
  "close_inhibit fails path w = unexport_request fails path (remove_request path w)"

definition close_monitor :: "bool \<Rightarrow> string \<Rightarrow> inhibit_world \<Rightarrow> inhibit_world" where
  "close_monitor fails path w = unexport_session fails path (remove_monitor path w)"

section \<open>Interleavings\<close>

text \<open>
  The methods run concurrently and hold the registry's lock only inside one of its operations.
  An event is one such critical section, or one call of the object server.
\<close>

datatype inhibit_event =
    IE_Apply logind_env string string u32 "string option"
  | IE_Export "nat option" string
  | IE_Release string
  | IE_Unexport bool string
  | IE_Add_Monitor string
  | IE_Export_Session "nat option" string
  | IE_Remove_Monitor string
  | IE_Unexport_Session bool string
  | IE_Req req_event

fun inhibit_step :: "inhibit_event \<Rightarrow> inhibit_world \<Rightarrow> inhibit_world" where
  "inhibit_step (IE_Apply env path app flags reason) w = snd (apply_inhibit env path app flags reason w)"
| "inhibit_step (IE_Export fault path) w = snd (export_request fault path w)"
| "inhibit_step (IE_Release path) w = remove_request path w"
| "inhibit_step (IE_Unexport fails path) w = unexport_request fails path w"
| "inhibit_step (IE_Add_Monitor path) w = snd (add_monitor path w)"
| "inhibit_step (IE_Export_Session fault path) w = snd (export_session fault path w)"
| "inhibit_step (IE_Remove_Monitor path) w = remove_monitor path w"
| "inhibit_step (IE_Unexport_Session fails path) w = unexport_session fails path w"
| "inhibit_step (IE_Req e) w = w\<lparr>iw_req := req_step e (iw_req w)\<rparr>"

section \<open>The ledger of locks\<close>

definition held_locks :: "(string \<times> inhibit_record) list \<Rightarrow> lock_fd list" where
  "held_locks m = concat (map (\<lambda>e. opt_list (ir_lock (snd e))) m)"

definition record_backed :: "inhibit_record \<Rightarrow> bool" where
  "record_backed r \<longleftrightarrow> ir_flags r \<noteq> 0 \<and> ir_flags r AND NOT KNOWN_FLAGS = 0
     \<and> (ir_lock r = None \<longleftrightarrow> logind_what (ir_flags r) = [])"

definition inhibit_inv :: "inhibit_world \<Rightarrow> bool" where
  "inhibit_inv w \<longleftrightarrow>
     mset (iw_taken w) = mset (held_locks (iw_requests w)) + mset (iw_closed w)
     \<and> keys_distinct (iw_requests w) \<and> distinct (iw_monitors w)
     \<and> set (iw_monitors w) \<inter> fst ` set (iw_requests w) = {}
     \<and> list_all (record_backed \<circ> snd) (iw_requests w)
     \<and> inhibit_live w \<le> MAX_INHIBIT_OBJECTS"

lemma opt_list_simps [simp]: "set (opt_list x) = set_option x"
  by (cases x) auto

lemma held_locks_update:
  "map_of m k = None \<Longrightarrow> mset (held_locks (AList.update k r m)) = mset (held_locks m) + mset (opt_list (ir_lock r))"
  by (induction m) (auto simp: held_locks_def)

lemma held_locks_delete:
  "keys_distinct m \<Longrightarrow> map_of m k = Some r \<Longrightarrow>
   mset (held_locks m) = mset (held_locks (AList.delete k m)) + mset (opt_list (ir_lock r))"
  by (induction m) (auto simp: held_locks_def delete_id)

lemma set_update_fresh: "map_of m k = None \<Longrightarrow> set (AList.update k v m) = insert (k, v) (set m)"
  by (induction m) auto

lemma delete_keeps_subset: "set (AList.delete k m) \<subseteq> set m"
  by (auto simp: AList.delete_eq)

text \<open>
  While a lock is on its way into the registry it counts as taken; the registry stores it or
  closes it.
\<close>

lemma add_request_inv:
  assumes inv: "inhibit_inv w"
    and rec: "record_backed \<lparr>ir_app_id = app, ir_flags = flags, ir_lock = lock\<rparr>"
  shows "inhibit_inv (snd (add_request path app flags lock
           (w\<lparr>iw_conn := conn, iw_taken := iw_taken w @ opt_list lock\<rparr>)))"
proof (cases "path_taken w path \<or> MAX_INHIBIT_OBJECTS \<le> inhibit_live w")
  case True
  with inv show ?thesis
    by (auto simp: add_request_def inhibit_inv_def close_lock_def path_taken_def inhibit_live_def)
next
  case False
  then have fresh: "map_of (iw_requests w) path = None" "path \<notin> set (iw_monitors w)"
    by (simp_all add: path_taken_def)
  then have "fst ` set (AList.update path r (iw_requests w)) = insert path (fst ` set (iw_requests w))" for r
    by (simp add: set_update_fresh)
  with False fresh inv rec show ?thesis
    by (simp add: add_request_def inhibit_inv_def path_taken_def inhibit_live_def held_locks_update
        length_update_fresh set_update_fresh list_all_iff)
qed

lemma apply_inhibit_inv [inv_intros]:
  assumes inv: "inhibit_inv w"
  shows "inhibit_inv (snd (apply_inhibit env path app flags reason w))"
proof -
  have none: "inhibit_inv (snd (add_request path app flags None w))"
    if "flags \<noteq> 0" "flags AND NOT KNOWN_FLAGS = 0" "logind_what flags = []"
    using add_request_inv [OF inv, of app flags None path "iw_conn w"] that by (simp add: record_backed_def)
  have some: "inhibit_inv (snd (add_request path app flags (Some fd)
       (w\<lparr>iw_conn := conn, iw_taken := iw_taken w @ [fd]\<rparr>)))"
    if "flags \<noteq> 0" "flags AND NOT KNOWN_FLAGS = 0" "logind_what flags \<noteq> []" for fd conn
    using add_request_inv [OF inv, of app flags "Some fd" path conn] that by (simp add: record_backed_def)
  have conn: "inhibit_inv (w\<lparr>iw_conn := c\<rparr>)" for c
    using inv by (simp add: inhibit_inv_def inhibit_live_def)
  show ?thesis
    using none some conn inv by (auto simp: apply_inhibit_def Let_def split: prod.split sum.split)
qed

lemma remove_request_inv [inv_intros]:
  assumes inv: "inhibit_inv w"
  shows "inhibit_inv (remove_request path w)"
proof (cases "map_of (iw_requests w) path")
  case None
  with inv show ?thesis by (simp add: remove_request_def)
next
  case (Some r)
  let ?m = "AList.delete path (iw_requests w)"
  have dist: "keys_distinct (iw_requests w)" using inv by (simp add: inhibit_inv_def)
  have "fst ` set ?m \<subseteq> fst ` set (iw_requests w)" "length ?m \<le> length (iw_requests w)"
    using delete_keeps_subset [of path "iw_requests w"] by (auto simp: length_delete_le)
  moreover have "list_all (record_backed \<circ> snd) ?m"
    using inv delete_keeps_subset [of path "iw_requests w"] by (auto simp: inhibit_inv_def list_all_iff)
  ultimately show ?thesis
    using inv held_locks_delete [OF dist Some] Some
    by (auto simp: remove_request_def inhibit_inv_def close_lock_def inhibit_live_def)
qed

lemma monitor_inv [inv_intros]:
  "inhibit_inv w \<Longrightarrow> inhibit_inv (snd (add_monitor path w))"
  "inhibit_inv w \<Longrightarrow> inhibit_inv (remove_monitor path w)"
proof -
  show "inhibit_inv w \<Longrightarrow> inhibit_inv (snd (add_monitor path w))"
    by (auto simp: add_monitor_def inhibit_inv_def inhibit_live_def path_taken_def map_of_eq_None_iff)
  have le: "inhibit_live (remove_monitor path w) \<le> inhibit_live w"
    by (simp add: inhibit_live_def remove_monitor_def)
  show "inhibit_inv (remove_monitor path w)" if inv: "inhibit_inv w"
  proof -
    have "inhibit_live (remove_monitor path w) \<le> MAX_INHIBIT_OBJECTS"
      using inv le by (simp add: inhibit_inv_def)
    with inv show ?thesis
      by (auto simp: inhibit_inv_def remove_monitor_def distinct_removeAll)
  qed
qed

lemma object_server_inv [inv_intros]:
  "inhibit_inv w \<Longrightarrow> inhibit_inv (snd (export_request fault path w))"
  "inhibit_inv w \<Longrightarrow> inhibit_inv (snd (export_session fault path w))"
  "inhibit_inv w \<Longrightarrow> inhibit_inv (unexport_request fails path w)"
  "inhibit_inv w \<Longrightarrow> inhibit_inv (unexport_session fails path w)"
  "inhibit_inv w \<Longrightarrow> inhibit_inv (w\<lparr>iw_req := rq\<rparr>)"
  by (auto simp: export_request_def export_session_def unexport_request_def unexport_session_def
      inhibit_inv_def inhibit_live_def split: option.split)

lemma inhibit_step_inv: "inhibit_inv w \<Longrightarrow> inhibit_inv (inhibit_step e w)"
  by (cases e) (auto intro: inv_intros)

interpretation inhibitor: guarded_machine inhibit_step inhibit_inv
  by unfold_locales (rule inhibit_step_inv)

lemma inhibit_inv_init: "inhibit_inv inhibit_init"
  by (simp add: inhibit_inv_def inhibit_init_def held_locks_def inhibit_live_def MAX_INHIBIT_OBJECTS_def)

lemma inhibit_reachable_inv: "inhibit_inv (fold inhibit_step es inhibit_init)"
  by (rule inhibitor.run_inv [OF inhibit_inv_init])

section \<open>What Inhibit answers\<close>

lemma logind_what_empty: "logind_what flags = [] \<longleftrightarrow> flags AND (INHIBIT_IDLE OR INHIBIT_SUSPEND) = 0"
  by (auto simp: logind_what_def bit.conj_disj_distrib or_eq_0_iff)

lemma delete_update_fresh: "map_of m k = None \<Longrightarrow> AList.delete k (AList.update k v m) = m"
  by (induction m) (auto simp: delete_id)

lemma add_request_cases:
  assumes "add_request path app flags lock w = (r, w1)"
  shows "iw_monitors w1 = iw_monitors w \<and> iw_req w1 = iw_req w \<and> iw_taken w1 = iw_taken w \<and>
    (case r of
       Inl _ \<Rightarrow> iw_requests w1 = iw_requests w
     | Inr _ \<Rightarrow> map_of (iw_requests w) path = None \<and> iw_requests w1 =
         AList.update path \<lparr>ir_app_id = app, ir_flags = flags, ir_lock = lock\<rparr> (iw_requests w))"
  using assms by (auto simp: add_request_def path_taken_def close_lock_def split: if_splits)

lemma apply_inhibit_cases:
  assumes "apply_inhibit env path app flags reason w = (r, w1)"
  shows "iw_monitors w1 = iw_monitors w \<and> iw_req w1 = iw_req w \<and>
    (case r of
       Inl _ \<Rightarrow> iw_requests w1 = iw_requests w
     | Inr _ \<Rightarrow> map_of (iw_requests w) path = None \<and> (\<exists>lock. iw_requests w1 =
         AList.update path \<lparr>ir_app_id = app, ir_flags = flags, ir_lock = lock\<rparr> (iw_requests w) \<and>
         (if logind_what flags = [] then lock = None \<and> iw_taken w1 = iw_taken w
          else \<exists>fd. lock = Some fd \<and> iw_taken w1 = iw_taken w @ [fd] \<and>
            le_reply env (logind_what flags) (inhibit_who app) (inhibit_why reason) ''block'' = Logind_Lock fd)))"
  using assms
  by (auto simp: apply_inhibit_def Let_def logind_inhibit_def dest!: add_request_cases
      split: if_splits prod.splits sum.splits logind_reply.splits)

text \<open>The handler's state is reached by the critical sections it is made of.\<close>

lemma inhibit_inv_inhibit: "inhibit_inv w \<Longrightarrow> inhibit_inv (snd (inhibit env at_fault path app flags options w))"
proof -
  assume inv: "inhibit_inv w"
  have "inhibit_inv w1" if "apply_inhibit env path app flags reason w = (r, w1)" for reason r w1
    using apply_inhibit_inv [OF inv, of env path app flags reason] that by simp
  moreover have "inhibit_inv w2" if "export_request at_fault path w1 = (r, w2)" "inhibit_inv w1" for r w1 w2
    using object_server_inv(1) [OF that(2), of at_fault path] that(1) by simp
  ultimately show ?thesis
    using inv by (auto simp: inhibit_def split: sum.split prod.split bool.split intro: inv_intros)
qed

text \<open>
  C32: an inhibition is backed by logind or refused. In a state reached by any interleaving of
  the portal's operations, Inhibit succeeds only with a record of the request's flags under its
  path and, when they ask for idle or suspend, with the lock logind returned for exactly those
  flags held by that record; logout and user-switch only requests take no lock. A refusal leaves
  no record behind, except that a failing object server leaves the record (and its lock). Every
  lock ever taken is held by exactly one record or closed, and at most 64 objects are live.
\<close>

theorem inhibit_is_backed_or_refused:
  assumes reach: "w = fold inhibit_step es inhibit_init"
    and run: "inhibit env at_fault path app flags options w = (r, w')"
  shows "(case r of
       Inr _ \<Rightarrow> (\<exists>rec. map_of (iw_requests w') path = Some rec \<and> ir_flags rec = flags \<and> ir_app_id rec = app
          \<and> path \<in> rw_objects (iw_req w')
          \<and> (if flags AND (INHIBIT_IDLE OR INHIBIT_SUSPEND) = 0 then ir_lock rec = None \<and> iw_taken w' = iw_taken w
             else \<exists>fd why. ir_lock rec = Some fd \<and> iw_taken w' = iw_taken w @ [fd]
                 \<and> le_reply env (logind_what flags) (inhibit_who app) why ''block'' = Logind_Lock fd))
     | Inl (Fdo_Zbus _) \<Rightarrow> map_of (iw_requests w) path = None \<and> map_of (iw_requests w') path \<noteq> None
     | Inl _ \<Rightarrow> iw_requests w' = iw_requests w \<and> iw_monitors w' = iw_monitors w)
   \<and> mset (iw_taken w') = mset (held_locks (iw_requests w')) + mset (iw_closed w')
   \<and> inhibit_live w' \<le> MAX_INHIBIT_OBJECTS"
proof -
  have "inhibit_inv w'"
    using inhibit_inv_inhibit [OF inhibit_reachable_inv, of env at_fault path app flags options es] run
    by (simp add: reach)
  then have "mset (iw_taken w') = mset (held_locks (iw_requests w')) + mset (iw_closed w')"
    and "inhibit_live w' \<le> MAX_INHIBIT_OBJECTS"
    by (simp_all add: inhibit_inv_def)
  moreover have "(case r of
       Inr _ \<Rightarrow> (\<exists>rec. map_of (iw_requests w') path = Some rec \<and> ir_flags rec = flags \<and> ir_app_id rec = app
          \<and> path \<in> rw_objects (iw_req w')
          \<and> (if flags AND (INHIBIT_IDLE OR INHIBIT_SUSPEND) = 0 then ir_lock rec = None \<and> iw_taken w' = iw_taken w
             else \<exists>fd why. ir_lock rec = Some fd \<and> iw_taken w' = iw_taken w @ [fd]
                 \<and> le_reply env (logind_what flags) (inhibit_who app) why ''block'' = Logind_Lock fd))
     | Inl (Fdo_Zbus _) \<Rightarrow> map_of (iw_requests w) path = None \<and> map_of (iw_requests w') path \<noteq> None
     | Inl _ \<Rightarrow> iw_requests w' = iw_requests w \<and> iw_monitors w' = iw_monitors w)"
    using run unfolding inhibit_def export_request_def
    by (fastforce simp: logind_what_empty [symmetric] remove_request_def close_lock_def
        delete_update_fresh dest!: apply_inhibit_cases
        split: sum.splits prod.splits option.splits if_splits)
  ultimately show ?thesis by blast
qed

theorem inhibit_is_backed_or_refused_witness:
  "let env = \<lparr>le_bus_fault = None, le_reply = \<lambda>what who why mode. Logind_Lock 7\<rparr>;
       (r, w') = inhibit env None ''/r/1'' ''app'' 12 [] inhibit_init
   in r = Inr () \<and> held_locks (iw_requests w') = [7] \<and> mset (iw_taken w') = {#7#} + mset (iw_closed w')"
proof -
  let ?env = "\<lparr>le_bus_fault = None, le_reply = \<lambda>what who why mode. Logind_Lock 7\<rparr>"
  let ?x = "inhibit ?env None ''/r/1'' ''app'' 12 [] inhibit_init"
  have what: "logind_what 12 = ''idle:sleep''"
    by (simp add: logind_what_def INHIBIT_IDLE_def INHIBIT_SUSPEND_def)
  have run: "fst ?x = Inr ()" "held_locks (iw_requests (snd ?x)) = [7]"
    by (simp_all add: inhibit_def parse_reason_def opt_get_def apply_inhibit_def what Let_def
        KNOWN_FLAGS_def INHIBIT_IDLE_def INHIBIT_SUSPEND_def INHIBIT_LOGOUT_def INHIBIT_USER_SWITCH_def
        logind_inhibit_def add_request_def path_taken_def inhibit_init_def inhibit_live_def
        MAX_INHIBIT_OBJECTS_def export_request_def req_init_def held_locks_def)
  have "mset (iw_taken (snd ?x)) = mset (held_locks (iw_requests (snd ?x))) + mset (iw_closed (snd ?x))"
    using inhibit_is_backed_or_refused [where es = "[]" and w = inhibit_init and env = ?env
        and at_fault = None and path = "''/r/1''" and app = "''app''" and flags = 12 and options = "[]"
        and r = "fst ?x" and w' = "snd ?x"]
    by simp
  with run show ?thesis by (simp add: split_beta Let_def)
qed

end
