(* ===== verification/Notify_Stream.thy ===== *)
theory Notify_Stream
  imports Portal_Values
begin

text \<open>
  The notification daemon's stream protocol, \<open>crates/atrium-portal-prompter/src/notify.rs\<close>: the
  content of a card and its validation, the versioned command and event frames, and the bounded
  line reader. serde's JSON is a parameter (\<open>enc\<close>, \<open>dec\<close>). A stream is the bytes still to be read
  and what comes after them: the end of the stream, or an error.
\<close>

definition NOTIFY_STREAM_VERSION :: u32 where "NOTIFY_STREAM_VERSION = 2"
definition MAX_NOTIFY_LINE_BYTES :: nat where "MAX_NOTIFY_LINE_BYTES = 65536"
definition NS_MAX_APP_ID_BYTES :: nat where "NS_MAX_APP_ID_BYTES = 255"
definition NS_MAX_NOTIFICATION_ID_BYTES :: nat where "NS_MAX_NOTIFICATION_ID_BYTES = 255"
definition NS_MAX_TITLE_BYTES :: nat where "NS_MAX_TITLE_BYTES = 1024"
definition NS_MAX_BODY_BYTES :: nat where "NS_MAX_BODY_BYTES = 4096"
definition NS_MAX_ACTION_BYTES :: nat where "NS_MAX_ACTION_BYTES = 255"
definition NS_MAX_LABEL_BYTES :: nat where "NS_MAX_LABEL_BYTES = 256"
definition NS_MAX_BUTTONS :: nat where "NS_MAX_BUTTONS = 8"

lemmas notify_limits = NS_MAX_APP_ID_BYTES_def NS_MAX_NOTIFICATION_ID_BYTES_def NS_MAX_TITLE_BYTES_def
  NS_MAX_BODY_BYTES_def NS_MAX_ACTION_BYTES_def NS_MAX_LABEL_BYTES_def NS_MAX_BUTTONS_def

section \<open>Cards\<close>

datatype priority = Priority_Low | Priority_Normal | Priority_High | Priority_Urgent

record notify_button =
  nb_action :: string
  nb_label :: string

record notification =
  nt_app_id :: string
  nt_id :: string
  nt_title :: string
  nt_body :: string
  nt_priority :: priority
  nt_default_action :: "string option"
  nt_buttons :: "notify_button list"
  nt_expire_hint :: "u64 option"

definition bounded_text :: "string \<Rightarrow> string \<Rightarrow> nat \<Rightarrow> string + unit" where
  "bounded_text name value limit =
     guard (value = [] \<or> limit < length value \<or> has_nul value)
       (name @ '' is empty, oversized, or contains NUL'')"

definition notification_validate :: "notification \<Rightarrow> string + unit" where
  "notification_validate n =
     then_check (bounded_text ''app id'' (nt_app_id n) NS_MAX_APP_ID_BYTES)
      (then_check (bounded_text ''notification id'' (nt_id n) NS_MAX_NOTIFICATION_ID_BYTES)
       (then_check (guard (NS_MAX_TITLE_BYTES < length (nt_title n) \<or> NS_MAX_BODY_BYTES < length (nt_body n)
                          \<or> has_nul (nt_title n) \<or> has_nul (nt_body n))
                     ''notification title/body is oversized or contains NUL'')
        (then_check (guard (only_white (nt_title n) \<and> only_white (nt_body n))
                      ''notification has neither a title nor a body'')
         (then_check (check_opt (\<lambda>a. bounded_text ''default action'' a NS_MAX_ACTION_BYTES) (nt_default_action n))
          (then_check (guard (NS_MAX_BUTTONS < length (nt_buttons n)) ''too many buttons'')
            (check_all (\<lambda>b. then_check (bounded_text ''button action'' (nb_action b) NS_MAX_ACTION_BYTES)
                             (bounded_text ''button label'' (nb_label b) NS_MAX_LABEL_BYTES))
              (nt_buttons n)))))))"

section \<open>Frames\<close>

datatype notify_command =
    Cmd_Notify notification
  | Cmd_Close string string
  | Cmd_Set_Appearance prompt_appearance
  | Cmd_Shutdown

datatype notify_event =
    Nev_Action_Invoked string string string
  | Nev_Closed string string

record command_frame =
  cf_v :: u32
  cf_cmd :: notify_command

record event_frame =
  ef_v :: u32
  ef_event :: notify_event

definition command_frame_new :: "notify_command \<Rightarrow> command_frame" where
  "command_frame_new c = \<lparr>cf_v = NOTIFY_STREAM_VERSION, cf_cmd = c\<rparr>"

definition event_frame_new :: "notify_event \<Rightarrow> event_frame" where
  "event_frame_new e = \<lparr>ef_v = NOTIFY_STREAM_VERSION, ef_event = e\<rparr>"

abbreviation newline :: char where "newline \<equiv> CHR 0x0A"

definition encode_line :: "('f \<Rightarrow> string option) \<Rightarrow> 'f \<Rightarrow> string option" where
  "encode_line enc f = map_option (\<lambda>bytes. bytes @ [newline]) (enc f)"

fun check_command :: "notify_command \<Rightarrow> string + unit" where
  "check_command (Cmd_Notify n) = notification_validate n"
| "check_command (Cmd_Close app i) =
     then_check (bounded_text ''app id'' app NS_MAX_APP_ID_BYTES)
       (bounded_text ''notification id'' i NS_MAX_NOTIFICATION_ID_BYTES)"
| "check_command (Cmd_Set_Appearance a) =
     (case validate_appearance a of Inl _ \<Rightarrow> Inl ''invalid appearance'' | Inr _ \<Rightarrow> Inr ())"
| "check_command Cmd_Shutdown = Inr ()"

definition decode_command :: "(string \<Rightarrow> command_frame option) \<Rightarrow> string \<Rightarrow> string + command_frame" where
  "decode_command dec line =
     (if line = [] \<or> MAX_NOTIFY_LINE_BYTES < length line then Inl ''command line is empty or oversized''
      else case dec line of
        None \<Rightarrow> Inl ''invalid command JSON''
      | Some f \<Rightarrow>
          if cf_v f \<noteq> NOTIFY_STREAM_VERSION then Inl ''unsupported notification stream version''
          else then_check (check_command (cf_cmd f)) (Inr f))"

fun check_event :: "notify_event \<Rightarrow> string + unit" where
  "check_event (Nev_Action_Invoked app i action) =
     then_check (bounded_text ''action'' action NS_MAX_ACTION_BYTES)
       (then_check (bounded_text ''app id'' app NS_MAX_APP_ID_BYTES)
         (bounded_text ''notification id'' i NS_MAX_NOTIFICATION_ID_BYTES))"
| "check_event (Nev_Closed app i) =
     then_check (bounded_text ''app id'' app NS_MAX_APP_ID_BYTES)
       (bounded_text ''notification id'' i NS_MAX_NOTIFICATION_ID_BYTES)"

definition decode_event :: "(string \<Rightarrow> event_frame option) \<Rightarrow> string \<Rightarrow> string + event_frame" where
  "decode_event dec line =
     (if line = [] \<or> MAX_NOTIFY_LINE_BYTES < length line then Inl ''event line is empty or oversized''
      else case dec line of
        None \<Rightarrow> Inl ''invalid event JSON''
      | Some f \<Rightarrow>
          if ef_v f \<noteq> NOTIFY_STREAM_VERSION then Inl ''unsupported notification stream version''
          else then_check (check_event (ef_event f)) (Inr f))"

section \<open>The bounded line reader\<close>

text \<open>
  \<open>reader.take(n).read_until('\n', ..)\<close>: the bytes read, the bytes left, and whether the reader
  ran into what follows the bytes.
\<close>

fun read_until :: "nat \<Rightarrow> string \<Rightarrow> string \<times> string \<times> bool" where
  "read_until 0 s = ([], s, False)"
| "read_until (Suc n) [] = ([], [], True)"
| "read_until (Suc n) (c # cs) =
     (if c = newline then ([c], cs, False)
      else (case read_until n cs of (line, rest, ended) \<Rightarrow> (c # line, rest, ended)))"

text \<open>A reader: the bytes, then the end of the stream or an error.\<close>

type_synonym reader = "string \<times> io_error option"

definition read_bounded :: "nat \<Rightarrow> reader \<Rightarrow> (io_error + string) \<times> reader" where
  "read_bounded n r =
     (case read_until n (fst r) of
        (line, rest, ended) \<Rightarrow>
          (case snd r of
             Some e \<Rightarrow> if ended then (Inl e, (rest, snd r)) else (Inr line, (rest, snd r))
           | None \<Rightarrow> (Inr line, (rest, snd r))))"

definition read_line_bounded :: "reader \<Rightarrow> (io_error + (string + string) option) \<times> reader" where
  "read_line_bounded r =
     (case read_bounded (MAX_NOTIFY_LINE_BYTES + 1) r of
        (Inl e, r1) \<Rightarrow> (Inl e, r1)
      | (Inr line, r1) \<Rightarrow>
          if line = [] then (Inr None, r1)
          else if last line \<noteq> newline \<and> MAX_NOTIFY_LINE_BYTES < length line
          then (case read_bounded (MAX_NOTIFY_LINE_BYTES * 4) r1 of
                  (Inl e, r2) \<Rightarrow> (Inl e, r2)
                | (Inr _, r2) \<Rightarrow> (Inr (Some (Inl ''stream line is oversized'')), r2))
          else (Inr (Some (Inr line)), r1))"

lemma read_until_split: "read_until n s = (line, rest, ended) \<Longrightarrow> s = line @ rest"
  by (induction n s arbitrary: line rest ended rule: read_until.induct)
    (auto split: if_splits prod.splits)

lemma read_until_fits:
  "newline \<notin> set p \<Longrightarrow> length p < n \<Longrightarrow> read_until n (p @ newline # s) = (p @ [newline], s, False)"
proof (induction p arbitrary: n)
  case Nil
  then show ?case by (cases n) auto
next
  case (Cons c p)
  then show ?case by (cases n) auto
qed

lemma read_until_long:
  "newline \<notin> set p \<Longrightarrow> n \<le> length p \<Longrightarrow> read_until n (p @ s) = (take n p, drop n p @ s, False)"
proof (induction p arbitrary: n)
  case Nil
  then show ?case by simp
next
  case (Cons c p)
  then show ?case by (cases n) auto
qed

lemma read_bounded_split:
  "read_bounded n r = (x, r1) \<Longrightarrow>
   snd r1 = snd r \<and> length (fst r1) \<le> length (fst r) \<and>
   (\<forall>line. x = Inr line \<longrightarrow> length (fst r) = length line + length (fst r1))"
  by (auto simp: read_bounded_def split: prod.splits option.splits if_splits dest: read_until_split)

text \<open>A line that was read, or rejected, has left the stream.\<close>

lemma read_line_consumes:
  "read_line_bounded r = (Inr (Some x), r1) \<Longrightarrow> length (fst r1) < length (fst r)"
  by (auto simp: read_line_bounded_def dest!: read_bounded_split split: prod.splits sum.splits if_splits)

lemma read_bounded_fits:
  "newline \<notin> set p \<Longrightarrow> length p < n \<Longrightarrow>
   read_bounded n (p @ newline # s, e) = (Inr (p @ [newline]), (s, e))"
  by (simp add: read_bounded_def read_until_fits split: option.split)

lemma read_bounded_long:
  "newline \<notin> set p \<Longrightarrow> n \<le> length p \<Longrightarrow>
   read_bounded n (p @ s, e) = (Inr (take n p), (drop n p @ s, e))"
  by (simp add: read_bounded_def read_until_long split: option.split)

text \<open>The largest payload that is drained to its newline: five times the cap.\<close>

definition MAX_DRAINED_BYTES :: nat where "MAX_DRAINED_BYTES = 5 * MAX_NOTIFY_LINE_BYTES"

lemma read_line_of_line:
  assumes "newline \<notin> set p" and "length p \<le> MAX_DRAINED_BYTES"
  shows "read_line_bounded (p @ newline # s, e) =
    (Inr (Some (if length p \<le> MAX_NOTIFY_LINE_BYTES then Inr (p @ [newline])
                else Inl ''stream line is oversized'')), (s, e))"
proof (cases "length p \<le> MAX_NOTIFY_LINE_BYTES")
  case True
  with assms show ?thesis by (simp add: read_line_bounded_def read_bounded_fits)
next
  case False
  let ?n = "MAX_NOTIFY_LINE_BYTES + 1"
  have first: "read_bounded ?n (p @ newline # s, e) = (Inr (take ?n p), (drop ?n p @ newline # s, e))"
    using assms False by (intro read_bounded_long) auto
  have ne: "take ?n p \<noteq> []" "length (take ?n p) = ?n" using False by auto
  then have "last (take ?n p) \<in> set p" by (meson in_set_takeD last_in_set)
  then have last: "last (take ?n p) \<noteq> newline" using assms(1) by auto
  have "newline \<notin> set (drop ?n p)" using assms(1) by (meson in_set_dropD)
  moreover have "length (drop ?n p) < MAX_NOTIFY_LINE_BYTES * 4"
    using assms(2) False by (simp add: MAX_DRAINED_BYTES_def)
  ultimately have second: "read_bounded (MAX_NOTIFY_LINE_BYTES * 4) (drop ?n p @ newline # s, e)
     = (Inr (drop ?n p @ [newline]), (s, e))"
    by (rule read_bounded_fits)
  show ?thesis
    unfolding read_line_bounded_def first using ne last second False by simp
qed

lemma read_line_end: "read_line_bounded ([], None) = (Inr None, ([], None))"
  by (simp add: read_line_bounded_def read_bounded_def)

section \<open>A whole stream\<close>

text \<open>The consumer's loop: every line is decoded, and a bad one is skipped.\<close>

function read_stream :: "(string \<Rightarrow> string + 'f) \<Rightarrow> reader \<Rightarrow> (string + 'f) list" where
  "read_stream decode r =
     (case read_line_bounded r of
        (Inr (Some (Inr line)), r1) \<Rightarrow> decode line # read_stream decode r1
      | (Inr (Some (Inl e)), r1) \<Rightarrow> Inl e # read_stream decode r1
      | _ \<Rightarrow> [])"
  by pat_completeness auto
termination
  by (relation "measure (\<lambda>(decode, r). length (fst r))") (auto dest!: read_line_consumes [OF sym])

declare read_stream.simps [simp del]

definition stream_of :: "string list \<Rightarrow> reader" where
  "stream_of payloads = (concat (map (\<lambda>p. p @ [newline]) payloads), None)"

lemma stream_lines:
  assumes "\<forall>p \<in> set ps. newline \<notin> set p \<and> length p \<le> MAX_DRAINED_BYTES"
  shows "read_stream decode (stream_of ps) =
    map (\<lambda>p. if length p \<le> MAX_NOTIFY_LINE_BYTES then decode (p @ [newline])
             else Inl ''stream line is oversized'') ps"
  using assms
proof (induction ps)
  case Nil
  show ?case by (subst read_stream.simps) (simp add: stream_of_def read_line_end)
next
  case (Cons p ps)
  then have "read_line_bounded (stream_of (p # ps)) =
    (Inr (Some (if length p \<le> MAX_NOTIFY_LINE_BYTES then Inr (p @ [newline])
                else Inl ''stream line is oversized'')), stream_of ps)"
    by (simp add: stream_of_def read_line_of_line)
  with Cons show ?case by (subst read_stream.simps) simp
qed

text \<open>
  C34: the command stream survives bad lines. When the backend's frames and any other lines, none
  longer than five times the line cap, arrive on the daemon's stdin, every frame that was encoded
  within the cap and is valid is decoded to itself, in its place, and every other line costs only
  itself: an oversized one is drained and rejected. serde's law is that a written frame reads
  back, also with the newline behind it.
\<close>

theorem command_stream_round_trip:
  assumes serde: "\<And>f bytes. enc f = Some bytes \<Longrightarrow> dec (bytes @ [newline]) = Some f"
    and lines: "\<forall>p \<in> set ps. newline \<notin> set p \<and> length p \<le> MAX_DRAINED_BYTES"
  shows "read_stream (decode_command dec) (stream_of ps) =
      map (\<lambda>p. if length p \<le> MAX_NOTIFY_LINE_BYTES then decode_command dec (p @ [newline])
               else Inl ''stream line is oversized'') ps
    \<and> (\<forall>i c. i < length ps \<and> encode_line enc (command_frame_new c) = Some (ps ! i @ [newline])
          \<and> length (ps ! i) < MAX_NOTIFY_LINE_BYTES \<and> is_ok (check_command c)
        \<longrightarrow> read_stream (decode_command dec) (stream_of ps) ! i = Inr (command_frame_new c))"
proof (intro conjI allI impI)
  note all = stream_lines [OF lines, of "decode_command dec"]
  show "read_stream (decode_command dec) (stream_of ps) =
      map (\<lambda>p. if length p \<le> MAX_NOTIFY_LINE_BYTES then decode_command dec (p @ [newline])
               else Inl ''stream line is oversized'') ps"
    by (rule all)
  fix i c
  assume *: "i < length ps \<and> encode_line enc (command_frame_new c) = Some (ps ! i @ [newline])
      \<and> length (ps ! i) < MAX_NOTIFY_LINE_BYTES \<and> is_ok (check_command c)"
  then have "dec (ps ! i @ [newline]) = Some (command_frame_new c)"
    using serde by (auto simp: encode_line_def)
  with * have "decode_command dec (ps ! i @ [newline]) = Inr (command_frame_new c)"
    by (auto simp: decode_command_def command_frame_new_def is_ok_iff)
  with * show "read_stream (decode_command dec) (stream_of ps) ! i = Inr (command_frame_new c)"
    by (simp add: all)
qed

theorem command_stream_round_trip_witness:
  "read_stream (decode_command (\<lambda>line. if line = ''S'' @ [newline] then Some (command_frame_new Cmd_Shutdown) else None))
     (stream_of [''junk'', ''S'']) = [Inl ''invalid command JSON'', Inr (command_frame_new Cmd_Shutdown)]"
proof -
  let ?enc = "\<lambda>f. if f = command_frame_new Cmd_Shutdown then Some ''S'' else None"
  let ?dec = "\<lambda>line. if line = ''S'' @ [newline] then Some (command_frame_new Cmd_Shutdown) else None"
  have law: "?dec (bytes @ [newline]) = Some f" if "?enc f = Some bytes" for f bytes
    using that by (simp split: if_splits)
  have lines: "\<forall>p \<in> set [''junk'', ''S'']. newline \<notin> set p \<and> length p \<le> MAX_DRAINED_BYTES"
    by (simp add: MAX_DRAINED_BYTES_def MAX_NOTIFY_LINE_BYTES_def)
  have "read_stream (decode_command ?dec) (stream_of [''junk'', ''S'']) =
      map (\<lambda>p. if length p \<le> MAX_NOTIFY_LINE_BYTES then decode_command ?dec (p @ [newline])
               else Inl ''stream line is oversized'') [''junk'', ''S'']"
    by (rule conjunct1 [OF command_stream_round_trip [where enc = ?enc and dec = ?dec, OF law lines]])
  then show ?thesis
    by (simp add: decode_command_def MAX_NOTIFY_LINE_BYTES_def command_frame_new_def)
qed

text \<open>
  An oversized line of more than five times the cap is not drained to its newline: what is left
  of it is read as a line of its own.
\<close>

lemma longer_line_leaves_a_rest:
  assumes "newline \<notin> set p" and "MAX_DRAINED_BYTES + 1 \<le> length p"
  shows "read_line_bounded (p @ newline # s, e) =
    (Inr (Some (Inl ''stream line is oversized'')), (drop (MAX_DRAINED_BYTES + 1) p @ newline # s, e))"
proof -
  let ?n = "MAX_NOTIFY_LINE_BYTES + 1"
  have first: "read_bounded ?n (p @ newline # s, e) = (Inr (take ?n p), (drop ?n p @ newline # s, e))"
    using assms by (intro read_bounded_long) (auto simp: MAX_DRAINED_BYTES_def)
  have len: "length (take ?n p) = ?n" using assms(2) by (simp add: MAX_DRAINED_BYTES_def)
  then have ne: "take ?n p \<noteq> []" by auto
  then have "last (take ?n p) \<in> set p" by (meson in_set_takeD last_in_set)
  then have last: "last (take ?n p) \<noteq> newline" using assms(1) by auto
  have "newline \<notin> set (drop ?n p)" using assms(1) by (meson in_set_dropD)
  then have second: "read_bounded (MAX_NOTIFY_LINE_BYTES * 4) (drop ?n p @ newline # s, e)
     = (Inr (take (MAX_NOTIFY_LINE_BYTES * 4) (drop ?n p)),
        (drop (MAX_NOTIFY_LINE_BYTES * 4) (drop ?n p) @ newline # s, e))"
    using assms(2) by (intro read_bounded_long) (auto simp: MAX_DRAINED_BYTES_def)
  have n: "MAX_NOTIFY_LINE_BYTES * 4 + ?n = MAX_DRAINED_BYTES + 1" by (simp add: MAX_DRAINED_BYTES_def)
  show ?thesis
    unfolding read_line_bounded_def first using ne last second len
    by (simp only: prod.case sum.case if_False if_True simp_thms drop_drop n) simp
qed

end
