(* ===== verification/Notification_Portal.thy ===== *)
theory Notification_Portal
  imports Notify_Stream
begin

text \<open>
  The Notification portal, \<open>crates/xdg-desktop-portal-atrium/src/notification.rs\<close>: the translation
  of a notification vardict, the live-id bookkeeping, the daemon's lifecycle and the event pump.
  What the operating system answers to the daemon's supervision (liveness, writes, spawns) and
  the ids the pump forgets meanwhile are an environment indexed by the number of answers given
  so far.
\<close>

definition NP_MAX_ID_BYTES :: nat where "NP_MAX_ID_BYTES = 255"
definition NP_MAX_TITLE_CHARS :: nat where "NP_MAX_TITLE_CHARS = 256"
definition NP_MAX_BODY_BYTES :: nat where "NP_MAX_BODY_BYTES = 4 * 1024"
definition NP_MAX_BUTTONS :: nat where "NP_MAX_BUTTONS = 8"
definition NP_MAX_LABEL_CHARS :: nat where "NP_MAX_LABEL_CHARS = 256"
definition MAX_IDS_PER_APP :: nat where "MAX_IDS_PER_APP = 64"
definition MAX_TOTAL_IDS :: nat where "MAX_TOTAL_IDS = 256"

section \<open>Translating a notification\<close>

definition valid_id :: "string \<Rightarrow> string + unit" where
  "valid_id v =
     guard (v = [] \<or> NP_MAX_ID_BYTES < length v \<or> has_control v)
       ''id is empty, oversized, or contains control characters''"

text \<open>\<open>in_tag\<close> is the state of the scan.\<close>

fun strip_markup_from :: "bool \<Rightarrow> string \<Rightarrow> string" where
  "strip_markup_from in_tag [] = []"
| "strip_markup_from in_tag (c # cs) =
     (if c = CHR ''<'' then strip_markup_from True cs
      else if c = CHR ''>'' \<and> in_tag then strip_markup_from False cs
      else if \<not> in_tag then c # strip_markup_from in_tag cs
      else strip_markup_from in_tag cs)"

definition strip_markup :: "string \<Rightarrow> string" where
  "strip_markup markup = strip_markup_from False markup"

fun parse_priority :: "string option \<Rightarrow> priority" where
  "parse_priority None = Priority_Normal"
| "parse_priority (Some p) =
     (if p = ''normal'' then Priority_Normal
      else if p = ''low'' then Priority_Low
      else if p = ''high'' then Priority_High
      else if p = ''urgent'' then Priority_Urgent
      else Priority_Normal)"

definition nonempty :: "string option \<Rightarrow> string option" where
  "nonempty s = (case s of None \<Rightarrow> None | Some t \<Rightarrow> if t = [] then None else Some t)"

fun parse_buttons :: "vardict list \<Rightarrow> string + notify_button list" where
  "parse_buttons [] = Inr []"
| "parse_buttons (b # bs) =
     (case nonempty (opt_get as_str b ''action'') of
        None \<Rightarrow> parse_buttons bs
      | Some action \<Rightarrow>
          then_check (valid_id action)
            (case nonempty (opt_get as_str b ''label'') of
               None \<Rightarrow> parse_buttons bs
             | Some label \<Rightarrow>
                 if NP_MAX_LABEL_CHARS < char_count label \<or> has_nul label
                 then Inl ''button label is oversized or contains NUL''
                 else and_then (parse_buttons bs)
                        (\<lambda>rest. Inr (\<lparr>nb_action = action, nb_label = label\<rparr> # rest))))"

definition notification_buttons :: "vardict \<Rightarrow> string + notify_button list" where
  "notification_buttons m =
     (case map_of m ''buttons'' of
        None \<Rightarrow> Inr []
      | Some v \<Rightarrow>
          (case as_dicts v of
             None \<Rightarrow> Inl ''buttons is not an array of vardicts''
           | Some wire \<Rightarrow>
               if NP_MAX_BUTTONS < length wire then Inl ''too many buttons'' else parse_buttons wire))"

fun priority_expiry :: "priority \<Rightarrow> u64 option" where
  "priority_expiry Priority_Low = Some 5"
| "priority_expiry Priority_Normal = Some 10"
| "priority_expiry Priority_High = None"
| "priority_expiry Priority_Urgent = None"

definition apply_hint :: "string \<Rightarrow> u64 option \<Rightarrow> u64 option" where
  "apply_hint hint expire =
     (if hint = ''transient'' then Some 5 else if hint = ''persistent'' then None else expire)"

definition notification_body :: "vardict \<Rightarrow> string" where
  "notification_body m =
     (let body = case_option [] id (opt_get as_str m ''body'')
      in if body = []
         then (case opt_get as_str m ''markup-body'' of None \<Rightarrow> body | Some mk \<Rightarrow> strip_markup mk)
         else body)"

definition parse_notification :: "string \<Rightarrow> string \<Rightarrow> vardict \<Rightarrow> string + notification" where
  "parse_notification app i m =
     then_check (valid_id app)
      (then_check (valid_id i)
        (let title = case_option [] id (opt_get as_str m ''title''); body = notification_body m in
         then_check (guard (NP_MAX_TITLE_CHARS < char_count title \<or> has_nul title)
                       ''title is oversized or contains NUL'')
          (then_check (guard (NP_MAX_BODY_BYTES < length body \<or> has_nul body)
                         ''body is oversized or contains NUL'')
           (then_check (guard (only_white title \<and> only_white body)
                          ''notification has neither a title nor a body'')
             (let prio = parse_priority (opt_get as_str m ''priority'');
                  action = nonempty (opt_get as_str m ''default-action'') in
              then_check (check_opt valid_id action)
                (and_then (notification_buttons m) (\<lambda>buttons.
                   let hints = (case opt_get as_strings m ''display-hint'' of None \<Rightarrow> [] | Some hs \<Rightarrow> hs) in
                   Inr \<lparr>nt_app_id = app, nt_id = i, nt_title = title, nt_body = body,
                        nt_priority = prio, nt_default_action = action, nt_buttons = buttons,
                        nt_expire_hint = fold apply_hint hints (priority_expiry prio)\<rparr>)))))))"

section \<open>Live ids\<close>

type_synonym live_ids = "(string \<times> string list) list"

definition ids_of :: "live_ids \<Rightarrow> string \<Rightarrow> string list" where
  "ids_of m app = (case map_of m app of None \<Rightarrow> [] | Some ids \<Rightarrow> ids)"

definition live_total :: "live_ids \<Rightarrow> nat" where
  "live_total m = sum_list (map (length \<circ> snd) m)"

definition live_track :: "string \<Rightarrow> string \<Rightarrow> live_ids \<Rightarrow> string option \<times> live_ids" where
  "live_track app i m =
     (let ids = (if i \<in> set (ids_of m app) then ids_of m app else ids_of m app @ [i])
      in if MAX_IDS_PER_APP < length ids then (Some (hd ids), AList.update app (tl ids) m)
         else (None, AList.update app ids m))"

definition live_remove :: "string \<Rightarrow> string \<Rightarrow> live_ids \<Rightarrow> bool \<times> live_ids" where
  "live_remove app i m =
     (case map_of m app of
        None \<Rightarrow> (False, m)
      | Some ids \<Rightarrow>
          let rest = remove1 i ids in
          (i \<in> set ids, if rest = [] then AList.delete app m else AList.update app rest m))"

definition live_clear :: "live_ids \<Rightarrow> nat \<times> live_ids" where
  "live_clear m = (live_total m, [])"

section \<open>The daemon\<close>

datatype wait_answer = Wait_Running | Wait_Exited | Wait_Error

text \<open>
  The environment at the \<open>t\<close>-th answer: what the pump removes before it, and what \<open>try_wait\<close>,
  the write of a line, and the spawn answer.
\<close>

record daemon_env =
  de_pump :: "nat \<Rightarrow> (string \<times> string) list"
  de_wait :: "nat \<Rightarrow> wait_answer"
  de_write :: "nat \<Rightarrow> bool"
  de_spawn :: "nat \<Rightarrow> bool"

text \<open>
  The manager: the daemon is its number, \<open>dm_lines\<close> the lines each daemon was sent. The clock
  counts the answers.
\<close>

record daemon_manager =
  dm_daemon :: "nat option"
  dm_live :: live_ids
  dm_appearance :: "prompt_appearance option"
  dm_lines :: "(nat \<times> command_frame) list"
  dm_clock :: nat

definition manager_default :: daemon_manager where
  "manager_default = \<lparr>dm_daemon = None, dm_live = [], dm_appearance = None, dm_lines = [], dm_clock = 0\<rparr>"

definition pump_removes :: "daemon_env \<Rightarrow> daemon_manager \<Rightarrow> live_ids" where
  "pump_removes env m = fold (\<lambda>(app, i) l. snd (live_remove app i l)) (de_pump env (dm_clock m)) (dm_live m)"

definition tick :: "daemon_env \<Rightarrow> daemon_manager \<Rightarrow> daemon_manager" where
  "tick env m = m\<lparr>dm_live := pump_removes env m, dm_clock := Suc (dm_clock m)\<rparr>"

definition drop_daemon :: "daemon_manager \<Rightarrow> daemon_manager" where
  "drop_daemon m = m\<lparr>dm_daemon := None\<rparr>"

text \<open>
  \<open>send\<close> and \<open>ensure_daemon\<close> call each other: a daemon that was just spawned is sent the remembered
  appearance, which first looks whether it is still alive. Nothing bounds that recursion, so the
  model has fuel; \<open>None\<close> is a call that has not returned. \<open>send_loop\<close> has the attempts left.
\<close>

definition spawned :: "daemon_env \<Rightarrow> daemon_manager \<Rightarrow> daemon_manager" where
  "spawned env m = (tick env m)\<lparr>dm_daemon := Some (dm_clock m)\<rparr>"

definition delivered :: "daemon_env \<Rightarrow> nat \<Rightarrow> command_frame \<Rightarrow> daemon_manager \<Rightarrow> daemon_manager" where
  "delivered env d f m = (tick env m)\<lparr>dm_lines := dm_lines m @ [(d, f)]\<rparr>"

text \<open>The first half of \<open>ensure_daemon\<close>: \<open>None\<close> when the daemon is alive.\<close>

definition check_daemon :: "daemon_env \<Rightarrow> daemon_manager \<Rightarrow> bool \<times> daemon_manager" where
  "check_daemon env m =
     (case dm_daemon m of
        None \<Rightarrow> (False, m)
      | Some _ \<Rightarrow>
          (case de_wait env (dm_clock m) of
             Wait_Running \<Rightarrow> (True, tick env m)
           | Wait_Exited \<Rightarrow> (False, drop_daemon ((tick env m)\<lparr>dm_live := snd (live_clear (pump_removes env m))\<rparr>))
           | Wait_Error \<Rightarrow> (False, drop_daemon (tick env m))))"

fun send_loop ::
    "nat \<Rightarrow> (command_frame \<Rightarrow> string option) \<Rightarrow> daemon_env \<Rightarrow> nat \<Rightarrow> command_frame \<Rightarrow> daemon_manager
       \<Rightarrow> (bool \<times> daemon_manager) option"
  and ensure_daemon ::
    "nat \<Rightarrow> (command_frame \<Rightarrow> string option) \<Rightarrow> daemon_env \<Rightarrow> daemon_manager \<Rightarrow> (bool \<times> daemon_manager) option"
where
  "send_loop 0 enc env attempts f m = None"
| "send_loop (Suc fuel) enc env attempts f m =
     (if attempts = 0 then Some (False, m)
      else case ensure_daemon fuel enc env m of
        None \<Rightarrow> None
      | Some (False, m1) \<Rightarrow> Some (False, m1)
      | Some (True, m1) \<Rightarrow>
          (case dm_daemon m1 of
             None \<Rightarrow> Some (False, m1)
           | Some d \<Rightarrow>
               if de_write env (dm_clock m1) then Some (True, delivered env d f m1)
               else if attempts = 1 then Some (False, drop_daemon (tick env m1))
               else send_loop fuel enc env (attempts - 1) f (drop_daemon (tick env m1))))"
| "ensure_daemon 0 enc env m = None"
| "ensure_daemon (Suc fuel) enc env m =
     (case check_daemon env m of
        (True, m1) \<Rightarrow> Some (True, m1)
      | (False, m1) \<Rightarrow>
          if \<not> de_spawn env (dm_clock m1) then Some (False, tick env m1)
          else (case dm_appearance m1 of
                  None \<Rightarrow> Some (True, spawned env m1)
                | Some a \<Rightarrow>
                    if encode_line enc (command_frame_new (Cmd_Set_Appearance a)) = None
                    then Some (True, spawned env m1)
                    else map_option (\<lambda>r. (True, snd r))
                           (send_loop fuel enc env 2 (command_frame_new (Cmd_Set_Appearance a)) (spawned env m1))))"

definition send_frame ::
  "nat \<Rightarrow> (command_frame \<Rightarrow> string option) \<Rightarrow> daemon_env \<Rightarrow> command_frame \<Rightarrow> daemon_manager
     \<Rightarrow> (bool \<times> daemon_manager) option" where
  "send_frame fuel enc env f m =
     (if encode_line enc f = None then Some (False, m) else send_loop fuel enc env 2 f m)"

definition forget_id :: "string \<Rightarrow> string \<Rightarrow> daemon_manager \<Rightarrow> daemon_manager" where
  "forget_id app i m = m\<lparr>dm_live := snd (live_remove app i (dm_live m))\<rparr>"

definition deliver ::
  "nat \<Rightarrow> (command_frame \<Rightarrow> string option) \<Rightarrow> daemon_env \<Rightarrow> notification \<Rightarrow> daemon_manager
     \<Rightarrow> daemon_manager option" where
  "deliver fuel enc env n m =
     (case send_frame fuel enc env (command_frame_new (Cmd_Notify n)) m of
        None \<Rightarrow> None
      | Some (True, m1) \<Rightarrow> Some m1
      | Some (False, m1) \<Rightarrow> Some (forget_id (nt_app_id n) (nt_id n) m1))"

definition notify ::
  "nat \<Rightarrow> (command_frame \<Rightarrow> string option) \<Rightarrow> daemon_env \<Rightarrow> notification \<Rightarrow> daemon_manager
     \<Rightarrow> daemon_manager option" where
  "notify fuel enc env n m =
     (if MAX_TOTAL_IDS \<le> live_total (dm_live m) then Some m
      else case live_track (nt_app_id n) (nt_id n) (dm_live m) of
        (None, l) \<Rightarrow> deliver fuel enc env n (m\<lparr>dm_live := l\<rparr>)
      | (Some evicted, l) \<Rightarrow>
          (case send_frame fuel enc env (command_frame_new (Cmd_Close (nt_app_id n) evicted)) (m\<lparr>dm_live := l\<rparr>) of
             None \<Rightarrow> None
           | Some (_, m1) \<Rightarrow> deliver fuel enc env n (forget_id (nt_app_id n) evicted m1)))"

definition close_notification ::
  "(command_frame \<Rightarrow> string option) \<Rightarrow> daemon_env \<Rightarrow> string \<Rightarrow> string \<Rightarrow> daemon_manager \<Rightarrow> daemon_manager" where
  "close_notification enc env app i m =
     (case live_remove app i (dm_live m) of
        (False, _) \<Rightarrow> m
      | (True, l) \<Rightarrow>
          let m1 = m\<lparr>dm_live := l\<rparr>; f = command_frame_new (Cmd_Close app i) in
          (case dm_daemon m1 of
             None \<Rightarrow> m1
           | Some d \<Rightarrow>
               if de_write env (dm_clock m1) \<and> encode_line enc f \<noteq> None then delivered env d f m1
               else tick env m1))"

definition push_appearance ::
  "nat \<Rightarrow> (command_frame \<Rightarrow> string option) \<Rightarrow> daemon_env \<Rightarrow> prompt_appearance \<Rightarrow> daemon_manager
     \<Rightarrow> daemon_manager option" where
  "push_appearance fuel enc env a m =
     (if dm_appearance m = Some a then Some m
      else let m1 = m\<lparr>dm_appearance := Some a\<rparr> in
        if dm_daemon m1 = None then Some m1
        else map_option snd (send_frame fuel enc env (command_frame_new (Cmd_Set_Appearance a)) m1))"

section \<open>The served methods and the pump\<close>

definition add_notification ::
  "nat \<Rightarrow> (command_frame \<Rightarrow> string option) \<Rightarrow> daemon_env \<Rightarrow> string \<Rightarrow> string \<Rightarrow> vardict \<Rightarrow> daemon_manager
     \<Rightarrow> ((string + unit) \<times> daemon_manager) option" where
  "add_notification fuel enc env app i v m =
     (case parse_notification app i v of
        Inl e \<Rightarrow> Some (Inl e, m)
      | Inr n \<Rightarrow> map_option (\<lambda>m1. (Inr (), m1)) (notify fuel enc env n m))"

definition remove_notification ::
  "(command_frame \<Rightarrow> string option) \<Rightarrow> daemon_env \<Rightarrow> string \<Rightarrow> string \<Rightarrow> daemon_manager \<Rightarrow> daemon_manager" where
  "remove_notification enc env app i m =
     (if \<not> is_ok (valid_id app) \<or> \<not> is_ok (valid_id i) then m else close_notification enc env app i m)"

text \<open>
  The pump reads the daemon's stream to its end; a bad line or event is skipped. It yields the
  signals to emit and the ids to forget, in order.
\<close>

fun pump_event :: "notify_event \<Rightarrow> (string \<times> string \<times> string) list \<times> (string \<times> string)" where
  "pump_event (Nev_Action_Invoked app i action) = ([(app, i, action)], (app, i))"
| "pump_event (Nev_Closed app i) = ([], (app, i))"

fun pump_frames ::
  "(string + event_frame) list \<Rightarrow> (string \<times> string \<times> string) list \<times> (string \<times> string) list" where
  "pump_frames [] = ([], [])"
| "pump_frames (Inl _ # xs) = pump_frames xs"
| "pump_frames (Inr f # xs) =
     (case pump_event (ef_event f) of
        (signals, forgotten) \<Rightarrow>
          (case pump_frames xs of (ss, fs) \<Rightarrow> (signals @ ss, forgotten # fs)))"

definition event_pump ::
  "(string \<Rightarrow> event_frame option) \<Rightarrow> reader \<Rightarrow> (string \<times> string \<times> string) list \<times> (string \<times> string) list" where
  "event_pump dec r = pump_frames (read_stream (decode_event dec) r)"

text \<open>The calls that reach the manager, one at a time under its lock.\<close>

datatype notification_call =
    NC_Add string string vardict
  | NC_Remove string string
  | NC_Appearance prompt_appearance

fun call_step ::
  "nat \<Rightarrow> (command_frame \<Rightarrow> string option) \<Rightarrow> daemon_env \<Rightarrow> notification_call \<Rightarrow> daemon_manager
     \<Rightarrow> daemon_manager option" where
  "call_step fuel enc env (NC_Add app i v) m = map_option snd (add_notification fuel enc env app i v m)"
| "call_step fuel enc env (NC_Remove app i) m = Some (remove_notification enc env app i m)"
| "call_step fuel enc env (NC_Appearance a) m = push_appearance fuel enc env a m"

fun call_run ::
  "nat \<Rightarrow> (command_frame \<Rightarrow> string option) \<Rightarrow> daemon_env \<Rightarrow> notification_call list \<Rightarrow> daemon_manager
     \<Rightarrow> daemon_manager option" where
  "call_run fuel enc env [] m = Some m"
| "call_run fuel enc env (c # cs) m = Option.bind (call_step fuel enc env c m) (call_run fuel enc env cs)"

section \<open>Bounds of the bookkeeping\<close>

definition live_inv :: "live_ids \<Rightarrow> bool" where
  "live_inv m \<longleftrightarrow> keys_distinct m \<and> live_total m \<le> MAX_TOTAL_IDS
     \<and> (\<forall>(app, ids) \<in> set m. ids \<noteq> [] \<and> distinct ids \<and> length ids \<le> MAX_IDS_PER_APP)"

lemma live_total_update:
  "live_total (AList.update app ids m) + length (ids_of m app) = live_total m + length ids"
  by (induction m) (auto simp: live_total_def ids_of_def)

lemma live_total_delete:
  "keys_distinct m \<Longrightarrow> live_total (AList.delete app m) + length (ids_of m app) = live_total m"
  by (induction m) (auto simp: live_total_def ids_of_def delete_id map_of_eq_None_iff [THEN iffD2])

lemma set_update_subset: "set (AList.update k v m) \<subseteq> insert (k, v) (set m)"
  by (induction m) auto

lemma ids_of_inv:
  "live_inv m \<Longrightarrow> distinct (ids_of m app) \<and> length (ids_of m app) \<le> MAX_IDS_PER_APP"
  by (auto simp: ids_of_def live_inv_def MAX_IDS_PER_APP_def split: option.split dest!: map_of_SomeD)

lemma live_inv_put:
  assumes "live_inv m" and "ids \<noteq> []" and "distinct ids" and "length ids \<le> MAX_IDS_PER_APP"
    and "live_total m + length ids \<le> MAX_TOTAL_IDS + length (ids_of m app)"
  shows "live_inv (AList.update app ids m)"
  using assms live_total_update [of app ids m] set_update_subset [of app ids m]
  by (auto simp: live_inv_def)

lemma live_remove_inv [inv_intros]:
  assumes inv: "live_inv m"
  shows "live_inv (snd (live_remove app i m))"
proof (cases "map_of m app")
  case None
  with inv show ?thesis by (simp add: live_remove_def)
next
  case (Some ids)
  then have ids: "ids_of m app = ids" by (simp add: ids_of_def)
  note bounds = ids_of_inv [OF inv, of app, unfolded ids]
  have len: "length (remove1 i ids) \<le> length ids" by (simp add: length_remove1)
  show ?thesis
  proof (cases "remove1 i ids = []")
    case True
    moreover have "set (AList.delete app m) \<subseteq> set m" by (auto simp: AList.delete_eq)
    moreover have "live_total (AList.delete app m) \<le> live_total m"
      using live_total_delete [of m app] inv by (simp add: live_inv_def)
    ultimately show ?thesis
      using Some inv by (auto simp: live_remove_def Let_def live_inv_def)
  next
    case False
    have "live_inv (AList.update app (remove1 i ids) m)"
      using inv False bounds len ids by (intro live_inv_put) (auto simp: live_inv_def)
    with Some False show ?thesis by (simp add: live_remove_def Let_def)
  qed
qed

lemma live_track_inv:
  assumes inv: "live_inv m" and room: "live_total m < MAX_TOTAL_IDS"
  shows "live_inv (snd (live_track app i m))"
proof -
  note bounds = ids_of_inv [OF inv, of app]
  let ?ids = "if i \<in> set (ids_of m app) then ids_of m app else ids_of m app @ [i]"
  have ids: "?ids \<noteq> []" "distinct ?ids" "length ?ids \<le> Suc (length (ids_of m app))"
    using bounds by auto
  show ?thesis
  proof (cases "MAX_IDS_PER_APP < length ?ids")
    case True
    then have len: "length ?ids = Suc MAX_IDS_PER_APP" "length (ids_of m app) = MAX_IDS_PER_APP"
      using ids(3) bounds by auto
    have "live_inv (AList.update app (tl ?ids) m)"
    proof (rule live_inv_put [OF inv])
      have "length (tl ?ids) = MAX_IDS_PER_APP" by (simp only: length_tl len diff_Suc_1)
      then show "tl ?ids \<noteq> []" "length (tl ?ids) \<le> MAX_IDS_PER_APP"
        "live_total m + length (tl ?ids) \<le> MAX_TOTAL_IDS + length (ids_of m app)"
        using room len by (auto simp: MAX_IDS_PER_APP_def simp del: length_tl)
      show "distinct (tl ?ids)" using ids(2) by (rule distinct_tl)
    qed
    with True show ?thesis by (simp add: live_track_def Let_def)
  next
    case False
    then have "live_inv (AList.update app ?ids m)"
      using inv ids room by (intro live_inv_put) auto
    with False show ?thesis by (simp add: live_track_def Let_def)
  qed
qed

lemma pump_removes_inv [inv_intros]:
  assumes "live_inv (dm_live m)"
  shows "live_inv (pump_removes env m)"
proof -
  have "live_inv (fold (\<lambda>(app, i) l. snd (live_remove app i l)) es l)" if "live_inv l" for es l
    using that by (induction es arbitrary: l) (auto intro: inv_intros)
  with assms show ?thesis by (simp add: pump_removes_def)
qed

abbreviation manager_inv :: "daemon_manager \<Rightarrow> bool" where
  "manager_inv m \<equiv> live_inv (dm_live m)"

lemma live_inv_Nil [simp]: "live_inv []"
  by (simp add: live_inv_def live_total_def)

lemma small_step_inv [inv_intros]:
  "manager_inv m \<Longrightarrow> manager_inv (tick env m)"
  "manager_inv m \<Longrightarrow> manager_inv (drop_daemon m)"
  "manager_inv m \<Longrightarrow> manager_inv (spawned env m)"
  "manager_inv m \<Longrightarrow> manager_inv (delivered env d f m)"
  "manager_inv m \<Longrightarrow> manager_inv (snd (check_daemon env m))"
  "manager_inv m \<Longrightarrow> manager_inv (forget_id app i m)"
  by (auto simp: tick_def drop_daemon_def spawned_def delivered_def check_daemon_def live_clear_def
      forget_id_def split: option.split wait_answer.split intro: inv_intros)

lemma small_step_clock [simp]:
  "dm_clock (tick env m) = Suc (dm_clock m)"
  "dm_clock (drop_daemon m) = dm_clock m"
  "dm_clock (spawned env m) = Suc (dm_clock m)"
  "dm_clock (delivered env d f m) = Suc (dm_clock m)"
  "dm_clock (forget_id app i m) = dm_clock m"
  by (simp_all add: tick_def drop_daemon_def spawned_def delivered_def forget_id_def)

lemma check_daemon_clock: "check_daemon env m = (b, m1) \<Longrightarrow> dm_clock m \<le> dm_clock m1"
  by (auto simp: check_daemon_def tick_def drop_daemon_def split: option.splits wait_answer.splits)

text \<open>Whatever the operating system answers, a call that returns keeps the bounds.\<close>

definition grows :: "daemon_manager \<Rightarrow> daemon_manager \<Rightarrow> bool" where
  "grows m m1 \<longleftrightarrow> (manager_inv m \<longrightarrow> manager_inv m1) \<and> dm_clock m \<le> dm_clock m1"

lemma grows_trans: "grows a b \<Longrightarrow> grows b c \<Longrightarrow> grows a c"
  by (auto simp: grows_def)

lemma grows_refl [simp]: "grows m m"
  by (simp add: grows_def)

lemma grows_small:
  "grows m (tick env m)" "grows m (drop_daemon (tick env m))" "grows m (spawned env m)"
  "grows m (delivered env d f m)" "grows m (snd (check_daemon env m))" "grows m (forget_id app i m)"
  using check_daemon_clock [of env m]
  by (auto simp: grows_def intro: inv_intros) (cases "check_daemon env m", force)+

lemma send_ensure_grows:
  "send_loop fuel enc env attempts f m = Some r \<Longrightarrow> grows m (snd r)"
  "ensure_daemon fuel enc env m = Some r' \<Longrightarrow> grows m (snd r')"
proof (induction fuel enc env attempts f m and fuel enc env m arbitrary: r and r'
    rule: send_loop_ensure_daemon.induct)
  case (2 fuel enc env attempts f m)
  show ?case
  proof (cases "attempts = 0")
    case True
    with "2.prems" show ?thesis by auto
  next
    case False
    with "2.prems" obtain b m1 where en: "ensure_daemon fuel enc env m = Some (b, m1)"
      by (auto split: option.splits)
    have m1: "grows m m1" using "2.IH"(1) [OF False en] by simp
    have loop: "grows m (snd q)"
      if "b" "dm_daemon m1 = Some d" "\<not> de_write env (dm_clock m1)" "attempts \<noteq> 1"
        "send_loop fuel enc env (attempts - 1) f (drop_daemon (tick env m1)) = Some q" for d q
    proof -
      have "grows (drop_daemon (tick env m1)) (snd q)"
        using "2.IH"(2) [OF False en] that by (cases q) auto
      then show ?thesis by (rule grows_trans [OF m1 grows_trans [OF grows_small(2)]])
    qed
    show ?thesis
      using "2.prems" False en m1 grows_small [where m = m1] grows_trans [OF m1] loop
      by (auto split: bool.splits option.splits if_splits intro: grows_trans)
  qed
next
  case (4 fuel enc env m)
  obtain b m1 where ch: "check_daemon env m = (b, m1)" by force
  have m1: "grows m m1" using grows_small(5) [of m env] ch by simp
  have prime: "grows m (snd q)"
    if "\<not> b" "de_spawn env (dm_clock m1)" "dm_appearance m1 = Some a"
      "encode_line enc (command_frame_new (Cmd_Set_Appearance a)) \<noteq> None"
      "send_loop fuel enc env 2 (command_frame_new (Cmd_Set_Appearance a)) (spawned env m1) = Some q" for a q
  proof -
    have "grows (spawned env m1) (snd q)"
      using "4.IH" [OF ch [symmetric]] that by (cases q) auto
    then show ?thesis by (rule grows_trans [OF m1 grows_trans [OF grows_small(3)]])
  qed
  show ?case
  proof (cases b)
    case True
    with "4.prems" ch m1 show ?thesis by auto
  next
    case False
    with "4.prems" ch m1 show ?thesis
      using grows_small [where m = m1] grows_trans [OF m1] prime
      by (auto split: option.splits if_splits intro: grows_trans)
  qed
qed simp_all

lemma send_frame_grows: "send_frame fuel enc env f m = Some r \<Longrightarrow> grows m (snd r)"
  by (auto simp: send_frame_def split: if_splits dest: send_ensure_grows)

text \<open>Enough fuel: each unit of recursion waits for an answer, until the daemons stay healthy.\<close>

definition healthy_from :: "nat \<Rightarrow> daemon_env \<Rightarrow> bool" where
  "healthy_from N env \<longleftrightarrow> (\<forall>t. N \<le> t \<longrightarrow> de_wait env t = Wait_Running \<and> de_write env t)"

lemma check_healthy:
  "healthy_from N env \<Longrightarrow> N \<le> dm_clock m \<Longrightarrow> dm_daemon m = Some d \<Longrightarrow>
   check_daemon env m = (True, tick env m)"
  by (simp add: check_daemon_def healthy_from_def)

lemma daemon_tick [simp]: "dm_daemon (tick env m) = dm_daemon m"
  by (simp add: tick_def)

lemma send_healthy:
  "healthy_from N env \<Longrightarrow> N \<le> dm_clock m \<Longrightarrow> dm_daemon m = Some d \<Longrightarrow> attempts \<noteq> 0 \<Longrightarrow>
   send_loop (Suc (Suc fuel)) enc env attempts f m = Some (True, delivered env d f (tick env m))"
  by (simp add: check_healthy) (simp add: healthy_from_def)

lemma send_ensure_returns:
  assumes healthy: "healthy_from N env"
  shows "(\<forall>attempts f m. 2 * (N - dm_clock m) + 4 \<le> fuel \<longrightarrow> send_loop fuel enc env attempts f m \<noteq> None)
    \<and> (\<forall>m. 2 * (N - dm_clock m) + 3 \<le> fuel \<longrightarrow> ensure_daemon fuel enc env m \<noteq> None)"
proof (induction fuel)
  case 0
  then show ?case by simp
next
  case (Suc fuel)
  have send: "send_loop (Suc fuel) enc env attempts f m \<noteq> None"
    if fuel: "2 * (N - dm_clock m) + 4 \<le> Suc fuel" for attempts f m
  proof (cases "attempts = 0")
    case False
    from Suc fuel obtain b m1 where en: "ensure_daemon fuel enc env m = Some (b, m1)"
      by fastforce
    then have clock: "dm_clock m \<le> dm_clock m1"
      using send_ensure_grows(2) [OF en] by (simp add: grows_def)
    have "send_loop fuel enc env (attempts - 1) f (drop_daemon (tick env m1)) \<noteq> None"
      if "\<not> de_write env (dm_clock m1)"
    proof -
      have "dm_clock m1 < N" using healthy that by (metis healthy_from_def not_le)
      with clock fuel have "2 * (N - dm_clock (drop_daemon (tick env m1))) + 4 \<le> fuel" by simp
      with Suc show ?thesis by blast
    qed
    with False en show ?thesis by (auto split: bool.split option.split)
  qed simp
  have ensure: "ensure_daemon (Suc fuel) enc env m \<noteq> None"
    if fuel: "2 * (N - dm_clock m) + 3 \<le> Suc fuel" for m
  proof -
    obtain b m1 where ch: "check_daemon env m = (b, m1)" by force
    then have clock: "dm_clock m \<le> dm_clock m1" by (rule check_daemon_clock)
    have "send_loop fuel enc env 2 f (spawned env m1) \<noteq> None" for f
    proof (cases "N \<le> dm_clock m1")
      case True
      from fuel obtain k where "fuel = Suc (Suc k)" by (metis add_2_eq_Suc' add_Suc_right le_Suc_ex numeral_3_eq_3 Suc_le_mono plus_1_eq_Suc add.commute)
      moreover have "dm_daemon (spawned env m1) = Some (dm_clock m1)" by (simp add: spawned_def)
      ultimately show ?thesis
        using send_healthy [OF healthy, of "spawned env m1"] True by simp
    next
      case False
      with clock fuel have "2 * (N - dm_clock (spawned env m1)) + 4 \<le> fuel" by simp
      with Suc show ?thesis by blast
    qed
    with ch show ?thesis
      by (cases b) (simp_all del: not_None_eq split: option.split)
  qed
  show ?case using send ensure by blast
qed

lemma send_frame_returns:
  assumes "healthy_from N env" and "2 * N + 4 \<le> fuel"
  shows "\<exists>r. send_frame fuel enc env f m = Some r \<and> grows m (snd r)"
proof -
  have "2 * (N - dm_clock m) + 4 \<le> fuel" using assms(2) by simp
  then have "send_loop fuel enc env 2 f m \<noteq> None"
    using send_ensure_returns [OF assms(1), of fuel enc] by blast
  then show ?thesis
    using send_frame_grows [of fuel enc env f m] by (auto simp: send_frame_def)
qed

lemma call_step_returns:
  assumes healthy: "healthy_from N env" and fuel: "2 * N + 4 \<le> fuel" and inv: "manager_inv m"
  shows "\<exists>m1. call_step fuel enc env c m = Some m1 \<and> manager_inv m1"
proof (cases c)
  case (NC_Add app i v)
  have deliver: "\<exists>m1. deliver fuel enc env n m0 = Some m1 \<and> manager_inv m1" if "manager_inv m0" for n m0
  proof -
    obtain b m1 where "send_frame fuel enc env (command_frame_new (Cmd_Notify n)) m0 = Some (b, m1)"
      "grows m0 m1"
      using send_frame_returns [OF healthy fuel] by fastforce
    with that show ?thesis
      by (cases b) (auto simp: deliver_def grows_def intro: inv_intros)
  qed
  have "\<exists>m1. notify fuel enc env n m = Some m1 \<and> manager_inv m1" for n
  proof (cases "MAX_TOTAL_IDS \<le> live_total (dm_live m)")
    case True
    with inv show ?thesis by (simp add: notify_def)
  next
    case False
    obtain ev l where tr: "live_track (nt_app_id n) (nt_id n) (dm_live m) = (ev, l)" by force
    have l: "manager_inv (m\<lparr>dm_live := l\<rparr>)"
      using live_track_inv [OF inv, of "nt_app_id n" "nt_id n"] False tr by simp
    show ?thesis
    proof (cases ev)
      case None
      with tr False deliver [OF l] show ?thesis by (simp add: notify_def)
    next
      case (Some e)
      obtain b m1 where sent: "send_frame fuel enc env (command_frame_new (Cmd_Close (nt_app_id n) e))
          (m\<lparr>dm_live := l\<rparr>) = Some (b, m1)" "grows (m\<lparr>dm_live := l\<rparr>) m1"
        using send_frame_returns [OF healthy fuel] by fastforce
      then have "manager_inv (forget_id (nt_app_id n) e m1)"
        using l by (auto simp: grows_def intro: inv_intros)
      from deliver [OF this] sent(1) tr False Some show ?thesis by (simp add: notify_def)
    qed
  qed
  with NC_Add inv show ?thesis
    by (cases "parse_notification app i v") (force simp: add_notification_def)+
next
  case (NC_Remove app i)
  have "manager_inv (close_notification enc env app i m)"
    using inv live_remove_inv [OF inv, of app i]
    by (auto simp: close_notification_def Let_def split: prod.split bool.split option.split intro!: inv_intros)
  with NC_Remove inv show ?thesis by (simp add: remove_notification_def)
next
  case (NC_Appearance a)
  obtain b m1 where "send_frame fuel enc env (command_frame_new (Cmd_Set_Appearance a))
      (m\<lparr>dm_appearance := Some a\<rparr>) = Some (b, m1)" "grows (m\<lparr>dm_appearance := Some a\<rparr>) m1"
    using send_frame_returns [OF healthy fuel] by fastforce
  with NC_Appearance inv show ?thesis by (auto simp: push_appearance_def Let_def grows_def)
qed

text \<open>
  C35: the bookkeeping of live notifications is bounded and the manager returns. Whatever
  notifications, withdrawals and appearance changes arrive, whatever the pump forgets meanwhile,
  and however often a daemon dies, cannot be written to or cannot be spawned before the daemons
  stay healthy, every call returns (within a recursion of twice the unhealthy answers plus
  four), at most 256 ids are tracked, at most 64 per application, each once, and no empty
  application entry stays behind.
\<close>

theorem live_ids_bounded:
  assumes "healthy_from N env" and "2 * N + 4 \<le> fuel"
  shows "\<exists>m. call_run fuel enc env cs manager_default = Some m
    \<and> live_total (dm_live m) \<le> MAX_TOTAL_IDS \<and> keys_distinct (dm_live m)
    \<and> list_all (\<lambda>(app, ids). ids \<noteq> [] \<and> distinct ids \<and> length ids \<le> MAX_IDS_PER_APP) (dm_live m)"
proof -
  have "\<exists>m1. call_run fuel enc env cs m = Some m1 \<and> manager_inv m1" if "manager_inv m" for m
    using that
  proof (induction cs arbitrary: m)
    case (Cons c cs)
    from call_step_returns [OF assms Cons.prems] obtain m1
      where "call_step fuel enc env c m = Some m1" "manager_inv m1" by blast
    with Cons.IH show ?case by simp
  qed simp
  from this [of manager_default] show ?thesis
    by (auto simp: manager_default_def live_inv_def live_total_def list_all_iff)
qed

theorem live_ids_bounded_witness:
  "\<exists>m. call_run 6 (\<lambda>f. Some ''{}'')
       \<lparr>de_pump = \<lambda>t. [], de_wait = \<lambda>t. if t = 0 then Wait_Exited else Wait_Running,
         de_write = \<lambda>t. 1 \<le> t, de_spawn = \<lambda>t. True\<rparr> [NC_Remove ''app'' ''1''] manager_default = Some m
     \<and> live_total (dm_live m) \<le> MAX_TOTAL_IDS"
proof -
  let ?env = "\<lparr>de_pump = \<lambda>t. [], de_wait = \<lambda>t. if t = 0 then Wait_Exited else Wait_Running,
         de_write = \<lambda>t. 1 \<le> t, de_spawn = \<lambda>t. True\<rparr>"
  have "healthy_from 1 ?env" by (simp add: healthy_from_def)
  then show ?thesis
    using live_ids_bounded [where N = 1 and env = ?env and fuel = 6 and enc = "\<lambda>f. Some ''{}''"
        and cs = "[NC_Remove ''app'' ''1'']"]
    by auto
qed

section \<open>What the daemon accepts\<close>

text \<open>
  A byte string in which every character has at most three continuation bytes, as in UTF-8.
\<close>

fun utf8_chars :: "string \<Rightarrow> bool" where
  "utf8_chars [] = True"
| "utf8_chars (c # cs) =
     (\<not> (0x80 \<le> byte_of c \<and> byte_of c \<le> 0xBF) \<and>
      (let tail = takeWhile (\<lambda>d. 0x80 \<le> byte_of d \<and> byte_of d \<le> 0xBF) cs
       in length tail \<le> 3 \<and> utf8_chars (drop (length tail) cs)))"

lemma utf8_length: "utf8_chars s \<Longrightarrow> length s \<le> 4 * char_count s"
proof (induction s rule: utf8_chars.induct)
  case (2 c cs)
  let ?cont = "\<lambda>d. 0x80 \<le> byte_of d \<and> byte_of d \<le> 0xBF"
  let ?tail = "takeWhile ?cont cs"
  have rest: "drop (length ?tail) cs = dropWhile ?cont cs" by (rule dropWhile_eq_drop [symmetric])
  have "length cs = length ?tail + length (dropWhile ?cont cs)"
    by (metis length_append takeWhile_dropWhile_id)
  moreover have "char_count cs = char_count ?tail + char_count (dropWhile ?cont cs)"
    unfolding char_count_def by (metis filter_append length_append takeWhile_dropWhile_id)
  moreover have "char_count ?tail = 0"
    unfolding char_count_def by (auto simp: filter_empty_conv dest: set_takeWhileD)
  moreover have "char_count (c # cs) = Suc (char_count cs)"
    using "2.prems" by (simp add: char_count_def)
  moreover have "length (dropWhile ?cont cs) \<le> 4 * char_count (dropWhile ?cont cs)"
    using "2.IH" "2.prems" by (simp add: Let_def rest)
  moreover have "length ?tail \<le> 3" using "2.prems" by (simp add: Let_def)
  ultimately show ?case by simp
qed simp

lemma ok_bounded_text: "is_ok (bounded_text name v limit) \<longleftrightarrow> v \<noteq> [] \<and> length v \<le> limit \<and> \<not> has_nul v"
  by (auto simp: bounded_text_def)

lemma ok_valid_id: "is_ok (valid_id v) \<Longrightarrow> v \<noteq> [] \<and> length v \<le> 255 \<and> \<not> has_nul v"
  using control_free_nul_free [of v] by (auto simp: valid_id_def NP_MAX_ID_BYTES_def)

lemma nonempty_Some [simp]: "nonempty s = Some t \<longleftrightarrow> s = Some t \<and> t \<noteq> []"
  by (auto simp: nonempty_def split: option.splits if_splits)

lemma then_check_Inr: "then_check a b = Inr x \<longleftrightarrow> is_ok a \<and> b = Inr x"
  by (cases a) auto

lemma parse_buttons_ok:
  "parse_buttons wire = Inr bs \<Longrightarrow> length bs \<le> length wire \<and>
   (\<forall>b \<in> set bs. is_ok (bounded_text x (nb_action b) 255) \<and> nb_label b \<noteq> [] \<and> \<not> has_nul (nb_label b))"
proof (induction wire arbitrary: bs)
  case (Cons w wire)
  then show ?case
    by (fastforce simp: then_check_Inr ok_bounded_text dest: ok_valid_id
        split: option.splits if_splits)
qed simp

text \<open>
  C36: the portal and its daemon agree on what a notification is, up to the length of a button
  label. A notification the portal accepts is accepted by the daemon's validation exactly when
  every button label has at most 256 bytes: its ids, title, body, default action and number of
  buttons always pass. The portal counts the label's characters instead.
\<close>

theorem accepted_notifications_pass_the_daemon:
  assumes parsed: "parse_notification app i m = Inr n"
    and utf8: "\<And>title. opt_get as_str m ''title'' = Some title \<Longrightarrow> utf8_chars title"
  shows "is_ok (check_command (Cmd_Notify n)) \<longleftrightarrow> (\<forall>b \<in> set (nt_buttons n). length (nb_label b) \<le> NS_MAX_LABEL_BYTES)"
proof -
  let ?title = "case_option [] id (opt_get as_str m ''title'')"
  let ?body = "notification_body m"
  from parsed have
    ids: "is_ok (valid_id app)" "is_ok (valid_id i)"
    and title: "char_count ?title \<le> 256" "\<not> has_nul ?title"
    and body: "length ?body \<le> 4096" "\<not> has_nul ?body"
    and shown: "\<not> (only_white ?title \<and> only_white ?body)"
    and action: "is_ok (check_opt valid_id (nt_default_action n))"
    and buttons: "notification_buttons m = Inr (nt_buttons n)"
    and n: "nt_app_id n = app" "nt_id n = i" "nt_title n = ?title" "nt_body n = ?body"
    by (auto simp: parse_notification_def Let_def then_check_Inr NP_MAX_TITLE_CHARS_def NP_MAX_BODY_BYTES_def)
  have "utf8_chars ?title" using utf8 by (cases "opt_get as_str m ''title''") auto
  then have "length ?title \<le> 1024" using utf8_length [of ?title] title(1) by linarith
  moreover have "length (nt_buttons n) \<le> 8 \<and> (\<forall>b \<in> set (nt_buttons n).
      is_ok (bounded_text x (nb_action b) 255) \<and> nb_label b \<noteq> [] \<and> \<not> has_nul (nb_label b))" for x
    using buttons
    by (auto simp: notification_buttons_def NP_MAX_BUTTONS_def split: option.splits if_splits
        dest: parse_buttons_ok [where x = x])
  moreover have "is_ok (check_opt (\<lambda>a. bounded_text ''default action'' a 255) (nt_default_action n))"
    using action by (auto simp: ok_bounded_text dest: ok_valid_id)
  ultimately show ?thesis
    using ok_valid_id [OF ids(1)] ok_valid_id [OF ids(2)] body shown title(2)
    by (auto simp: notification_validate_def n notify_limits ok_bounded_text)
qed

theorem accepted_notifications_pass_the_daemon_witness:
  "\<exists>n. parse_notification ''app'' ''1'' [(''title'', DV_Str ''Hello'')] = Inr n \<and> is_ok (check_command (Cmd_Notify n))"
proof -
  let ?m = "[(''title'', DV_Str ''Hello'')]"
  have "\<exists>n. parse_notification ''app'' ''1'' ?m = Inr n \<and> nt_buttons n = []"
    by (simp add: parse_notification_def valid_id_def guard_def NP_MAX_ID_BYTES_def byte_of_def Let_def opt_get_def
        notification_body_def char_count_def NP_MAX_TITLE_CHARS_def NP_MAX_BODY_BYTES_def white1_def white2_def
        white3_def nonempty_def notification_buttons_def)
  then obtain n where n: "parse_notification ''app'' ''1'' ?m = Inr n" "nt_buttons n = []" by blast
  have utf8: "utf8_chars title" if "opt_get as_str ?m ''title'' = Some title" for title
    using that by (auto simp: opt_get_def byte_of_def)
  from accepted_notifications_pass_the_daemon [OF n(1) utf8] n show ?thesis by auto
qed

section \<open>A daemon's death between two notifications\<close>

text \<open>
  When the daemon has died, the next notification is tracked first and then forgotten with the
  dead daemon's ids, although the new daemon shows it: it can no longer be withdrawn.
\<close>

lemma respawn_forgets_the_new_card:
  assumes env: "de_wait env 5 = Wait_Exited" "de_spawn env 6" "de_write env 7" "de_pump env = (\<lambda>t. [])"
    and m: "m = \<lparr>dm_daemon = Some 0, dm_live = [], dm_appearance = None, dm_lines = [], dm_clock = 5\<rparr>"
    and enc: "enc (command_frame_new (Cmd_Notify n)) = Some line"
  shows "notify (Suc (Suc fuel)) enc env n m = Some \<lparr>dm_daemon = Some 6, dm_live = [], dm_appearance = None,
      dm_lines = [(6, command_frame_new (Cmd_Notify n))], dm_clock = 8\<rparr>"
  using env enc
  by (simp add: m notify_def live_total_def MAX_TOTAL_IDS_def live_track_def ids_of_def MAX_IDS_PER_APP_def
      deliver_def send_frame_def encode_line_def check_daemon_def live_clear_def pump_removes_def
      drop_daemon_def tick_def spawned_def delivered_def Let_def)

end
