(* ===== verification/Text_Lines.thy ===== *)
theory Text_Lines
  imports Portal_Values
begin

text \<open>
  The operations of \<open>str\<close> the parsers use, on UTF-8 bytes: trimming, splitting, lines.
\<close>

section \<open>Trimming\<close>

fun trim_start :: "string \<Rightarrow> string" where
  "trim_start [] = []"
| "trim_start [c] = (if white1 c then [] else [c])"
| "trim_start [c, d] =
     (if white1 c then trim_start [d] else if white2 c d then [] else [c, d])"
| "trim_start (c # d # e # s) =
     (if white1 c then trim_start (d # e # s)
      else if white2 c d then trim_start (e # s)
      else if white3 c d e then trim_start s
      else c # d # e # s)"

text \<open>No white space character starts with a continuation byte, so every white suffix is cut.\<close>

fun trim_end :: "string \<Rightarrow> string" where
  "trim_end [] = []"
| "trim_end (c # s) = (if only_white (c # s) then [] else c # trim_end s)"

definition trim :: "string \<Rightarrow> string" where
  "trim s = trim_end (trim_start s)"

lemma trim_end_Nil: "trim_end s = [] \<longleftrightarrow> only_white s"
  by (cases s) auto

lemma only_white_trim_start: "only_white (trim_start s) = only_white s"
  by (induction s rule: trim_start.induct) auto

lemma trim_Nil: "trim s = [] \<longleftrightarrow> only_white s"
  by (simp add: trim_def trim_end_Nil only_white_trim_start)

lemma only_white_append: "only_white a \<Longrightarrow> only_white b \<Longrightarrow> only_white (a @ b)"
proof (induction a rule: only_white.induct)
  case 1
  then show ?case by simp
next
  case (2 c cs)
  show ?case
  proof (cases "white1 c")
    case True
    with 2 show ?thesis by simp
  next
    case False
    with 2(4) obtain d ds where cs: "cs = d # ds" by (cases cs) auto
    show ?thesis
    proof (cases "white2 c d")
      case True
      with 2 False cs show ?thesis by simp
    next
      case white2: False
      with 2(4) False cs obtain e es where ds: "ds = e # es" by (cases ds) auto
      from 2(4) have "white3 c d e" "only_white es" using False white2 cs ds by auto
      moreover have "only_white (es @ b)"
        using 2(3) [OF False cs white2 ds] \<open>only_white es\<close> 2(5) by blast
      ultimately show ?thesis using False white2 cs ds by simp
    qed
  qed
qed

lemma trim_end_suffix: "\<exists>w. s = trim_end s @ w \<and> only_white w"
proof (induction s)
  case Nil
  show ?case by simp
next
  case (Cons c s)
  show ?case
  proof (cases "only_white (c # s)")
    case True
    then show ?thesis by (intro exI [of _ "c # s"]) simp
  next
    case False
    from Cons.IH obtain w where w: "s = trim_end s @ w" "only_white w" by blast
    have "c # s = trim_end (c # s) @ w" using False w(1) by simp
    with w(2) show ?thesis by blast
  qed
qed

lemma trim_start_subset: "set (trim_start s) \<subseteq> set s"
  by (induction s rule: trim_start.induct) auto

lemma trim_end_subset: "set (trim_end s) \<subseteq> set s"
  by (induction s) auto

lemma trim_subset: "set (trim s) \<subseteq> set s"
  unfolding trim_def using trim_start_subset trim_end_subset by fast

lemma trim_end_idem: "trim_end (trim_end s) = trim_end s"
proof (induction s)
  case Nil
  show ?case by simp
next
  case (Cons c s)
  show ?case
  proof (cases "only_white (c # s)")
    case True
    then show ?thesis by simp
  next
    case False
    from trim_end_suffix [of s] obtain w where w: "s = trim_end s @ w" "only_white w" by blast
    have "\<not> only_white (c # trim_end s)"
    proof
      assume "only_white (c # trim_end s)"
      then have "only_white ((c # trim_end s) @ w)" using w(2) by (rule only_white_append)
      with False w(1) show False by simp
    qed
    with False Cons.IH show ?thesis by (simp del: only_white.simps)
  qed
qed

text \<open>What \<open>trim_start\<close> leaves alone: a string that does not start with a white character.\<close>

definition black_start :: "string \<Rightarrow> bool" where
  "black_start s \<longleftrightarrow>
     (case s of [] \<Rightarrow> True | c # cs \<Rightarrow> \<not> white1 c \<and>
        (case cs of [] \<Rightarrow> True | d # ds \<Rightarrow> \<not> white2 c d \<and>
           (case ds of [] \<Rightarrow> True | e # _ \<Rightarrow> \<not> white3 c d e)))"

lemma black_start_trim_start: "black_start (trim_start s)"
  by (induction s rule: trim_start.induct) (auto simp: black_start_def)

lemma trim_start_black: "black_start s \<Longrightarrow> trim_start s = s"
  by (cases s rule: trim_start.cases) (auto simp: black_start_def)

lemma black_start_prefix: "black_start (a @ b) \<Longrightarrow> black_start a"
  by (auto simp: black_start_def split: list.splits)

lemma trim_idem [simp]: "trim (trim s) = trim s"
proof -
  obtain w where "trim_start s = trim s @ w"
    using trim_end_suffix [of "trim_start s"] by (auto simp: trim_def)
  then have "black_start (trim s)"
    using black_start_trim_start [of s] by (metis black_start_prefix)
  then have "trim_start (trim s) = trim s" by (rule trim_start_black)
  then show ?thesis by (simp add: trim_def trim_end_idem)
qed

text \<open>White space behind a text does not change its trimming: no white character straddles the seam.\<close>

lemma white1_bytes: "white1 c \<Longrightarrow> byte_of c \<in> {9, 10, 11, 12, 13, 32}"
  by (simp add: white1_def)

lemma white2_bytes: "white2 c d \<Longrightarrow> byte_of c = 0xC2 \<and> byte_of d \<in> {0x85, 0xA0}"
  by (simp add: white2_def)

lemma white3_bytes:
  "white3 c d e \<Longrightarrow> byte_of c \<in> {0xE1, 0xE2, 0xE3} \<and> 0x80 \<le> byte_of d \<and> byte_of d < 0xC0
     \<and> 0x80 \<le> byte_of e \<and> byte_of e < 0xC0"
  by (auto simp: white3_def)

lemma only_white_cases [consumes 1, case_names white1 white2 white3]:
  assumes "only_white (c # s)"
  obtains "white1 c" "only_white s"
    | d t where "s = d # t" "white2 c d" "only_white t"
    | d e t where "s = d # e # t" "white3 c d e" "only_white t"
proof (cases "white1 c")
  case True
  then show thesis using assms that(1) by simp
next
  case no1: False
  with assms obtain d t where s: "s = d # t" by (cases s) auto
  show thesis
  proof (cases "white2 c d")
    case True
    then show thesis using assms no1 s that(2) by simp
  next
    case False
    with assms no1 s obtain e u where "t = e # u" by (cases t) auto
    then show thesis using assms no1 s False that(3) by simp
  qed
qed

lemma only_white_step:
  "white1 c \<Longrightarrow> only_white (c # s) = only_white s"
  "\<not> white1 c \<Longrightarrow> white2 c d \<Longrightarrow> only_white (c # d # s) = only_white s"
  "\<not> white1 c \<Longrightarrow> \<not> white2 c d \<Longrightarrow> only_white (c # d # e # s) = (white3 c d e \<and> only_white s)"
  by simp_all

lemma white_head: "only_white (c # s) \<Longrightarrow> byte_of c < 0x80 \<or> 0xC2 \<le> byte_of c"
  by (erule only_white_cases) (auto dest!: white1_bytes white2_bytes white3_bytes)

lemma white_bytes:
  "only_white s \<Longrightarrow> c \<in> set s \<Longrightarrow> byte_of c \<in> {9, 10, 11, 12, 13, 32} \<or> 0x80 \<le> byte_of c"
proof (induction s rule: length_induct)
  case (1 s)
  obtain x t where s: "s = x # t" using 1(3) by (cases s) auto
  from 1(2) have "only_white (x # t)" by (simp only: s)
  then show ?case
  proof (cases rule: only_white_cases)
    case white1
    with 1(1,3) s show ?thesis by (auto dest: white1_bytes)
  next
    case (white2 d u)
    then have "byte_of x = 0xC2" "byte_of d = 0x85 \<or> byte_of d = 0xA0"
      using white2_bytes by auto
    moreover have "c = x \<or> c = d \<or> c \<in> set u" using 1(3) s white2 by simp
    moreover have "length u < length s" using s white2 by simp
    ultimately show ?thesis using 1(1) white2(3) by auto
  next
    case (white3 d e u)
    then have "0x80 \<le> byte_of x" "0x80 \<le> byte_of d" "0x80 \<le> byte_of e"
      using white3_bytes [of x d e] by auto
    moreover have "c = x \<or> c = d \<or> c = e \<or> c \<in> set u" using 1(3) s white3 by auto
    moreover have "length u < length s" using s white3 by simp
    ultimately show ?thesis using 1(1) white3(3) by auto
  qed
qed

lemma no_straddle1:
  assumes "only_white w" and "\<not> white1 c"
  shows "black_start (c # w)"
proof (cases w)
  case (Cons d v)
  then have "byte_of d < 0x80 \<or> 0xC2 \<le> byte_of d" using assms(1) white_head by blast
  then have "\<not> white2 c d" "\<not> white3 c d e" for e
    using white2_bytes [of c d] white3_bytes [of c d e] by auto
  with Cons assms(2) show ?thesis by (simp add: black_start_def split: list.split)
qed (use assms in \<open>simp add: black_start_def\<close>)

lemma no_straddle2:
  assumes "only_white w" and "\<not> white1 c" and "\<not> white2 c d"
  shows "black_start (c # d # w)"
proof (cases w)
  case (Cons e v)
  then have "byte_of e < 0x80 \<or> 0xC2 \<le> byte_of e" using assms(1) white_head by blast
  then have "\<not> white3 c d e" using white3_bytes [of c d e] by auto
  with Cons assms show ?thesis by (simp add: black_start_def)
qed (use assms in \<open>simp add: black_start_def\<close>)

lemma black_not_white: "black_start s \<Longrightarrow> only_white s \<Longrightarrow> s = []"
  by (cases s rule: trim_start.cases) (auto simp: black_start_def)

lemma only_white_appendD: "only_white (a @ w) \<Longrightarrow> only_white w \<Longrightarrow> only_white a"
proof (induction a rule: trim_start.induct)
  case (2 c)
  show ?case
  proof (rule ccontr)
    assume "\<not> only_white [c]"
    then have "\<not> white1 c" by auto
    then have "black_start (c # w)" by (rule no_straddle1 [OF 2(2)])
    with 2 show False using black_not_white [of "c # w"] by simp
  qed
next
  case (3 c d)
  show ?case
  proof (cases "white1 c")
    case True
    then have "only_white ([d] @ w)" using "3.prems"(1) by simp
    then have "only_white [d]" using "3.IH"(1) True "3.prems"(2) by blast
    then show ?thesis by (simp only: only_white.simps True if_True)
  next
    case False
    show ?thesis
    proof (rule ccontr)
      assume "\<not> only_white [c, d]"
      with False have "\<not> white2 c d" by auto
      then have "black_start (c # d # w)" by (rule no_straddle2 [OF "3.prems"(2) False])
      with 3 show False using black_not_white [of "c # d # w"] by simp
    qed
  qed
next
  case (4 c d e s)
  consider "white1 c" | "\<not> white1 c" "white2 c d" | "\<not> white1 c" "\<not> white2 c d" by blast
  then show ?case using 4 by cases (simp_all del: only_white.simps add: only_white_step)
qed simp

lemma trim_end_append_white: "only_white w \<Longrightarrow> trim_end (s @ w) = trim_end s"
proof (induction s)
  case Nil
  then show ?case by (cases w) auto
next
  case (Cons c s)
  have "only_white (c # s @ w) = only_white (c # s)"
    using only_white_appendD [of "c # s" w] only_white_append [of "c # s" w] Cons.prems
    by (auto simp del: only_white.simps)
  with Cons show ?case by (simp del: only_white.simps)
qed

lemma trim_start_append_white:
  "\<not> only_white x \<Longrightarrow> only_white w \<Longrightarrow> trim_start (x @ w) = trim_start x @ w"
proof (induction x rule: trim_start.induct)
  case (2 c)
  then show ?case using trim_start_black [OF no_straddle1 [of w c]] by auto
next
  case (3 c d)
  show ?case
  proof (cases "white1 c")
    case True
    with 3 show ?thesis by (cases w) auto
  next
    case False
    with 3 have "\<not> white2 c d" by auto
    with 3 False show ?thesis using trim_start_black [OF no_straddle2 [of w c d]] by auto
  qed
qed auto

lemma trim_append_white: "only_white w \<Longrightarrow> trim (x @ w) = trim x"
proof (cases "only_white x")
  case True
  moreover assume "only_white w"
  ultimately show ?thesis
    using only_white_append [of x w] by (metis trim_Nil)
next
  case False
  moreover assume "only_white w"
  ultimately show ?thesis by (simp add: trim_def trim_start_append_white trim_end_append_white)
qed

lemma trim_end_at:
  assumes "byte_of c < 0x80" and "\<not> white1 c"
  shows "trim_end (a @ c # v) = a @ c # trim_end v"
proof -
  have no: "\<not> only_white (x @ c # v)" for x
    using white_bytes [of "x @ c # v" c] assms by (auto simp: white1_def)
  have "trim_end (c # v) = c # trim_end v" using no [of "[]"] by simp
  then show ?thesis
  proof (induction a)
    case (Cons d a)
    then show ?case using no [of "d # a"] by (simp del: only_white.simps)
  qed simp
qed

section \<open>Splitting\<close>

text \<open>\<open>split(c)\<close>: the parts between the separators, never none.\<close>

fun split_on :: "char \<Rightarrow> string \<Rightarrow> string list" where
  "split_on c [] = [[]]"
| "split_on c (x # xs) =
     (if x = c then [] # split_on c xs
      else (case split_on c xs of [] \<Rightarrow> [[x]] | p # ps \<Rightarrow> (x # p) # ps))"

text \<open>\<open>split_once(c)\<close>: around the first separator.\<close>

fun split_once :: "char \<Rightarrow> string \<Rightarrow> (string \<times> string) option" where
  "split_once c [] = None"
| "split_once c (x # xs) =
     (if x = c then Some ([], xs)
      else map_option (\<lambda>(a, b). (x # a, b)) (split_once c xs))"

text \<open>\<open>split_inclusive('\n')\<close>: every part keeps its newline; only the last may have none.\<close>

fun split_inclusive :: "string \<Rightarrow> string list" where
  "split_inclusive [] = []"
| "split_inclusive (x # xs) =
     (if x = CHR 0x0A then [x] # split_inclusive xs
      else (case split_inclusive xs of [] \<Rightarrow> [[x]] | p # ps \<Rightarrow> (x # p) # ps))"

definition strip_prefix :: "string \<Rightarrow> string \<Rightarrow> string option" where
  "strip_prefix p s = (if take (length p) s = p then Some (drop (length p) s) else None)"

definition strip_last :: "char \<Rightarrow> string \<Rightarrow> string option" where
  "strip_last c s = (if s \<noteq> [] \<and> last s = c then Some (butlast s) else None)"

definition unwrap_or :: "'a \<Rightarrow> 'a option \<Rightarrow> 'a" where
  "unwrap_or d x = (case x of None \<Rightarrow> d | Some y \<Rightarrow> y)"

lemma unwrap_or_simps [simp]: "unwrap_or d None = d" "unwrap_or d (Some x) = x"
  by (simp_all add: unwrap_or_def)

text \<open>\<open>lines()\<close>: a line ends with \<open>\n\<close> or \<open>\r\n\<close>.\<close>

definition strip_eol :: "string \<Rightarrow> string" where
  "strip_eol l =
     (case strip_last (CHR 0x0A) l of None \<Rightarrow> l | Some b \<Rightarrow> unwrap_or b (strip_last (CHR 0x0D) b))"

definition lines_of :: "string \<Rightarrow> string list" where
  "lines_of s = map strip_eol (split_inclusive s)"

lemma split_on_nonempty [simp]: "split_on c s \<noteq> []"
  by (cases s) (auto split: list.split)

lemma split_inclusive_concat [simp]: "concat (split_inclusive s) = s"
  by (induction s) (auto split: list.split)

lemma split_inclusive_parts: "l \<in> set (split_inclusive s) \<Longrightarrow> l \<noteq> []"
  by (induction s arbitrary: l) (auto split: list.splits if_splits)

lemma split_inclusive_Nil [simp]: "split_inclusive s = [] \<longleftrightarrow> s = []"
  by (cases s) (auto split: list.split)

lemma split_inclusive_append:
  "split_inclusive (a @ CHR 0x0A # b) = split_inclusive (a @ [CHR 0x0A]) @ split_inclusive b"
  by (induction a) (auto split: list.split)

lemma split_inclusive_line:
  "CHR 0x0A \<notin> set l \<Longrightarrow> split_inclusive (l @ CHR 0x0A # s) = (l @ [CHR 0x0A]) # split_inclusive s"
  by (induction l) auto

lemma split_once_Some: "split_once c s = Some (a, b) \<longleftrightarrow> s = a @ c # b \<and> c \<notin> set a"
proof (induction s arbitrary: a)
  case Nil
  show ?case by simp
next
  case (Cons x s)
  show ?case using Cons.IH by (cases a) auto
qed

lemma split_once_None: "split_once c s = None \<longleftrightarrow> c \<notin> set s"
  by (induction s) auto

lemma split_on_plain: "c \<notin> set s \<Longrightarrow> split_on c s = [s]"
  by (induction s) auto

lemma split_on_append: "c \<notin> set a \<Longrightarrow> split_on c (a @ c # b) = a # split_on c b"
  by (induction a) auto

lemma split_on_snoc_plain:
  "c \<notin> set w \<Longrightarrow> split_on c (x @ w) = butlast (split_on c x) @ [last (split_on c x) @ w]"
proof (induction x)
  case Nil
  then show ?case by (simp add: split_on_plain)
next
  case (Cons a x)
  then show ?case by (cases "split_on c x") (auto split: list.split)
qed

section \<open>Characters\<close>

definition continuation :: "char \<Rightarrow> bool" where
  "continuation c \<longleftrightarrow> 0x80 \<le> byte_of c \<and> byte_of c \<le> 0xBF"

text \<open>\<open>chars()\<close>: a character is its bytes.\<close>

function char_groups :: "string \<Rightarrow> string list" where
  "char_groups [] = []"
| "char_groups (c # cs) = (c # takeWhile continuation cs) # char_groups (dropWhile continuation cs)"
  by pat_completeness auto
termination
  by (relation "measure length") (auto simp: less_Suc_eq_le length_dropWhile_le)

text \<open>
  \<open>String::from_utf8\<close>: the bytes a character may continue with after its first byte, as the range of
  the second byte and the number of continuation bytes.
\<close>

definition utf8_lead :: "char \<Rightarrow> (nat \<times> nat \<times> nat) option" where
  "utf8_lead c =
     (let b = byte_of c in
      if b < 0x80 then Some (0, 0, 0)
      else if 0xC2 \<le> b \<and> b \<le> 0xDF then Some (0x80, 0xBF, 1)
      else if b = 0xE0 then Some (0xA0, 0xBF, 2)
      else if b = 0xED then Some (0x80, 0x9F, 2)
      else if 0xE1 \<le> b \<and> b \<le> 0xEF then Some (0x80, 0xBF, 2)
      else if b = 0xF0 then Some (0x90, 0xBF, 3)
      else if 0xF1 \<le> b \<and> b \<le> 0xF3 then Some (0x80, 0xBF, 3)
      else if b = 0xF4 then Some (0x80, 0x8F, 3)
      else None)"

function utf8_valid :: "string \<Rightarrow> bool" where
  "utf8_valid [] = True"
| "utf8_valid (c # cs) =
     (case utf8_lead c of
        None \<Rightarrow> False
      | Some (lo, hi, n) \<Rightarrow>
          n \<le> length cs \<and> list_all continuation (take n cs)
          \<and> (n = 0 \<or> lo \<le> byte_of (hd cs) \<and> byte_of (hd cs) \<le> hi)
          \<and> utf8_valid (drop n cs))"
  by pat_completeness auto
termination
  by (relation "measure length") auto

lemma char_groups_concat [simp]: "concat (char_groups s) = s"
  by (induction s rule: char_groups.induct) auto

section \<open>Hexadecimal digits and percent escapes\<close>

definition hex_digit :: "nat \<Rightarrow> char" where
  "hex_digit n = (if n < 10 then char_of (48 + n) else char_of (55 + n))"

definition hex_val :: "char \<Rightarrow> nat option" where
  "hex_val c =
     (let b = byte_of c in
      if 48 \<le> b \<and> b \<le> 57 then Some (b - 48)
      else if 97 \<le> b \<and> b \<le> 102 then Some (b - 87)
      else if 65 \<le> b \<and> b \<le> 70 then Some (b - 55)
      else None)"

lemma byte_of_lt: "byte_of c < 256"
  unfolding byte_of_def by simp

lemma byte_of_char_of [simp]: "n < 256 \<Longrightarrow> byte_of (char_of n) = n"
  by (simp add: byte_of_def)

lemma char_of_byte_of [simp]: "char_of (byte_of c) = c"
  by (simp add: byte_of_def)

lemma hex_val_digit: "n < 16 \<Longrightarrow> hex_val (hex_digit n) = Some n"
  by (auto simp: hex_val_def hex_digit_def Let_def)

text \<open>\<open>String::from_utf8\<close>: the well-formed byte sequences of UTF-8.\<close>

definition cont_in :: "nat \<Rightarrow> nat \<Rightarrow> char \<Rightarrow> bool" where
  "cont_in lo hi c \<longleftrightarrow> lo \<le> byte_of c \<and> byte_of c \<le> hi"

fun valid_utf8 :: "string \<Rightarrow> bool" where
  "valid_utf8 [] = True"
| "valid_utf8 (c # cs) =
     (let b = byte_of c in
      if b < 0x80 then valid_utf8 cs
      else if 0xC2 \<le> b \<and> b \<le> 0xDF then
        (case cs of d # ds \<Rightarrow> cont_in 0x80 0xBF d \<and> valid_utf8 ds | _ \<Rightarrow> False)
      else if 0xE0 \<le> b \<and> b \<le> 0xEF then
        (case cs of
           d # e # es \<Rightarrow>
             cont_in (if b = 0xE0 then 0xA0 else 0x80) (if b = 0xED then 0x9F else 0xBF) d
             \<and> cont_in 0x80 0xBF e \<and> valid_utf8 es
         | _ \<Rightarrow> False)
      else if 0xF0 \<le> b \<and> b \<le> 0xF4 then
        (case cs of
           d # e # f # fs \<Rightarrow>
             cont_in (if b = 0xF0 then 0x90 else 0x80) (if b = 0xF4 then 0x8F else 0xBF) d
             \<and> cont_in 0x80 0xBF e \<and> cont_in 0x80 0xBF f \<and> valid_utf8 fs
         | _ \<Rightarrow> False)
      else False)"

end
