(* ===== verification/Portal_Files.thy ===== *)
theory Portal_Files
  imports Text_Lines
begin

text \<open>
  \<open>crates/xdg-desktop-portal-atrium/src/files.rs\<close>: the capture cache directory, the atomic write,
  and \<open>file://\<close> URIs. A path is its bytes; a file system maps paths to contents, and every system
  call of the write has its fault as a parameter.
\<close>

section \<open>Directories\<close>

definition filled :: "string option \<Rightarrow> string option" where
  "filled v = (case v of None \<Rightarrow> None | Some s \<Rightarrow> if s = [] then None else Some s)"

definition cache_dir_from :: "string option \<Rightarrow> string option \<Rightarrow> string option" where
  "cache_dir_from cache runtime =
     map_option (\<lambda>base. path_join base ''xdg-desktop-portal-atrium'')
       (case filled cache of None \<Rightarrow> filled runtime | Some d \<Rightarrow> Some d)"

section \<open>The atomic write\<close>

type_synonym file_system = "string \<Rightarrow> string option"

text \<open>
  The answers of the operating system: faults of each call, the owner and kind of the opened
  directory, its mode after the change, and how much of a faulty write reached the file.
\<close>

record write_env =
  we_mkdir :: "io_error option"
  we_open_dir :: "io_error option"
  we_is_dir :: bool
  we_owner :: nat
  we_uid :: nat
  we_chmod :: "io_error option"
  we_stat :: "io_error option"
  we_mode :: nat
  we_create :: "io_error option"
  we_write :: "io_error option"
  we_written :: nat
  we_sync :: "io_error option"
  we_rename :: "io_error option"
  we_dir_sync :: "io_error option"
  we_remove_ok :: bool

definition open_owned_dir :: "write_env \<Rightarrow> io_error + unit" where
  "open_owned_dir env =
     (case we_open_dir env of
        Some e \<Rightarrow> Inl e
      | None \<Rightarrow> guard (\<not> we_is_dir env \<or> we_owner env \<noteq> we_uid env) Io_PermissionDenied)"

text \<open>Everything before the temporary file: the directory exists, is owned and private.\<close>

definition prepare_dir :: "write_env \<Rightarrow> io_error + unit" where
  "prepare_dir env =
     (case we_mkdir env of
        Some e \<Rightarrow> Inl e
      | None \<Rightarrow>
          then_check (open_owned_dir env)
           (case we_chmod env of
              Some e \<Rightarrow> Inl e
            | None \<Rightarrow>
                (case we_stat env of
                   Some e \<Rightarrow> Inl e
                 | None \<Rightarrow> guard (we_mode env mod 0x1000 \<noteq> 0x1C0) Io_PermissionDenied)))"

text \<open>
  The steps on the file system, in order; the list is what a reader can observe after each of
  them, and the result is the closure's.
\<close>

definition write_steps ::
  "write_env \<Rightarrow> string \<Rightarrow> string \<Rightarrow> string \<Rightarrow> file_system \<Rightarrow> (io_error + unit) \<times> file_system list" where
  "write_steps env temporary final bytes fs =
     (case we_create env of
        Some e \<Rightarrow> (Inl e, [fs])
      | None \<Rightarrow>
          let fs1 = fs(temporary \<mapsto> []) in
          (case we_write env of
             Some e \<Rightarrow> (Inl e, [fs, fs1, fs1(temporary \<mapsto> take (we_written env) bytes)])
           | None \<Rightarrow>
               let fs2 = fs1(temporary \<mapsto> bytes) in
               (case we_sync env of
                  Some e \<Rightarrow> (Inl e, [fs, fs1, fs2])
                | None \<Rightarrow>
                    (case we_rename env of
                       Some e \<Rightarrow> (Inl e, [fs, fs1, fs2])
                     | None \<Rightarrow>
                         let fs3 = fs2(final \<mapsto> bytes, temporary := None) in
                         (case we_dir_sync env of
                            Some e \<Rightarrow> (Inl e, [fs, fs1, fs2, fs3])
                          | None \<Rightarrow> (Inr (), [fs, fs1, fs2, fs3]))))))"

definition write_atomic ::
  "write_env \<Rightarrow> string \<Rightarrow> string \<Rightarrow> string \<Rightarrow> string \<Rightarrow> file_system \<Rightarrow> (io_error + string) \<times> file_system list" where
  "write_atomic env suffix dir name bytes fs =
     (case prepare_dir env of
        Inl e \<Rightarrow> (Inl e, [fs])
      | Inr _ \<Rightarrow>
          let final = path_join dir name;
              temporary = path_join dir (''.'' @ name @ ''.'' @ suffix @ ''.tmp'')
          in case write_steps env temporary final bytes fs of
               (Inr _, trace) \<Rightarrow> (Inr final, trace)
             | (Inl e, trace) \<Rightarrow>
                 (Inl e, if we_remove_ok env then trace @ [(last trace)(temporary := None)] else trace))"

text \<open>\<open>remove_owned_dir\<close>: a missing directory is not an error.\<close>

definition remove_owned_dir :: "write_env \<Rightarrow> io_error option \<Rightarrow> io_error + unit" where
  "remove_owned_dir env remove_fault =
     (case open_owned_dir env of
        Inr _ \<Rightarrow> (case remove_fault of None \<Rightarrow> Inr () | Some e \<Rightarrow> Inl e)
      | Inl Io_NotFound \<Rightarrow> Inr ()
      | Inl e \<Rightarrow> Inl e)"

definition random_suffix :: "u8 list \<Rightarrow> string" where
  "random_suffix bytes =
     concat (map (\<lambda>b. let lower = (\<lambda>n. if n < 10 then char_of (48 + n) else char_of (87 + n))
                      in [lower (unat b div 16), lower (unat b mod 16)]) bytes)"

definition capture_name :: "string \<Rightarrow> string \<Rightarrow> string \<Rightarrow> string" where
  "capture_name millis token nonce = ''screenshot-'' @ millis @ ''-'' @ token @ ''-'' @ nonce @ ''.png''"

definition write_capture ::
  "write_env \<Rightarrow> u8 list \<Rightarrow> u8 list \<Rightarrow> string \<Rightarrow> string \<Rightarrow> string \<Rightarrow> string \<Rightarrow> file_system
     \<Rightarrow> (io_error + string) \<times> file_system list" where
  "write_capture env r1 r2 millis dir token png fs =
     write_atomic env (random_suffix r2) dir (capture_name millis token (random_suffix r1)) png fs"

text \<open>\<open>Path::file_name\<close>.\<close>

definition file_name_of :: "string \<Rightarrow> string option" where
  "file_name_of p =
     (case path_components p of
        [] \<Rightarrow> None
      | cs \<Rightarrow> (case last cs of Normal_Comp n \<Rightarrow> Some n | _ \<Rightarrow> None))"

section \<open>file URIs\<close>

definition unreserved_path_byte :: "char \<Rightarrow> bool" where
  "unreserved_path_byte c \<longleftrightarrow>
     (let b = byte_of c in
      65 \<le> b \<and> b \<le> 90 \<or> 97 \<le> b \<and> b \<le> 122 \<or> 48 \<le> b \<and> b \<le> 57
      \<or> c \<in> {CHR ''/'', CHR ''-'', CHR ''.'', CHR ''_'', CHR ''~''})"

definition escape_byte :: "char \<Rightarrow> string" where
  "escape_byte c =
     (if unreserved_path_byte c then [c]
      else [CHR ''%'', hex_digit (byte_of c div 16), hex_digit (byte_of c mod 16)])"

definition file_uri :: "string \<Rightarrow> string" where
  "file_uri path = ''file://'' @ concat (map escape_byte path)"

fun unescape :: "string \<Rightarrow> string option" where
  "unescape [] = Some []"
| "unescape (c # cs) =
     (if c \<noteq> CHR ''%'' then map_option ((#) c) (unescape cs)
      else (case cs of
              h # l # rest \<Rightarrow>
                (case (hex_val h, hex_val l) of
                   (Some a, Some b) \<Rightarrow> map_option ((#) (char_of (a * 16 + b))) (unescape rest)
                 | _ \<Rightarrow> None)
            | _ \<Rightarrow> None))"

definition uri_rest :: "string \<Rightarrow> string option" where
  "uri_rest uri =
     (case strip_prefix ''file://localhost/'' uri of
        Some p \<Rightarrow> Some (''/'' @ p)
      | None \<Rightarrow> strip_prefix ''file://'' uri)"

definition path_from_file_uri :: "string \<Rightarrow> string option" where
  "path_from_file_uri uri =
     (case uri_rest uri of
        None \<Rightarrow> None
      | Some rest \<Rightarrow>
          if rest = [] \<or> hd rest \<noteq> CHR ''/'' then None
          else (case unescape rest of
                  None \<Rightarrow> None
                | Some bytes \<Rightarrow> if has_nul bytes then None else Some bytes))"

section \<open>Lemmas\<close>

lemma hex_digit_not_percent: "n < 16 \<Longrightarrow> hex_digit n \<noteq> CHR ''%''"
  by (drule hex_val_digit) (auto simp: hex_val_def byte_of_def)

lemma unescape_escape: "unescape (escape_byte c @ s) = map_option ((#) c) (unescape s)"
proof (cases "unreserved_path_byte c")
  case True
  then have "c \<noteq> CHR ''%''" by (auto simp: unreserved_path_byte_def byte_of_def)
  with True show ?thesis by (simp add: escape_byte_def)
next
  case False
  have "byte_of c div 16 < 16" using byte_of_lt [of c] by simp
  moreover have "byte_of c div 16 * 16 + byte_of c mod 16 = byte_of c" by simp
  ultimately show ?thesis using False by (simp add: escape_byte_def hex_val_digit)
qed

lemma unescape_concat: "unescape (concat (map escape_byte p)) = Some p"
  by (induction p) (simp_all add: unescape_escape)

lemma unescape_head: "unescape (CHR ''/'' # s) = Some p \<Longrightarrow> p \<noteq> [] \<and> hd p = CHR ''/''"
  by auto

lemma path_from_file_uri_shape:
  assumes "path_from_file_uri uri = Some p"
  shows "p \<noteq> [] \<and> hd p = CHR ''/'' \<and> \<not> has_nul p"
proof -
  from assms obtain rest where "rest \<noteq> []" "hd rest = CHR ''/''" "unescape rest = Some p" "\<not> has_nul p"
    by (auto simp: path_from_file_uri_def split: option.splits if_splits)
  then show ?thesis using unescape_head [of "tl rest" p] by (cases rest) auto
qed

lemma path_from_file_uri_absolute: "path_from_file_uri uri = Some p \<Longrightarrow> path_is_absolute p"
  by (drule path_from_file_uri_shape) (cases p; simp add: path_is_absolute_def)

lemma path_of_file_uri:
  assumes p: "p \<noteq> []" "hd p = CHR ''/''" "\<not> has_nul p"
  shows "path_from_file_uri (file_uri p) = Some p"
proof -
  obtain q where q: "p = CHR ''/'' # q" using p by (cases p) auto
  have slash: "escape_byte (CHR ''/'') = ''/''" by (simp add: escape_byte_def unreserved_path_byte_def)
  then have uri: "file_uri p = ''file:///'' @ concat (map escape_byte q)" by (simp add: file_uri_def q)
  have "uri_rest (file_uri p) = Some (''/'' @ concat (map escape_byte q))"
    unfolding uri by (simp add: uri_rest_def strip_prefix_def)
  moreover have "unescape (''/'' @ concat (map escape_byte q)) = Some p"
    using unescape_concat [of p] by (simp add: q slash)
  ultimately show ?thesis using p by (simp add: path_from_file_uri_def del: unescape.simps)
qed

text \<open>
  C99: file URIs round-trip. Every absolute path without NUL bytes, whatever its other bytes, is
  rendered to a URI that resolves back to exactly that path; and every URI that resolves at all
  resolves to such a path, so its canonical URI resolves to the same file.
\<close>

theorem file_uri_round_trip:
  "(p \<noteq> [] \<and> hd p = CHR ''/'' \<and> \<not> has_nul p \<longrightarrow> path_from_file_uri (file_uri p) = Some p)
   \<and> (path_from_file_uri uri = Some p
       \<longrightarrow> p \<noteq> [] \<and> hd p = CHR ''/'' \<and> \<not> has_nul p \<and> path_from_file_uri (file_uri p) = Some p)"
  using path_of_file_uri path_from_file_uri_shape by blast

theorem file_uri_round_trip_witness:
  "path_from_file_uri (file_uri ''/tmp/a b%'') = Some ''/tmp/a b%''"
  using file_uri_round_trip [where p = "''/tmp/a b%''" and uri = "[]"] by simp

text \<open>What a reader of the final path can see during and after an atomic write.\<close>

lemma write_steps_trace:
  assumes "temporary \<noteq> final" and "write_steps env temporary final bytes fs = (r, trace)"
  shows "trace \<noteq> [] \<and> (\<forall>s \<in> set trace. s final = fs final \<or> s final = Some bytes)
    \<and> (\<forall>s \<in> set trace. \<forall>p. p \<noteq> final \<longrightarrow> p \<noteq> temporary \<longrightarrow> s p = fs p)
    \<and> (is_ok r \<longrightarrow> (last trace) final = Some bytes \<and> (last trace) temporary = None)"
  using assms by (auto simp: write_steps_def Let_def split: option.splits)

lemma write_atomic_trace:
  assumes apart: "path_join dir (''.'' @ name @ ''.'' @ suffix @ ''.tmp'') \<noteq> path_join dir name"
    and run: "write_atomic env suffix dir name bytes fs = (r, trace)"
  shows "trace \<noteq> [] \<and> (\<forall>s \<in> set trace. s (path_join dir name) = fs (path_join dir name)
        \<or> s (path_join dir name) = Some bytes)
    \<and> (r = Inr (path_join dir name) \<and> (last trace) (path_join dir name) = Some bytes \<or> \<not> is_ok r)"
proof (cases "prepare_dir env")
  case (Inl e)
  with run show ?thesis by (auto simp: write_atomic_def)
next
  case (Inr u)
  let ?final = "path_join dir name"
  let ?tmp = "path_join dir (''.'' @ name @ ''.'' @ suffix @ ''.tmp'')"
  obtain q tr where steps: "write_steps env ?tmp ?final bytes fs = (q, tr)" by force
  note tr = write_steps_trace [OF apart steps]
  then have "last tr \<in> set tr" by simp
  with tr apart have l: "((last tr)(?tmp := None)) ?final = fs ?final \<or> ((last tr)(?tmp := None)) ?final = Some bytes"
    by (metis fun_upd_other)
  show ?thesis
  proof (cases q)
    case (Inl e)
    then have "trace = (if we_remove_ok env then tr @ [(last tr)(?tmp := None)] else tr)" "r = Inl e"
      using run steps \<open>prepare_dir env = Inr u\<close> by (auto simp: write_atomic_def Let_def)
    then show ?thesis using tr l by (cases "we_remove_ok env") auto
  next
    case (Inr v)
    then have "trace = tr" "r = Inr ?final"
      using run steps \<open>prepare_dir env = Inr u\<close> by (simp_all add: write_atomic_def Let_def)
    then show ?thesis using tr Inr by simp
  qed
qed

end
