(* ===== verification/Desktop_Entries.thy ===== *)
theory Desktop_Entries
  imports Text_Lines
begin

text \<open>
  \<open>crates/xdg-desktop-portal-atrium/src/apps/desktop.rs\<close>: the validity of desktop ids and content
  types, the grouped lists of \<open>mimeapps.list\<close> and \<open>mimeinfo.cache\<close>, the \<open>globs2\<close> database, the glob
  matcher and the desktop entry parser. Files are read through \<open>fs\<close> (\<open>None\<close>: it cannot be opened or
  read); the lossy decoding of their bytes is the identity on UTF-8 and otherwise a parameter.
\<close>

definition MAX_ENTRY_BYTES :: nat where "MAX_ENTRY_BYTES = 256 * 1024"
definition MAX_LISTED_APPS :: nat where "MAX_LISTED_APPS = 64"
definition MAX_ENTRIES_PER_DIR :: nat where "MAX_ENTRIES_PER_DIR = 1024"
definition MAX_GLOBS_BYTES :: nat where "MAX_GLOBS_BYTES = 1024 * 1024"
definition MAX_GLOBS :: nat where "MAX_GLOBS = 16 * 1024"
definition MAX_EXEC_BYTES :: nat where "MAX_EXEC_BYTES = 8 * 1024"
definition APPS_MAX_ID_BYTES :: nat where "APPS_MAX_ID_BYTES = 256"
definition MAX_LAUNCH_URIS :: nat where "MAX_LAUNCH_URIS = 256"

section \<open>Names\<close>

definition valid_desktop_id :: "string \<Rightarrow> bool" where
  "valid_desktop_id i \<longleftrightarrow> i \<noteq> [] \<and> length i \<le> APPS_MAX_ID_BYTES
     \<and> CHR ''/'' \<notin> set i \<and> CHR 0x5C \<notin> set i \<and> \<not> has_nul i \<and> CHR 0x0A \<notin> set i"

definition valid_content_type :: "string \<Rightarrow> bool" where
  "valid_content_type t \<longleftrightarrow>
     (case split_on (CHR ''/'') t of
        [kind, subtype] \<Rightarrow>
          length t \<le> APPS_MAX_ID_BYTES \<and> \<not> has_nul t \<and> CHR 0x0A \<notin> set t
          \<and> \<not> only_white kind \<and> \<not> only_white subtype
      | _ \<Rightarrow> False)"

section \<open>Reading\<close>

type_synonym files = "string \<Rightarrow> string option"

definition read_capped :: "nat \<Rightarrow> (string \<Rightarrow> string) \<Rightarrow> files \<Rightarrow> string \<Rightarrow> string option" where
  "read_capped cap lossy fs path =
     (case fs path of None \<Rightarrow> None | Some bytes \<Rightarrow> if cap < length bytes then None else Some (lossy bytes))"

text \<open>A line \<open>[header]\<close>, its end trimmed.\<close>

definition header_of :: "string \<Rightarrow> string option" where
  "header_of line =
     (case strip_prefix ''['' line of None \<Rightarrow> None | Some inner \<Rightarrow> map_option trim (strip_last (CHR '']'') inner))"

definition list_items :: "string \<Rightarrow> string list" where
  "list_items value = filter (\<lambda>i. i \<noteq> []) (map trim (split_on (CHR '';'') value))"

section \<open>Grouped lists\<close>

type_synonym grouped = "(string \<times> (string \<times> string list) list) list"

definition put_grouped :: "string \<Rightarrow> string \<Rightarrow> string list \<Rightarrow> grouped \<Rightarrow> grouped" where
  "put_grouped grp key ids m =
     AList.update grp (AList.update key ids (unwrap_or [] (map_of m grp))) m"

definition grouped_line :: "string \<Rightarrow> string \<times> grouped \<Rightarrow> string \<times> grouped" where
  "grouped_line raw st =
     (case st of (grp, m) \<Rightarrow>
        let line = trim_end raw in
        case header_of line of
          Some name \<Rightarrow> (name, m)
        | None \<Rightarrow>
            if grp = [] \<or> take 1 line = ''#'' then (grp, m)
            else (case split_once (CHR ''='') line of
                    None \<Rightarrow> (grp, m)
                  | Some (k, value) \<Rightarrow>
                      let key = trim k in
                      if key = [] \<or> CHR ''['' \<in> set key then (grp, m)
                      else (grp, put_grouped grp key (list_items value) m)))"

definition parse_grouped_text :: "string \<Rightarrow> grouped" where
  "parse_grouped_text text_bytes = snd (fold grouped_line (lines_of text_bytes) ([], []))"

definition parse_grouped_lists :: "(string \<Rightarrow> string) \<Rightarrow> files \<Rightarrow> string \<Rightarrow> grouped" where
  "parse_grouped_lists lossy fs path =
     (case read_capped MAX_ENTRY_BYTES lossy fs path of None \<Rightarrow> [] | Some s \<Rightarrow> parse_grouped_text s)"

definition grouped_get :: "grouped \<Rightarrow> string \<Rightarrow> string \<Rightarrow> string list option" where
  "grouped_get m grp key = Option.bind (map_of m grp) (\<lambda>g. map_of g key)"

section \<open>The glob database\<close>

definition digit_val :: "char \<Rightarrow> nat option" where
  "digit_val c = (if 48 \<le> byte_of c \<and> byte_of c \<le> 57 then Some (byte_of c - 48) else None)"

text \<open>\<open>parse::<u32>()\<close>: an optional plus sign, then digits, within the type.\<close>

definition parse_u32 :: "string \<Rightarrow> nat option" where
  "parse_u32 s =
     (let d = unwrap_or s (strip_prefix ''+'' s) in
      case all_some digit_val d of
        None \<Rightarrow> None
      | Some ds \<Rightarrow>
          let n = foldl (\<lambda>a x. 10 * a + x) 0 ds in if d = [] \<or> 2 ^ 32 \<le> n then None else Some n)"

type_synonym glob_rule = "nat \<times> string \<times> string \<times> bool"

definition globs2_line :: "string \<Rightarrow> glob_rule list \<Rightarrow> glob_rule list" where
  "globs2_line line globs =
     (if take 1 line = ''#'' \<or> only_white line then globs
      else case split_once (CHR '':'') line of
        None \<Rightarrow> globs
      | Some (prio, rest) \<Rightarrow>
          (case parse_u32 (trim prio) of
             None \<Rightarrow> globs
           | Some n \<Rightarrow>
               (case split_once (CHR '':'') rest of
                  None \<Rightarrow> globs
                | Some (glob, rest2) \<Rightarrow>
                    let (mime, flags) = unwrap_or (rest2, []) (split_once (CHR '':'') rest2) in
                    if glob = [] \<or> mime = [] \<or> MAX_GLOBS \<le> length globs then globs
                    else globs @ [(n, glob, mime, list_ex (\<lambda>f. trim f = ''cs'') (split_on (CHR '','') flags))])))"

definition parse_globs2 :: "(string \<Rightarrow> string) \<Rightarrow> files \<Rightarrow> string \<Rightarrow> glob_rule list" where
  "parse_globs2 lossy fs path =
     (case read_capped MAX_GLOBS_BYTES lossy fs path of
        None \<Rightarrow> [] | Some s \<Rightarrow> fold globs2_line (lines_of s) [])"

section \<open>Glob matching\<close>

abbreviation any_char :: string where "any_char \<equiv> ''?''"
abbreviation any_run :: string where "any_run \<equiv> ''*''"

text \<open>
  The matcher's loop over characters. The indices of the code are the rests of the pattern and
  the text; \<open>star\<close> is the rest behind the last star and the text its current attempt began at.
\<close>

function glob_loop ::
  "string list \<Rightarrow> string list \<Rightarrow> (string list \<times> string list) option \<Rightarrow> bool" where
  "glob_loop p [] star = list_all (\<lambda>q. q = any_run) p"
| "glob_loop p (c # t) star =
     (if p \<noteq> [] \<and> (hd p = any_char \<or> hd p = c) then glob_loop (tl p) t star
      else if p \<noteq> [] \<and> hd p = any_run then glob_loop (tl p) (c # t) (Some (tl p, c # t))
      else (case star of
              None \<Rightarrow> False
            | Some (sp, []) \<Rightarrow> False
            | Some (sp, x # st) \<Rightarrow> glob_loop sp st (Some (sp, st))))"
  by pat_completeness auto
termination
proof (relation "measures
    [\<lambda>(p, t, star). case star of None \<Rightarrow> Suc (length p) | Some (sp, _) \<Rightarrow> max (length sp) (length p),
     \<lambda>(p, t, star). case star of None \<Rightarrow> 0 | Some (_, st) \<Rightarrow> length st,
     \<lambda>(p, t, star). length t]")
qed (auto split: option.split simp: less_max_iff_disj neq_Nil_conv)

definition glob_fold :: "(string \<Rightarrow> string) \<Rightarrow> bool \<Rightarrow> string \<Rightarrow> string list" where
  "glob_fold lower cs s = char_groups (if cs then s else lower s)"

definition glob_matches :: "(string \<Rightarrow> string) \<Rightarrow> string \<Rightarrow> string \<Rightarrow> bool \<Rightarrow> bool" where
  "glob_matches lower glob name cs = glob_loop (glob_fold lower cs glob) (glob_fold lower cs name) None"

section \<open>Desktop entries\<close>

record app_info =
  ai_id :: string
  ai_name :: string
  ai_exec :: string
  ai_icon :: "string option"
  ai_terminal :: bool
  ai_no_display :: bool
  ai_mime_types :: "string list"

record entry_state =
  es_in_entry :: bool
  es_name :: "string option"
  es_exec :: "string option"
  es_icon :: "string option"
  es_no_display :: bool
  es_terminal :: bool
  es_mime_types :: "string list"

definition entry_init :: entry_state where
  "entry_init = \<lparr>es_in_entry = False, es_name = None, es_exec = None, es_icon = None,
     es_no_display = False, es_terminal = False, es_mime_types = []\<rparr>"

definition entry_key :: "string \<Rightarrow> string \<Rightarrow> entry_state \<Rightarrow> entry_state option" where
  "entry_key key value s =
     (if key = ''Name'' then Some (s\<lparr>es_name := Some value\<rparr>)
      else if key = ''Exec'' \<and> length value \<le> MAX_EXEC_BYTES then Some (s\<lparr>es_exec := Some value\<rparr>)
      else if key = ''Icon'' \<and> value \<noteq> [] then Some (s\<lparr>es_icon := Some value\<rparr>)
      else if key = ''NoDisplay'' then Some (s\<lparr>es_no_display := (value = ''true'')\<rparr>)
      else if key = ''Hidden'' \<and> value = ''true'' then None
      else if key = ''Terminal'' then Some (s\<lparr>es_terminal := (value = ''true'')\<rparr>)
      else if key = ''MimeType'' then Some (s\<lparr>es_mime_types := list_items value\<rparr>)
      else Some s)"

text \<open>\<open>None\<close>: the entry is hidden and the parser has returned.\<close>

definition entry_line :: "string \<Rightarrow> entry_state \<Rightarrow> entry_state option" where
  "entry_line raw s =
     (let line = trim_end raw in
      case header_of line of
        Some grp \<Rightarrow> Some (s\<lparr>es_in_entry := (grp = ''Desktop Entry'')\<rparr>)
      | None \<Rightarrow>
          if \<not> es_in_entry s \<or> take 1 line = ''#'' then Some s
          else (case split_once (CHR ''='') line of
                  None \<Rightarrow> Some s
                | Some (key, value) \<Rightarrow> entry_key (trim key) (trim value) s))"

fun entry_lines :: "string list \<Rightarrow> entry_state \<Rightarrow> entry_state option" where
  "entry_lines [] s = Some s"
| "entry_lines (l # ls) s = (case entry_line l s of None \<Rightarrow> None | Some s1 \<Rightarrow> entry_lines ls s1)"

definition finish_entry :: "string \<Rightarrow> entry_state \<Rightarrow> app_info option" where
  "finish_entry i s =
     (case (es_name s, es_exec s) of
        (Some name, Some exec) \<Rightarrow>
          Some \<lparr>ai_id = i, ai_name = concat (take 256 (char_groups name)), ai_exec = exec, ai_icon = es_icon s,
                ai_terminal = es_terminal s, ai_no_display = es_no_display s, ai_mime_types = es_mime_types s\<rparr>
      | _ \<Rightarrow> None)"

definition parse_desktop_file :: "(string \<Rightarrow> string) \<Rightarrow> files \<Rightarrow> string \<Rightarrow> string \<Rightarrow> app_info option" where
  "parse_desktop_file lossy fs path i =
     (case read_capped MAX_ENTRY_BYTES lossy fs path of
        None \<Rightarrow> None
      | Some s \<Rightarrow> Option.bind (entry_lines (lines_of s) entry_init) (finish_entry i))"

section \<open>The reference semantics of a glob\<close>

fun glob_spec :: "string list \<Rightarrow> string list \<Rightarrow> bool" where
  "glob_spec [] t = (t = [])"
| "glob_spec (q # ps) t =
     (if q = any_run then (\<exists>k \<le> length t. glob_spec ps (drop k t))
      else (case t of [] \<Rightarrow> False | c # t' \<Rightarrow> (q = any_char \<or> q = c) \<and> glob_spec ps t'))"

text \<open>A piece of the pattern without a run, matched against as many characters.\<close>

definition plain_match :: "string list \<Rightarrow> string list \<Rightarrow> bool" where
  "plain_match = list_all2 (\<lambda>q c. q \<noteq> any_run \<and> (q = any_char \<or> q = c))"

lemma glob_spec_plain:
  "plain_match w u \<Longrightarrow> glob_spec (w @ p) (u @ t) = glob_spec p t"
  unfolding plain_match_def by (induction w u rule: list_all2_induct) auto

lemma glob_spec_split:
  "\<forall>q \<in> set w. q \<noteq> any_run \<Longrightarrow> glob_spec (w @ p) t \<Longrightarrow>
   length w \<le> length t \<and> glob_spec p (drop (length w) t)"
  by (induction w arbitrary: t) (auto split: list.splits)

lemma plain_match_facts: "plain_match w u \<Longrightarrow> length w = length u \<and> (\<forall>q \<in> set w. q \<noteq> any_run)"
  unfolding plain_match_def by (induction w u rule: list_all2_induct) auto

lemma glob_spec_run_suffix: "glob_spec (any_run # p) (drop k t) \<Longrightarrow> glob_spec (any_run # p) t"
proof -
  assume "glob_spec (any_run # p) (drop k t)"
  then obtain j where j: "j \<le> length (drop k t)" "glob_spec p (drop j (drop k t))" by auto
  show ?thesis
  proof (cases "k \<le> length t")
    case True
    with j have "j + k \<le> length t" "glob_spec p (drop (j + k) t)" by auto
    then show ?thesis by auto
  next
    case False
    with j have "glob_spec p (drop (length t) t)" by simp
    then show ?thesis by auto
  qed
qed

lemma glob_spec_run_Cons:
  "glob_spec (any_run # p) (x # t) \<longleftrightarrow> glob_spec p (x # t) \<or> glob_spec (any_run # p) t"
proof
  assume "glob_spec (any_run # p) (x # t)"
  then obtain k where "k \<le> Suc (length t)" "glob_spec p (drop k (x # t))" by auto
  then show "glob_spec p (x # t) \<or> glob_spec (any_run # p) t" by (cases k) auto
next
  assume "glob_spec p (x # t) \<or> glob_spec (any_run # p) t"
  then show "glob_spec (any_run # p) (x # t)"
    using glob_spec_run_suffix [of p 1 "x # t"] by auto
qed

lemma glob_spec_Nil: "glob_spec p [] = list_all (\<lambda>q. q = any_run) p"
  by (induction p) auto

text \<open>
  Behind a run: the attempt has matched the plain piece \<open>w\<close> against \<open>u\<close>. At the end of the text, or
  at a further run, what is left decides whether the pattern from the run on matches at all.
\<close>

lemma glob_behind_end:
  assumes "plain_match w u"
  shows "glob_spec (any_run # w @ p) u = glob_spec p []"
proof
  note facts = plain_match_facts [OF assms]
  assume "glob_spec (any_run # w @ p) u"
  then obtain k where k: "k \<le> length u" "glob_spec (w @ p) (drop k u)" by auto
  from glob_spec_split [OF conjunct2 [OF facts] k(2)] facts k(1) have "k = 0 \<or> u = []" by auto
  with glob_spec_split [OF conjunct2 [OF facts] k(2)] facts show "glob_spec p []" by auto
next
  assume "glob_spec p []"
  then have "glob_spec (w @ p) (u @ [])" using glob_spec_plain [OF assms] by blast
  then show "glob_spec (any_run # w @ p) u" by (auto intro: exI [of _ 0])
qed

lemma glob_behind_run:
  assumes "plain_match w u"
  shows "glob_spec (any_run # w @ any_run # p) (u @ t) = glob_spec (any_run # p) t"
proof
  assume "glob_spec (any_run # p) t"
  then have "glob_spec (w @ any_run # p) (u @ t)" using glob_spec_plain [OF assms] by simp
  then show "glob_spec (any_run # w @ any_run # p) (u @ t)" by (auto intro: exI [of _ 0])
next
  note facts = plain_match_facts [OF assms]
  assume "glob_spec (any_run # w @ any_run # p) (u @ t)"
  then obtain k where "glob_spec (w @ any_run # p) (drop k (u @ t))" by auto
  then have "glob_spec (any_run # p) (drop (length w) (drop k (u @ t)))"
    using glob_spec_split facts by blast
  moreover have "drop (length w) (drop k (u @ t)) = drop k t"
    using facts by (cases "k \<le> length u") (simp_all add: drop_drop add.commute)
  ultimately show "glob_spec (any_run # p) t" using glob_spec_run_suffix by metis
qed

text \<open>
  The loop's state at a pattern \<open>p\<close> and a text \<open>t\<close>: the remembered run's attempt has got there by a
  plain piece, and no character of the text is a run.
\<close>

definition glob_attempt :: "string list \<Rightarrow> string list \<Rightarrow> (string list \<times> string list) option \<Rightarrow> bool" where
  "glob_attempt p t star \<longleftrightarrow>
     (\<forall>c \<in> set t. c \<noteq> any_run)
     \<and> (\<forall>sp st. star = Some (sp, st) \<longrightarrow>
          (\<exists>w u. sp = w @ p \<and> st = u @ t \<and> plain_match w u \<and> (\<forall>c \<in> set st. c \<noteq> any_run)))"

lemma glob_attempt_behind:
  assumes "glob_attempt p t (Some (sp, st))"
  obtains w u where "sp = w @ p" and "st = u @ t" and "plain_match w u"
  using assms by (auto simp: glob_attempt_def)

lemma glob_attempt_chars: "glob_attempt p t star \<Longrightarrow> c \<in> set t \<Longrightarrow> c \<noteq> any_run"
  by (auto simp: glob_attempt_def)

lemma glob_attempt_start: "\<forall>c \<in> set t. c \<noteq> any_run \<Longrightarrow> glob_attempt p t None"
  by (simp add: glob_attempt_def)

lemma glob_attempt_run: "glob_attempt q t star \<Longrightarrow> glob_attempt p t (Some (p, t))"
  by (auto simp: glob_attempt_def plain_match_def)

lemma glob_attempt_retry: "glob_attempt p t (Some (sp, x # st)) \<Longrightarrow> glob_attempt sp st (Some (sp, st))"
  by (force simp: glob_attempt_def plain_match_def)

lemma glob_attempt_hit:
  assumes "glob_attempt (q # p) (c # t) star" and "q = any_char \<or> q = c"
  shows "glob_attempt p t star"
proof -
  have q: "q \<noteq> any_run" using assms by (auto simp: glob_attempt_def)
  have "\<exists>w u. sp = w @ p \<and> st = u @ t \<and> plain_match w u \<and> (\<forall>c \<in> set st. c \<noteq> any_run)"
    if "star = Some (sp, st)" for sp st
  proof -
    from assms(1) that obtain w u where wu: "sp = w @ q # p" "st = u @ c # t" "plain_match w u"
      "\<forall>c \<in> set st. c \<noteq> any_run" by (auto simp: glob_attempt_def)
    then have "plain_match (w @ [q]) (u @ [c])"
      using assms(2) q by (auto simp: plain_match_def intro: list_all2_appendI)
    with wu show ?thesis by (intro exI [of _ "w @ [q]"] exI [of _ "u @ [c]"]) auto
  qed
  with assms(1) show ?thesis by (auto simp: glob_attempt_def)
qed

text \<open>
  Backtracking to the last run only is enough: with a run behind it, the loop decides whether
  the pattern from that run on matches the text its attempt began at.
\<close>

definition glob_goal :: "string list \<Rightarrow> string list \<Rightarrow> (string list \<times> string list) option \<Rightarrow> bool" where
  "glob_goal p t star = (case star of None \<Rightarrow> glob_spec p t | Some (sp, st) \<Rightarrow> glob_spec (any_run # sp) st)"

lemma glob_goal_end: "glob_attempt p [] star \<Longrightarrow> glob_goal p [] star = glob_spec p []"
  by (cases star)
    (auto simp: glob_goal_def glob_behind_end simp del: glob_spec.simps elim!: glob_attempt_behind)

lemma glob_goal_run: "glob_attempt (any_run # p) t star \<Longrightarrow> glob_goal (any_run # p) t star = glob_spec (any_run # p) t"
  by (cases star)
    (auto simp: glob_goal_def glob_behind_run simp del: glob_spec.simps elim!: glob_attempt_behind)

lemma glob_goal_miss:
  assumes "glob_attempt p (c # t) star" and "\<not> glob_spec p (c # t)"
  shows "glob_goal p (c # t) star
    = (case star of None \<Rightarrow> False | Some (sp, []) \<Rightarrow> False | Some (sp, x # st) \<Rightarrow> glob_goal sp st (Some (sp, st)))"
proof (cases star)
  case (Some a)
  then obtain sp st where star: "star = Some (sp, st)" by (cases a) auto
  with assms(1) obtain w u where wu: "sp = w @ p" "st = u @ c # t" "plain_match w u"
    by (blast elim: glob_attempt_behind)
  then obtain x st' where st: "st = x # st'" by (cases u) auto
  have "\<not> glob_spec sp (x # st')"
    using assms(2) glob_spec_plain [OF wu(3)] wu st by metis
  then show ?thesis
    by (simp add: star st glob_goal_def glob_spec_run_Cons del: glob_spec.simps)
qed (use assms in \<open>simp add: glob_goal_def\<close>)

lemma glob_loop_correct: "glob_attempt p t star \<Longrightarrow> glob_loop p t star = glob_goal p t star"
proof (induction p t star rule: glob_loop.induct)
  case (1 p star)
  then show ?case by (simp add: glob_goal_end glob_spec_Nil)
next
  case (2 p c t star)
  have c: "c \<noteq> any_run" using glob_attempt_chars [OF "2.prems"] by simp
  consider (hit) "p \<noteq> [] \<and> (hd p = any_char \<or> hd p = c)"
    | (run) "\<not> (p \<noteq> [] \<and> (hd p = any_char \<or> hd p = c))" "p \<noteq> [] \<and> hd p = any_run"
    | (miss) "\<not> (p \<noteq> [] \<and> (hd p = any_char \<or> hd p = c))" "\<not> (p \<noteq> [] \<and> hd p = any_run)"
    by blast
  then show ?case
  proof cases
    case hit
    then obtain q ps where p: "p = q # ps" "q = any_char \<or> q = c" by (cases p) auto
    have "glob_loop ps t star = glob_goal ps t star"
      using "2.IH"(1) [OF hit] glob_attempt_hit "2.prems" p by simp
    moreover have "glob_goal ps t star = glob_goal p (c # t) star"
      using p c by (auto simp: glob_goal_def split: option.split)
    ultimately show ?thesis using hit p(1) by simp
  next
    case run
    then obtain ps where p: "p = any_run # ps" by (cases p) auto
    have "glob_loop ps (c # t) (Some (ps, c # t)) = glob_goal ps (c # t) (Some (ps, c # t))"
      using "2.IH"(2) [OF run] glob_attempt_run [OF "2.prems"] p by simp
    then show ?thesis
      using run(1) p glob_goal_run [of ps "c # t" star] "2.prems" by (simp add: glob_goal_def del: glob_spec.simps)
  next
    case miss
    then have no: "\<not> glob_spec p (c # t)" by (cases p) auto
    have "glob_loop sp st (Some (sp, st)) = glob_goal sp st (Some (sp, st))" if "star = Some (sp, x # st)" for sp x st
      using "2.IH"(3) [OF miss that refl refl] glob_attempt_retry "2.prems" that by simp
    then show ?thesis
      by (subst glob_loop.simps(2))
        (auto simp: if_not_P [OF miss(1)] if_not_P [OF miss(2)] glob_goal_miss [OF "2.prems" no]
          simp del: glob_loop.simps split: option.split list.split)
  qed
qed

text \<open>
  C37: the glob matcher decides the glob language. For every pattern and every file name without a
  literal star, the backtracking loop, which remembers only the last run, accepts exactly what
  the recursive reference semantics accepts: a run matches any characters, a question mark one,
  everything else itself.
\<close>

theorem glob_matches_reference:
  assumes "any_run \<notin> set (glob_fold lower cs name)"
  shows "glob_matches lower glob name cs = glob_spec (glob_fold lower cs glob) (glob_fold lower cs name)"
proof -
  have "\<forall>c \<in> set (glob_fold lower cs name). c \<noteq> any_run" using assms by metis
  from glob_loop_correct [OF glob_attempt_start [OF this, of "glob_fold lower cs glob"]] show ?thesis
    by (simp add: glob_matches_def glob_goal_def)
qed

theorem glob_matches_reference_witness:
  "glob_matches id ''*.a?'' ''b.c.ab'' True = glob_spec (char_groups ''*.a?'') (char_groups ''b.c.ab'')"
proof -
  have "any_run \<notin> set (glob_fold id True ''b.c.ab'')"
    by (simp add: glob_fold_def continuation_def byte_of_def)
  from glob_matches_reference [OF this, of "''*.a?''"] show ?thesis by (simp add: glob_fold_def)
qed

text \<open>A literal star in the name is consumed by the pattern's run: \<open>*\<close> does not match \<open>*a\<close>.\<close>

lemma star_in_name_defeats_run:
  "\<not> glob_matches id ''*'' ''*a'' True" "glob_spec (char_groups ''*'') (char_groups ''*a'')"
  by (simp_all add: glob_matches_def glob_fold_def continuation_def byte_of_def) (auto intro: exI [of _ 2])

end
