(* ===== verification/Mime_Apps.thy ===== *)
theory Mime_Apps
  imports Desktop_Entries
begin

text \<open>
  \<open>crates/xdg-desktop-portal-atrium/src/apps/mimeapps.rs\<close>: the edit of \<open>mimeapps.list\<close> that records
  a default, and its effect on what the parser of \<open>Desktop_Entries\<close> reads back.
\<close>

definition default_group :: string where "default_group = ''Default Applications''"

definition key_line :: "string \<Rightarrow> string \<Rightarrow> string" where
  "key_line ct i = ct @ ''='' @ i @ '';'' @ [CHR 0x0A]"

record mime_state =
  ms_out :: "string list"
  ms_in_defaults :: bool
  ms_seen_group :: bool
  ms_wrote_key :: bool

definition mime_init :: mime_state where
  "mime_init = \<lparr>ms_out = [], ms_in_defaults = False, ms_seen_group = False, ms_wrote_key = False\<rparr>"

text \<open>The line without its newline.\<close>

definition line_body :: "string \<Rightarrow> string" where
  "line_body l = unwrap_or l (strip_last (CHR 0x0A) l)"

text \<open>Leaving the group, or the file, without having seen the key: it is appended.\<close>

definition append_missing :: "string \<Rightarrow> string \<Rightarrow> mime_state \<Rightarrow> mime_state" where
  "append_missing ct i s =
     (if ms_in_defaults s \<and> \<not> ms_wrote_key s
      then s\<lparr>ms_out := ms_out s @ [key_line ct i], ms_wrote_key := True\<rparr> else s)"

definition target_value :: "string \<Rightarrow> string \<Rightarrow> string option" where
  "target_value ct body =
     (case split_once (CHR ''='') body of
        None \<Rightarrow> None | Some (k, v) \<Rightarrow> if trim k = ct then Some v else None)"

definition promoted :: "string \<Rightarrow> string \<Rightarrow> string list" where
  "promoted i v = i # filter (\<lambda>x. x \<noteq> i) (list_items v)"

definition mime_line :: "string \<Rightarrow> string \<Rightarrow> string \<Rightarrow> mime_state \<Rightarrow> mime_state" where
  "mime_line ct i line s =
     (case header_of (trim_end (line_body line)) of
        Some header \<Rightarrow>
          let s1 = append_missing ct i s; here = header = default_group
          in s1\<lparr>ms_in_defaults := here, ms_seen_group := ms_seen_group s1 \<or> here, ms_out := ms_out s1 @ [line]\<rparr>
      | None \<Rightarrow>
          (case if ms_in_defaults s then target_value ct (line_body line) else None of
             Some v \<Rightarrow> s\<lparr>ms_out := ms_out s @ [key_line ct (join_with '';'' (promoted i v))], ms_wrote_key := True\<rparr>
           | None \<Rightarrow> s\<lparr>ms_out := ms_out s @ [line]\<rparr>))"

definition ends_line :: "string \<Rightarrow> bool" where
  "ends_line l \<longleftrightarrow> l \<noteq> [] \<and> last l = CHR 0x0A"

definition add_group :: "string \<Rightarrow> string \<Rightarrow> string list \<Rightarrow> string list" where
  "add_group ct i out =
     (let closed = (if out \<noteq> [] \<and> \<not> ends_line (last out) then butlast out @ [last out @ [CHR 0x0A]] else out);
          spaced = (if closed \<noteq> [] then closed @ [[CHR 0x0A]] else closed)
      in spaced @ [''['' @ default_group @ '']'' @ [CHR 0x0A], key_line ct i])"

definition update_default_applications :: "string \<Rightarrow> string \<Rightarrow> string \<Rightarrow> string" where
  "update_default_applications text_bytes ct i =
     (let s = append_missing ct i (fold (mime_line ct i) (split_inclusive text_bytes) mime_init);
          result = concat (if ms_seen_group s then ms_out s else add_group ct i (ms_out s))
      in if result \<noteq> [] \<and> \<not> ends_line result then result @ [CHR 0x0A] else result)"

section \<open>What the parser reads\<close>

definition proper_line :: "string \<Rightarrow> bool" where
  "proper_line l \<longleftrightarrow> (\<exists>b. l = b @ [CHR 0x0A] \<and> CHR 0x0A \<notin> set b)"

lemma split_inclusive_proper: "list_all proper_line ls \<Longrightarrow> split_inclusive (concat ls) = ls"
proof (induction ls)
  case (Cons l ls)
  then obtain b where "l = b @ [CHR 0x0A]" "CHR 0x0A \<notin> set b" by (auto simp: proper_line_def)
  with Cons show ?case using split_inclusive_line [of b "concat ls"] by simp
qed simp

lemma lines_of_proper: "list_all proper_line ls \<Longrightarrow> lines_of (concat ls) = map strip_eol ls"
  by (simp add: lines_of_def split_inclusive_proper)

lemma split_inclusive_all_proper:
  "s = [] \<or> last s = CHR 0x0A \<Longrightarrow> list_all proper_line (split_inclusive s)"
proof (induction s rule: length_induct)
  case (1 s)
  show ?case
  proof (cases "s = []")
    case False
    with 1(2) have "CHR 0x0A \<in> set s" using last_in_set by fastforce
    then obtain a b where s: "s = a @ CHR 0x0A # b" "CHR 0x0A \<notin> set a"
      by (meson split_list_first)
    have "list_all proper_line (split_inclusive b)"
      using 1 s False by (cases "b = []") auto
    moreover have "proper_line (a @ [CHR 0x0A])" using s(2) by (auto simp: proper_line_def)
    ultimately show ?thesis using s by (simp add: split_inclusive_line)
  qed simp
qed

lemma trim_end_CR [simp]: "trim_end (b @ [CHR 0x0D]) = trim_end b"
  by (rule trim_end_append_white) (simp add: white1_def byte_of_def)

text \<open>The parser and the edit see the same line behind \<open>trim_end\<close>.\<close>

lemma trim_end_strip_eol: "trim_end (strip_eol l) = trim_end (line_body l)"
proof -
  have "trim_end (unwrap_or b (strip_last (CHR 0x0D) b)) = trim_end b" for b
  proof (cases "b \<noteq> [] \<and> last b = CHR 0x0D")
    case True
    then have "b = butlast b @ [CHR 0x0D]" by (metis append_butlast_last_id)
    then have "trim_end b = trim_end (butlast b)" by (metis trim_end_CR)
    with True show ?thesis by (simp add: strip_last_def)
  qed (auto simp: strip_last_def)
  then show ?thesis by (auto simp: strip_eol_def line_body_def split: option.split)
qed

text \<open>What one line contributes, in terms of its body.\<close>

lemma white_free: "only_white w \<Longrightarrow> byte_of c < 0x80 \<Longrightarrow> \<not> white1 c \<Longrightarrow> c \<notin> set w"
  using white_bytes [of w c] by (auto simp: white1_def)

lemma punctuation [simp]:
  "\<not> white1 (CHR ''='')" "\<not> white1 (CHR '';'')" "\<not> white1 (CHR '']'')" "\<not> white1 (CHR ''#'')" "\<not> white1 (CHR ''['')"
  "byte_of (CHR ''='') < 0x80" "byte_of (CHR '';'') < 0x80"
  by (simp_all add: white1_def byte_of_def)

lemma split_once_trim_end:
  "split_once (CHR ''='') (trim_end b) =
     map_option (\<lambda>(k, v). (k, trim_end v)) (split_once (CHR ''='') b)"
proof (cases "split_once (CHR ''='') b")
  case None
  then have "CHR ''='' \<notin> set b" by (simp add: split_once_None)
  moreover obtain w where "b = trim_end b @ w" using trim_end_suffix by blast
  ultimately have "CHR ''='' \<notin> set (trim_end b)" by (metis Un_iff set_append)
  with None show ?thesis by (simp add: split_once_None [THEN iffD2])
next
  case (Some kv)
  then obtain k v where kv: "kv = (k, v)" "b = k @ CHR ''='' # v" "CHR ''='' \<notin> set k"
    by (cases kv) (simp add: split_once_Some)
  then have "trim_end b = k @ CHR ''='' # trim_end v" by (simp add: trim_end_at)
  with kv Some show ?thesis by (simp add: split_once_Some [THEN iffD2])
qed

lemma list_items_trim_end [simp]: "list_items (trim_end v) = list_items v"
proof -
  obtain w where v: "v = trim_end v @ w" "only_white w" using trim_end_suffix by blast
  let ?p = "split_on (CHR '';'') (trim_end v)"
  have "split_on (CHR '';'') (trim_end v @ w) = butlast ?p @ [last ?p @ w]"
    using white_free [OF v(2)] by (intro split_on_snoc_plain) simp
  then have "map trim (split_on (CHR '';'') v) = map trim (butlast ?p) @ [trim (last ?p)]"
    using v by (simp add: trim_append_white)
  also have "\<dots> = map trim ?p"
    by (metis append_butlast_last_id list.simps(8,9) map_append split_on_nonempty)
  finally show ?thesis by (simp add: list_items_def)
qed

lemma grouped_line_body:
  "grouped_line (strip_eol l) (g, m) =
     (case header_of (trim_end (line_body l)) of
        Some name \<Rightarrow> (name, m)
      | None \<Rightarrow>
          if g = [] \<or> take 1 (trim_end (line_body l)) = ''#'' then (g, m)
          else (case split_once (CHR ''='') (line_body l) of
                  None \<Rightarrow> (g, m)
                | Some (k, v) \<Rightarrow>
                    if trim k = [] \<or> CHR ''['' \<in> set (trim k) then (g, m)
                    else (g, put_grouped g (trim k) (list_items v) m)))"
  by (simp add: grouped_line_def trim_end_strip_eol split_once_trim_end Let_def split: option.split)

lemma grouped_get_put:
  "grouped_get (put_grouped g k ids m) g2 k2 =
     (if g2 = g \<and> k2 = k then Some ids else grouped_get m g2 k2)"
  by (auto simp: grouped_get_def put_grouped_def update_conv' unwrap_or_def split: option.splits)

text \<open>A line the edit wrote, read back.\<close>

definition clean_id :: "string \<Rightarrow> bool" where
  "clean_id i \<longleftrightarrow> i \<noteq> [] \<and> trim i = i \<and> CHR '';'' \<notin> set i \<and> CHR 0x0A \<notin> set i"

definition clean_type :: "string \<Rightarrow> bool" where
  "clean_type ct \<longleftrightarrow> ct \<noteq> [] \<and> trim ct = ct \<and> CHR 0x0A \<notin> set ct \<and> CHR ''='' \<notin> set ct
     \<and> CHR ''['' \<notin> set ct \<and> hd ct \<noteq> CHR ''#''"

lemma list_items_join:
  assumes "list_all clean_id ids" and "ids \<noteq> []"
  shows "list_items (join_with '';'' ids @ '';'') = ids"
proof -
  have "split_on (CHR '';'') (join_with '';'' ids @ '';'') = ids @ [[]]"
    using assms(2,1)
  proof (induction ids rule: list_nonempty_induct)
    case (single x)
    then show ?case by (simp add: clean_id_def split_on_append)
  next
    case (cons x xs)
    then obtain y ys where "xs = y # ys" by (cases xs) auto
    with cons show ?case by (simp add: clean_id_def split_on_append)
  qed
  moreover have "map trim ids = ids" "filter (\<lambda>i. i \<noteq> []) ids = ids"
    using assms(1) by (induction ids) (auto simp: clean_id_def)
  ultimately show ?thesis by (simp add: list_items_def trim_def)
qed


lemma join_with_set: "c \<in> set (join_with sep ids) \<Longrightarrow> c \<in> set sep \<or> (\<exists>i \<in> set ids. c \<in> set i)"
  by (induction sep ids rule: join_with.induct) auto

lemma key_line_read:
  assumes "clean_type ct" and "list_all clean_id ids" and "ids \<noteq> []" and "g \<noteq> []"
  shows "grouped_line (strip_eol (key_line ct (join_with '';'' ids))) (g, m) = (g, put_grouped g ct ids m)"
proof -
  let ?v = "join_with '';'' ids @ '';''"
  have body: "line_body (key_line ct (join_with '';'' ids)) = ct @ CHR ''='' # ?v"
    by (simp add: line_body_def key_line_def strip_last_def butlast_append)
  obtain c cs where ct: "ct = c # cs" using assms(1) by (cases ct) (auto simp: clean_type_def)
  have "trim_end ((ct @ CHR ''='' # join_with '';'' ids) @ '';'') = (ct @ CHR ''='' # join_with '';'' ids) @ '';''"
    using trim_end_at [of "CHR '';''" "ct @ CHR ''='' # join_with '';'' ids" "[]"] by simp
  then have trim: "trim_end (ct @ CHR ''='' # ?v) = ct @ CHR ''='' # ?v" by simp
  have "header_of (ct @ CHR ''='' # ?v) = None" "take 1 (ct @ CHR ''='' # ?v) \<noteq> ''#''"
    using assms(1) by (auto simp: ct header_of_def strip_prefix_def strip_last_def clean_type_def)
  moreover have "split_once (CHR ''='') (ct @ CHR ''='' # ?v) = Some (ct, ?v)"
    using assms(1) by (auto simp: split_once_Some clean_type_def)
  moreover have "list_items ?v = ids" using assms(2,3) by (rule list_items_join)
  ultimately show ?thesis
    using assms(1,4) by (simp add: grouped_line_body body trim clean_type_def)
qed

lemma proper_key_line:
  assumes "clean_type ct" and "list_all clean_id ids"
  shows "proper_line (key_line ct (join_with '';'' ids))"
proof -
  have "CHR 0x0A \<notin> set (join_with '';'' ids)"
    using assms(2) join_with_set [of "CHR 0x0A" "'';''" ids] by (auto simp: list_all_iff clean_id_def)
  then show ?thesis
    using assms(1) unfolding proper_line_def key_line_def clean_type_def
    by (intro exI [of _ "ct @ ''='' @ join_with '';'' ids @ '';''"]) auto
qed

section \<open>The edit against the parser\<close>

text \<open>
  \<open>edited\<close> relates the parser's state over the lines read so far with its state over the lines
  written so far.
\<close>

definition edited :: "string \<Rightarrow> string \<Rightarrow> string \<times> grouped \<Rightarrow> string \<times> grouped \<Rightarrow> mime_state \<Rightarrow> bool" where
  "edited ct i old new s \<longleftrightarrow>
     fst new = fst old
     \<and> ms_in_defaults s = (fst old = default_group)
     \<and> (ms_in_defaults s \<longrightarrow> ms_seen_group s)
     \<and> (ms_seen_group s \<longrightarrow> ms_in_defaults s \<or> ms_wrote_key s)
     \<and> (ms_wrote_key s \<longrightarrow> ms_seen_group s)
     \<and> (\<forall>g k. (g, k) \<noteq> (default_group, ct) \<longrightarrow> grouped_get (snd new) g k = grouped_get (snd old) g k)
     \<and> grouped_get (snd new) default_group ct =
         (if ms_wrote_key s
          then Some (i # filter (\<lambda>x. x \<noteq> i) (unwrap_or [] (grouped_get (snd old) default_group ct)))
          else None)
     \<and> (\<not> ms_wrote_key s \<longrightarrow> grouped_get (snd old) default_group ct = None)"

lemma trim_hash: "trim (CHR ''#'' # s) = CHR ''#'' # trim_end s"
proof -
  have "black_start (CHR ''#'' # s)"
    by (auto simp: black_start_def white1_def white2_def white3_def byte_of_def split: list.split)
  then show ?thesis
    using trim_end_at [of "CHR ''#''" "[]" s] by (simp add: trim_def trim_start_black byte_of_def)
qed

lemma target_not_comment:
  assumes "target_value ct b = Some v" and "clean_type ct"
  shows "take 1 (trim_end b) \<noteq> ''#''"
proof
  assume h: "take 1 (trim_end b) = ''#''"
  from assms(1) obtain k where k: "b = k @ CHR ''='' # v" "trim k = ct"
    by (auto simp: target_value_def split_once_Some split: option.splits if_splits)
  obtain w where "b = trim_end b @ w" using trim_end_suffix by blast
  moreover obtain t where "trim_end b = CHR ''#'' # t" using h by (cases "trim_end b") auto
  ultimately obtain u where "b = CHR ''#'' # u" by simp
  with k(1) obtain k1 where "k = CHR ''#'' # k1" by (cases k) auto
  with k(2) assms(2) show False by (auto simp: trim_hash clean_type_def)
qed

lemma promoted_clean:
  assumes "clean_id i" and "CHR 0x0A \<notin> set v"
  shows "list_all clean_id (promoted i v)"
proof -
  have part: "set p \<subseteq> set v \<and> CHR '';'' \<notin> set p" if "p \<in> set (split_on (CHR '';'') v)" for p v
    using that by (induction v arbitrary: p) (auto split: if_splits list.splits, blast+)
  have "clean_id (trim p)" if "p \<in> set (split_on (CHR '';'') v)" "trim p \<noteq> []" for p
  proof -
    show ?thesis
      using part [OF that(1)] assms(2) trim_subset [of p] that(2) unfolding clean_id_def by auto
  qed
  with assms(1) show ?thesis by (auto simp: promoted_def list_all_iff list_items_def)
qed


lemma append_missing_edited:
  assumes "edited ct i old new s" and "clean_type ct" and "clean_id i"
  shows "\<exists>ws. ms_out (append_missing ct i s) = ms_out s @ ws \<and> list_all proper_line ws
     \<and> edited ct i old (fold grouped_line (map strip_eol ws) new) (append_missing ct i s)"
proof (cases "ms_in_defaults s \<and> \<not> ms_wrote_key s")
  case True
  obtain g m where new: "new = (g, m)" by (cases new)
  have g: "g = default_group" using assms(1) True new by (simp add: edited_def)
  have one: "key_line ct i = key_line ct (join_with '';'' [i])" by simp
  have "grouped_line (strip_eol (key_line ct i)) new = (g, put_grouped g ct [i] m)"
    unfolding new one using assms(2,3) g by (intro key_line_read) (simp_all add: default_group_def)
  moreover have "proper_line (key_line ct i)"
    unfolding one using assms(2,3) by (intro proper_key_line) simp_all
  ultimately show ?thesis
    using True assms(1) new g
    by (intro exI [of _ "[key_line ct i]"])
      (auto simp: append_missing_def edited_def grouped_get_put)
next
  case False
  then show ?thesis using assms(1) by (intro exI [of _ "[]"]) (simp add: append_missing_def)
qed

text \<open>One line of the file.\<close>

lemma edited_header:
  assumes "edited ct i old new s" and "clean_type ct" and "clean_id i" and "proper_line l"
    and header: "header_of (trim_end (line_body l)) = Some h"
  shows "\<exists>ws. ms_out (mime_line ct i l s) = ms_out s @ ws \<and> list_all proper_line ws
     \<and> edited ct i (grouped_line (strip_eol l) old) (fold grouped_line (map strip_eol ws) new) (mime_line ct i l s)"
proof -
  let ?s1 = "append_missing ct i s"
  from append_missing_edited [OF assms(1-3)] obtain ws where
    ws: "ms_out ?s1 = ms_out s @ ws" "list_all proper_line ws"
      "edited ct i old (fold grouped_line (map strip_eol ws) new) ?s1" by blast
  have left: "ms_in_defaults ?s1 \<Longrightarrow> ms_wrote_key ?s1"
    by (simp add: append_missing_def split: if_splits)
  have read: "grouped_line (strip_eol l) st = (h, snd st)" for st
    by (cases st) (simp add: grouped_line_body header)
  have "edited ct i (h, snd old) (h, snd (fold grouped_line (map strip_eol ws) new)) (mime_line ct i l s)"
    using ws(3) left unfolding mime_line_def header edited_def by (auto simp: Let_def)
  then show ?thesis
    using ws(1,2) assms(4)
    by (intro exI [of _ "ws @ [l]"]) (simp add: read mime_line_def header Let_def)
qed

lemma edited_target:
  assumes "edited ct i old new s" and "clean_type ct" and "clean_id i" and "proper_line l"
    and header: "header_of (trim_end (line_body l)) = None"
    and target: "ms_in_defaults s" "target_value ct (line_body l) = Some v"
  shows "\<exists>ws. ms_out (mime_line ct i l s) = ms_out s @ ws \<and> list_all proper_line ws
     \<and> edited ct i (grouped_line (strip_eol l) old) (fold grouped_line (map strip_eol ws) new) (mime_line ct i l s)"
proof -
  obtain g m where new: "new = (g, m)" by (cases new)
  obtain m0 where old: "old = (g, m0)" using assms(1) new by (cases old) (auto simp: edited_def)
  have g: "g = default_group" using assms(1) target(1) old by (simp add: edited_def)
  then have gne: "g \<noteq> []" by (simp add: default_group_def)
  from target(2) obtain k where k: "split_once (CHR ''='') (line_body l) = Some (k, v)" "trim k = ct"
    by (auto simp: target_value_def split: option.splits if_splits)
  have nl: "CHR 0x0A \<notin> set v"
    using k(1) assms(4) by (auto simp: split_once_Some proper_line_def line_body_def strip_last_def)
  have clean: "list_all clean_id (promoted i v)" using assms(3) nl by (rule promoted_clean)
  have read_old: "grouped_line (strip_eol l) old = (g, put_grouped g ct (list_items v) m0)"
    unfolding old grouped_line_body header
    using k assms(2) gne target_not_comment [OF target(2) assms(2)] by (simp add: clean_type_def)
  let ?w = "key_line ct (join_with '';'' (promoted i v))"
  have read_new: "grouped_line (strip_eol ?w) new = (g, put_grouped g ct (promoted i v) m)"
    unfolding new using assms(2) clean gne by (intro key_line_read) (simp_all add: promoted_def)
  have "proper_line ?w" using assms(2) clean by (rule proper_key_line)
  moreover have step: "mime_line ct i l s = s\<lparr>ms_out := ms_out s @ [?w], ms_wrote_key := True\<rparr>"
    by (simp add: mime_line_def header target)
  moreover have "edited ct i (g, put_grouped g ct (list_items v) m0) (g, put_grouped g ct (promoted i v) m)
      (mime_line ct i l s)"
    using assms(1) g target(1) unfolding step old new edited_def
    by (auto simp: grouped_get_put promoted_def)
  ultimately show ?thesis
    by (intro exI [of _ "[?w]"]) (simp add: read_old read_new)
qed


lemma grouped_line_change:
  assumes "header_of (trim_end (line_body l)) = None"
  shows "(\<forall>m. grouped_line (strip_eol l) (g, m) = (g, m))
     \<or> (\<exists>k v. split_once (CHR ''='') (line_body l) = Some (k, v)
            \<and> (\<forall>m. grouped_line (strip_eol l) (g, m) = (g, put_grouped g (trim k) (list_items v) m)))"
proof (cases "split_once (CHR ''='') (line_body l)")
  case (Some kv)
  then show ?thesis
    by (cases kv; cases "g = [] \<or> take 1 (trim_end (line_body l)) = ''#''";
        cases "trim (fst kv) = [] \<or> CHR ''['' \<in> set (trim (fst kv))")
      (simp_all add: grouped_line_body assms)
qed (simp add: grouped_line_body assms)

lemma edited_plain:
  assumes "edited ct i old new s" and "proper_line l"
    and header: "header_of (trim_end (line_body l)) = None"
    and other: "ms_in_defaults s \<Longrightarrow> target_value ct (line_body l) = None"
  shows "\<exists>ws. ms_out (mime_line ct i l s) = ms_out s @ ws \<and> list_all proper_line ws
     \<and> edited ct i (grouped_line (strip_eol l) old) (fold grouped_line (map strip_eol ws) new) (mime_line ct i l s)"
proof -
  obtain g m where new: "new = (g, m)" by (cases new)
  obtain m0 where old: "old = (g, m0)" using assms(1) new by (cases old) (auto simp: edited_def)
  have step: "mime_line ct i l s = s\<lparr>ms_out := ms_out s @ [l]\<rparr>"
    using other by (simp add: mime_line_def header split: option.split)
  from grouped_line_change [OF header, of g]
  have "edited ct i (grouped_line (strip_eol l) old) (grouped_line (strip_eol l) new) (mime_line ct i l s)"
  proof (elim disjE exE conjE)
    assume "\<forall>m. grouped_line (strip_eol l) (g, m) = (g, m)"
    then show ?thesis using assms(1) unfolding step old new by (auto simp: edited_def)
  next
    fix k v
    assume split: "split_once (CHR ''='') (line_body l) = Some (k, v)"
      and change: "\<forall>m. grouped_line (strip_eol l) (g, m) = (g, put_grouped g (trim k) (list_items v) m)"
    have "\<not> (g = default_group \<and> trim k = ct)"
      using other assms(1) split old by (auto simp: edited_def target_value_def)
    then show ?thesis
      using assms(1) unfolding step old new change [rule_format] by (auto simp: edited_def grouped_get_put)
  qed
  then show ?thesis using assms(2) by (intro exI [of _ "[l]"]) (simp add: step)
qed

lemma edited_line:
  assumes "edited ct i old new s" and "clean_type ct" and "clean_id i" and "proper_line l"
  shows "\<exists>ws. ms_out (mime_line ct i l s) = ms_out s @ ws \<and> list_all proper_line ws
     \<and> edited ct i (grouped_line (strip_eol l) old) (fold grouped_line (map strip_eol ws) new) (mime_line ct i l s)"
  using edited_header [OF assms] edited_target [OF assms] edited_plain [OF assms(1,4)]
  by (cases "header_of (trim_end (line_body l))"; cases "target_value ct (line_body l)"; cases "ms_in_defaults s") auto

lemma edited_lines:
  assumes "clean_type ct" and "clean_id i" and "list_all proper_line ls" and "edited ct i old new s"
  shows "\<exists>ws. ms_out (fold (mime_line ct i) ls s) = ms_out s @ ws \<and> list_all proper_line ws
     \<and> edited ct i (fold grouped_line (map strip_eol ls) old) (fold grouped_line (map strip_eol ws) new)
          (fold (mime_line ct i) ls s)"
  using assms(3,4)
proof (induction ls arbitrary: old new s)
  case Nil
  then show ?case by (intro exI [of _ "[]"]) simp
next
  case (Cons l ls)
  from Cons.prems edited_line [OF Cons.prems(2) assms(1,2), of l] obtain v where
    v: "ms_out (mime_line ct i l s) = ms_out s @ v" "list_all proper_line v"
      "edited ct i (grouped_line (strip_eol l) old) (fold grouped_line (map strip_eol v) new) (mime_line ct i l s)"
    by auto
  from Cons.IH [OF _ v(3)] Cons.prems(1) obtain w where
    "ms_out (fold (mime_line ct i) ls (mime_line ct i l s)) = ms_out (mime_line ct i l s) @ w"
    "list_all proper_line w"
    "edited ct i (fold grouped_line (map strip_eol ls) (grouped_line (strip_eol l) old))
       (fold grouped_line (map strip_eol w) (fold grouped_line (map strip_eol v) new))
       (fold (mime_line ct i) ls (mime_line ct i l s))"
    by auto
  with v(1,2) show ?case by (intro exI [of _ "v @ w"]) simp
qed

text \<open>The whole edit: the default is promoted, and every other entry of the file reads the same.\<close>

lemma edited_append_missing_all:
  assumes "clean_type ct" and "clean_id i" and "t = [] \<or> last t = CHR 0x0A"
  defines "s \<equiv> append_missing ct i (fold (mime_line ct i) (split_inclusive t) mime_init)"
  obtains "list_all proper_line (ms_out s)"
    "edited ct i (fold grouped_line (lines_of t) ([], [])) (fold grouped_line (lines_of (concat (ms_out s))) ([], [])) s"
proof -
  let ?f = "fold (mime_line ct i) (split_inclusive t) mime_init"
  have "edited ct i ([], []) ([], []) mime_init"
    by (simp add: edited_def mime_init_def default_group_def grouped_get_def)
  from edited_lines [OF assms(1,2) split_inclusive_all_proper [OF assms(3)] this] obtain v where
    v: "ms_out ?f = v" "list_all proper_line v"
      "edited ct i (fold grouped_line (lines_of t) ([], [])) (fold grouped_line (map strip_eol v) ([], [])) ?f"
    by (auto simp: lines_of_def mime_init_def)
  from append_missing_edited [OF v(3) assms(1,2)] obtain w where
    w: "ms_out s = v @ w" "list_all proper_line w"
      "edited ct i (fold grouped_line (lines_of t) ([], []))
         (fold grouped_line (map strip_eol w) (fold grouped_line (map strip_eol v) ([], []))) s"
    unfolding s_def using v(1) by blast
  have "list_all proper_line (ms_out s)" using v(2) w(1,2) by simp
  moreover from this have "lines_of (concat (ms_out s)) = map strip_eol (v @ w)"
    unfolding w(1) [symmetric] by (rule lines_of_proper)
  ultimately show thesis using that w(3) by simp
qed


lemma header_line_body [simp]: "line_body (h @ [CHR 0x0A]) = h"
  by (simp add: line_body_def strip_last_def)

lemma read_group_header:
  "grouped_line (strip_eol (''['' @ default_group @ '']'' @ [CHR 0x0A])) (g, m) = (default_group, m)"
proof -
  have "trim_end (''['' @ default_group @ '']'') = ''['' @ default_group @ '']''"
    using trim_end_at [of "CHR '']''" "''['' @ default_group" "[]"] by (simp add: byte_of_def)
  moreover have "header_of (''['' @ default_group @ '']'') = Some default_group"
    by (simp add: header_of_def strip_prefix_def strip_last_def default_group_def trim_def
        white1_def white2_def white3_def byte_of_def)
  ultimately show ?thesis
    using header_line_body [of "''['' @ default_group @ '']''"] by (simp add: grouped_line_body)
qed

lemma read_empty_line: "grouped_line (strip_eol [CHR 0x0A]) (g, m) = (g, m)"
  using header_line_body [of "[]"]
  by (simp add: grouped_line_body header_of_def strip_prefix_def)

lemma proper_ends_line: "proper_line l \<Longrightarrow> ends_line l"
  by (auto simp: proper_line_def ends_line_def)

lemma concat_proper_ends: "list_all proper_line ls \<Longrightarrow> \<not> (concat ls \<noteq> [] \<and> \<not> ends_line (concat ls))"
  by (induction ls rule: rev_induct) (auto simp: proper_line_def ends_line_def)

lemma read_add_group:
  assumes "clean_type ct" and "clean_id i" and "list_all proper_line out"
    and m: "snd (fold grouped_line (lines_of (concat out)) ([], [])) = m"
  shows "list_all proper_line (add_group ct i out)
     \<and> snd (fold grouped_line (lines_of (concat (add_group ct i out))) ([], []))
        = put_grouped default_group ct [i] m"
proof -
  let ?h = "''['' @ default_group @ '']'' @ [CHR 0x0A]"
  let ?sp = "if out = [] then [] else [[CHR 0x0A]]"
  have "out \<noteq> [] \<Longrightarrow> ends_line (last out)"
    using assms(3) by (intro proper_ends_line) (simp add: list_all_iff)
  then have all: "add_group ct i out = out @ ?sp @ [?h, key_line ct i]"
    by (auto simp: add_group_def)
  have key: "proper_line (key_line ct i)"
    "grouped_line (strip_eol (key_line ct i)) (default_group, m) = (default_group, put_grouped default_group ct [i] m)"
    using proper_key_line [OF assms(1), of "[i]"] key_line_read [OF assms(1), of "[i]" default_group m] assms(2)
    by (simp_all add: default_group_def)
  have "proper_line ?h" "proper_line [CHR 0x0A]"
    by (auto simp: proper_line_def default_group_def)
  with assms(3) key(1) have proper: "list_all proper_line (out @ ?sp @ [?h, key_line ct i])" by simp
  obtain g where "fold grouped_line (map strip_eol out) ([], []) = (g, m)"
    using m assms(3) by (cases "fold grouped_line (map strip_eol out) ([], [])") (simp add: lines_of_proper)
  then show ?thesis
    using proper key(2) read_group_header [of g m]
    unfolding all lines_of_proper [OF proper] by (simp add: read_empty_line)
qed

theorem update_reads_back:
  assumes "clean_type ct" and "clean_id i" and "t = [] \<or> last t = CHR 0x0A"
  defines "new \<equiv> parse_grouped_text (update_default_applications t ct i)"
    and "old \<equiv> parse_grouped_text t"
  shows "grouped_get new default_group ct =
           Some (i # filter (\<lambda>x. x \<noteq> i) (unwrap_or [] (grouped_get old default_group ct)))"
    and "(g, k) \<noteq> (default_group, ct) \<Longrightarrow> grouped_get new g k = grouped_get old g k"
proof -
  let ?s = "append_missing ct i (fold (mime_line ct i) (split_inclusive t) mime_init)"
  let ?o = "fold grouped_line (lines_of t) ([], [])"
  obtain proper: "list_all proper_line (ms_out ?s)"
    and e: "edited ct i ?o (fold grouped_line (lines_of (concat (ms_out ?s))) ([], [])) ?s"
    using edited_append_missing_all [OF assms(1-3)] by blast
  have left: "ms_in_defaults ?s \<Longrightarrow> ms_wrote_key ?s"
    by (simp add: append_missing_def split: if_splits)
  let ?r = "if ms_seen_group ?s then ms_out ?s else add_group ct i (ms_out ?s)"
  have r: "list_all proper_line ?r"
    using proper read_add_group [OF assms(1,2) proper refl] by simp
  have "update_default_applications t ct i = concat ?r"
    unfolding update_default_applications_def Let_def by (rule if_not_P [OF concat_proper_ends [OF r]])
  then have new: "new = snd (fold grouped_line (lines_of (concat ?r)) ([], []))"
    by (simp add: new_def parse_grouped_text_def)
  have old: "old = snd ?o" by (simp add: old_def parse_grouped_text_def)
  show "grouped_get new default_group ct =
      Some (i # filter (\<lambda>x. x \<noteq> i) (unwrap_or [] (grouped_get old default_group ct)))"
  proof (cases "ms_seen_group ?s")
    case True
    with e left have "ms_wrote_key ?s" unfolding edited_def by blast
    with True e show ?thesis unfolding new old edited_def by simp
  next
    case False
    with e have "grouped_get (snd ?o) default_group ct = None" unfolding edited_def by blast
    with False show ?thesis
      unfolding new old using read_add_group [OF assms(1,2) proper refl] by (simp add: grouped_get_put)
  qed
  show "grouped_get new g k = grouped_get old g k" if "(g, k) \<noteq> (default_group, ct)"
  proof -
    have "grouped_get (snd (fold grouped_line (lines_of (concat (ms_out ?s))) ([], []))) g k = grouped_get old g k"
      using e that unfolding old edited_def by blast
    then show ?thesis
      unfolding new using that read_add_group [OF assms(1,2) proper refl] by (auto simp: grouped_get_put)
  qed
qed

text \<open>
  A file that ends inside the group, without the key and without a final newline: the new line is
  glued to the last one, and the entry before it takes both.
\<close>

lemma missing_newline_merges_two_lines:
  "update_default_applications (''[Default Applications]'' @ [CHR 0x0A] @ ''a/b=x;'') ''c/d'' ''y''
     = ''[Default Applications]'' @ [CHR 0x0A] @ ''a/b=x;c/d=y;'' @ [CHR 0x0A]"
  by code_simp

end
