(* ===== verification/Exec_Line.thy ===== *)
theory Exec_Line
  imports Desktop_Entries Portal_Files
begin

text \<open>
  \<open>crates/xdg-desktop-portal-atrium/src/apps/exec.rs\<close>: splitting an \<open>Exec\<close> line, expanding its field
  codes, and the launch. Slicing a string inside a character panics.
\<close>

section \<open>Splitting\<close>

abbreviation quote_mark :: string where "quote_mark \<equiv> [CHR 0x22]"
abbreviation backslash :: string where "backslash \<equiv> [CHR 0x5C]"

text \<open>The loop of \<open>split_exec\<close> over characters.\<close>

fun split_loop :: "string list \<Rightarrow> bool \<Rightarrow> bool \<Rightarrow> string \<Rightarrow> string list \<Rightarrow> string list" where
  "split_loop [] quoted has token tokens = (if has then tokens @ [token] else tokens)"
| "split_loop (c # cs) quoted has token tokens =
     (if c = quote_mark then split_loop cs (\<not> quoted) True token tokens
      else if c = backslash then
        (case cs of
           [] \<Rightarrow> if has then tokens @ [token] else tokens
         | n # rest \<Rightarrow>
             if \<not> quoted \<or> n \<in> {quote_mark, ''`'', ''$'', backslash}
             then split_loop rest quoted True (token @ n) tokens
             else split_loop cs quoted True (token @ backslash) tokens)
      else if only_white c \<and> \<not> quoted then
        (if has then split_loop cs quoted False [] (tokens @ [token])
         else split_loop cs quoted has token tokens)
      else split_loop cs quoted True (token @ c) tokens)"

definition split_exec :: "string \<Rightarrow> string list" where
  "split_exec exec = split_loop (char_groups exec) False False [] []"

section \<open>Paths of URIs\<close>

text \<open>\<open>u8::from_str_radix(_, 16)\<close> on two bytes: two digits, or a plus sign and one.\<close>

definition radix16 :: "char \<Rightarrow> char \<Rightarrow> nat option" where
  "radix16 h l =
     (case hex_val l of
        None \<Rightarrow> None
      | Some b \<Rightarrow> if h = CHR ''+'' then Some b else map_option (\<lambda>a. a * 16 + b) (hex_val h))"

fun decode_bytes :: "string \<Rightarrow> string run" where
  "decode_bytes [] = Value []"
| "decode_bytes (c # cs) =
     (case cs of
        h # l # rest \<Rightarrow>
          if c = CHR ''%'' then
            (if rest \<noteq> [] \<and> continuation (hd rest) then Panicked
             else (case radix16 h l of
                     Some n \<Rightarrow> run_map ((#) (char_of n)) (decode_bytes rest)
                   | None \<Rightarrow> run_map ((#) c) (decode_bytes cs)))
          else run_map ((#) c) (decode_bytes cs)
      | _ \<Rightarrow> run_map ((#) c) (decode_bytes cs))"

definition percent_decode :: "string \<Rightarrow> string option run" where
  "percent_decode s = run_map (\<lambda>b. if valid_utf8 b then Some b else None) (decode_bytes s)"

definition uri_to_path :: "string \<Rightarrow> string option run" where
  "uri_to_path uri =
     (case strip_prefix ''file://'' uri of
        None \<Rightarrow> Value None
      | Some rest \<Rightarrow>
          let path = unwrap_or rest (strip_prefix ''localhost'' rest)
          in (case strip_prefix ''/'' path of
                None \<Rightarrow> Value None
              | Some t \<Rightarrow> percent_decode (''/'' @ t)))"

section \<open>Field codes\<close>

fun paths_of :: "string list \<Rightarrow> string list run" where
  "paths_of [] = Value []"
| "paths_of (u # us) =
     run_then (uri_to_path u) (\<lambda>p. run_map (\<lambda>ps. (case p of None \<Rightarrow> ps | Some x \<Rightarrow> x # ps)) (paths_of us))"

definition first_uri :: "string list \<Rightarrow> string list" where
  "first_uri uris = take 1 uris"

text \<open>What one field code contributes inside a token.\<close>

definition code_text :: "string \<Rightarrow> string list \<Rightarrow> string run" where
  "code_text code uris =
     (if code = ''%'' then Value ''%''
      else if code = ''u'' then Value (concat (first_uri uris))
      else if code = ''U'' then Value (join_with '' '' uris)
      else if code = ''f'' then run_map concat (paths_of (first_uri uris))
      else if code = ''F'' then run_map (join_with '' '') (paths_of uris)
      else Value [])"

definition uri_code :: "string \<Rightarrow> bool" where
  "uri_code code \<longleftrightarrow> code \<in> {''u'', ''U'', ''f'', ''F''}"

fun expand_chars :: "string list \<Rightarrow> string list \<Rightarrow> string \<Rightarrow> bool \<Rightarrow> (string \<times> bool) run" where
  "expand_chars [] uris expanded used = Value (expanded, used)"
| "expand_chars (c # cs) uris expanded used =
     (if c \<noteq> ''%'' then expand_chars cs uris (expanded @ c) used
      else (case cs of
              [] \<Rightarrow> Value (expanded, used)
            | code # rest \<Rightarrow>
                run_then (code_text code uris)
                  (\<lambda>s. expand_chars rest uris (expanded @ s) (used \<or> uri_code code))))"

definition expand_token :: "string \<Rightarrow> string list \<Rightarrow> bool \<Rightarrow> (string list \<times> bool) run" where
  "expand_token token uris used =
     (if token = ''%u'' then Value (first_uri uris, True)
      else if token = ''%U'' then Value (uris, True)
      else if token = ''%f'' then run_map (\<lambda>ps. (ps, True)) (paths_of (first_uri uris))
      else if token = ''%F'' then run_map (\<lambda>ps. (ps, True)) (paths_of uris)
      else run_map (\<lambda>(s, u). (if s = [] then [] else [s], u)) (expand_chars (char_groups token) uris [] used))"

fun expand_tokens :: "string list \<Rightarrow> string list \<Rightarrow> bool \<Rightarrow> string list \<Rightarrow> (string list \<times> bool) run" where
  "expand_tokens [] uris used argv = Value (argv, used)"
| "expand_tokens (t # ts) uris used argv =
     run_then (expand_token t uris used) (\<lambda>(args, u). expand_tokens ts uris u (argv @ args))"

definition expand_exec :: "string \<Rightarrow> string list \<Rightarrow> string list run" where
  "expand_exec exec uris =
     run_map (\<lambda>(argv, used). if used then argv else argv @ uris)
       (expand_tokens (split_exec exec) uris False [])"

section \<open>Launching\<close>

text \<open>The program and arguments handed to the operating system, whose fault is a parameter.\<close>

definition launch :: "io_error option \<Rightarrow> string \<Rightarrow> string list \<Rightarrow> (io_error + string \<times> string list) run" where
  "launch spawn_fault exec uris =
     (if MAX_EXEC_BYTES < length exec \<or> MAX_LAUNCH_URIS < length uris then Value (Inl Io_InvalidInput)
      else run_map (\<lambda>argv.
             case argv of
               [] \<Rightarrow> Inl Io_InvalidInput
             | program # args \<Rightarrow> (case spawn_fault of Some e \<Rightarrow> Inl e | None \<Rightarrow> Inr (program, args)))
           (expand_exec exec uris))"

section \<open>Quoting\<close>

text \<open>How a command line quotes an argument, and \<open>%\<close> for a field code.\<close>

definition quote_char :: "string \<Rightarrow> string list" where
  "quote_char c =
     (if c \<in> {quote_mark, ''`'', ''$'', backslash} then [backslash, c]
      else if c = ''%'' then [''%'', ''%''] else [c])"

definition quote_arg :: "string \<Rightarrow> string" where
  "quote_arg a = concat ([quote_mark] @ concat (map quote_char (char_groups a)) @ [quote_mark])"

definition command_line :: "string list \<Rightarrow> string" where
  "command_line args = join_with '' '' (map quote_arg args)"

text \<open>A Rust string: it never begins inside a character.\<close>

definition starts_char :: "string \<Rightarrow> bool" where
  "starts_char s \<longleftrightarrow> s = [] \<or> \<not> continuation (hd s)"

definition one_char :: "string \<Rightarrow> bool" where
  "one_char g \<longleftrightarrow> g \<noteq> [] \<and> \<not> continuation (hd g) \<and> list_all continuation (tl g)"

lemma char_groups_of_ones: "list_all one_char gs \<Longrightarrow> char_groups (concat gs) = gs"
proof (induction gs)
  case (Cons g gs)
  then obtain c t where g: "g = c # t" "list_all continuation t" by (cases g) (auto simp: one_char_def)
  have stop: "concat gs = [] \<or> \<not> continuation (hd (concat gs))"
    using Cons.prems by (cases gs) (auto simp: one_char_def)
  have "takeWhile continuation (t @ r) = t \<and> dropWhile continuation (t @ r) = r"
    if "r = [] \<or> \<not> continuation (hd r)" for r
    using g(2) that by (induction t) (cases r; simp)+
  from this [OF stop] Cons g show ?case by simp
qed simp

lemma char_groups_ones: "starts_char s \<Longrightarrow> list_all one_char (char_groups s)"
proof (induction s rule: char_groups.induct)
  case (2 c cs)
  have "starts_char (dropWhile continuation cs)"
    using hd_dropWhile [of continuation cs] by (auto simp: starts_char_def)
  then have "list_all one_char (char_groups (dropWhile continuation cs))" by (rule 2)
  moreover have "list_all continuation (takeWhile continuation cs)"
    by (simp add: list_all_iff) (blast dest: set_takeWhileD)
  moreover have "one_char (c # takeWhile continuation cs)"
    using 2(2) calculation(2) by (simp add: one_char_def starts_char_def)
  ultimately show ?case by simp
qed simp

text \<open>Splitting undoes the quoting and keeps the doubled \<open>%\<close>, which the expansion undoes.\<close>

definition double :: "string \<Rightarrow> string list" where
  "double c = (if c = ''%'' then [''%'', ''%''] else [c])"

definition doubled :: "string \<Rightarrow> string" where
  "doubled a = concat (concat (map double (char_groups a)))"

lemma one_char_ascii [simp]: "byte_of c < 0x80 \<Longrightarrow> one_char [c]"
  by (simp add: one_char_def continuation_def)

lemma ascii_marks [simp]:
  "byte_of (CHR 0x22) < 0x80" "byte_of (CHR 0x5C) < 0x80" "byte_of (CHR ''%'') < 0x80" "byte_of (CHR '' '') < 0x80"
  by (simp_all add: byte_of_def)

lemma quote_char_ones: "one_char c \<Longrightarrow> list_all one_char (quote_char c)"
  by (simp add: quote_char_def)

lemma double_ones: "one_char c \<Longrightarrow> list_all one_char (double c)"
  by (simp add: double_def)

lemma split_quoted:
  "split_loop (concat (map quote_char gs) @ quote_mark # rest) True True tok toks
     = split_loop rest False True (tok @ concat (concat (map double gs))) toks"
  by (induction gs arbitrary: tok) (auto simp: quote_char_def double_def)

definition arg_groups :: "string \<Rightarrow> string list" where
  "arg_groups a = [quote_mark] @ concat (map quote_char (char_groups a)) @ [quote_mark]"

fun line_groups :: "string list \<Rightarrow> string list" where
  "line_groups [] = []"
| "line_groups [a] = arg_groups a"
| "line_groups (a # as) = arg_groups a @ '' '' # line_groups as"

lemma arg_groups_ones: "starts_char a \<Longrightarrow> list_all one_char (arg_groups a)"
proof -
  have "list_all one_char gs \<Longrightarrow> list_all one_char (concat (map quote_char gs))" for gs
    by (induction gs) (simp_all add: quote_char_ones)
  moreover assume "starts_char a"
  ultimately show ?thesis by (simp add: arg_groups_def char_groups_ones)
qed

lemma line_groups_ones: "list_all starts_char args \<Longrightarrow> list_all one_char (line_groups args)"
  by (induction args rule: line_groups.induct) (simp_all add: arg_groups_ones)

lemma line_groups_concat: "concat (line_groups args) = command_line args"
  by (induction args rule: line_groups.induct)
    (simp_all add: command_line_def quote_arg_def arg_groups_def)

lemma white_space [simp]: "white1 (CHR '' '')"
  by (simp add: white1_def byte_of_def)

lemma split_arg:
  "split_loop (arg_groups a @ rest) False False [] toks = split_loop rest False True (doubled a) toks"
  using split_quoted [of "char_groups a" rest "[]" toks] by (simp add: arg_groups_def doubled_def)

lemma split_line_groups:
  "split_loop (line_groups args) False False [] toks = toks @ map doubled args"
proof (induction args arbitrary: toks rule: line_groups.induct)
  case (2 a)
  then show ?case using split_arg [of a "[]" toks] by simp
qed (simp_all add: split_arg)

lemma split_command_line:
  "list_all starts_char args \<Longrightarrow> split_exec (command_line args) = map doubled args"
  using split_line_groups [of args "[]"] char_groups_of_ones [OF line_groups_ones]
  by (simp add: split_exec_def line_groups_concat)

lemma doubled_groups: "starts_char a \<Longrightarrow> char_groups (doubled a) = concat (map double (char_groups a))"
proof -
  have "list_all one_char gs \<Longrightarrow> list_all one_char (concat (map double gs))" for gs
    by (induction gs) (simp_all add: double_ones)
  moreover assume "starts_char a"
  ultimately show ?thesis unfolding doubled_def by (intro char_groups_of_ones) (simp add: char_groups_ones)
qed

lemma expand_doubled:
  "expand_chars (concat (map double gs)) uris e u = Value (e @ concat gs, u)"
  by (induction gs arbitrary: e) (simp_all add: double_def code_text_def uri_code_def)

lemma doubled_no_code:
  assumes "starts_char a"
  shows "doubled a \<notin> {''%u'', ''%U'', ''%f'', ''%F''}"
proof
  assume "doubled a \<in> {''%u'', ''%U'', ''%f'', ''%F''}"
  then obtain x where "doubled a = [CHR ''%'', x]" "\<not> continuation x" "x \<noteq> CHR ''%''"
    by (auto simp: continuation_def byte_of_def)
  then have "concat (map double (char_groups a)) = [''%'', [x]]"
    using doubled_groups [OF assms] by simp
  then show False using \<open>x \<noteq> CHR ''%''\<close> by (cases "char_groups a") (auto simp: double_def split: if_splits)
qed

lemma expand_arg:
  "starts_char a \<Longrightarrow> a \<noteq> [] \<Longrightarrow> expand_token (doubled a) uris u = Value ([a], u)"
  using doubled_no_code [of a] by (simp add: expand_token_def doubled_groups expand_doubled)

lemma expand_args:
  "list_all (\<lambda>a. starts_char a \<and> a \<noteq> []) args \<Longrightarrow>
   expand_tokens (map doubled args) uris u argv = Value (argv @ args, u)"
  by (induction args arbitrary: argv) (simp_all add: expand_arg)

text \<open>
  A command line whose arguments are quoted the way the Desktop Entry specification says, with
  every percent sign doubled, is launched with exactly these arguments, followed by the URIs:
  splitting and field-code expansion together undo the quoting, whatever characters the arguments
  hold.
\<close>

theorem quoted_command_is_launched:
  assumes "list_all (\<lambda>a. starts_char a \<and> a \<noteq> []) (program # args)"
    and "length (command_line (program # args)) \<le> MAX_EXEC_BYTES"
    and "length uris \<le> MAX_LAUNCH_URIS"
  shows "launch None (command_line (program # args)) uris = Value (Inr (program, args @ uris))"
proof -
  have "list_all starts_char (program # args)" using assms(1) by (auto simp: list_all_iff)
  from split_command_line [OF this]
  have "expand_exec (command_line (program # args)) uris = Value ((program # args) @ uris)"
    using expand_args [OF assms(1), of uris False "[]"]
    unfolding expand_exec_def by (simp del: list.map)
  with assms(2,3) show ?thesis by (simp add: launch_def)
qed

lemma quoted_command_is_launched_witness:
  "launch None (command_line [''/bin/a b'', ''50%$'']) [''file:///x''] = Value (Inr (''/bin/a b'', [''50%$'', ''file:///x'']))"
  using quoted_command_is_launched [of "''/bin/a b''" "[''50%$'']" "[''file:///x'']"]
  by (simp add: starts_char_def continuation_def byte_of_def command_line_def quote_arg_def
      quote_char_def MAX_EXEC_BYTES_def MAX_LAUNCH_URIS_def char_groups.simps)

text \<open>An empty quoted argument is dropped, and a slice inside a character panics.\<close>

lemma empty_argument_is_dropped: "expand_exec (command_line [''a'', [], ''b'']) [] = Value [''a'', ''b'']"
  by code_simp

lemma decoding_can_panic:
  "uri_to_path (''file:///%a'' @ [CHR 0xC3, CHR 0xA9]) = Panicked"
  by code_simp

end
