(* ===== verification/Applications.thy ===== *)
theory Applications
  imports Mime_Apps Exec_Line "HOL-Library.List_Lexorder" "HOL-Library.Char_ord"
begin

text \<open>
  \<open>crates/xdg-desktop-portal-atrium/src/apps.rs\<close>: the XDG directory set, the lookup of desktop
  entries, the applications and the default of a content type, the type of a file name, and the
  recording of a default. \<open>app_world\<close> is what the file system and the locale answer.
\<close>

record app_world =
  aw_files :: files
  aw_entries :: "string \<Rightarrow> string option list option"
  aw_lossy :: "string \<Rightarrow> string"
  aw_lower :: "string \<Rightarrow> string"

record app_dirs =
  ad_data_home :: string
  ad_data_dirs :: "string list"
  ad_config_home :: string
  ad_config_dirs :: "string list"

section \<open>Directories\<close>

definition home_dir :: "(string \<Rightarrow> string option) \<Rightarrow> string \<Rightarrow> string \<Rightarrow> string" where
  "home_dir env var below =
     (case filled (env var) of
        Some v \<Rightarrow> v
      | None \<Rightarrow> (case env ''HOME'' of Some h \<Rightarrow> path_join h below | None \<Rightarrow> ''/''))"

definition dirs_of :: "(string \<Rightarrow> string option) \<Rightarrow> string \<Rightarrow> string \<Rightarrow> string list" where
  "dirs_of env var fallback =
     (case filled (env var) of
        Some v \<Rightarrow> filter (\<lambda>d. d \<noteq> []) (split_on (CHR '':'') v)
      | None \<Rightarrow> split_on (CHR '':'') fallback)"

definition from_env :: "(string \<Rightarrow> string option) \<Rightarrow> app_dirs" where
  "from_env env =
     \<lparr>ad_data_home = home_dir env ''XDG_DATA_HOME'' ''.local/share'',
      ad_data_dirs = dirs_of env ''XDG_DATA_DIRS'' ''/usr/local/share:/usr/share'',
      ad_config_home = home_dir env ''XDG_CONFIG_HOME'' ''.config'',
      ad_config_dirs = dirs_of env ''XDG_CONFIG_DIRS'' ''/etc/xdg''\<rparr>"

definition applications_dirs :: "app_dirs \<Rightarrow> string list" where
  "applications_dirs d = map (\<lambda>root. path_join root ''applications'') (ad_data_home d # ad_data_dirs d)"

definition mimeapps_files :: "app_dirs \<Rightarrow> string list" where
  "mimeapps_files d =
     path_join (ad_config_home d) ''mimeapps.list''
     # map (\<lambda>root. path_join root ''mimeapps.list'') (ad_config_dirs d)
     @ map (\<lambda>dir. path_join dir ''mimeapps.list'') (applications_dirs d)"

section \<open>Entries\<close>

definition entry_at :: "app_world \<Rightarrow> string \<Rightarrow> string \<Rightarrow> app_info option" where
  "entry_at w dir i = parse_desktop_file (aw_lossy w) (aw_files w) (path_join dir i) i"

fun find_some :: "('a \<Rightarrow> 'b option) \<Rightarrow> 'a list \<Rightarrow> 'b option" where
  "find_some f [] = None"
| "find_some f (x # xs) = (case f x of Some y \<Rightarrow> Some y | None \<Rightarrow> find_some f xs)"

definition app_by_id :: "app_world \<Rightarrow> app_dirs \<Rightarrow> string \<Rightarrow> app_info option" where
  "app_by_id w d i =
     (if valid_desktop_id i then find_some (\<lambda>dir. entry_at w dir i) (applications_dirs d) else None)"

definition desktop_name :: "string \<Rightarrow> bool" where
  "desktop_name n \<longleftrightarrow> 8 \<le> length n \<and> drop (length n - 8) n = ''.desktop'' \<and> valid_desktop_id n"

text \<open>The ids a directory is scanned for; a name that is not UTF-8 is skipped.\<close>

definition scan_names :: "app_world \<Rightarrow> string \<Rightarrow> string list option" where
  "scan_names w dir =
     map_option (\<lambda>es. sort (take MAX_ENTRIES_PER_DIR (filter desktop_name (List.map_filter (\<lambda>e. e) es))))
       (aw_entries w dir)"

definition load_id :: "app_world \<Rightarrow> string \<Rightarrow> string \<Rightarrow> string set \<times> app_info list \<Rightarrow> string set \<times> app_info list" where
  "load_id w dir i st =
     (case st of (seen, apps) \<Rightarrow>
        if i \<in> seen then (seen, apps)
        else (insert i seen, case entry_at w dir i of None \<Rightarrow> apps | Some a \<Rightarrow> apps @ [a]))"

definition load_dir :: "app_world \<Rightarrow> string \<Rightarrow> string set \<times> app_info list \<Rightarrow> string set \<times> app_info list" where
  "load_dir w dir st = (case scan_names w dir of None \<Rightarrow> st | Some names \<Rightarrow> fold (load_id w dir) names st)"

definition load_all :: "app_world \<Rightarrow> app_dirs \<Rightarrow> app_info list" where
  "load_all w d = snd (fold (load_dir w) (applications_dirs d) ({}, []))"

section \<open>Content types\<close>

definition push_new :: "'a \<Rightarrow> 'a list \<Rightarrow> 'a list" where
  "push_new x xs = (if x \<in> set xs then xs else xs @ [x])"

definition grouped_ids :: "grouped \<Rightarrow> string \<Rightarrow> string \<Rightarrow> string list" where
  "grouped_ids m g k = unwrap_or [] (grouped_get m g k)"

definition added_in :: "app_world \<Rightarrow> string \<Rightarrow> string \<Rightarrow> string list \<times> string set \<Rightarrow> string list \<times> string set" where
  "added_in w ct path st =
     (case st of (added, removed) \<Rightarrow>
        let groups = parse_grouped_lists (aw_lossy w) (aw_files w) path
        in (fold push_new (grouped_ids groups ''Added Associations'' ct) added,
            removed \<union> set (grouped_ids groups ''Removed Associations'' ct)))"

definition cached_in :: "app_world \<Rightarrow> string \<Rightarrow> string \<Rightarrow> string list \<Rightarrow> string list" where
  "cached_in w ct dir ordered =
     fold push_new
       (grouped_ids (parse_grouped_lists (aw_lossy w) (aw_files w) (path_join dir ''mimeinfo.cache'')) ''MIME Cache'' ct)
       ordered"

definition declares :: "string \<Rightarrow> app_info \<Rightarrow> string list \<Rightarrow> string list" where
  "declares ct app ordered = (if ct \<in> set (ai_mime_types app) then push_new (ai_id app) ordered else ordered)"

definition apps_for_content_type :: "app_world \<Rightarrow> app_dirs \<Rightarrow> string \<Rightarrow> app_info list" where
  "apps_for_content_type w d ct =
     (if \<not> valid_content_type ct then []
      else
        let apps = load_all w d;
            by_id = map_of (rev (map (\<lambda>a. (ai_id a, a)) apps));
            (added, removed) = fold (added_in w ct) (mimeapps_files d) ([], {});
            cached = fold (cached_in w ct) (applications_dirs d) added;
            ordered = fold (declares ct) apps cached
        in take MAX_LISTED_APPS
             (filter (\<lambda>a. \<not> ai_no_display a \<and> ai_exec a \<noteq> [])
               (List.map_filter by_id (filter (\<lambda>i. i \<notin> removed) ordered))))"

definition default_app :: "app_world \<Rightarrow> app_dirs \<Rightarrow> string \<Rightarrow> app_info option" where
  "default_app w d ct =
     (if \<not> valid_content_type ct then None
      else find_some
        (\<lambda>path. case grouped_get (parse_grouped_lists (aw_lossy w) (aw_files w) path) ''Default Applications'' ct of
                  None \<Rightarrow> None
                | Some ids \<Rightarrow> find_some (app_by_id w d) ids)
        (mimeapps_files d))"

definition better_glob ::
  "app_world \<Rightarrow> string \<Rightarrow> glob_rule \<Rightarrow> (nat \<times> string) option \<Rightarrow> (nat \<times> string) option" where
  "better_glob w name rule best =
     (case rule of (prio, glob, mime, cs) \<Rightarrow>
        if (case best of None \<Rightarrow> True | Some (p, _) \<Rightarrow> p < prio) \<and> glob_matches (aw_lower w) glob name cs
        then Some (prio, mime) else best)"

definition glob_rules :: "app_world \<Rightarrow> string \<Rightarrow> glob_rule list" where
  "glob_rules w root = parse_globs2 (aw_lossy w) (aw_files w) (path_join root ''mime/globs2'')"

definition content_type_for_filename :: "app_world \<Rightarrow> app_dirs \<Rightarrow> string \<Rightarrow> string option" where
  "content_type_for_filename w d name =
     map_option snd
       (fold (\<lambda>root. fold (better_glob w name) (glob_rules w root)) (ad_data_home d # ad_data_dirs d) None)"

section \<open>Recording a default\<close>

text \<open>The faults of each call; a failed write may have created the temporary file.\<close>

record default_env =
  de_read :: "io_error option"
  de_mkdir :: "io_error option"
  de_write :: "(io_error \<times> nat option) option"
  de_rename :: "io_error option"

definition default_path :: "app_dirs \<Rightarrow> string" where
  "default_path d = path_join (ad_config_home d) ''mimeapps.list''"

definition existing_defaults ::
  "default_env \<Rightarrow> (string \<Rightarrow> string) \<Rightarrow> files \<Rightarrow> string \<Rightarrow> io_error + string" where
  "existing_defaults env lossy fs path =
     (case de_read env of
        Some e \<Rightarrow> if e = Io_NotFound then Inr [] else Inl e
      | None \<Rightarrow>
          (case fs path of
             None \<Rightarrow> Inr []
           | Some bytes \<Rightarrow> if length bytes \<le> MAX_ENTRY_BYTES then Inr (lossy bytes) else Inl Io_InvalidData))"

definition set_default_app ::
  "default_env \<Rightarrow> string \<Rightarrow> (string \<Rightarrow> string) \<Rightarrow> app_dirs \<Rightarrow> string \<Rightarrow> string \<Rightarrow> files \<Rightarrow> (io_error + unit) \<times> files" where
  "set_default_app env pid lossy d ct i fs =
     (if \<not> valid_content_type ct \<or> \<not> valid_desktop_id i then (Inl Io_InvalidInput, fs)
      else let path = default_path d in
        (case existing_defaults env lossy fs path of
           Inl e \<Rightarrow> (Inl e, fs)
         | Inr old \<Rightarrow>
             let updated = update_default_applications old ct i;
                 temp = path_join (ad_config_home d) (''.mimeapps.list.tessera-'' @ pid)
             in (case de_mkdir env of
                   Some e \<Rightarrow> (Inl e, fs)
                 | None \<Rightarrow>
                     (case de_write env of
                        Some (e, n) \<Rightarrow>
                          (Inl e, case n of None \<Rightarrow> fs | Some k \<Rightarrow> fs(temp \<mapsto> take k updated))
                      | None \<Rightarrow>
                          (case de_rename env of
                             Some e \<Rightarrow> (Inl e, fs(temp \<mapsto> updated))
                           | None \<Rightarrow> (Inr (), fs(path \<mapsto> updated, temp := None)))))))"

section \<open>What is recorded\<close>

lemma path_join_names:
  "path_join r a = path_join r b \<Longrightarrow> \<not> path_is_absolute a \<Longrightarrow> \<not> path_is_absolute b \<Longrightarrow> a = b"
  by (simp add: path_join_def split: if_splits)

lemma find_some_first: "f x = Some y \<Longrightarrow> find_some f (x # xs) = Some y"
  by simp

abbreviation stored_defaults :: "app_dirs \<Rightarrow> files \<Rightarrow> string" where
  "stored_defaults d fs \<equiv> unwrap_or [] (fs (default_path d))"

lemma set_default_app_files:
  assumes "set_default_app env pid lossy d ct i fs = (Inr (), fs')"
    and "de_read env = None" and "lossy (stored_defaults d fs) = stored_defaults d fs"
  shows "fs' (default_path d) = Some (update_default_applications (stored_defaults d fs) ct i)
    \<and> valid_content_type ct \<and> valid_desktop_id i"
proof -
  let ?temp = "path_join (ad_config_home d) (''.mimeapps.list.tessera-'' @ pid)"
  have temp: "?temp \<noteq> default_path d"
    using path_join_names [of "ad_config_home d" "''.mimeapps.list.tessera-'' @ pid" "''mimeapps.list''"]
    by (auto simp: default_path_def path_is_absolute_def)
  obtain old where old: "existing_defaults env lossy fs (default_path d) = Inr old"
    "fs' = fs(default_path d \<mapsto> update_default_applications old ct i, ?temp := None)"
    "valid_content_type ct" "valid_desktop_id i"
    using assms(1) by (auto simp: set_default_app_def Let_def split: if_splits sum.splits option.splits)
  have "old = stored_defaults d fs"
    using old(1) assms(2,3) by (auto simp: existing_defaults_def split: option.splits if_splits)
  with old temp show ?thesis by auto
qed

lemma parse_stored:
  "fs p = Some t \<Longrightarrow> lossy t = t \<Longrightarrow> length t \<le> MAX_ENTRY_BYTES \<Longrightarrow>
   parse_grouped_lists lossy fs p = parse_grouped_text t"
  by (simp add: parse_grouped_lists_def read_capped_def)

lemma default_app_first:
  assumes "valid_content_type ct" and "app_by_id w d i = Some app"
    and "grouped_get (parse_grouped_lists (aw_lossy w) (aw_files w) (default_path d)) default_group ct = Some (i # rest)"
  shows "default_app w d ct = Some app"
  using assms by (simp add: default_app_def mimeapps_files_def default_path_def default_group_def)


definition sample_dirs :: app_dirs where
  "sample_dirs = \<lparr>ad_data_home = ''/d'', ad_data_dirs = [], ad_config_home = ''/c'', ad_config_dirs = []\<rparr>"

definition sample_files :: files where
  "sample_files =
     [''/c/mimeapps.list'' \<mapsto> ''[Default Applications]'' @ [CHR 0x0A] @ ''a/b=x.desktop;'' @ [CHR 0x0A],
      ''/d/applications/y.desktop'' \<mapsto>
        ''[Desktop Entry]'' @ [CHR 0x0A] @ ''Name=Y'' @ [CHR 0x0A] @ ''Exec=y'' @ [CHR 0x0A]]"

definition no_faults :: default_env where
  "no_faults = \<lparr>de_read = None, de_mkdir = None, de_write = None, de_rename = None\<rparr>"

definition sample_world :: app_world where
  "sample_world =
     \<lparr>aw_files = snd (set_default_app no_faults ''1'' (\<lambda>s. s) sample_dirs ''a/b'' ''y.desktop'' sample_files),
      aw_entries = (\<lambda>_. None), aw_lossy = (\<lambda>s. s), aw_lower = (\<lambda>s. s)\<rparr>"

lemma sample_valid: "valid_content_type ''a/b'' \<and> valid_desktop_id ''y.desktop''"
  by (simp add: valid_content_type_def valid_desktop_id_def APPS_MAX_ID_BYTES_def white1_def byte_of_def)

lemma sample_write:
  "set_default_app no_faults ''1'' (aw_lossy sample_world) sample_dirs ''a/b'' ''y.desktop'' sample_files
     = (Inr (), aw_files sample_world)"
  using sample_valid
  by (simp add: sample_world_def set_default_app_def no_faults_def existing_defaults_def sample_files_def
      default_path_def sample_dirs_def path_join_def path_is_absolute_def MAX_ENTRY_BYTES_def)

lemma sample_entry:
  "aw_files sample_world ''/d/applications/y.desktop'' =
     Some (''[Desktop Entry]'' @ [CHR 0x0A] @ ''Name=Y'' @ [CHR 0x0A] @ ''Exec=y'' @ [CHR 0x0A])"
  using sample_valid
  by (simp add: sample_world_def set_default_app_def no_faults_def existing_defaults_def sample_files_def
      default_path_def sample_dirs_def path_join_def path_is_absolute_def MAX_ENTRY_BYTES_def)

lemma sample_parsed:
  "Option.bind (entry_lines
       (lines_of (''[Desktop Entry]'' @ [CHR 0x0A] @ ''Name=Y'' @ [CHR 0x0A] @ ''Exec=y'' @ [CHR 0x0A])) entry_init)
     (\<lambda>s. if es_name s = Some ''Y'' \<and> es_exec s = Some ''y'' then Some () else None) = Some ()"
  by code_simp

lemma sample_app: "\<exists>app. app_by_id sample_world sample_dirs ''y.desktop'' = Some app"
proof -
  obtain s where s: "entry_lines (lines_of (''[Desktop Entry]'' @ [CHR 0x0A] @ ''Name=Y'' @ [CHR 0x0A]
      @ ''Exec=y'' @ [CHR 0x0A])) entry_init = Some s" "es_name s = Some ''Y''" "es_exec s = Some ''y''"
    using sample_parsed by (auto simp del: append.simps simp: bind_eq_Some_conv split: if_splits)
  have "applications_dirs sample_dirs = [''/d/applications'']"
    by (simp add: applications_dirs_def sample_dirs_def path_join_def path_is_absolute_def)
  moreover have "path_join ''/d/applications'' ''y.desktop'' = ''/d/applications/y.desktop''"
    by (simp add: path_join_def path_is_absolute_def)
  moreover have "aw_lossy sample_world t = t" for t by (simp add: sample_world_def)
  ultimately show ?thesis
    using s sample_valid
    by (simp add: app_by_id_def entry_at_def parse_desktop_file_def read_capped_def sample_entry
        MAX_ENTRY_BYTES_def finish_entry_def)
qed

lemma sample_update:
  "update_default_applications (''[Default Applications]'' @ [CHR 0x0A] @ ''a/b=x.desktop;'' @ [CHR 0x0A]) ''a/b'' ''y.desktop''
     = ''[Default Applications]'' @ [CHR 0x0A] @ ''a/b=y.desktop;x.desktop;'' @ [CHR 0x0A]"
  by code_simp

lemma sample_stored:
  "stored_defaults sample_dirs sample_files = ''[Default Applications]'' @ [CHR 0x0A] @ ''a/b=x.desktop;'' @ [CHR 0x0A]"
  by (simp add: sample_files_def default_path_def sample_dirs_def path_join_def path_is_absolute_def)

lemma sample_defaults:
  "stored_defaults sample_dirs (aw_files sample_world) =
     ''[Default Applications]'' @ [CHR 0x0A] @ ''a/b=y.desktop;x.desktop;'' @ [CHR 0x0A]"
proof -
  have "stored_defaults sample_dirs (aw_files sample_world) =
      update_default_applications (stored_defaults sample_dirs sample_files) ''a/b'' ''y.desktop''"
    using set_default_app_files [OF sample_write] by (simp add: no_faults_def sample_world_def)
  then show ?thesis by (simp only: sample_stored sample_update)
qed


section \<open>What is listed\<close>

definition dir_lists :: "app_world \<Rightarrow> string \<Rightarrow> string \<Rightarrow> bool" where
  "dir_lists w dir i \<longleftrightarrow> (case scan_names w dir of None \<Rightarrow> False | Some ns \<Rightarrow> i \<in> set ns)"

text \<open>The entry of the nearest directory that lists the id.\<close>

definition nearest_entry :: "app_world \<Rightarrow> string list \<Rightarrow> app_info \<Rightarrow> bool" where
  "nearest_entry w dirs a \<longleftrightarrow>
     (\<exists>pre dir post. dirs = pre @ dir # post \<and> dir_lists w dir (ai_id a)
        \<and> entry_at w dir (ai_id a) = Some a \<and> (\<forall>e \<in> set pre. \<not> dir_lists w e (ai_id a)))"

lemma finish_entry_id: "finish_entry i s = Some a \<Longrightarrow> ai_id a = i"
  by (cases "es_name s"; cases "es_exec s") (auto simp: finish_entry_def)

lemma entry_at_id: "entry_at w dir i = Some a \<Longrightarrow> ai_id a = i"
  by (auto simp: entry_at_def parse_desktop_file_def bind_eq_Some_conv finish_entry_id split: option.splits)

lemma nearest_entry_snoc: "nearest_entry w dirs a \<Longrightarrow> nearest_entry w (dirs @ [d]) a"
  unfolding nearest_entry_def by (metis append_Cons append_assoc)

definition fresh_entry :: "app_world \<Rightarrow> string \<Rightarrow> string set \<Rightarrow> string \<Rightarrow> app_info list" where
  "fresh_entry w dir seen i =
     (if i \<in> seen then [] else case entry_at w dir i of None \<Rightarrow> [] | Some a \<Rightarrow> [a])"

lemma load_id_step: "load_id w dir i (seen, apps) = (insert i seen, apps @ fresh_entry w dir seen i)"
  by (auto simp: load_id_def fresh_entry_def split: option.split)

lemma fresh_entry_set: "a \<in> set (fresh_entry w dir seen i) \<Longrightarrow> ai_id a = i \<and> i \<notin> seen \<and> entry_at w dir i = Some a"
  by (auto simp: fresh_entry_def entry_at_id split: if_splits option.splits)

lemma load_ids:
  "fst (fold (load_id w dir) ns (seen, apps)) = seen \<union> set ns
   \<and> set (snd (fold (load_id w dir) ns (seen, apps)))
      \<subseteq> set apps \<union> {a. ai_id a \<in> set ns - seen \<and> entry_at w dir (ai_id a) = Some a}"
proof (induction ns arbitrary: seen apps)
  case (Cons n ns)
  show ?case
    using Cons [of "insert n seen" "apps @ fresh_entry w dir seen n"]
    by (auto simp: load_id_step dest!: fresh_entry_set)
qed simp

lemma load_dirs:
  "fst (fold (load_dir w) dirs ({}, [])) = {i. \<exists>dir \<in> set dirs. dir_lists w dir i}
   \<and> (\<forall>a \<in> set (snd (fold (load_dir w) dirs ({}, []))). nearest_entry w dirs a)"
proof (induction dirs rule: rev_induct)
  case (snoc d dirs)
  obtain seen apps where st: "fold (load_dir w) dirs ({}, []) = (seen, apps)"
    by (cases "fold (load_dir w) dirs ({}, [])")
  show ?case
  proof (cases "scan_names w d")
    case None
    with snoc st show ?thesis by (auto simp: load_dir_def dir_lists_def intro: nearest_entry_snoc)
  next
    case (Some ns)
    have new: "nearest_entry w (dirs @ [d]) a"
      if "ai_id a \<in> set ns - seen" "entry_at w d (ai_id a) = Some a" for a
      unfolding nearest_entry_def using that snoc st Some
      by (intro exI [of _ dirs] exI [of _ d] exI [of _ "[]"]) (auto simp: dir_lists_def)
    have "fold (load_dir w) (dirs @ [d]) ({}, []) = fold (load_id w d) ns (seen, apps)"
      using st Some by (simp add: load_dir_def)
    moreover have "nearest_entry w (dirs @ [d]) a" if "a \<in> set (snd (fold (load_id w d) ns (seen, apps)))" for a
    proof -
      have "a \<in> set apps \<or> ai_id a \<in> set ns - seen \<and> entry_at w d (ai_id a) = Some a"
        using that load_ids [of w d ns seen apps] by blast
      then show ?thesis using new snoc st nearest_entry_snoc by auto
    qed
    moreover have "fst (fold (load_id w d) ns (seen, apps)) = seen \<union> set ns"
      using load_ids [of w d ns seen apps] by blast
    ultimately show ?thesis using snoc st Some by (auto simp: dir_lists_def)
  qed
qed simp


lemma push_news: "set (fold push_new xs ys) = set xs \<union> set ys \<and> (distinct ys \<longrightarrow> distinct (fold push_new xs ys))"
  by (induction xs arbitrary: ys) (auto simp: push_new_def)

lemma added_all:
  assumes "fold (added_in w ct) paths (a0, r0) = (a, r)"
  shows "(distinct a0 \<longrightarrow> distinct a)
    \<and> r = r0 \<union> (\<Union>path \<in> set paths. set (grouped_ids (parse_grouped_lists (aw_lossy w) (aw_files w) path) ''Removed Associations'' ct))"
  using assms
proof (induction paths arbitrary: a0 r0)
  case (Cons p paths)
  let ?g = "parse_grouped_lists (aw_lossy w) (aw_files w) p"
  show ?case
    using Cons.IH [of "fold push_new (grouped_ids ?g ''Added Associations'' ct) a0"
        "r0 \<union> set (grouped_ids ?g ''Removed Associations'' ct)"] Cons.prems
      push_news [of "grouped_ids ?g ''Added Associations'' ct" a0]
    by (auto simp: added_in_def Let_def)
qed simp

lemma cached_distinct: "distinct xs \<Longrightarrow> distinct (fold (cached_in w ct) dirs xs)"
  by (induction dirs arbitrary: xs) (simp_all add: cached_in_def push_news)

lemma declares_distinct: "distinct xs \<Longrightarrow> distinct (fold (declares ct) apps xs)"
  by (induction apps arbitrary: xs) (simp_all add: declares_def push_new_def)

lemma by_id_entry:
  "map_of (rev (map (\<lambda>a. (ai_id a, a)) apps)) i = Some a \<Longrightarrow> ai_id a = i \<and> a \<in> set apps"
  by (drule map_of_SomeD) auto

lemma map_filter_ids:
  assumes "\<And>i a. f i = Some a \<Longrightarrow> ai_id a = i" and "distinct is"
  shows "distinct (map ai_id (List.map_filter f is)) \<and> ai_id ` set (List.map_filter f is) \<subseteq> set is"
  using assms(2) by (induction "is") (auto simp: map_filter_simps assms(1) split: option.split)

lemma distinct_filter_take: "distinct (map f xs) \<Longrightarrow> distinct (map f (take n (filter P xs)))"
  by (simp add: distinct_map_filter take_map [symmetric])

text \<open>
  Every application the chooser can offer for a content type is the entry of the nearest directory
  that lists its id, is meant to be shown, can be executed, and is not removed from the type by any
  association file; no id is offered twice, and at most a screenful is.
\<close>

theorem listed_apps_are_sound:
  "length (apps_for_content_type w d ct) \<le> MAX_LISTED_APPS"
  "distinct (map ai_id (apps_for_content_type w d ct))"
  "a \<in> set (apps_for_content_type w d ct) \<Longrightarrow>
     nearest_entry w (applications_dirs d) a \<and> \<not> ai_no_display a \<and> ai_exec a \<noteq> []
     \<and> (\<forall>path \<in> set (mimeapps_files d).
          ai_id a \<notin> set (grouped_ids (parse_grouped_lists (aw_lossy w) (aw_files w) path) ''Removed Associations'' ct))"
proof -
  let ?apps = "load_all w d"
  let ?by = "map_of (rev (map (\<lambda>a. (ai_id a, a)) ?apps))"
  obtain ad rm where st: "fold (added_in w ct) (mimeapps_files d) ([], {}) = (ad, rm)"
    by (cases "fold (added_in w ct) (mimeapps_files d) ([], {})")
  let ?is = "filter (\<lambda>i. i \<notin> rm) (fold (declares ct) ?apps (fold (cached_in w ct) (applications_dirs d) ad))"
  let ?l = "take MAX_LISTED_APPS (filter (\<lambda>a. \<not> ai_no_display a \<and> ai_exec a \<noteq> []) (List.map_filter ?by ?is))"
  have eq: "apps_for_content_type w d ct = (if valid_content_type ct then ?l else [])"
    by (simp add: apps_for_content_type_def Let_def st)
  have "distinct ?is"
    using added_all [OF st] by (simp add: cached_distinct declares_distinct)
  from map_filter_ids [OF _ this, of ?by] by_id_entry
  have ids: "distinct (map ai_id (List.map_filter ?by ?is))" by blast
  show "length (apps_for_content_type w d ct) \<le> MAX_LISTED_APPS" by (simp add: eq)
  show "distinct (map ai_id (apps_for_content_type w d ct))"
    using distinct_filter_take [OF ids] by (simp add: eq)
  assume "a \<in> set (apps_for_content_type w d ct)"
  then have "a \<in> set ?l" by (simp only: eq split: if_splits) simp
  then have shown: "a \<in> set (List.map_filter ?by ?is)" "\<not> ai_no_display a" "ai_exec a \<noteq> []"
    using in_set_takeD by fastforce+
  from shown(1) obtain i where i: "i \<in> set ?is" "?by i = Some a"
    by (auto simp: List.map_filter_def)
  from by_id_entry [OF i(2)] have "ai_id a = i" "a \<in> set ?apps" by simp_all
  moreover have "i \<notin> rm" using i(1) by simp
  ultimately show "nearest_entry w (applications_dirs d) a \<and> \<not> ai_no_display a \<and> ai_exec a \<noteq> []
     \<and> (\<forall>path \<in> set (mimeapps_files d).
          ai_id a \<notin> set (grouped_ids (parse_grouped_lists (aw_lossy w) (aw_files w) path) ''Removed Associations'' ct))"
    using shown(2,3) load_dirs [of w "applications_dirs d"] added_all [OF st] by (simp add: load_all_def)
qed

section \<open>The type of a file name\<close>

definition glob_hits :: "app_world \<Rightarrow> string \<Rightarrow> glob_rule list \<Rightarrow> (nat \<times> string) list" where
  "glob_hits w name rules =
     List.map_filter (\<lambda>(prio, glob, mime, cs). if glob_matches (aw_lower w) glob name cs then Some (prio, mime) else None) rules"

text \<open>Of the rules that match, the first one of the highest priority decides.\<close>

definition first_best :: "(nat \<times> string) list \<Rightarrow> (nat \<times> string) option \<Rightarrow> bool" where
  "first_best hits best \<longleftrightarrow>
     (case best of
        None \<Rightarrow> hits = []
      | Some b \<Rightarrow> \<exists>pre post. hits = pre @ b # post \<and> (\<forall>h \<in> set pre. fst h < fst b) \<and> (\<forall>h \<in> set post. fst h \<le> fst b))"

lemma better_glob_hits:
  "glob_hits w name [r] = (case r of (prio, glob, mime, cs) \<Rightarrow>
      if glob_matches (aw_lower w) glob name cs then [(prio, mime)] else [])"
  by (cases r) (simp add: glob_hits_def map_filter_simps)

lemma glob_hits_append: "glob_hits w name (xs @ ys) = glob_hits w name xs @ glob_hits w name ys"
  by (simp add: glob_hits_def List.map_filter_def)

lemma first_best_max: "\<forall>h \<in> set hits. fst h < p \<Longrightarrow> first_best (hits @ [(p, m)]) (Some (p, m))"
  unfolding first_best_def option.case by (rule exI [of _ hits], rule exI [of _ "[]"]) simp

lemma first_best_step:
  assumes "first_best hits best"
  shows "first_best (hits @ glob_hits w name [r]) (better_glob w name r best)"
proof -
  obtain prio glob mime cs where r: "r = (prio, glob, mime, cs)" by (cases r)
  consider (miss) "\<not> glob_matches (aw_lower w) glob name cs"
    | (empty) "glob_matches (aw_lower w) glob name cs" "best = None"
    | (some) b where "glob_matches (aw_lower w) glob name cs" "best = Some b" by (cases best) auto
  then show ?thesis
  proof cases
    case miss
    with assms r show ?thesis by (simp add: better_glob_hits better_glob_def)
  next
    case empty
    with assms have "hits = []" by (simp add: first_best_def)
    with empty r show ?thesis
      using first_best_max [of "[]" prio mime] by (simp add: better_glob_hits better_glob_def)
  next
    case (some b)
    from assms some(2) obtain pre post where
      h: "hits = pre @ b # post" "\<forall>h \<in> set pre. fst h < fst b" "\<forall>h \<in> set post. fst h \<le> fst b"
      by (auto simp: first_best_def)
    show ?thesis
    proof (cases "fst b < prio")
      case True
      then have "\<forall>h \<in> set hits. fst h < prio" using h by auto
      then have "first_best (hits @ [(prio, mime)]) (Some (prio, mime))"
        by (rule first_best_max)
      with True some r show ?thesis
        by (cases b) (simp add: better_glob_hits better_glob_def)
    next
      case False
      have "first_best (hits @ [(prio, mime)]) (Some b)"
        unfolding first_best_def option.case
        by (rule exI [of _ pre], rule exI [of _ "post @ [(prio, mime)]"]) (use h False in auto)
      with False some r show ?thesis
        by (cases b) (simp add: better_glob_hits better_glob_def)
    qed
  qed
qed

lemma first_best_fold:
  "first_best hits best \<Longrightarrow> first_best (hits @ glob_hits w name rules) (fold (better_glob w name) rules best)"
proof (induction rules arbitrary: hits best)
  case (Cons r rules)
  from Cons.IH [OF first_best_step [OF Cons.prems, of w name r]]
  show ?case using glob_hits_append [of w name "[r]" rules] by simp
qed (simp add: glob_hits_def map_filter_simps)

text \<open>
  The content type of a file name is the first rule of the highest priority among those that match,
  over the databases in the order of the data roots.
\<close>

theorem filename_type_is_first_best:
  "\<exists>best. first_best (glob_hits w name (concat (map (glob_rules w) (ad_data_home d # ad_data_dirs d)))) best
     \<and> content_type_for_filename w d name = map_option snd best"
proof -
  have "fold (\<lambda>root. fold (better_glob w name) (glob_rules w root)) roots b
      = fold (better_glob w name) (concat (map (glob_rules w) roots)) b" for roots b
    by (induction roots arbitrary: b) simp_all
  moreover have "first_best (glob_hits w name rules) (fold (better_glob w name) rules None)" for rules
    using first_best_fold [of "[]" None w name rules] by (simp add: first_best_def)
  ultimately show ?thesis unfolding content_type_for_filename_def by metis
qed

end
