(* ===== verification/Prompter_Process.thy ===== *)
theory Prompter_Process
  imports Settings_Portal Portal_Files
begin

text \<open>
  \<open>crates/xdg-desktop-portal-atrium/src/prompter.rs\<close>: one invocation of the prompter process. The
  environment of an invocation holds what the operating system and the child do; the wait for the
  child has no bound in the code, so it is a partial function here and may be undefined. Error
  texts of the operating system and the JSON codec are parameters.
\<close>

definition MAX_MESSAGE_BYTES :: nat where "MAX_MESSAGE_BYTES = 8 * 1024 * 1024"
definition STDERR_TAIL_BYTES :: nat where "STDERR_TAIL_BYTES = 2048"

datatype invoke_error = Invoke_Cancelled | Invoke_Failed string

section \<open>The executable\<close>

record exec_env =
  ee_var :: "string \<Rightarrow> string option"
  ee_current_dir :: "string option"
  ee_is_file :: "string \<Rightarrow> bool"

fun first_file :: "exec_env \<Rightarrow> string list \<Rightarrow> string option" where
  "first_file env [] = None"
| "first_file env (p # ps) = (if ee_is_file env p then Some p else first_file env ps)"

definition prompter_env :: string where "prompter_env = ''ATRIUM_PORTAL_PROMPTER''"
definition file_chooser_env :: string where "file_chooser_env = ''ATRIUM_FILE_CHOOSER_PROMPTER''"

definition beside_current :: "exec_env \<Rightarrow> string \<Rightarrow> string list" where
  "beside_current env name = (case ee_current_dir env of None \<Rightarrow> [] | Some dir \<Rightarrow> [path_join dir name])"

definition executable :: "exec_env \<Rightarrow> string + string" where
  "executable env =
     (case filled (ee_var env prompter_env) of
        Some p \<Rightarrow> Inr p
      | None \<Rightarrow>
          (case first_file env (beside_current env ''atrium-portal-prompter''
                  @ [''/usr/libexec/atrium-portal-prompter'', ''/usr/lib/atrium-portal-prompter'']) of
             Some p \<Rightarrow> Inr p
           | None \<Rightarrow> Inl (''atrium-portal-prompter was not found beside the backend or in the standard libexec directories; set ''
                       @ prompter_env)))"

definition path_dirs :: "exec_env \<Rightarrow> string list" where
  "path_dirs env = (case ee_var env ''PATH'' of None \<Rightarrow> [] | Some v \<Rightarrow> split_on (CHR '':'') v)"

definition prompt_command :: "exec_env \<Rightarrow> prompter_request \<Rightarrow> string + string \<times> string list" where
  "prompt_command env r =
     (case pq_prompt r of
        Ask_Files _ \<Rightarrow>
          (case filled (ee_var env file_chooser_env) of
             Some p \<Rightarrow> Inr (p, [''--chooser-prompt''])
           | None \<Rightarrow>
               (case filled (ee_var env prompter_env) of
                  Some p \<Rightarrow> Inr (p, [])
                | None \<Rightarrow>
                    (case first_file env (beside_current env ''arca''
                            @ map (\<lambda>dir. path_join dir ''arca'') (path_dirs env)
                            @ [''/usr/local/bin/arca'', ''/usr/bin/arca'']) of
                       Some p \<Rightarrow> Inr (p, [''--chooser-prompt''])
                     | None \<Rightarrow> Inl (''arca was not found in PATH or standard bin directories; install arca or set ''
                                 @ file_chooser_env))))
      | _ \<Rightarrow> (case executable env of Inl e \<Rightarrow> Inl e | Inr p \<Rightarrow> Inr (p, [])))"

section \<open>The retained standard error\<close>

text \<open>One chunk read: appended, and the front beyond the cap drained.\<close>

definition tail_push :: "string \<Rightarrow> string \<Rightarrow> string" where
  "tail_push chunk kept = (let t = kept @ chunk in drop (length t - STDERR_TAIL_BYTES) t)"

definition stderr_tail :: "string list \<Rightarrow> string" where
  "stderr_tail chunks = fold tail_push chunks []"

definition startup_hint :: string where
  "startup_hint =
     ''the prompter image could not be started '' @ [CHR 0xE2, CHR 0x80, CHR 0x94]
     @ '' usually a shared library it was linked against is missing or was replaced under it; rebuild and reinstall the prompter against the installed optics release''"

definition stderr_diagnostic :: "(string \<Rightarrow> string) \<Rightarrow> string \<Rightarrow> string option" where
  "stderr_diagnostic lossy t =
     (case filter (\<lambda>l. l \<noteq> []) (map trim (lines_of (lossy t))) of
        [] \<Rightarrow> None
      | [first] \<Rightarrow> Some (first @ '' ('' @ startup_hint @ '')'')
      | first # second # _ \<Rightarrow> Some (first @ ''; '' @ second @ '' ('' @ startup_hint @ '')''))"

section \<open>The wait\<close>

record exit_status =
  xs_code :: "int option"
  xs_text :: string

datatype poll = Poll_Exited exit_status | Poll_Running | Poll_Error string

datatype waited = Wait_Cancelled | Wait_Exited exit_status | Wait_Error string

text \<open>One turn of the loop: the cancellation is asked first, then the child.\<close>

definition wait_turn :: "(nat \<Rightarrow> bool) \<Rightarrow> (nat \<Rightarrow> poll) \<Rightarrow> nat \<Rightarrow> waited option" where
  "wait_turn cancelled polls n =
     (if cancelled n then Some Wait_Cancelled
      else case polls n of
             Poll_Exited st \<Rightarrow> Some (Wait_Exited st)
           | Poll_Running \<Rightarrow> None
           | Poll_Error e \<Rightarrow> Some (Wait_Error e))"

partial_function (option) wait_loop :: "(nat \<Rightarrow> bool) \<Rightarrow> (nat \<Rightarrow> poll) \<Rightarrow> nat \<Rightarrow> waited option" where
  "wait_loop cancelled polls n =
     (case wait_turn cancelled polls n of
        Some r \<Rightarrow> Some r
      | None \<Rightarrow> wait_loop cancelled polls (n + 1))"

section \<open>One invocation\<close>

datatype reader_result = Reader_Panicked | Reader_Error string | Reader_Read

record process_env =
  pe_exec :: exec_env
  pe_spawn :: "string option"
  pe_stdin_piped :: bool
  pe_stdout_piped :: bool
  pe_send :: "string option"
  pe_cancelled :: "nat \<Rightarrow> bool"
  pe_polls :: "nat \<Rightarrow> poll"
  pe_reader :: reader_result
  pe_stdout :: string
  pe_stderr :: "string list"

text \<open>The parameters: texts of JSON and contract errors, lossy decoding, lower case.\<close>

record codec =
  cd_decode :: "string \<Rightarrow> string + prompter_response"
  cd_contract_text :: "contract_error \<Rightarrow> string"
  cd_lossy :: "string \<Rightarrow> string"
  cd_lower :: "string \<Rightarrow> string"
  cd_debug :: "string \<Rightarrow> string"

text \<open>What an invocation does with the child and its drainers, in order.\<close>

datatype process_step =
    Spawned string "string list" | Tail_Started | Request_Sent | Reader_Started
  | Child_Killed | Child_Reaped | Reader_Joined | Tail_Joined

definition contains_text :: "string \<Rightarrow> string \<Rightarrow> bool" where
  "contains_text needle s = list_ex (\<lambda>k. take (length needle) (drop k s) = needle) [0..<Suc (length s)]"

definition broken_pipe :: "codec \<Rightarrow> string \<Rightarrow> bool" where
  "broken_pipe cd e \<longleftrightarrow>
     contains_text ''Broken pipe'' e \<or> contains_text ''broken pipe'' e \<or> contains_text ''epipe'' (cd_lower cd e)"

text \<open>\<open>terminate\<close>: the child is killed and reaped.\<close>

definition terminate_child :: "process_step list" where
  "terminate_child = [Child_Killed, Child_Reaped]"

text \<open>The preview slices the text at byte 256, which panics inside a character.\<close>

definition preview_of :: "string \<Rightarrow> string run" where
  "preview_of s =
     (if length s \<le> 256 then Value s
      else if continuation (s ! 256) then Panicked
      else Value (take 256 s @ ''...''))"

definition parse_answer :: "codec \<Rightarrow> exit_status \<Rightarrow> string \<Rightarrow> (invoke_error + prompt_result) run" where
  "parse_answer cd st bytes =
     (case cd_decode cd bytes of
        Inl e \<Rightarrow>
          run_map (\<lambda>preview. Inl (Invoke_Failed (''prompter exited with '' @ xs_text st
              @ '' and returned invalid JSON: '' @ e @ ''; stdout was: '' @ cd_debug cd preview)))
            (preview_of (cd_lossy cd bytes))
      | Inr response \<Rightarrow>
          Value (case into_result response of
                   Inl e \<Rightarrow> Inl (Invoke_Failed (cd_contract_text cd e))
                 | Inr (Result_Failed message) \<Rightarrow> Inl (Invoke_Failed message)
                 | Inr r \<Rightarrow> Inr r))"

text \<open>After the child has exited: the reader, the tail, the size, the emptiness, the answer.\<close>

definition after_exit :: "codec \<Rightarrow> process_env \<Rightarrow> exit_status \<Rightarrow> (invoke_error + prompt_result) run \<times> process_step list" where
  "after_exit cd env st =
     (case pe_reader env of
        Reader_Panicked \<Rightarrow> (Value (Inl (Invoke_Failed ''prompter response reader panicked'')), [Reader_Joined])
      | Reader_Error e \<Rightarrow>
          (Value (Inl (Invoke_Failed (''could not read prompter response: '' @ e))), [Reader_Joined])
      | Reader_Read \<Rightarrow>
          let bytes = take (MAX_MESSAGE_BYTES + 1) (pe_stdout env);
              t = stderr_tail (pe_stderr env)
          in (if MAX_MESSAGE_BYTES < length bytes
              then Value (Inl (Invoke_Failed ''prompter response exceeds the 8 MiB process-contract limit''))
              else if bytes = [] then
                Value (Inl (Invoke_Failed
                  (case (if xs_code st = Some 127 then stderr_diagnostic (cd_lossy cd) t else None) of
                     Some d \<Rightarrow> ''prompter exited with '' @ xs_text st @ '': '' @ d
                   | None \<Rightarrow> ''prompter exited with '' @ xs_text st @ '' and no response'')))
              else parse_answer cd st bytes,
              [Reader_Joined, Tail_Joined]))"

text \<open>A broken pipe is the child dying: its exit status is awaited. Other errors abort.\<close>

definition fatal_send :: "codec \<Rightarrow> process_env \<Rightarrow> string option" where
  "fatal_send cd env =
     (case pe_send env of None \<Rightarrow> None | Some e \<Rightarrow> if broken_pipe cd e then None else Some e)"

type_synonym invocation = "(invoke_error + prompt_result) run \<times> process_step list"

definition aborted :: "process_step list \<Rightarrow> string \<Rightarrow> invocation" where
  "aborted started m = (Value (Inl (Invoke_Failed m)), started @ terminate_child @ [Tail_Joined])"

definition after_wait :: "codec \<Rightarrow> process_env \<Rightarrow> process_step list \<Rightarrow> waited \<Rightarrow> invocation" where
  "after_wait cd env running w =
     (let stop = running @ terminate_child @ [Reader_Joined, Tail_Joined] in
      case w of
        Wait_Cancelled \<Rightarrow> (Value (Inl Invoke_Cancelled), stop)
      | Wait_Error e \<Rightarrow> (Value (Inl (Invoke_Failed (''could not wait for prompter: '' @ e))), stop)
      | Wait_Exited st \<Rightarrow>
          (case after_exit cd env st of (r, steps) \<Rightarrow> (r, running @ [Child_Reaped] @ steps)))"

text \<open>\<open>None\<close>: the child never exits and the request is never closed.\<close>

definition invoke_raw :: "codec \<Rightarrow> process_env \<Rightarrow> prompter_request \<Rightarrow> invocation option" where
  "invoke_raw cd env request =
     (case prompt_command (pe_exec env) request of
        Inl e \<Rightarrow> Some (Value (Inl (Invoke_Failed e)), [])
      | Inr (program, args) \<Rightarrow>
          (case pe_spawn env of
             Some e \<Rightarrow> Some (Value (Inl (Invoke_Failed (''could not start '' @ program @ '': '' @ e))), [])
           | None \<Rightarrow>
               let started = [Spawned program args, Tail_Started] in
               if \<not> pe_stdin_piped env then Some (aborted started ''prompter stdin was not piped'')
               else if \<not> pe_stdout_piped env then Some (aborted started ''prompter stdout was not piped'')
               else (case fatal_send cd env of
                       Some e \<Rightarrow> Some (aborted started (''could not send prompter request: '' @ e))
                     | None \<Rightarrow>
                         map_option (after_wait cd env (started @ [Request_Sent, Reader_Started]))
                           (wait_loop (pe_cancelled env) (pe_polls env) 0))))"

text \<open>The request is stamped with the appearance of the desktop.\<close>

definition invoke ::
  "codec \<Rightarrow> process_env \<Rightarrow> desktop_preferences option \<Rightarrow> prompter_request \<Rightarrow> invocation option" where
  "invoke cd env store request =
     invoke_raw cd env
       (case store of None \<Rightarrow> request | Some p \<Rightarrow> with_appearance (prompt_appearance_of p) request)"

section \<open>Lemmas\<close>

text \<open>The retained tail is the end of everything the child wrote.\<close>

lemma tail_push_last:
  "kept = drop (length s - STDERR_TAIL_BYTES) s \<Longrightarrow>
   tail_push chunk kept = drop (length (s @ chunk) - STDERR_TAIL_BYTES) (s @ chunk)"
  by (simp add: tail_push_def) (rule arg_cong [where f = "\<lambda>n. drop n s"], arith)

lemma stderr_tail_is_the_end:
  "stderr_tail chunks = drop (length (concat chunks) - STDERR_TAIL_BYTES) (concat chunks)"
proof (induction chunks rule: rev_induct)
  case (snoc c cs)
  from tail_push_last [OF snoc, of c] show ?case by (simp add: stderr_tail_def)
qed (simp add: stderr_tail_def)

text \<open>The wait ends at the first turn at which there is something to report.\<close>

lemma wait_loop_steps:
  "(\<And>m. n \<le> m \<Longrightarrow> m < n + k \<Longrightarrow> wait_turn cancelled polls m = None) \<Longrightarrow>
   wait_loop cancelled polls n = wait_loop cancelled polls (n + k)"
proof (induction k arbitrary: n)
  case (Suc k)
  have "wait_loop cancelled polls n = wait_loop cancelled polls (n + 1)"
    using Suc.prems [of n] by (subst wait_loop.simps) simp
  also have "\<dots> = wait_loop cancelled polls (n + 1 + k)"
    by (rule Suc.IH) (use Suc.prems in simp)
  finally show ?case by simp
qed simp

lemma wait_loop_first:
  assumes "wait_turn cancelled polls n = Some r" and "\<And>m. m < n \<Longrightarrow> wait_turn cancelled polls m = None"
  shows "wait_loop cancelled polls 0 = Some r"
proof -
  have "wait_loop cancelled polls 0 = wait_loop cancelled polls (0 + n)"
    by (rule wait_loop_steps) (use assms(2) in simp)
  also have "\<dots> = Some r" using assms(1) by (subst wait_loop.simps) simp
  finally show ?thesis .
qed

lemma wait_loop_ends:
  assumes "wait_turn cancelled polls n \<noteq> None"
  shows "\<exists>k \<le> n. \<exists>r. wait_turn cancelled polls k = Some r \<and> (\<forall>m < k. wait_turn cancelled polls m = None)
     \<and> wait_loop cancelled polls 0 = Some r"
proof -
  define k where "k = (LEAST m. wait_turn cancelled polls m \<noteq> None)"
  have k: "wait_turn cancelled polls k \<noteq> None" "k \<le> n"
    unfolding k_def using assms by (metis (mono_tags, lifting) LeastI, metis (mono_tags, lifting) Least_le)
  have below: "wait_turn cancelled polls m = None" if "m < k" for m
    using not_less_Least [OF that [unfolded k_def]] by blast
  obtain r where "wait_turn cancelled polls k = Some r" using k(1) by auto
  with k(2) below wait_loop_first [OF this below] show ?thesis by blast
qed


section \<open>Supervision\<close>

text \<open>Once a child was spawned: it is reaped, and its drainers are joined.\<close>

definition supervised :: "process_env \<Rightarrow> process_step list \<Rightarrow> bool" where
  "supervised env steps \<longleftrightarrow>
     steps = []
     \<or> Child_Reaped \<in> set steps
       \<and> (Reader_Started \<in> set steps \<longrightarrow> Reader_Joined \<in> set steps)
       \<and> (Tail_Joined \<in> set steps \<or> pe_reader env \<noteq> Reader_Read)"

text \<open>Where an outcome comes from.\<close>

definition justified :: "codec \<Rightarrow> process_env \<Rightarrow> nat \<Rightarrow> (invoke_error + prompt_result) run \<Rightarrow> bool" where
  "justified cd env n r \<longleftrightarrow>
     (case r of
        Value (Inr res) \<Rightarrow>
          (\<exists>k st response. k \<le> n \<and> pe_polls env k = Poll_Exited st \<and> (\<forall>m \<le> k. \<not> pe_cancelled env m)
             \<and> length (pe_stdout env) \<le> MAX_MESSAGE_BYTES \<and> cd_decode cd (pe_stdout env) = Inr response
             \<and> ps_version response = PROCESS_CONTRACT_VERSION \<and> ps_result response = res)
      | Value (Inl Invoke_Cancelled) \<Rightarrow> (\<exists>k \<le> n. pe_cancelled env k)
      | _ \<Rightarrow> True)"

lemma parse_answer_result:
  "parse_answer cd st bytes = Value (Inr res) \<Longrightarrow>
   \<exists>response. cd_decode cd bytes = Inr response \<and> ps_version response = PROCESS_CONTRACT_VERSION
      \<and> ps_result response = res"
  by (cases "cd_decode cd bytes"; cases "preview_of (cd_lossy cd bytes)")
    (auto simp: parse_answer_def into_result_def guard_def split: sum.splits prompt_result.splits if_splits)

lemma parse_answer_not_cancelled: "parse_answer cd st bytes \<noteq> Value (Inl Invoke_Cancelled)"
  by (cases "cd_decode cd bytes"; cases "preview_of (cd_lossy cd bytes)")
    (auto simp: parse_answer_def split: sum.splits prompt_result.splits)

lemma after_exit_result:
  assumes "after_exit cd env st = (r, steps)"
  shows "r \<noteq> Value (Inl Invoke_Cancelled)"
    and "r = Value (Inr res) \<Longrightarrow> length (pe_stdout env) \<le> MAX_MESSAGE_BYTES
      \<and> parse_answer cd st (pe_stdout env) = Value (Inr res)"
    and "Reader_Joined \<in> set steps" and "Tail_Joined \<in> set steps \<or> pe_reader env \<noteq> Reader_Read"
proof -
  have small: "length (take (MAX_MESSAGE_BYTES + 1) b) \<le> MAX_MESSAGE_BYTES \<Longrightarrow>
      length b \<le> MAX_MESSAGE_BYTES \<and> take (MAX_MESSAGE_BYTES + 1) b = b" for b :: string by simp
  show "r \<noteq> Value (Inl Invoke_Cancelled)"
    using assms parse_answer_not_cancelled
    by (auto simp: after_exit_def Let_def split: reader_result.splits if_splits)
  show "r = Value (Inr res) \<Longrightarrow> length (pe_stdout env) \<le> MAX_MESSAGE_BYTES
      \<and> parse_answer cd st (pe_stdout env) = Value (Inr res)"
    using assms small [of "pe_stdout env"]
    by (auto simp: after_exit_def Let_def not_less split: reader_result.splits if_splits)
  show "Reader_Joined \<in> set steps" "Tail_Joined \<in> set steps \<or> pe_reader env \<noteq> Reader_Read"
    using assms by (auto simp: after_exit_def Let_def split: reader_result.splits)
qed

lemma after_wait_outcome:
  assumes "wait_turn (pe_cancelled env) (pe_polls env) k = Some w" and "k \<le> n"
    and "\<forall>m < k. wait_turn (pe_cancelled env) (pe_polls env) m = None"
    and "after_wait cd env ([Spawned p a, Tail_Started] @ [Request_Sent, Reader_Started]) w = (r, steps)"
  shows "supervised env steps \<and> justified cd env n r"
proof (cases w)
  case Wait_Cancelled
  then show ?thesis
    using assms(1,2,4) by (auto simp: after_wait_def supervised_def justified_def terminate_child_def
        wait_turn_def split: if_splits poll.splits)
next
  case (Wait_Error e)
  then show ?thesis
    using assms(4) by (auto simp: after_wait_def supervised_def justified_def terminate_child_def)
next
  case (Wait_Exited st)
  obtain more where exit: "after_exit cd env st = (r, more)"
    and steps: "steps = [Spawned p a, Tail_Started, Request_Sent, Reader_Started, Child_Reaped] @ more"
    using assms(4) Wait_Exited by (auto simp: after_wait_def Let_def split: prod.splits)
  have turn: "pe_polls env k = Poll_Exited st" "\<not> pe_cancelled env k"
    using assms(1) Wait_Exited by (auto simp: wait_turn_def split: if_splits poll.splits)
  have "\<not> pe_cancelled env m" if "m \<le> k" for m
    using that turn(2) assms(3) by (cases "m = k") (auto simp: wait_turn_def split: if_splits)
  then have "justified cd env n r"
    using after_exit_result [OF exit] turn(1) assms(2) parse_answer_result [of cd st "pe_stdout env"]
    by (auto simp: justified_def split: run.splits sum.splits invoke_error.splits)
  moreover have "supervised env steps"
    using after_exit_result(3,4) [OF exit] steps by (auto simp: supervised_def)
  ultimately show ?thesis by blast
qed



definition sample_process :: process_env where
  "sample_process =
     \<lparr>pe_exec = \<lparr>ee_var = [''ATRIUM_PORTAL_PROMPTER'' \<mapsto> ''/p''], ee_current_dir = None, ee_is_file = (\<lambda>_. False)\<rparr>,
      pe_spawn = None, pe_stdin_piped = True, pe_stdout_piped = True, pe_send = None,
      pe_cancelled = (\<lambda>_. False),
      pe_polls = (\<lambda>n. if n < 2 then Poll_Running else Poll_Exited \<lparr>xs_code = Some 0, xs_text = ''exit status: 0''\<rparr>),
      pe_reader = Reader_Read, pe_stdout = ''yes'', pe_stderr = []\<rparr>"

definition sample_codec :: codec where
  "sample_codec =
     \<lparr>cd_decode = (\<lambda>_. Inr \<lparr>ps_version = PROCESS_CONTRACT_VERSION, ps_result = Result_Confirm Confirm_Yes\<rparr>),
      cd_contract_text = (\<lambda>_. []), cd_lossy = (\<lambda>s. s), cd_lower = (\<lambda>s. s), cd_debug = (\<lambda>s. s)\<rparr>"


text \<open>A child that neither exits nor is cancelled keeps the invocation waiting for ever.\<close>

lemma wait_loop_Some: "wait_loop cancelled polls n = Some r \<Longrightarrow> \<exists>m \<ge> n. wait_turn cancelled polls m = Some r"
proof (induction rule: wait_loop.raw_induct [rotated, consumes 1, case_names step])
  case step: (step loop c p n x)
  show ?case
  proof (cases "wait_turn c p n")
    case None
    with step(2) have "loop c p (n + 1) = Some x" by simp
    from step(1) [OF this] show ?thesis by (metis add_leD1)
  next
    case (Some y)
    with step(2) show ?thesis by auto
  qed
qed

lemma wait_loop_never: "(\<And>m. wait_turn cancelled polls m = None) \<Longrightarrow> wait_loop cancelled polls n = None"
  using wait_loop_Some [of cancelled polls n] by (cases "wait_loop cancelled polls n") auto

text \<open>An invalid answer whose 257th byte continues a character: the report itself panics.\<close>

lemma invalid_answer_can_panic:
  assumes "cd_decode cd b = Inl e" and "cd_lossy cd b = replicate 255 CHR ''x'' @ [CHR 0xC3, CHR 0xA9]"
  shows "parse_answer cd st b = Panicked"
proof -
  have "(replicate 255 CHR ''x'' @ [CHR 0xC3, CHR 0xA9]) ! 256 = CHR 0xA9"
    by (simp add: nth_append)
  then show ?thesis using assms by (simp add: parse_answer_def preview_of_def continuation_def byte_of_def)
qed

end
