(* ===== verification/Task_Pool.thy ===== *)
theory Task_Pool
  imports Request_Tracker
begin

text \<open>
  The worker loop shared by the interfaces (\<open>open_uri_worker\<close>, \<open>app_chooser_worker\<close>,
  \<open>access_worker\<close>, \<open>account_worker\<close>, \<open>wallpaper_worker\<close>, \<open>file_chooser_worker\<close>, ..): each job takes
  one of at most \<open>bound\<close> active slots and a thread of its own, or is answered with code 2; the
  thread answers with what \<open>run\<close> computes, from the job and from what happened while it ran, and
  gives its slot back. Jobs that end a notification or a session are not answered and are no jobs here.
\<close>

record ('j, 'r) pool =
  pl_active :: nat
  pl_tasks :: "'j list"
  pl_answers :: "('j \<times> 'r) list"

definition pool_init :: "('j, 'r) pool" where
  "pool_init = \<lparr>pl_active = 0, pl_tasks = [], pl_answers = []\<rparr>"

datatype ('j, 'x) pool_event =
    Pool_Job 'j bool
  | Pool_Done 'j 'x

text \<open>The answer to a job that is refused, or whose thread cannot be spawned.\<close>

definition refusal :: "'v portal_response" where
  "refusal = (2, [])"

fun pool_step ::
  "nat \<Rightarrow> 'r \<Rightarrow> ('j \<Rightarrow> 'x \<Rightarrow> 'r) \<Rightarrow> ('j, 'x) pool_event \<Rightarrow> ('j, 'r) pool \<Rightarrow> ('j, 'r) pool" where
  "pool_step bound no run (Pool_Job j spawn_ok) s =
     (if bound \<le> pl_active s then s\<lparr>pl_answers := pl_answers s @ [(j, no)]\<rparr>
      else if spawn_ok then s\<lparr>pl_active := pl_active s + 1, pl_tasks := j # pl_tasks s\<rparr>
      else s\<lparr>pl_answers := pl_answers s @ [(j, no)]\<rparr>)"
| "pool_step bound no run (Pool_Done j x) s =
     (if j \<in> set (pl_tasks s)
      then s\<lparr>pl_active := pl_active s - 1, pl_tasks := remove1 j (pl_tasks s),
             pl_answers := pl_answers s @ [(j, run j x)]\<rparr>
      else s)"

section \<open>What every pool keeps\<close>

definition pool_inv :: "nat \<Rightarrow> 'r \<Rightarrow> ('j \<Rightarrow> 'x \<Rightarrow> 'r) \<Rightarrow> ('j, 'r) pool \<Rightarrow> bool" where
  "pool_inv bound no run s \<longleftrightarrow>
     pl_active s = length (pl_tasks s) \<and> pl_active s \<le> bound
     \<and> (\<forall>(j, r) \<in> set (pl_answers s). r = no \<or> (\<exists>x. r = run j x))"

lemma pool_step_inv [inv_intros]: "pool_inv bound no run s \<Longrightarrow> pool_inv bound no run (pool_step bound no run e s)"
  by (cases e) (auto simp: pool_inv_def length_remove1)

interpretation task_pool: guarded_machine "pool_step bound no run" "pool_inv bound no run" for bound no run
  by unfold_locales (rule pool_step_inv)

lemma pool_inv_init: "pool_inv bound no run pool_init"
  by (simp add: pool_inv_def pool_init_def)

lemma count_list_remove1:
  "x \<in> set xs \<Longrightarrow> count_list (remove1 x xs) y + (if x = y then 1 else 0) = count_list xs y"
  by (induction xs) auto

text \<open>How often a job arrived, and how often it was answered or is being worked on.\<close>

definition arrivals :: "'j \<Rightarrow> ('j, 'x) pool_event list \<Rightarrow> nat" where
  "arrivals j es = length (filter (\<lambda>e. case e of Pool_Job k _ \<Rightarrow> k = j | _ \<Rightarrow> False) es)"

definition accounted :: "'j \<Rightarrow> ('j, 'r) pool \<Rightarrow> nat" where
  "accounted j s = count_list (map fst (pl_answers s)) j + count_list (pl_tasks s) j"

lemma pool_step_accounted:
  "accounted j (pool_step bound no run e s)
     = accounted j s + (case e of Pool_Job k _ \<Rightarrow> if k = j then 1 else 0 | _ \<Rightarrow> 0)"
proof (cases e)
  case (Pool_Done k x)
  show ?thesis
    using count_list_remove1 [of k "pl_tasks s" j]
    by (auto simp: Pool_Done accounted_def split: if_splits)
qed (auto simp: accounted_def)

lemma pool_run_accounted:
  "accounted j (fold (pool_step bound no run) es s) = accounted j s + arrivals j es"
  by (induction es arbitrary: s)
    (auto simp: pool_step_accounted arrivals_def split: pool_event.splits)

definition pool_after :: "nat \<Rightarrow> 'r \<Rightarrow> ('j \<Rightarrow> 'x \<Rightarrow> 'r) \<Rightarrow> ('j, 'x) pool_event list \<Rightarrow> ('j, 'r) pool" where
  "pool_after bound no run es = fold (pool_step bound no run) es pool_init"

lemma pool_run_inv: "pool_inv bound no run (pool_after bound no run es)"
  unfolding pool_after_def by (rule task_pool.run_inv [OF pool_inv_init])

text \<open>
  Whatever the jobs and however their threads end: at most \<open>bound\<close> run at a time, each job is
  answered or still running exactly as often as it arrived, and every answer is a refusal or what
  its own task computed.
\<close>

lemma pool_accounts_for_jobs:
  "length (pl_tasks (pool_after bound no run es)) \<le> bound"
  "count_list (map fst (pl_answers (pool_after bound no run es))) j
     + count_list (pl_tasks (pool_after bound no run es)) j = arrivals j es"
  "(j, r) \<in> set (pl_answers (pool_after bound no run es)) \<Longrightarrow> r = no \<or> (\<exists>x. r = run j x)"
  using pool_run_inv [of bound no run es] pool_run_accounted [of j bound no run es pool_init]
  by (auto simp: pool_after_def pool_inv_def accounted_def pool_init_def)

end
