(* ===== verification/Portal_Dialog.thy ===== *)
theory Portal_Dialog
  imports Prompter_Process Task_Pool
begin

text \<open>
  What the portals that ask the user share: the environment of one dialog, and the contract of a
  worker that grants only with consent. The cancellation tracker is read at each of the code's
  tests (\<open>dg_tracker k\<close> is its state at the \<open>k\<close>-th test of the task), and the outcome of the
  prompter is a parameter (its own theory is \<open>Prompter_Process\<close>).
\<close>

record dialog_env =
  dg_tracker :: "nat \<Rightarrow> tracker"
  dg_answer :: "invoke_error + prompt_result"

definition closed_at :: "'a dialog_env_scheme \<Rightarrow> nat \<Rightarrow> string \<Rightarrow> bool" where
  "closed_at env k path \<longleftrightarrow> was_closed (dg_tracker env k) path"

definition some_unless_empty :: "string \<Rightarrow> string option" where
  "some_unless_empty s = (if s = [] then None else Some s)"

type_synonym reply = "dbus_value portal_response"

text \<open>\<open>Ok\<close> with code 0, and the two other codes.\<close>

abbreviation cancelled_reply :: reply where "cancelled_reply \<equiv> (1, [])"
abbreviation failed_reply :: reply where "failed_reply \<equiv> (2, [])"

definition granted :: "reply \<Rightarrow> bool" where
  "granted r \<longleftrightarrow> fst r = 0"

lemma granted_simps [simp]: "granted (0, v)" "\<not> granted (1, v)" "\<not> granted (2, v)" "\<not> granted refusal"
  by (simp_all add: granted_def refusal_def)

text \<open>The answer to a confirmation: code 0 only for the confirming button.\<close>

definition confirm_code :: "invoke_error + prompt_result \<Rightarrow> nat" where
  "confirm_code answer =
     (case answer of
        Inr (Result_Confirm Confirm_Yes) \<Rightarrow> 0
      | Inr (Result_Confirm Confirm_No) \<Rightarrow> 1
      | Inl Invoke_Cancelled \<Rightarrow> 1
      | Inr _ \<Rightarrow> 2
      | Inl (Invoke_Failed _) \<Rightarrow> 2)"

lemma confirm_code_0: "confirm_code a = 0 \<longleftrightarrow> a = Inr (Result_Confirm Confirm_Yes)"
  by (auto simp: confirm_code_def split: sum.splits prompt_result.splits confirm_response.splits invoke_error.splits)

lemma confirm_code_le: "confirm_code a \<le> 2"
  by (auto simp: confirm_code_def split: sum.splits prompt_result.splits confirm_response.splits invoke_error.splits)

definition code_reply :: "nat \<Rightarrow> reply" where
  "code_reply n = (of_nat n, [])"

lemma code_reply_granted: "n \<le> 2 \<Longrightarrow> granted (code_reply n) \<longleftrightarrow> n = 0"
  by (cases n; cases "n - 1") (auto simp: code_reply_def granted_def numeral_2_eq_2 le_Suc_eq)

text \<open>
  The contract between a task and its worker: the task grants only with consent, and a refusal is
  no grant. The worker then grants only with consent, however its tasks interleave.
\<close>

locale consent_task =
  fixes run :: "'j \<Rightarrow> 'e \<Rightarrow> 'r"
    and no :: 'r
    and grants :: "'r \<Rightarrow> bool"
    and consent :: "'j \<Rightarrow> 'e \<Rightarrow> bool"
  assumes run_grants: "grants (run j e) \<Longrightarrow> consent j e"
    and refusal_grants: "\<not> grants no"
begin

lemma pool_grants:
  assumes "(j, r) \<in> set (pl_answers (pool_after bound no run es))" and "grants r"
  shows "\<exists>e. r = run j e \<and> consent j e"
  using pool_accounts_for_jobs(3) [OF assms(1)] assms(2) run_grants refusal_grants by blast

lemma pool_bounded: "length (pl_tasks (pool_after bound no run es)) \<le> bound"
  by (rule pool_accounts_for_jobs(1))

end

end
