(* ===== verification/App_Chooser.thy ===== *)
theory App_Chooser
  imports Applications Portal_Dialog "HOL-Library.Multiset"
begin

text \<open>
  \<open>crates/xdg-desktop-portal-atrium/src/app_chooser.rs\<close>: the candidates, the request to the
  prompter, and the dialog with its answer.
\<close>

definition MAX_CANDIDATES :: nat where "MAX_CANDIDATES = 64"
definition CHOOSER_MAX_CHOICES :: nat where "CHOOSER_MAX_CHOICES = 16"
definition REMEMBER_IDS :: "string list" where "REMEMBER_IDS = [''remember'', ''always'']"
definition MAX_ACTIVE_APP_CHOOSERS :: nat where "MAX_ACTIVE_APP_CHOOSERS = 32"

section \<open>Candidates\<close>

definition to_choice :: "app_info \<Rightarrow> app_choice" where
  "to_choice a = \<lparr>app_id_of = ai_id a, app_name = ai_name a, app_icon = ai_icon a\<rparr>"

text \<open>\<open>filter(|app| seen.insert(app.id))\<close>: the first of each id.\<close>

fun first_of_each :: "string set \<Rightarrow> app_info list \<Rightarrow> app_info list" where
  "first_of_each seen [] = []"
| "first_of_each seen (a # as) =
     (if ai_id a \<in> seen then first_of_each seen as else a # first_of_each (insert (ai_id a) seen) as)"

definition resolve_candidates :: "app_world \<Rightarrow> app_dirs \<Rightarrow> string list \<Rightarrow> string \<Rightarrow> app_choice list" where
  "resolve_candidates w d supplied ct =
     (let resolved = (if supplied = [] then apps_for_content_type w d ct
                      else filter (\<lambda>a. ai_exec a \<noteq> []) (List.map_filter (app_by_id w d) supplied))
      in map to_choice (take MAX_CANDIDATES (first_of_each {} resolved)))"

fun position_of :: "string \<Rightarrow> app_choice list \<Rightarrow> nat option" where
  "position_of i [] = None"
| "position_of i (a # as) = (if app_id_of a = i then Some 0 else map_option Suc (position_of i as))"

definition order_candidates :: "app_choice list \<Rightarrow> string option \<Rightarrow> app_choice list" where
  "order_candidates apps preferred =
     (case Option.bind preferred (\<lambda>p. position_of p apps) of
        None \<Rightarrow> apps
      | Some n \<Rightarrow> apps ! n # take n apps @ drop (Suc n) apps)"

section \<open>Embedded choices\<close>

fun as_pair :: "dbus_value \<Rightarrow> (string \<times> string) option" where
  "as_pair (DV_Struct [DV_Str a, DV_Str b]) = Some (a, b)"
| "as_pair _ = None"

text \<open>The wire shape \<open>(ssa(ss)s)\<close>.\<close>

fun as_choice :: "dbus_value \<Rightarrow> choice option" where
  "as_choice (DV_Struct [DV_Str i, DV_Str l, opts, DV_Str sel]) =
     (case as_array as_pair opts of
        None \<Rightarrow> None
      | Some os \<Rightarrow> Some \<lparr>ch_id = i, ch_label = l, ch_options = os, ch_selected = sel\<rparr>)"
| "as_choice _ = None"

definition remember_choice :: choice where
  "remember_choice =
     \<lparr>ch_id = ''remember'', ch_label = ''Remember this choice'', ch_options = [], ch_selected = ''false''\<rparr>"

definition prompter_choices :: "vardict \<Rightarrow> choice list" where
  "prompter_choices options =
     (let cs = (case opt_get (as_array as_choice) options ''choices'' of
                  None \<Rightarrow> [] | Some wire \<Rightarrow> take CHOOSER_MAX_CHOICES wire)
      in if list_ex (\<lambda>c. ch_id c \<in> set REMEMBER_IDS) cs then cs else cs @ [remember_choice])"

definition remembers :: "(string \<times> string) list \<Rightarrow> bool" where
  "remembers answers \<longleftrightarrow> list_ex (\<lambda>(i, v). i \<in> set REMEMBER_IDS \<and> v = ''true'') answers"

section \<open>The request\<close>

datatype chooser_refusal = No_Application | Bad_Request contract_error

definition preferred_id :: "app_world \<Rightarrow> app_dirs \<Rightarrow> app_choice list \<Rightarrow> string \<Rightarrow> vardict \<Rightarrow> string option" where
  "preferred_id w d apps ct options =
     (let offered = (\<lambda>i. i \<in> app_id_of ` set apps);
          keep = (\<lambda>x. case x of None \<Rightarrow> None | Some i \<Rightarrow> if offered i then Some i else None)
      in (case keep (opt_get as_str options ''last_choice'') of
            Some i \<Rightarrow> Some i
          | None \<Rightarrow> keep (map_option ai_id (default_app w d ct))))"

definition build_request ::
  "app_world \<Rightarrow> app_dirs \<Rightarrow> string \<Rightarrow> string \<Rightarrow> string list \<Rightarrow> string \<Rightarrow> vardict \<Rightarrow> chooser_refusal + choose_app_request" where
  "build_request w d app_id parent supplied ct options =
     (let apps = resolve_candidates w d supplied ct in
      if apps = [] then Inl No_Application
      else
        let r = \<lparr>ca_app_id = app_id, ca_title = ''Open with'', ca_content_type = ct,
                 ca_parent_window = some_unless_empty parent,
                 ca_apps = order_candidates apps (preferred_id w d apps ct options),
                 ca_choices = prompter_choices options\<rparr>
        in (case validate_choose_app r of Inl e \<Rightarrow> Inl (Bad_Request e) | Inr _ \<Rightarrow> Inr r))"

section \<open>The bus methods\<close>

definition choose_application ::
  "app_world \<Rightarrow> app_dirs \<Rightarrow> nat option \<Rightarrow> bool \<Rightarrow> string \<Rightarrow> string \<Rightarrow> string \<Rightarrow> string list \<Rightarrow> string \<Rightarrow> vardict
     \<Rightarrow> (choose_app_request \<Rightarrow> reply queue_outcome) \<Rightarrow> req_world
     \<Rightarrow> (fdo_error + reply) \<times> req_world" where
  "choose_application w d fault remove_fails path app_id parent supplied ct options outcome rw =
     (case build_request w d app_id parent supplied ct options of
        Inl _ \<Rightarrow> (Inr (2, []), rw)
      | Inr r \<Rightarrow> dispatch fault remove_fails ''choose'' path (outcome r) rw)"

definition update_choices :: "(string \<times> vardict) list \<Rightarrow> fdo_error + unit" where
  "update_choices cs =
     (if CHOOSER_MAX_CHOICES < length cs
         \<or> list_ex (\<lambda>(i, _). i = [] \<or> 256 < length i \<or> has_nul i) cs
      then Inl (Fdo_InvalidArgs ''malformed AppChooser choices update'') else Inr ())"

section \<open>The dialog\<close>

record chooser_env = dialog_env +
  ce_world :: app_world
  ce_dirs :: app_dirs
  ce_default :: default_env
  ce_pid :: string
  ce_spawn :: "io_error option"

text \<open>Recording the default, when the checkbox was ticked; a failure is only logged.\<close>

definition record_default :: "chooser_env \<Rightarrow> (string \<times> string) list \<Rightarrow> string \<Rightarrow> string \<Rightarrow> files \<Rightarrow> files" where
  "record_default env answers ct i fs =
     (if remembers answers
      then snd (set_default_app (ce_default env) (ce_pid env) (aw_lossy (ce_world env)) (ce_dirs env) ct i fs)
      else fs)"

definition run_dialog ::
  "chooser_env \<Rightarrow> string \<Rightarrow> choose_app_request \<Rightarrow> reply \<times> files" where
  "run_dialog env path request =
     (let fs = aw_files (ce_world env) in
      if closed_at env 0 path then ((1, []), fs)
      else (case dg_answer env of
              Inr (Result_App response) \<Rightarrow>
                if closed_at env 1 path then ((1, []), fs)
                else (case app_answer_valid response request of
                        Inl _ \<Rightarrow> ((2, []), fs)
                      | Inr _ \<Rightarrow>
                          (case response of
                             App_Selected app answers \<Rightarrow>
                               ((0, [(''choice'', DV_Str app)]),
                                record_default env answers (ca_content_type request) app fs)
                           | App_Cancelled \<Rightarrow> ((1, []), fs)))
            | Inl Invoke_Cancelled \<Rightarrow> ((1, []), fs)
            | Inr _ \<Rightarrow> ((2, []), fs)
            | Inl (Invoke_Failed _) \<Rightarrow> ((2, []), fs)))"

text \<open>The worker: a job is the request path with its request.\<close>

type_synonym chooser_job = "string \<times> choose_app_request"

definition chooser_task :: "chooser_job \<Rightarrow> chooser_env \<Rightarrow> reply" where
  "chooser_task j env = fst (run_dialog env (fst j) (snd j))"

definition app_chooser_worker ::
  "(chooser_job, chooser_env) pool_event list \<Rightarrow> (chooser_job, reply) pool" where
  "app_chooser_worker es = pool_after MAX_ACTIVE_APP_CHOOSERS refusal chooser_task es"

section \<open>Lemmas\<close>

lemma first_of_each_subset: "set (first_of_each seen as) \<subseteq> set as"
  by (induction as arbitrary: seen) (simp_all add: subset_insertI2)

lemma first_of_each_unseen: "a \<in> set (first_of_each seen as) \<Longrightarrow> ai_id a \<notin> seen"
  by (induction as arbitrary: seen) (auto split: if_splits)

lemma first_of_each_distinct: "distinct (map ai_id (first_of_each seen as))"
  by (induction as arbitrary: seen) (auto dest: first_of_each_unseen)

lemma position_of_Some: "position_of i as = Some n \<Longrightarrow> n < length as \<and> app_id_of (as ! n) = i"
  by (induction as arbitrary: n) (auto split: if_splits)

text \<open>Ordering only moves the preferred candidate to the front.\<close>

lemma order_candidates_same: "mset (order_candidates apps p) = mset apps"
proof (cases "Option.bind p (\<lambda>p. position_of p apps)")
  case (Some n)
  then have n: "n < length apps" by (auto simp: bind_eq_Some_conv dest: position_of_Some)
  then have "apps = take n apps @ apps ! n # drop (Suc n) apps" by (rule id_take_nth_drop)
  then have "mset apps = mset (take n apps) + mset (apps ! n # drop (Suc n) apps)" by (metis mset_append)
  with Some show ?thesis by (simp add: order_candidates_def)
qed (simp add: order_candidates_def)

lemma order_candidates_first:
  "position_of i apps \<noteq> None \<Longrightarrow> app_id_of (hd (order_candidates apps (Some i))) = i"
  by (auto simp: order_candidates_def dest: position_of_Some)

text \<open>Consent to a choice: an offered application was selected and the request was not closed.\<close>

definition app_consent :: "chooser_job \<Rightarrow> chooser_env \<Rightarrow> bool" where
  "app_consent j env \<longleftrightarrow>
     \<not> closed_at env 0 (fst j) \<and> \<not> closed_at env 1 (fst j)
     \<and> (\<exists>i answers. dg_answer env = Inr (Result_App (App_Selected i answers))
          \<and> app_answer_valid (App_Selected i answers) (snd j) = Inr ())"

lemma chooser_task_grants: "granted (chooser_task j env) \<Longrightarrow> app_consent j env"
  by (auto simp: chooser_task_def run_dialog_def app_consent_def Let_def
      split: if_splits sum.splits prompt_result.splits invoke_error.splits choose_app_response.splits)

interpretation app_chooser: consent_task chooser_task refusal granted app_consent
  by unfold_locales (simp_all add: chooser_task_grants)

end
