(* ===== verification/Open_Uri.thy ===== *)
theory Open_Uri
  imports App_Chooser
begin

text \<open>
  \<open>crates/xdg-desktop-portal-atrium/src/open_uri.rs\<close>: the classification of a URI, the decision to
  launch the default or to ask, the chooser, and the launch.
\<close>

definition MAX_URI_BYTES :: nat where "MAX_URI_BYTES = 8 * 1024"
definition MAX_ACTIVE_OPEN_REQUESTS :: nat where "MAX_ACTIVE_OPEN_REQUESTS = 32"

section \<open>Classification\<close>

datatype uri_target = Target_File string | Target_Scheme string

datatype uri_error = Uri_Size | Uri_Control | Uri_No_Scheme | Uri_Scheme string | Uri_Not_Local

definition ascii_upper :: "char \<Rightarrow> bool" where
  "ascii_upper c \<longleftrightarrow> 65 \<le> byte_of c \<and> byte_of c \<le> 90"

definition ascii_alpha :: "char \<Rightarrow> bool" where
  "ascii_alpha c \<longleftrightarrow> ascii_upper c \<or> 97 \<le> byte_of c \<and> byte_of c \<le> 122"

definition ascii_digit :: "char \<Rightarrow> bool" where
  "ascii_digit c \<longleftrightarrow> 48 \<le> byte_of c \<and> byte_of c \<le> 57"

definition ascii_lower :: "string \<Rightarrow> string" where
  "ascii_lower = map (\<lambda>c. if ascii_upper c then char_of (byte_of c + 32) else c)"

definition scheme_rest :: "char \<Rightarrow> bool" where
  "scheme_rest c \<longleftrightarrow> ascii_alpha c \<or> ascii_digit c \<or> c \<in> {CHR ''+'', CHR ''-'', CHR ''.''}"

fun valid_scheme :: "string \<Rightarrow> bool" where
  "valid_scheme [] = False"
| "valid_scheme (c # cs) = (ascii_alpha c \<and> list_all scheme_rest cs)"

definition classify :: "string \<Rightarrow> uri_error + uri_target" where
  "classify uri =
     (if uri = [] \<or> MAX_URI_BYTES < length uri then Inl Uri_Size
      else if has_control uri then Inl Uri_Control
      else (case split_once (CHR '':'') uri of
              None \<Rightarrow> Inl Uri_No_Scheme
            | Some (scheme, rest) \<Rightarrow>
                if \<not> valid_scheme scheme then Inl (Uri_Scheme scheme)
                else if ascii_lower scheme = ''file'' then
                  (case path_from_file_uri (''file:'' @ rest) of
                     Some p \<Rightarrow> Inr (Target_File p)
                   | None \<Rightarrow> Inl Uri_Not_Local)
                else Inr (Target_Scheme (ascii_lower scheme))))"

definition content_type_for :: "app_world \<Rightarrow> app_dirs \<Rightarrow> string \<Rightarrow> uri_error + string" where
  "content_type_for w d uri =
     (case classify uri of
        Inl e \<Rightarrow> Inl e
      | Inr (Target_File p) \<Rightarrow>
          let name = (case file_name_of p of Some n \<Rightarrow> if valid_utf8 n then n else [] | None \<Rightarrow> [])
          in Inr (unwrap_or ''application/octet-stream'' (content_type_for_filename w d name))
      | Inr (Target_Scheme scheme) \<Rightarrow> Inr (''x-scheme-handler/'' @ scheme))"

section \<open>The decision\<close>

datatype decision = Launch_App app_info | Choose_App "app_choice list" | Nothing_Opens

definition decide :: "app_world \<Rightarrow> app_dirs \<Rightarrow> string \<Rightarrow> bool \<Rightarrow> decision" where
  "decide w d ct ask =
     (let fallback = default_app w d ct;
          candidates = map to_choice (filter (\<lambda>a. \<not> ai_terminal a) (apps_for_content_type w d ct));
          chosen = (if candidates = [] then Nothing_Opens
                    else Choose_App (order_candidates candidates (map_option ai_id fallback)))
      in if ask then chosen
         else (case fallback of Some app \<Rightarrow> Launch_App app | None \<Rightarrow> chosen))"

datatype launch_refusal = Needs_Terminal | Not_Launched io_error

type_synonym launched = "string \<times> string list"

definition launch_app :: "io_error option \<Rightarrow> app_info \<Rightarrow> string \<Rightarrow> (launch_refusal + launched) run" where
  "launch_app spawn_fault app uri =
     (if ai_terminal app then Value (Inl Needs_Terminal)
      else run_map (\<lambda>r. case r of Inl e \<Rightarrow> Inl (Not_Launched e) | Inr l \<Rightarrow> Inr l)
             (launch spawn_fault (ai_exec app) [uri]))"

section \<open>One request\<close>

text \<open>The reply (a panic drops it), what was launched, and the files afterwards.\<close>

record open_outcome =
  oo_reply :: "reply run"
  oo_launched :: "launched option"
  oo_files :: files

definition outcome_of :: "nat \<Rightarrow> files \<Rightarrow> open_outcome" where
  "outcome_of code fs = \<lparr>oo_reply = Value (of_nat code, []), oo_launched = None, oo_files = fs\<rparr>"

definition open_request :: "string \<Rightarrow> string \<Rightarrow> string option \<Rightarrow> app_choice list \<Rightarrow> choose_app_request" where
  "open_request app_id ct parent candidates =
     \<lparr>ca_app_id = app_id, ca_title = ''Open With'', ca_content_type = ct, ca_parent_window = parent,
      ca_apps = candidates, ca_choices = [remember_choice]\<rparr>"

definition finish_launch ::
  "chooser_env \<Rightarrow> app_info \<Rightarrow> string \<Rightarrow> (files \<Rightarrow> files) \<Rightarrow> open_outcome" where
  "finish_launch env app uri after =
     (let fs = aw_files (ce_world env) in
      case launch_app (ce_spawn env) app uri of
        Panicked \<Rightarrow> \<lparr>oo_reply = Panicked, oo_launched = None, oo_files = fs\<rparr>
      | Value (Inl _) \<Rightarrow> outcome_of 2 fs
      | Value (Inr l) \<Rightarrow> \<lparr>oo_reply = Value (0, []), oo_launched = Some l, oo_files = after fs\<rparr>)"

definition run_chooser ::
  "chooser_env \<Rightarrow> string \<Rightarrow> string \<Rightarrow> string \<Rightarrow> string \<Rightarrow> string option \<Rightarrow> app_choice list \<Rightarrow> open_outcome" where
  "run_chooser env path app_id uri ct parent candidates =
     (let fs = aw_files (ce_world env); request = open_request app_id ct parent candidates in
      case validate_choose_app request of
        Inl _ \<Rightarrow> outcome_of 2 fs
      | Inr _ \<Rightarrow>
          (case dg_answer env of
             Inr (Result_App response) \<Rightarrow>
               if closed_at env 1 path then outcome_of 1 fs
               else (case app_answer_valid response request of
                       Inl _ \<Rightarrow> outcome_of 2 fs
                     | Inr _ \<Rightarrow>
                         (case response of
                            App_Cancelled \<Rightarrow> outcome_of 1 fs
                          | App_Selected i answers \<Rightarrow>
                              (case app_by_id (ce_world env) (ce_dirs env) i of
                                 None \<Rightarrow> outcome_of 2 fs
                               | Some app \<Rightarrow> finish_launch env app uri (record_default env answers ct i))))
           | Inl Invoke_Cancelled \<Rightarrow> outcome_of 1 fs
           | Inr _ \<Rightarrow> outcome_of 2 fs
           | Inl (Invoke_Failed _) \<Rightarrow> outcome_of 2 fs))"

definition run_open ::
  "chooser_env \<Rightarrow> string \<Rightarrow> string \<Rightarrow> string \<Rightarrow> string \<Rightarrow> string option \<Rightarrow> bool \<Rightarrow> open_outcome" where
  "run_open env path app_id uri ct parent ask =
     (if closed_at env 0 path then outcome_of 1 (aw_files (ce_world env))
      else (case decide (ce_world env) (ce_dirs env) ct ask of
              Launch_App app \<Rightarrow> finish_launch env app uri (\<lambda>fs. fs)
            | Nothing_Opens \<Rightarrow> outcome_of 2 (aw_files (ce_world env))
            | Choose_App candidates \<Rightarrow> run_chooser env path app_id uri ct parent candidates))"

section \<open>The worker and the bus methods\<close>

record open_job =
  oj_path :: string
  oj_app_id :: string
  oj_uri :: string
  oj_content_type :: string
  oj_parent :: "string option"
  oj_ask :: bool

definition open_task :: "open_job \<Rightarrow> chooser_env \<Rightarrow> reply run" where
  "open_task j env =
     oo_reply (run_open env (oj_path j) (oj_app_id j) (oj_uri j) (oj_content_type j) (oj_parent j) (oj_ask j))"

definition open_uri_worker ::
  "(open_job, chooser_env) pool_event list \<Rightarrow> (open_job, reply run) pool" where
  "open_uri_worker es = pool_after MAX_ACTIVE_OPEN_REQUESTS (Value refusal) open_task es"

definition open_job_of :: "string \<Rightarrow> string \<Rightarrow> string \<Rightarrow> string \<Rightarrow> vardict \<Rightarrow> string \<Rightarrow> open_job" where
  "open_job_of path app_id parent uri options ct =
     \<lparr>oj_path = path, oj_app_id = app_id, oj_uri = uri, oj_content_type = ct,
      oj_parent = some_unless_empty parent, oj_ask = unwrap_or False (opt_get as_bool options ''ask'')\<rparr>"

definition open_method ::
  "app_world \<Rightarrow> app_dirs \<Rightarrow> nat option \<Rightarrow> bool \<Rightarrow> string \<Rightarrow> string \<Rightarrow> string \<Rightarrow> string \<Rightarrow> vardict
     \<Rightarrow> (open_job \<Rightarrow> reply queue_outcome) \<Rightarrow> req_world
     \<Rightarrow> (fdo_error + reply) \<times> req_world" where
  "open_method w d fault remove_fails path app_id parent uri options outcome rw =
     (case content_type_for w d uri of
        Inl _ \<Rightarrow> (Inr (2, []), rw)
      | Inr ct \<Rightarrow>
          dispatch fault remove_fails ''open'' path (outcome (open_job_of path app_id parent uri options ct)) rw)"

text \<open>\<open>OpenFile\<close>: the link the descriptor resolves to, if it can be read.\<close>

definition open_file_method ::
  "app_world \<Rightarrow> app_dirs \<Rightarrow> nat option \<Rightarrow> bool \<Rightarrow> string \<Rightarrow> string \<Rightarrow> string \<Rightarrow> io_error + string \<Rightarrow> vardict
     \<Rightarrow> (open_job \<Rightarrow> reply queue_outcome) \<Rightarrow> req_world
     \<Rightarrow> (fdo_error + reply) \<times> req_world" where
  "open_file_method w d fault remove_fails path app_id parent link options outcome rw =
     (case link of
        Inl _ \<Rightarrow> (Inr (2, []), rw)
      | Inr p \<Rightarrow> open_method w d fault remove_fails path app_id parent (file_uri p) options outcome rw)"

section \<open>Lemmas\<close>

text \<open>What was launched and why.\<close>

definition launch_justified ::
  "chooser_env \<Rightarrow> string \<Rightarrow> string \<Rightarrow> string \<Rightarrow> bool \<Rightarrow> launched \<Rightarrow> bool" where
  "launch_justified env path ct uri ask l \<longleftrightarrow>
     \<not> closed_at env 0 path
     \<and> (\<exists>app. \<not> ai_terminal app \<and> launch (ce_spawn env) (ai_exec app) [uri] = Value (Inr l)
          \<and> (\<not> ask \<and> default_app (ce_world env) (ce_dirs env) ct = Some app
             \<or> (\<exists>i answers.
                  dg_answer env = Inr (Result_App (App_Selected i answers)) \<and> \<not> closed_at env 1 path
                  \<and> app_by_id (ce_world env) (ce_dirs env) i = Some app
                  \<and> i \<in> ai_id ` {a \<in> set (apps_for_content_type (ce_world env) (ce_dirs env) ct). \<not> ai_terminal a})))"

lemma finish_launch_launched:
  "oo_launched (finish_launch env app uri after) = Some l \<longleftrightarrow>
   \<not> ai_terminal app \<and> launch (ce_spawn env) (ai_exec app) [uri] = Value (Inr l)"
  by (cases "launch (ce_spawn env) (ai_exec app) [uri]")
    (auto simp: finish_launch_def launch_app_def outcome_of_def Let_def split: sum.splits)

lemma finish_launch_reply:
  "oo_reply (finish_launch env app uri after) = Value (c, res) \<Longrightarrow>
   (c = 0) = (oo_launched (finish_launch env app uri after) \<noteq> None)"
  by (cases "launch_app (ce_spawn env) app uri")
    (auto simp: finish_launch_def outcome_of_def Let_def split: sum.splits)

lemma finish_launch_unlaunched:
  "oo_launched (finish_launch env app uri after) = None \<Longrightarrow>
   oo_files (finish_launch env app uri after) = aw_files (ce_world env)"
  by (cases "launch_app (ce_spawn env) app uri")
    (auto simp: finish_launch_def outcome_of_def Let_def split: sum.splits)

lemma finish_launch_replied:
  "oo_launched (finish_launch env app uri after) = Some l \<Longrightarrow>
   oo_reply (finish_launch env app uri after) = Value (0, [])"
  by (cases "launch_app (ce_spawn env) app uri")
    (auto simp: finish_launch_def outcome_of_def Let_def split: sum.splits)

lemma outcome_of_simps [simp]:
  "oo_launched (outcome_of n fs) = None" "oo_files (outcome_of n fs) = fs"
  "oo_reply (outcome_of n fs) = Value (of_nat n, [])"
  by (simp_all add: outcome_of_def)

lemma decide_Launch: "decide w d ct ask = Launch_App app \<Longrightarrow> \<not> ask \<and> default_app w d ct = Some app"
  by (auto simp: decide_def Let_def split: if_splits option.splits)

lemma decide_Choose:
  "decide w d ct ask = Choose_App cs \<Longrightarrow>
   app_id_of ` set cs = ai_id ` {a \<in> set (apps_for_content_type w d ct). \<not> ai_terminal a}"
proof -
  let ?l = "filter (\<lambda>a. \<not> ai_terminal a) (apps_for_content_type w d ct)"
  assume "decide w d ct ask = Choose_App cs"
  then have "cs = order_candidates (map to_choice ?l) (map_option ai_id (default_app w d ct))"
    by (auto simp: decide_def Let_def split: if_splits option.splits)
  then have "set cs = set (map to_choice ?l)"
    using order_candidates_same by (metis mset_eq_setD)
  then show ?thesis by (auto simp: to_choice_def image_image image_iff)
qed

lemma run_chooser_launched:
  assumes "oo_launched (run_chooser env path app_id uri ct parent cs) = Some l"
  shows "oo_reply (run_chooser env path app_id uri ct parent cs) = Value (0, [])" and "\<exists>i answers app. dg_answer env = Inr (Result_App (App_Selected i answers)) \<and> \<not> closed_at env 1 path
    \<and> i \<in> app_id_of ` set cs \<and> app_by_id (ce_world env) (ce_dirs env) i = Some app
    \<and> \<not> ai_terminal app \<and> launch (ce_spawn env) (ai_exec app) [uri] = Value (Inr l)"
proof -
  from assms obtain i answers app where *:
    "dg_answer env = Inr (Result_App (App_Selected i answers))" "\<not> closed_at env 1 path"
    "app_answer_valid (App_Selected i answers) (open_request app_id ct parent cs) = Inr ()"
    "app_by_id (ce_world env) (ce_dirs env) i = Some app"
    "oo_launched (finish_launch env app uri (record_default env answers ct i)) = Some l"
    "run_chooser env path app_id uri ct parent cs = finish_launch env app uri (record_default env answers ct i)"
    by (auto simp: run_chooser_def Let_def split: sum.splits prompt_result.splits invoke_error.splits
        choose_app_response.splits option.splits if_splits)
  from * show "oo_reply (run_chooser env path app_id uri ct parent cs) = Value (0, [])"
    by (simp add: finish_launch_replied)
  from * show "\<exists>i answers app. dg_answer env = Inr (Result_App (App_Selected i answers)) \<and> \<not> closed_at env 1 path
    \<and> i \<in> app_id_of ` set cs \<and> app_by_id (ce_world env) (ce_dirs env) i = Some app
    \<and> \<not> ai_terminal app \<and> launch (ce_spawn env) (ai_exec app) [uri] = Value (Inr l)"
    by (auto simp: finish_launch_launched open_request_def guard_def split: if_splits)
qed

lemma run_chooser_reply:
  "oo_launched (run_chooser env path app_id uri ct parent cs) = None \<Longrightarrow>
   oo_reply (run_chooser env path app_id uri ct parent cs) \<noteq> Value (0, res)
   \<and> oo_files (run_chooser env path app_id uri ct parent cs) = aw_files (ce_world env)"
  by (auto simp: run_chooser_def Let_def finish_launch_unlaunched dest: finish_launch_reply
      split: sum.splits prompt_result.splits invoke_error.splits choose_app_response.splits option.splits if_splits)

text \<open>
  C29: OpenURI launches an application only for a request that was not closed, never one that needs
  a terminal, and only the configured default (when the caller did not ask for the chooser) or the
  one the user selected among the launchable applications registered for the content type. A
  request is answered with code 0 exactly when something was launched, and nothing is recorded as
  a default otherwise.
\<close>

theorem open_uri_launches_only_the_choice:
  "(case oo_launched (run_open env path app_id uri ct parent ask) of
      Some l \<Rightarrow> launch_justified env path ct uri ask l
    | None \<Rightarrow> oo_files (run_open env path app_id uri ct parent ask) = aw_files (ce_world env))
   \<and> (\<exists>res. oo_reply (run_open env path app_id uri ct parent ask) = Value (0, res))
      = (oo_launched (run_open env path app_id uri ct parent ask) \<noteq> None)"
proof (cases "closed_at env 0 path")
  case True
  then show ?thesis by (simp add: run_open_def)
next
  case alive: False
  show ?thesis
  proof (cases "decide (ce_world env) (ce_dirs env) ct ask")
    case (Launch_App app)
    then have run: "run_open env path app_id uri ct parent ask = finish_launch env app uri (\<lambda>fs. fs)"
      using alive by (simp add: run_open_def)
    show ?thesis
      using alive decide_Launch [OF Launch_App] finish_launch_reply [of env app uri "\<lambda>fs. fs"]
        finish_launch_unlaunched [of env app uri "\<lambda>fs. fs"] finish_launch_replied [of env app uri "\<lambda>fs. fs"]
      unfolding run by (auto simp: finish_launch_launched launch_justified_def split: option.split)
  next
    case (Choose_App cs)
    then have run: "run_open env path app_id uri ct parent ask = run_chooser env path app_id uri ct parent cs"
      using alive by (simp add: run_open_def)
    show ?thesis
    proof (cases "oo_launched (run_chooser env path app_id uri ct parent cs)")
      case None
      then show ?thesis using run_chooser_reply [OF None] unfolding run by simp
    next
      case (Some l)
      have "launch_justified env path ct uri ask l"
        using run_chooser_launched(2) [OF Some] decide_Choose [OF Choose_App] alive
        unfolding launch_justified_def by metis
      then show ?thesis using Some run_chooser_launched(1) [OF Some] unfolding run by simp
    qed
  next
    case Nothing_Opens
    with alive show ?thesis by (simp add: run_open_def)
  qed
qed

end
