(* ===== verification/Email_Portal.thy ===== *)
theory Email_Portal
  imports Portal_Dialog
begin

text \<open>
  \<open>crates/xdg-desktop-portal-atrium/src/email.rs\<close>: the options of a message, the mailer's argument
  vector, the bound on live mailers and their reaper.
\<close>

definition MAX_ACTIVE_MAILERS :: nat where "MAX_ACTIVE_MAILERS = 32"
definition MAX_RECIPIENTS :: nat where "MAX_RECIPIENTS = 512"
definition MAX_ATTACHMENTS :: nat where "MAX_ATTACHMENTS = 128"
definition MAX_MAILER_ARGUMENT_BYTES :: nat where "MAX_MAILER_ARGUMENT_BYTES = 256 * 1024"

section \<open>Options\<close>

record email_options =
  eo_addresses :: "string list"
  eo_cc :: "string list"
  eo_bcc :: "string list"
  eo_subject :: "string option"
  eo_body :: "string option"
  eo_attachments :: "string list"
  eo_activation_token :: "string option"

datatype email_error = Attachments_Type | Attachment_Path string | Too_Many_Recipients | Too_Many_Attachments | Arguments_Size

definition attachment_path :: "string \<Rightarrow> string option" where
  "attachment_path a =
     (if strip_prefix ''file://'' a \<noteq> None then path_from_file_uri a
      else if path_is_absolute a then Some a else None)"

fun attachment_paths :: "string list \<Rightarrow> email_error + string list" where
  "attachment_paths [] = Inr []"
| "attachment_paths (a # as) =
     (case attachment_path a of
        None \<Rightarrow> Inl (Attachment_Path a)
      | Some p \<Rightarrow> and_then (attachment_paths as) (\<lambda>ps. Inr (p # ps)))"

text \<open>The running total over the lengths, refused as soon as it passes the limit.\<close>

fun add_lengths :: "nat \<Rightarrow> nat list \<Rightarrow> email_error + unit" where
  "add_lengths acc [] = Inr ()"
| "add_lengths acc (n # ns) =
     (if MAX_MAILER_ARGUMENT_BYTES < acc + n then Inl Arguments_Size else add_lengths (acc + n) ns)"

definition option_list :: "'a option \<Rightarrow> 'a list" where
  "option_list x = (case x of None \<Rightarrow> [] | Some y \<Rightarrow> [y])"

definition all_values :: "email_options \<Rightarrow> string list" where
  "all_values e =
     eo_addresses e @ eo_cc e @ eo_bcc e
     @ option_list (eo_subject e) @ option_list (eo_body e) @ option_list (eo_activation_token e)
     @ eo_attachments e"

definition validate_limits :: "email_options \<Rightarrow> email_error + unit" where
  "validate_limits e =
     then_check (guard (MAX_RECIPIENTS < length (eo_addresses e) + length (eo_cc e) + length (eo_bcc e))
                   Too_Many_Recipients)
      (then_check (guard (MAX_ATTACHMENTS < length (eo_attachments e)) Too_Many_Attachments)
        (add_lengths 0 (map length (all_values e))))"

definition string_list :: "vardict \<Rightarrow> string \<Rightarrow> string list" where
  "string_list options key = unwrap_or [] (opt_get as_strings options key)"

definition attachment_uris :: "vardict \<Rightarrow> email_error + string list" where
  "attachment_uris options =
     (case map_of options ''attachments'' of
        None \<Rightarrow> Inr []
      | Some v \<Rightarrow> (case as_strings v of None \<Rightarrow> Inl Attachments_Type | Some us \<Rightarrow> Inr us))"

definition parse_email :: "vardict \<Rightarrow> email_error + email_options" where
  "parse_email options =
     and_then (attachment_uris options) (\<lambda>us.
       and_then (attachment_paths us) (\<lambda>paths.
         let e = \<lparr>eo_addresses = string_list options ''addresses'' @ option_list (opt_get as_str options ''address''),
                  eo_cc = string_list options ''cc'', eo_bcc = string_list options ''bcc'',
                  eo_subject = opt_get as_str options ''subject'', eo_body = opt_get as_str options ''body'',
                  eo_attachments = paths, eo_activation_token = opt_get as_str options ''activation_token''\<rparr>
         in then_check (validate_limits e) (Inr e)))"

definition flagged :: "string \<Rightarrow> string list \<Rightarrow> string list" where
  "flagged flag vs = concat (map (\<lambda>v. [flag, v]) vs)"

definition mailer_argv :: "email_options \<Rightarrow> string list" where
  "mailer_argv e =
     flagged ''--cc'' (eo_cc e) @ flagged ''--bcc'' (eo_bcc e)
     @ flagged ''--subject'' (option_list (eo_subject e)) @ flagged ''--body'' (option_list (eo_body e))
     @ flagged ''--attach'' (eo_attachments e)
     @ [''mailto:'' @ join_with '','' (eo_addresses e)]"

definition mailer_command :: "string option \<Rightarrow> string" where
  "mailer_command env = unwrap_or ''xdg-email'' env"

section \<open>Mailers and their reaper\<close>

text \<open>
  The slots in use, the children waiting in the channel and the children the reaper holds;
  \<open>ms_reaper\<close>: not started yet, or whether its start succeeded; it may have stopped.
\<close>

datatype reaper = Reaper_Unset | Reaper_Running | Reaper_Stopped | Reaper_Unavailable

record mailers =
  ml_active :: nat
  ml_queued :: "nat list"
  ml_held :: "nat list"
  ml_reaper :: reaper

definition mailers_init :: mailers where
  "mailers_init = \<lparr>ml_active = 0, ml_queued = [], ml_held = [], ml_reaper = Reaper_Unset\<rparr>"

definition take_slot :: "mailers \<Rightarrow> mailers option" where
  "take_slot m = (if ml_active m < MAX_ACTIVE_MAILERS then Some (m\<lparr>ml_active := ml_active m + 1\<rparr>) else None)"

definition release_mailer_slot :: "mailers \<Rightarrow> mailers" where
  "release_mailer_slot m = m\<lparr>ml_active := ml_active m - 1\<rparr>"

text \<open>\<open>start_ok\<close>: the reaper's thread could be started, at the first child.\<close>

definition hand_to_reaper :: "bool \<Rightarrow> nat \<Rightarrow> mailers \<Rightarrow> bool \<times> mailers" where
  "hand_to_reaper start_ok child m =
     (let state = (if ml_reaper m = Reaper_Unset
                   then (if start_ok then Reaper_Running else Reaper_Unavailable) else ml_reaper m);
          m1 = m\<lparr>ml_reaper := state\<rparr>
      in if state = Reaper_Running then (True, m1\<lparr>ml_queued := ml_queued m1 @ [child]\<rparr>)
         else (False, release_mailer_slot m1))"

text \<open>One turn of the reaper: at most one child is received, then every held child is polled once.\<close>

datatype child_poll = Child_Exited | Child_Alive | Child_Error

function sweep :: "(nat \<Rightarrow> child_poll) \<Rightarrow> nat \<Rightarrow> nat list \<Rightarrow> mailers \<Rightarrow> mailers" where
  "sweep polls n held m =
     (if n < length held
      then (if polls (held ! n) = Child_Alive then sweep polls (n + 1) held m
            else sweep polls n (butlast (held[n := last held])) (release_mailer_slot m))
      else m\<lparr>ml_held := held\<rparr>)"
  by pat_completeness auto
termination
  by (relation "measure (\<lambda>(_, n, held, _). length held - n)") auto

declare sweep.simps [simp del]

definition reaper_turn :: "(nat \<Rightarrow> child_poll) \<Rightarrow> mailers \<Rightarrow> mailers" where
  "reaper_turn polls m =
     (case ml_queued m of
        [] \<Rightarrow> sweep polls 0 (ml_held m) m
      | c # cs \<Rightarrow> sweep polls 0 (ml_held m @ [c]) (m\<lparr>ml_queued := cs\<rparr>))"

text \<open>The part of \<open>compose\<close> behind the parsed options: a slot, the child, the reaper.\<close>

definition spawn_mailer :: "bool \<Rightarrow> bool \<Rightarrow> nat \<Rightarrow> mailers \<Rightarrow> reply \<times> mailers" where
  "spawn_mailer spawn_ok start_ok child m =
     (case take_slot m of
        None \<Rightarrow> (failed_reply, m)
      | Some m1 \<Rightarrow>
          if \<not> spawn_ok then (failed_reply, release_mailer_slot m1)
          else (case hand_to_reaper start_ok child m1 of
                  (True, m2) \<Rightarrow> ((0, []), m2) | (False, m2) \<Rightarrow> (failed_reply, m2)))"

definition compose ::
  "bool \<Rightarrow> bool \<Rightarrow> nat \<Rightarrow> string \<Rightarrow> vardict \<Rightarrow> tracker \<Rightarrow> mailers \<Rightarrow> reply \<times> mailers" where
  "compose spawn_ok start_ok child path options t m =
     (if was_closed t path then (cancelled_reply, m)
      else (case parse_email options of
              Inl _ \<Rightarrow> (failed_reply, m)
            | Inr e \<Rightarrow> spawn_mailer spawn_ok start_ok child m))"

text \<open>The method registers its request, answers at once and finishes it; \<open>closes\<close> arrive in between.\<close>

definition compose_email ::
  "nat option \<Rightarrow> bool \<Rightarrow> bool \<Rightarrow> bool \<Rightarrow> nat \<Rightarrow> string list \<Rightarrow> string \<Rightarrow> vardict \<Rightarrow> req_world \<Rightarrow> mailers
     \<Rightarrow> (fdo_error + reply) \<times> req_world \<times> mailers" where
  "compose_email fault remove_fails spawn_ok start_ok child closes path options w m =
     (case register fault path w of
        (Inl e, w1) \<Rightarrow> (Inl e, w1, m)
      | (Inr _, w1) \<Rightarrow>
          let w2 = fold request_close closes w1 in
          (case compose spawn_ok start_ok child path options (rw_tracker w2) m of
             (r, m1) \<Rightarrow> (Inr r, finish remove_fails path w2, m1)))"

section \<open>Lemmas\<close>

datatype mailer_event = Mail_Compose bool bool nat | Mail_Turn "nat \<Rightarrow> child_poll"

fun mailer_step :: "mailer_event \<Rightarrow> mailers \<Rightarrow> mailers" where
  "mailer_step (Mail_Compose spawn_ok start_ok child) m = snd (spawn_mailer spawn_ok start_ok child m)"
| "mailer_step (Mail_Turn polls) m = (if ml_reaper m = Reaper_Running then reaper_turn polls m else m)"

text \<open>The slots in use are exactly the children that are queued or held.\<close>

definition mailers_inv :: "mailers \<Rightarrow> bool" where
  "mailers_inv m \<longleftrightarrow>
     ml_active m = length (ml_queued m) + length (ml_held m) \<and> ml_active m \<le> MAX_ACTIVE_MAILERS"

lemma sweep_count:
  "ml_active m = length (ml_queued m) + length held \<Longrightarrow>
   ml_active (sweep polls n held m) = length (ml_queued (sweep polls n held m)) + length (ml_held (sweep polls n held m))
   \<and> ml_active (sweep polls n held m) \<le> ml_active m
   \<and> ml_queued (sweep polls n held m) = ml_queued m \<and> set (ml_held (sweep polls n held m)) \<subseteq> set held"
proof (induction polls n held m rule: sweep.induct)
  case (1 polls n held m)
  consider (done1) "\<not> n < length held" | (alive) "n < length held" "polls (held ! n) = Child_Alive"
    | (gone) "n < length held" "polls (held ! n) \<noteq> Child_Alive" by blast
  then show ?case
  proof cases
    case done1
    then have "sweep polls n held m = m\<lparr>ml_held := held\<rparr>" by (subst sweep.simps) simp
    with 1(3) show ?thesis by simp
  next
    case alive
    then have next_one: "sweep polls n held m = sweep polls (n + 1) held m" by (subst sweep.simps) simp
    show ?thesis unfolding next_one by (rule 1(1) [OF alive 1(3)])
  next
    case gone
    let ?h = "butlast (held[n := last held])"
    have "set ?h \<subseteq> set held"
    proof -
      from gone(1) have "last held \<in> set held" by (intro last_in_set) auto
      then show ?thesis
        using set_update_subset_insert [of held n "last held"] by (auto dest!: in_set_butlastD)
    qed
    moreover have "ml_active (release_mailer_slot m) = length (ml_queued (release_mailer_slot m)) + length ?h"
      using gone(1) 1(3) by (simp add: release_mailer_slot_def)
    moreover have "sweep polls n held m = sweep polls n ?h (release_mailer_slot m)"
      using gone by (subst sweep.simps) simp
    moreover have "ml_active (release_mailer_slot m) \<le> ml_active m"
      "ml_queued (release_mailer_slot m) = ml_queued m"
      by (simp_all add: release_mailer_slot_def)
    ultimately show ?thesis using 1(2) [OF gone] by auto
  qed
qed

lemma mailer_step_inv [inv_intros]: "mailers_inv m \<Longrightarrow> mailers_inv (mailer_step e m)"
proof (cases e)
  case (Mail_Compose spawn_ok start_ok child)
  moreover assume "mailers_inv m"
  ultimately show ?thesis
    by (auto simp: mailers_inv_def spawn_mailer_def take_slot_def release_mailer_slot_def hand_to_reaper_def
        Let_def split: if_splits)
next
  case (Mail_Turn polls)
  moreover assume inv: "mailers_inv m"
  moreover have "mailers_inv (reaper_turn polls m)"
  proof (cases "ml_queued m")
    case Nil
    then show ?thesis
      using inv sweep_count [of m "ml_held m" polls 0] by (simp add: mailers_inv_def reaper_turn_def)
  next
    case (Cons c cs)
    then show ?thesis
      using inv sweep_count [of "m\<lparr>ml_queued := cs\<rparr>" "ml_held m @ [c]" polls 0]
      unfolding mailers_inv_def reaper_turn_def by auto
  qed
  ultimately show ?thesis by simp
qed

interpretation mailer: guarded_machine mailer_step mailers_inv
  by unfold_locales (rule mailer_step_inv)

lemma mailers_are_bounded:
  "length (ml_queued (fold mailer_step es mailers_init)) + length (ml_held (fold mailer_step es mailers_init))
     \<le> MAX_ACTIVE_MAILERS"
proof -
  have "mailers_inv mailers_init" by (simp add: mailers_inv_def mailers_init_def)
  from mailer.run_inv [OF this, of es] show ?thesis by (simp add: mailers_inv_def)
qed

text \<open>A sweep lets every child go that has exited: none of them is held any longer.\<close>

lemma add_lengths_sum: "add_lengths k ns = Inr () \<Longrightarrow> k \<le> MAX_MAILER_ARGUMENT_BYTES \<Longrightarrow> k + sum_list ns \<le> MAX_MAILER_ARGUMENT_BYTES"
  by (induction k ns rule: add_lengths.induct) (auto split: if_splits)

text \<open>What is handed to the mailer is bounded, and every attachment is an absolute path.\<close>

lemma attachment_paths_absolute: "attachment_paths us = Inr ps \<Longrightarrow> list_all path_is_absolute ps"
proof (induction us arbitrary: ps)
  case (Cons u us)
  have "path_is_absolute p" if "attachment_path u = Some p" for p
    using that path_from_file_uri_absolute [of u p]
    by (auto simp: attachment_path_def split: if_splits)
  with Cons show ?case by (auto split: option.splits)
qed simp

text \<open>Recipients are not escaped: an address can carry further fields of the \<open>mailto:\<close> URI.\<close>

lemma recipients_can_inject_fields:
  "parse_email [(''address'', DV_Str ''a@b?attach=/etc/passwd'')] = Inr e \<Longrightarrow>
   mailer_argv e = [''mailto:a@b?attach=/etc/passwd'']"
  by (auto simp: parse_email_def attachment_uris_def string_list_def opt_get_def validate_limits_def guard_def
      option_list_def all_values_def mailer_argv_def flagged_def MAX_RECIPIENTS_def MAX_ATTACHMENTS_def
      MAX_MAILER_ARGUMENT_BYTES_def Let_def)

end
