(* ===== verification/Secret_Portal.thy ===== *)
theory Secret_Portal
  imports Portal_Dialog Portal_Files
begin

text \<open>
  \<open>crates/atrium-portal-secret\<close>: the client of the sigil daemon (\<open>native.rs\<close>), which frames a
  request and reads one response, and the Secret portal (\<open>portal.rs\<close>), which writes the secret
  into the caller's descriptor. A frame is its bytes. The daemon's answer, the faults of the socket
  and of the descriptor are parameters.
\<close>

section \<open>The wire format\<close>

definition SOCKET_SUBPATH :: string where "SOCKET_SUBPATH = ''sigil/native.sock''"
definition WIRE_MAGIC :: string where "WIRE_MAGIC = ''SIGL''"
definition WIRE_VERSION :: nat where "WIRE_VERSION = 2"
definition HEADER_LEN :: nat where "HEADER_LEN = 8"
definition MAX_PAYLOAD_SIZE :: nat where "MAX_PAYLOAD_SIZE = 4096"
definition OP_GET_APPLICATION_SECRET :: nat where "OP_GET_APPLICATION_SECRET = 1"

definition STATUS_SECRET :: nat where "STATUS_SECRET = 1"
definition STATUS_LOCKED :: nat where "STATUS_LOCKED = 3"
definition STATUS_CANCELLED :: nat where "STATUS_CANCELLED = 5"
definition STATUS_ACCESS_DENIED :: nat where "STATUS_ACCESS_DENIED = 6"
definition STATUS_ERROR :: nat where "STATUS_ERROR = 7"

datatype native_error =
    Ne_Locked
  | Ne_Cancelled
  | Ne_Access_Denied string
  | Ne_Daemon string
  | Ne_Io io_error
  | Ne_Unexpected

text \<open>\<open>(n as u16).to_be_bytes()\<close> and \<open>u16::from_be_bytes\<close>.\<close>

definition to_be16 :: "nat \<Rightarrow> string" where
  "to_be16 n = [char_of (n div 256 mod 256), char_of (n mod 256)]"

definition from_be16 :: "char \<Rightarrow> char \<Rightarrow> nat" where
  "from_be16 a b = byte_of a * 256 + byte_of b"

definition append_str :: "string \<Rightarrow> string \<Rightarrow> native_error + string" where
  "append_str out s =
     (if 0xFFFF < length s then Inl (Ne_Io Io_InvalidInput) else Inr (out @ to_be16 (length s) @ s))"

definition decode_string :: "string \<Rightarrow> native_error + string" where
  "decode_string buf =
     (case buf of
        a # b # rest \<Rightarrow>
          (let n = from_be16 a b in
           if length rest < n then Inl (Ne_Io Io_UnexpectedEof)
           else if valid_utf8 (take n rest) then Inr (take n rest)
           else Inl (Ne_Io Io_InvalidData))
      | _ \<Rightarrow> Inr [])"

definition request_payload :: "string \<Rightarrow> string \<Rightarrow> string \<Rightarrow> native_error + string" where
  "request_payload namespace subject purpose =
     and_then (append_str [] namespace) (\<lambda>p.
       and_then (append_str p subject) (\<lambda>q. append_str q purpose))"

definition request_frame :: "string \<Rightarrow> string \<Rightarrow> string \<Rightarrow> native_error + string" where
  "request_frame namespace subject purpose =
     and_then (request_payload namespace subject purpose) (\<lambda>payload.
       if MAX_PAYLOAD_SIZE < length payload then Inl (Ne_Io Io_InvalidData)
       else Inr (WIRE_MAGIC @ [char_of WIRE_VERSION, char_of OP_GET_APPLICATION_SECRET]
                 @ to_be16 (length payload) @ payload))"

section \<open>One request\<close>

text \<open>\<open>read_exact\<close> on what the daemon sent before it closed the socket.\<close>

definition read_exactly :: "nat \<Rightarrow> string \<Rightarrow> native_error + string \<times> string" where
  "read_exactly n s = (if length s < n then Inl (Ne_Io Io_UnexpectedEof) else Inr (take n s, drop n s))"

definition read_header :: "string \<Rightarrow> native_error + nat \<times> nat" where
  "read_header header =
     (if take 4 header \<noteq> WIRE_MAGIC then Inl (Ne_Io Io_InvalidData)
      else if byte_of (header ! 4) \<noteq> WIRE_VERSION then Inl (Ne_Io Io_InvalidData)
      else let n = from_be16 (header ! 6) (header ! 7) in
        if MAX_PAYLOAD_SIZE < n then Inl (Ne_Io Io_InvalidData) else Inr (byte_of (header ! 5), n))"

definition decode_response :: "nat \<Rightarrow> string \<Rightarrow> native_error + string" where
  "decode_response status payload =
     (if status = STATUS_SECRET then Inr payload
      else if status = STATUS_LOCKED then Inl Ne_Locked
      else if status = STATUS_CANCELLED then Inl Ne_Cancelled
      else if status = STATUS_ACCESS_DENIED then and_then (decode_string payload) (\<lambda>m. Inl (Ne_Access_Denied m))
      else if status = STATUS_ERROR then and_then (decode_string payload) (\<lambda>m. Inl (Ne_Daemon m))
      else Inl Ne_Unexpected)"

definition read_response :: "string \<Rightarrow> native_error + string" where
  "read_response s =
     and_then (read_exactly HEADER_LEN s) (\<lambda>(header, s1).
       and_then (read_header header) (\<lambda>(status, n).
         and_then (read_exactly n s1) (\<lambda>(payload, _). decode_response status payload)))"

text \<open>The environment of one request; \<open>sg_answer\<close> maps the frame the daemon got to what it sends.\<close>

record sigil_env =
  sg_runtime :: "string option"
  sg_connect :: "io_error option"
  sg_write :: "io_error option"
  sg_answer :: "string \<Rightarrow> string"

definition connect_default :: "sigil_env \<Rightarrow> native_error + string" where
  "connect_default env =
     (case filled (sg_runtime env) of
        None \<Rightarrow> Inl (Ne_Io Io_NotFound)
      | Some dir \<Rightarrow> Inr (path_join dir SOCKET_SUBPATH))"

text \<open>The result and the frame the daemon received, if one was written.\<close>

definition get_application_secret ::
  "sigil_env \<Rightarrow> string \<Rightarrow> string \<Rightarrow> string \<Rightarrow> (native_error + string) \<times> string option" where
  "get_application_secret env namespace subject purpose =
     (case sg_connect env of
        Some e \<Rightarrow> (Inl (Ne_Io e), None)
      | None \<Rightarrow>
          (case request_frame namespace subject purpose of
             Inl e \<Rightarrow> (Inl e, None)
           | Inr frame \<Rightarrow>
               (case sg_write env of
                  Some e \<Rightarrow> (Inl (Ne_Io e), None)
                | None \<Rightarrow> (read_response (sg_answer env frame), Some frame))))"

section \<open>The portal\<close>

definition SECRET_NAMESPACE :: string where "SECRET_NAMESPACE = ''atrium.portal.Secret/v1''"
definition SECRET_PURPOSE :: string where "SECRET_PURPOSE = ''master-secret''"

text \<open>
  The caller's descriptor: whether it can be cloned, the fault of writing to it and what was
  written before, what \<open>metadata\<close> says (\<open>None\<close>: it fails) and the fault of \<open>sync_all\<close>.
\<close>

record secret_env = sigil_env +
  sc_tracker :: tracker
  sc_clone :: "io_error option"
  sc_write :: "io_error option"
  sc_written :: nat
  sc_regular :: "bool option"
  sc_sync :: "io_error option"

text \<open>The reply, and the bytes that reached the descriptor.\<close>

definition secret_run :: "secret_env \<Rightarrow> string \<Rightarrow> string \<Rightarrow> reply \<times> string" where
  "secret_run env path app_id =
     (if was_closed (sc_tracker env) path then (cancelled_reply, [])
      else if sc_clone env \<noteq> None then (failed_reply, [])
      else (case connect_default (sigil_env.truncate env) of
              Inl _ \<Rightarrow> (failed_reply, [])
            | Inr _ \<Rightarrow>
                (case fst (get_application_secret (sigil_env.truncate env) SECRET_NAMESPACE app_id SECRET_PURPOSE) of
                   Inr secret \<Rightarrow>
                     (case sc_write env of
                        Some _ \<Rightarrow> (failed_reply, take (sc_written env) secret)
                      | None \<Rightarrow>
                          (if sc_regular env = None \<or> sc_regular env = Some True \<and> sc_sync env \<noteq> None
                           then (failed_reply, secret) else ((0, []), secret)))
                 | Inl Ne_Locked \<Rightarrow> (cancelled_reply, [])
                 | Inl Ne_Cancelled \<Rightarrow> (cancelled_reply, [])
                 | Inl _ \<Rightarrow> (failed_reply, []))))"

text \<open>The method registers its request, runs and finishes it; \<open>closes\<close> arrive before the task's test.\<close>

definition retrieve_secret ::
  "nat option \<Rightarrow> bool \<Rightarrow> string list \<Rightarrow> secret_env \<Rightarrow> string \<Rightarrow> string \<Rightarrow> req_world
     \<Rightarrow> (fdo_error + reply) \<times> req_world \<times> string" where
  "retrieve_secret fault remove_fails closes env path app_id w =
     (case register fault path w of
        (Inl e, w1) \<Rightarrow> (Inl e, w1, [])
      | (Inr _, w1) \<Rightarrow>
          let w2 = fold request_close closes w1 in
          (case secret_run (env\<lparr>sc_tracker := rw_tracker w2\<rparr>) path app_id of
             (r, bytes) \<Rightarrow> (Inr r, finish remove_fails path w2, bytes)))"

section \<open>The daemon's reading of a request\<close>

text \<open>The grammar of a request frame, as the daemon's documentation of the protocol gives it.\<close>

definition read_field :: "string \<Rightarrow> (string \<times> string) option" where
  "read_field s =
     (case s of
        a # b # rest \<Rightarrow>
          (let n = from_be16 a b in if length rest < n then None else Some (take n rest, drop n rest))
      | _ \<Rightarrow> None)"

definition parse_frame :: "string \<Rightarrow> (string \<times> string \<times> string) option" where
  "parse_frame s =
     (case s of
        m1 # m2 # m3 # m4 # v # opcode # a # b # payload \<Rightarrow>
          if [m1, m2, m3, m4] = WIRE_MAGIC \<and> byte_of v = WIRE_VERSION
             \<and> byte_of opcode = OP_GET_APPLICATION_SECRET \<and> from_be16 a b = length payload
          then Option.bind (read_field payload) (\<lambda>(namespace, s1).
                 Option.bind (read_field s1) (\<lambda>(subject, s2).
                   Option.bind (read_field s2) (\<lambda>(purpose, s3).
                     if s3 = [] then Some (namespace, subject, purpose) else None)))
          else None
      | _ \<Rightarrow> None)"

text \<open>A response that carries a secret.\<close>

definition secret_response :: "string \<Rightarrow> string" where
  "secret_response secret =
     WIRE_MAGIC @ [char_of WIRE_VERSION, char_of STATUS_SECRET] @ to_be16 (length secret) @ secret"

section \<open>Lemmas\<close>

lemma from_to_be16: "n < 65536 \<Longrightarrow> from_be16 (char_of (n div 256 mod 256)) (char_of (n mod 256)) = n"
  by (simp add: from_be16_def byte_of_def div_less_iff_less_mult)

lemma read_field_append: "length s \<le> 0xFFFF \<Longrightarrow> read_field (to_be16 (length s) @ s @ r) = Some (s, r)"
  using from_to_be16 [of "length s"] by (simp add: read_field_def to_be16_def)

lemma append_str_Inr: "append_str out s = Inr p \<longleftrightarrow> length s \<le> 0xFFFF \<and> p = out @ to_be16 (length s) @ s"
  by (auto simp: append_str_def)

text \<open>Every frame that is sent is read back as its three fields.\<close>

lemma parse_request_frame:
  assumes "request_frame namespace subject purpose = Inr frame"
  shows "parse_frame frame = Some (namespace, subject, purpose)"
proof -
  from assms obtain payload where payload: "request_payload namespace subject purpose = Inr payload"
      "length payload \<le> MAX_PAYLOAD_SIZE"
    and frame: "frame = WIRE_MAGIC @ [char_of WIRE_VERSION, char_of OP_GET_APPLICATION_SECRET]
                 @ to_be16 (length payload) @ payload"
    by (auto simp: request_frame_def and_then_Inr split: if_splits)
  from payload(1) have p: "payload = to_be16 (length namespace) @ namespace
        @ to_be16 (length subject) @ subject @ to_be16 (length purpose) @ purpose"
      "length namespace \<le> 0xFFFF" "length subject \<le> 0xFFFF" "length purpose \<le> 0xFFFF"
    by (auto simp: request_payload_def and_then_Inr append_str_Inr)
  have "from_be16 (char_of (length payload div 256 mod 256)) (char_of (length payload mod 256)) = length payload"
    using payload(2) by (intro from_to_be16) (simp add: MAX_PAYLOAD_SIZE_def)
  then have "parse_frame frame =
      Option.bind (read_field payload) (\<lambda>(namespace, s1).
        Option.bind (read_field s1) (\<lambda>(subject, s2).
          Option.bind (read_field s2) (\<lambda>(purpose, s3).
            if s3 = [] then Some (namespace, subject, purpose) else None)))"
    by (simp add: parse_frame_def frame WIRE_MAGIC_def WIRE_VERSION_def OP_GET_APPLICATION_SECRET_def to_be16_def)
  then show ?thesis
    using read_field_append [OF p(2)] read_field_append [OF p(3)] read_field_append [OF p(4), of "[]"]
    by (simp add: p(1))
qed

lemma decode_response_secret: "decode_response status payload = Inr x \<longleftrightarrow> status = STATUS_SECRET \<and> x = payload"
  by (auto simp: decode_response_def and_then_Inr STATUS_SECRET_def)

lemma to_from_be16: "to_be16 (from_be16 a b) = [a, b]"
proof -
  have "byte_of a < 256" "byte_of b < 256" by (rule byte_of_lt)+
  then have "from_be16 a b div 256 mod 256 = byte_of a" "from_be16 a b mod 256 = byte_of b"
    by (simp_all add: from_be16_def)
  then show ?thesis by (simp add: to_be16_def)
qed

lemma byte_ofD: "byte_of c = n \<Longrightarrow> c = char_of n"
  using char_of_byte_of [of c] by simp

lemma header_shape: "8 \<le> length s \<Longrightarrow> \<exists>a b c d e f g h r. s = [a, b, c, d, e, f, g, h] @ r"
  by (auto simp: numeral_eq_Suc Suc_le_length_iff)

text \<open>A secret is read exactly from a response with the secret's status, its length and its bytes.\<close>

lemma read_response_secret:
  assumes "length x \<le> MAX_PAYLOAD_SIZE"
  shows "read_response (secret_response x @ rest) = Inr x"
proof -
  let ?h = "char_of (length x div 256 mod 256) :: char" and ?l = "char_of (length x mod 256) :: char"
  have n: "from_be16 ?h ?l = length x"
    using assms by (intro from_to_be16) (simp add: MAX_PAYLOAD_SIZE_def)
  have s: "secret_response x @ rest = [CHR ''S'', CHR ''I'', CHR ''G'', CHR ''L'', char_of WIRE_VERSION,
      char_of STATUS_SECRET, ?h, ?l] @ x @ rest"
    by (simp add: secret_response_def WIRE_MAGIC_def to_be16_def)
  have "read_exactly HEADER_LEN (secret_response x @ rest) = Inr ([CHR ''S'', CHR ''I'', CHR ''G'', CHR ''L'',
      char_of WIRE_VERSION, char_of STATUS_SECRET, ?h, ?l], x @ rest)"
    by (simp add: s read_exactly_def HEADER_LEN_def)
  moreover have "read_header [CHR ''S'', CHR ''I'', CHR ''G'', CHR ''L'', char_of WIRE_VERSION,
      char_of STATUS_SECRET, ?h, ?l] = Inr (STATUS_SECRET, length x)"
    using n assms by (simp add: read_header_def WIRE_MAGIC_def WIRE_VERSION_def STATUS_SECRET_def)
  moreover have "read_exactly (length x) (x @ rest) = Inr (x, rest)" by (simp add: read_exactly_def)
  ultimately show ?thesis by (simp add: read_response_def decode_response_secret)
qed

lemma read_response_Inr:
  assumes "read_response s = Inr x"
  shows "length x \<le> MAX_PAYLOAD_SIZE \<and> (\<exists>rest. s = secret_response x @ rest)"
proof -
  from assms obtain header s1 status n where
    h: "read_exactly HEADER_LEN s = Inr (header, s1)" "read_header header = Inr (status, n)"
    and p: "n \<le> length s1" "status = STATUS_SECRET" "x = take n s1"
    by (auto simp: read_response_def and_then_Inr decode_response_secret read_exactly_def split: if_splits)
  from h(1) have "8 \<le> length s" by (simp add: read_exactly_def HEADER_LEN_def split: if_splits)
  from header_shape [OF this] obtain a b c d e f g i r where s: "s = [a, b, c, d, e, f, g, i] @ r" by blast
  with h(1) have header: "header = [a, b, c, d, e, f, g, i]" "s1 = r"
    by (auto simp: read_exactly_def HEADER_LEN_def)
  from h(2) have m: "[a, b, c, d] = WIRE_MAGIC" "byte_of e = WIRE_VERSION" "byte_of f = status"
    "n = from_be16 g i" "n \<le> MAX_PAYLOAD_SIZE"
    by (auto simp: header read_header_def Let_def split: if_splits)
  have "length x = n" using p header by simp
  then have "secret_response x = [a, b, c, d, e, f, g, i] @ x"
    using m byte_ofD [OF m(2)] byte_ofD [OF m(3)] p(2) to_from_be16 [of g i]
    by (simp add: secret_response_def flip: m(1))
  then have "s = secret_response x @ drop n r" using s p(3) header by simp
  with m(5) \<open>length x = n\<close> show ?thesis by blast
qed


definition sample_secret_env :: "string \<Rightarrow> secret_env" where
  "sample_secret_env secret =
     \<lparr>sg_runtime = Some ''/run'', sg_connect = None, sg_write = None, sg_answer = (\<lambda>_. secret_response secret),
      sc_tracker = tracker_default, sc_clone = None, sc_write = None, sc_written = 0, sc_regular = Some False,
      sc_sync = None\<rparr>"

lemma sample_secret_run:
  "length x \<le> MAX_PAYLOAD_SIZE \<Longrightarrow> secret_run (sample_secret_env x) ''/r'' ''app'' = ((0, []), x)"
  using read_response_secret [of x "[]"]
  by (simp add: secret_run_def sample_secret_env_def was_closed_def tracker_default_def connect_default_def
      filled_def get_application_secret_def sigil_env.truncate_def request_frame_def request_payload_def
      append_str_def SECRET_NAMESPACE_def SECRET_PURPOSE_def MAX_PAYLOAD_SIZE_def to_be16_def)


text \<open>Two applications never send the same frame.\<close>

lemma frames_isolate_applications:
  "request_frame n s p = Inr f \<Longrightarrow> request_frame n s' p = Inr f \<Longrightarrow> s = s'"
  by (metis Pair_inject option.inject parse_request_frame)

text \<open>The length of a secret is not tested: an empty secret is delivered with code 0.\<close>

lemma empty_secret_is_delivered: "secret_run (sample_secret_env []) ''/r'' ''app'' = ((0, []), [])"
  by (rule sample_secret_run) simp

text \<open>An application id of more than 4 KiB, less the two other fields, gets no secret at all.\<close>

lemma long_application_id_is_refused:
  "MAX_PAYLOAD_SIZE < length app_id \<Longrightarrow> \<not> is_ok (request_frame n app_id p)"
  by (auto simp: request_frame_def request_payload_def is_ok_iff and_then_Inr append_str_Inr split: if_splits)

end
