(* ===== verification/Consent_Portals.thy ===== *)
theory Consent_Portals
  imports Portal_Dialog
begin

text \<open>
  Three small interfaces: the generic consent dialog (\<open>access.rs\<close>), the release of the user's
  identity (\<open>account.rs\<close>) and the lockdown switches (\<open>lockdown.rs\<close>), all of
  \<open>crates/xdg-desktop-portal-atrium/src\<close>.
\<close>

section \<open>Access\<close>

definition MAX_DIALOG_TEXT_BYTES :: nat where "MAX_DIALOG_TEXT_BYTES = 16 * 1024"
definition MAX_LABEL_BYTES :: nat where "MAX_LABEL_BYTES = 256"
definition MAX_ACTIVE_ACCESS_REQUESTS :: nat where "MAX_ACTIVE_ACCESS_REQUESTS = 32"

datatype access_error = Access_Text string | Access_Empty | Access_Label string

definition access_label :: "vardict \<Rightarrow> string \<Rightarrow> access_error + string option" where
  "access_label options name =
     (case opt_get as_str options name of
        Some v \<Rightarrow> if MAX_LABEL_BYTES < length v \<or> has_nul v then Inl (Access_Label name) else Inr (Some v)
      | None \<Rightarrow> Inr None)"

definition access_texts :: "string \<Rightarrow> string \<Rightarrow> string \<Rightarrow> string \<times> string" where
  "access_texts title subtitle body =
     (if only_white title then (subtitle, body)
      else if only_white subtitle then (title, body)
      else if only_white body then (title, subtitle)
      else (title, subtitle @ [CHR 0x0A, CHR 0x0A] @ body))"

definition dialog_request ::
  "string \<Rightarrow> string \<Rightarrow> string \<Rightarrow> string \<Rightarrow> vardict \<Rightarrow> access_error + confirm_request" where
  "dialog_request window title subtitle body options =
     then_check (check_all (\<lambda>(name, t). guard (MAX_DIALOG_TEXT_BYTES < length t \<or> has_nul t) (Access_Text name))
                  [(''title'', title), (''subtitle'', subtitle), (''body'', body)])
      (then_check (guard (only_white title \<and> only_white subtitle \<and> only_white body) Access_Empty)
        (and_then (access_label options ''deny_label'') (\<lambda>deny.
          and_then (access_label options ''grant_label'') (\<lambda>grant.
            (case access_texts title subtitle body of
               (t, b) \<Rightarrow>
                 Inr \<lparr>cr_title = t, cr_body = b, cr_accept_label = grant, cr_deny_label = deny,
                      cr_modal = unwrap_or True (opt_get as_bool options ''modality''),
                      cr_parent_window = some_unless_empty window\<rparr>)))))"

text \<open>The task: a request closed before the dialog is cancelled; then the dialog decides.\<close>

definition access_run :: "string \<Rightarrow> dialog_env \<Rightarrow> reply" where
  "access_run path env =
     (if closed_at env 0 path then cancelled_reply else code_reply (confirm_code (dg_answer env)))"

type_synonym access_job = "string \<times> confirm_request"

definition access_worker :: "(access_job, dialog_env) pool_event list \<Rightarrow> (access_job, reply) pool" where
  "access_worker es = pool_after MAX_ACTIVE_ACCESS_REQUESTS refusal (\<lambda>j. access_run (fst j)) es"

definition access_dialog ::
  "nat option \<Rightarrow> bool \<Rightarrow> string \<Rightarrow> string \<Rightarrow> string \<Rightarrow> string \<Rightarrow> string \<Rightarrow> vardict
     \<Rightarrow> (access_job \<Rightarrow> reply queue_outcome) \<Rightarrow> req_world \<Rightarrow> (fdo_error + reply) \<times> req_world" where
  "access_dialog fault remove_fails path window title subtitle body options outcome w =
     (case dialog_request window title subtitle body options of
        Inl _ \<Rightarrow> (Inr failed_reply, w)
      | Inr prompt \<Rightarrow> dispatch fault remove_fails ''access'' path (outcome (path, prompt)) w)"

section \<open>Account\<close>

definition MAX_REASON_BYTES :: nat where "MAX_REASON_BYTES = 16 * 1024"
definition MAX_ACTIVE_ACCOUNT_REQUESTS :: nat where "MAX_ACTIVE_ACCOUNT_REQUESTS = 32"
definition ACCOUNT_MIB :: nat where "ACCOUNT_MIB = 1024 * 1024"

definition account_reason :: "vardict \<Rightarrow> unit + string option" where
  "account_reason options =
     (case opt_get as_str options ''reason'' of
        Some r \<Rightarrow> if MAX_REASON_BYTES < length r then Inl () else Inr (Some r)
      | None \<Rightarrow> Inr None)"

text \<open>\<open>getpwuid_r\<close> with a buffer of a given size: the lossily decoded account name and GECOS.\<close>

datatype passwd_answer = Pw_Range | Pw_None | Pw_Found string string

definition first_size :: "nat option \<Rightarrow> nat" where
  "first_size suggested = min ACCOUNT_MIB (max 1024 (unwrap_or (16 * 1024) suggested))"

text \<open>The buffer doubles until it is large enough, up to 1 MiB.\<close>

function passwd_loop :: "(nat \<Rightarrow> passwd_answer) \<Rightarrow> nat \<Rightarrow> (string \<times> string) option" where
  "passwd_loop getpw n =
     (case getpw n of
        Pw_Range \<Rightarrow>
          if 0 < n \<and> n < ACCOUNT_MIB then passwd_loop getpw (min ACCOUNT_MIB (n * 2)) else None
      | Pw_None \<Rightarrow> None
      | Pw_Found i g \<Rightarrow> Some (i, g))"
  by pat_completeness auto
termination
  by (relation "measure (\<lambda>(_, n). ACCOUNT_MIB - n)") (auto simp: min_def)

declare passwd_loop.simps [simp del]

definition passwd_fields :: "(nat \<Rightarrow> passwd_answer) \<Rightarrow> nat option \<Rightarrow> (string \<times> string) option" where
  "passwd_fields getpw suggested = passwd_loop getpw (first_size suggested)"

definition passwd_identity :: "(string \<times> string) option \<Rightarrow> string option \<Rightarrow> string \<times> string" where
  "passwd_identity pw user =
     (case pw of
        None \<Rightarrow> let fallback = unwrap_or ''unknown'' user in (fallback, fallback)
      | Some (i, gecos) \<Rightarrow>
          let name = trim (hd (split_on (CHR '','') gecos)) in (i, if name = [] then i else name))"

definition avatar_candidates :: "string option \<Rightarrow> string option \<Rightarrow> string list" where
  "avatar_candidates data home =
     (case data of
        None \<Rightarrow> []
      | Some d \<Rightarrow>
          let dir = path_join (path_join d ''tessera'') ''avatars''
          in map (path_join dir) [''face.png'', ''face.jpg'', ''face.webp'', ''face''])
     @ (case home of None \<Rightarrow> [] | Some h \<Rightarrow> [path_join h ''.face'', path_join h ''.face.icon''])"

record account_env = dialog_env +
  ac_getpw :: "nat \<Rightarrow> passwd_answer"
  ac_suggested :: "nat option"
  ac_user :: "string option"
  ac_data_dir :: "string option"
  ac_home_dir :: "string option"
  ac_is_file :: "string \<Rightarrow> bool"

definition avatar_path :: "account_env \<Rightarrow> string option" where
  "avatar_path env = find (ac_is_file env) (avatar_candidates (ac_data_dir env) (ac_home_dir env))"

definition identity_results :: "account_env \<Rightarrow> vardict" where
  "identity_results env =
     (case passwd_identity (passwd_fields (ac_getpw env) (ac_suggested env)) (ac_user env) of
        (i, name) \<Rightarrow>
          [(''id'', DV_Str i), (''name'', DV_Str name)]
          @ (case avatar_path env of None \<Rightarrow> [] | Some p \<Rightarrow> [(''image'', DV_Str (file_uri p))]))"

record account_job =
  aj_path :: string
  aj_app_id :: string
  aj_parent :: "string option"
  aj_reason :: "string option"

definition account_prompt :: "account_job \<Rightarrow> confirm_request" where
  "account_prompt j =
     \<lparr>cr_title = ''Share Personal Information'',
      cr_body = ''The application '' @ [CHR 0x27] @ aj_app_id j @ [CHR 0x27]
        @ '' requests access to your personal information (name and avatar photo).''
        @ (case aj_reason j of None \<Rightarrow> [] | Some r \<Rightarrow> '' '' @ r),
      cr_accept_label = Some ''_Share'', cr_deny_label = None, cr_modal = True,
      cr_parent_window = aj_parent j\<rparr>"

definition account_run :: "account_job \<Rightarrow> account_env \<Rightarrow> reply" where
  "account_run j env =
     (if closed_at env 0 (aj_path j) then cancelled_reply
      else let code = confirm_code (dg_answer env) in
        if code \<noteq> 0 then code_reply code
        else if closed_at env 1 (aj_path j) then cancelled_reply
        else (0, identity_results env))"

definition account_worker :: "(account_job, account_env) pool_event list \<Rightarrow> (account_job, reply) pool" where
  "account_worker es = pool_after MAX_ACTIVE_ACCOUNT_REQUESTS refusal account_run es"

definition get_user_information ::
  "nat option \<Rightarrow> bool \<Rightarrow> string \<Rightarrow> string \<Rightarrow> string \<Rightarrow> vardict
     \<Rightarrow> (account_job \<Rightarrow> reply queue_outcome) \<Rightarrow> req_world \<Rightarrow> (fdo_error + reply) \<times> req_world" where
  "get_user_information fault remove_fails path app_id window options outcome w =
     (case account_reason options of
        Inl _ \<Rightarrow> (Inr failed_reply, w)
      | Inr reason \<Rightarrow>
          dispatch fault remove_fails ''get_user_information'' path
            (outcome \<lparr>aj_path = path, aj_app_id = app_id, aj_parent = some_unless_empty window, aj_reason = reason\<rparr>) w)"

section \<open>Lockdown\<close>

datatype lockdown_switch =
    Disable_Printing | Disable_Save_To_Disk | Disable_Application_Handlers | Disable_Location
  | Disable_Camera | Disable_Microphone | Disable_Sound_Output

record lockdown =
  ld_printing :: bool
  ld_save_to_disk :: bool
  ld_application_handlers :: bool
  ld_location :: bool
  ld_camera :: bool
  ld_microphone :: bool
  ld_sound_output :: bool

definition lockdown_default :: lockdown where
  "lockdown_default = \<lparr>ld_printing = False, ld_save_to_disk = False, ld_application_handlers = False,
     ld_location = False, ld_camera = False, ld_microphone = False, ld_sound_output = False\<rparr>"

fun get_lockdown :: "lockdown_switch \<Rightarrow> lockdown \<Rightarrow> bool" where
  "get_lockdown Disable_Printing s = ld_printing s"
| "get_lockdown Disable_Save_To_Disk s = ld_save_to_disk s"
| "get_lockdown Disable_Application_Handlers s = ld_application_handlers s"
| "get_lockdown Disable_Location s = ld_location s"
| "get_lockdown Disable_Camera s = ld_camera s"
| "get_lockdown Disable_Microphone s = ld_microphone s"
| "get_lockdown Disable_Sound_Output s = ld_sound_output s"

fun set_lockdown :: "lockdown_switch \<Rightarrow> bool \<Rightarrow> lockdown \<Rightarrow> lockdown" where
  "set_lockdown Disable_Printing v s = s\<lparr>ld_printing := v\<rparr>"
| "set_lockdown Disable_Save_To_Disk v s = s\<lparr>ld_save_to_disk := v\<rparr>"
| "set_lockdown Disable_Application_Handlers v s = s\<lparr>ld_application_handlers := v\<rparr>"
| "set_lockdown Disable_Location v s = s\<lparr>ld_location := v\<rparr>"
| "set_lockdown Disable_Camera v s = s\<lparr>ld_camera := v\<rparr>"
| "set_lockdown Disable_Microphone v s = s\<lparr>ld_microphone := v\<rparr>"
| "set_lockdown Disable_Sound_Output v s = s\<lparr>ld_sound_output := v\<rparr>"

lemma lockdown_switches_are_independent:
  "get_lockdown a (set_lockdown b v s) = (if a = b then v else get_lockdown a s)"
  by (cases a; cases b) simp_all

section \<open>Lemmas\<close>

lemma access_run_grants:
  "granted (access_run path env) \<Longrightarrow>
   \<not> closed_at env 0 path \<and> dg_answer env = Inr (Result_Confirm Confirm_Yes)"
  by (auto simp: access_run_def code_reply_granted confirm_code_le confirm_code_0 split: if_splits)

definition access_consent :: "access_job \<Rightarrow> dialog_env \<Rightarrow> bool" where
  "access_consent j env \<longleftrightarrow>
     \<not> closed_at env 0 (fst j) \<and> dg_answer env = Inr (Result_Confirm Confirm_Yes)"

definition account_consent :: "account_job \<Rightarrow> account_env \<Rightarrow> bool" where
  "account_consent j env \<longleftrightarrow>
     \<not> closed_at env 0 (aj_path j) \<and> \<not> closed_at env 1 (aj_path j)
     \<and> dg_answer env = Inr (Result_Confirm Confirm_Yes)"

lemma account_run_grants: "granted (account_run j env) \<Longrightarrow> account_consent j env"
  by (cases "confirm_code (dg_answer env) = 0")
    (auto simp: account_run_def account_consent_def Let_def code_reply_granted confirm_code_le
      simp flip: confirm_code_0 split: if_splits)

interpretation access: consent_task "\<lambda>j. access_run (fst j)" refusal granted access_consent
  by unfold_locales (auto simp: access_consent_def dest: access_run_grants)

interpretation account: consent_task account_run refusal granted account_consent
  by unfold_locales (simp_all add: account_run_grants)

text \<open>Nothing of the identity leaves without consent: every other answer is empty.\<close>

lemma account_run_silent: "\<not> account_consent j env \<Longrightarrow> snd (account_run j env) = []"
  by (auto simp: account_run_def account_consent_def Let_def code_reply_def confirm_code_0)

text \<open>The buffer search ends with the account, if any size up to 1 MiB that the search tries suffices.\<close>

lemma passwd_loop_found:
  assumes "\<And>m. n \<le> m \<Longrightarrow> getpw m = Pw_Range \<or> getpw m = Pw_Found i g"
    and "getpw ACCOUNT_MIB = Pw_Found i g" and "0 < n" and "n \<le> ACCOUNT_MIB"
  shows "passwd_loop getpw n = Some (i, g)"
  using assms
proof (induction getpw n rule: passwd_loop.induct)
  case (1 getpw n)
  show ?case
  proof (cases "getpw n")
    case Pw_Range
    with 1 have "n < ACCOUNT_MIB" by (cases "n = ACCOUNT_MIB") auto
    moreover from this 1 Pw_Range have "passwd_loop getpw (min ACCOUNT_MIB (n * 2)) = Some (i, g)"
      by (intro "1.IH") (auto simp: min_def ACCOUNT_MIB_def split: if_splits)
    ultimately show ?thesis using 1 Pw_Range by (subst passwd_loop.simps) simp
  qed (use "1.prems"(1) [of n] in \<open>auto simp: passwd_loop.simps [of getpw n]\<close>)
qed

lemma first_size_bounds: "1024 \<le> first_size s \<and> first_size s \<le> ACCOUNT_MIB"
  by (simp add: first_size_def ACCOUNT_MIB_def)

text \<open>
  Requests the interface accepts and the prompter's contract refuses: a title alone leaves an empty
  body, and a reason of the documented size does not fit behind the sentence before it.
\<close>

lemma title_alone_is_refused_by_the_contract:
  "\<exists>r. dialog_request [] ''Title'' [] [] [] = Inr r \<and> validate_confirm r \<noteq> Inr ()"
  by (simp add: dialog_request_def access_label_def access_texts_def opt_get_def guard_def
      MAX_DIALOG_TEXT_BYTES_def validate_confirm_def validate_prompt_text_def white1_def white2_def white3_def
      byte_of_def)

lemma long_reason_is_refused_by_the_contract:
  assumes "length reason = MAX_REASON_BYTES" and "\<not> has_nul reason"
  shows "account_reason [(''reason'', DV_Str reason)] = Inr (Some reason)
    \<and> validate_confirm (account_prompt \<lparr>aj_path = p, aj_app_id = a, aj_parent = None, aj_reason = Some reason\<rparr>)
        \<noteq> Inr ()"
  using assms
  by (simp add: account_reason_def opt_get_def account_prompt_def validate_confirm_def validate_prompt_text_def
      guard_def MAX_REASON_BYTES_def MAX_PROMPT_TEXT_BYTES_def white1_def white2_def white3_def byte_of_def)

end
