(* ===== verification/Wallpaper_Portal.thy ===== *)
theory Wallpaper_Portal
  imports Portal_Dialog Portal_Capture
begin

text \<open>
  \<open>crates/xdg-desktop-portal-atrium/src/wallpaper.rs\<close>: the request, the staging of the image, the
  preview consent and the swap. The environment holds the answers of the file system, of the
  prompter and of the compositor's connections (\<open>set_wallpaper_retry\<close> of \<open>Portal_Capture\<close>).
\<close>

definition MAX_WALLPAPER_IMAGE_BYTES :: nat where "MAX_WALLPAPER_IMAGE_BYTES = 64 * 1024 * 1024"
definition MAX_ACTIVE_WALLPAPER_REQUESTS :: nat where "MAX_ACTIVE_WALLPAPER_REQUESTS = 32"

section \<open>The request\<close>

datatype wallpaper_error = Wp_Oversized | Wp_Remote | Wp_Not_Local | Wp_Set_On string

definition parse_set_on :: "vardict \<Rightarrow> wallpaper_error + unit" where
  "parse_set_on options =
     (case opt_get as_str options ''set-on'' of
        None \<Rightarrow> Inr ()
      | Some v \<Rightarrow> guard (v \<notin> {'''', ''background'', ''lockscreen'', ''both''}) (Wp_Set_On v))"

definition parse_request :: "string \<Rightarrow> vardict \<Rightarrow> wallpaper_error + string \<times> bool" where
  "parse_request uri options =
     then_check (guard (8 * 1024 < length uri) Wp_Oversized)
      (then_check (guard (strip_prefix ''file://'' uri = None) Wp_Remote)
        (case path_from_file_uri uri of
           None \<Rightarrow> Inl Wp_Not_Local
         | Some path \<Rightarrow>
             then_check (parse_set_on options)
               (Inr (path, unwrap_or False (opt_get as_bool options ''show-preview'')))))"

section \<open>Staging\<close>

definition staging_dir_from :: "string option \<Rightarrow> string option" where
  "staging_dir_from runtime =
     map_option (\<lambda>base. path_join (path_join base ''atrium-portal'') ''wallpaper'') (filled runtime)"

definition ascii_alnum :: "char \<Rightarrow> bool" where
  "ascii_alnum c \<longleftrightarrow>
     (let b = byte_of c in 48 \<le> b \<and> b \<le> 57 \<or> 65 \<le> b \<and> b \<le> 90 \<or> 97 \<le> b \<and> b \<le> 122)"

definition extension_of :: "string \<Rightarrow> string option" where
  "extension_of path = Option.bind (file_name_of path) (\<lambda>n. snd (split_extension n))"

definition staged_name :: "(string \<Rightarrow> string) \<Rightarrow> string \<Rightarrow> string" where
  "staged_name lower path =
     (let ext = (case extension_of path of
                   None \<Rightarrow> ''img''
                 | Some e \<Rightarrow>
                     if \<not> valid_utf8 e then ''img''
                     else let l = lower e in if l \<noteq> [] \<and> list_all ascii_alnum l then l else ''img'')
      in ''current.'' @ ext)"

text \<open>The entries of a directory.\<close>

definition child_of :: "string \<Rightarrow> string \<Rightarrow> bool" where
  "child_of dir p =
     (case strip_prefix (path_join dir []) p of
        None \<Rightarrow> False | Some n \<Rightarrow> n \<noteq> [] \<and> CHR ''/'' \<notin> set n)"

record wallpaper_env = dialog_env +
  wp_runtime :: "string option"
  wp_files :: file_system
  wp_lower :: "string \<Rightarrow> string"
  wp_write :: write_env
  wp_suffix :: "u8 list"
  wp_nets :: "nat \<Rightarrow> u32 \<Rightarrow> dial"
  wp_faults :: "nat \<Rightarrow> io_error option"
  wp_listable :: bool
  wp_removable :: "string \<Rightarrow> bool"

datatype image_error = Image_Unreadable | Image_Empty | Image_Oversized

definition read_image :: "file_system \<Rightarrow> string \<Rightarrow> image_error + string" where
  "read_image fs path =
     (case fs path of
        None \<Rightarrow> Inl Image_Unreadable
      | Some bytes \<Rightarrow>
          let b = take (MAX_WALLPAPER_IMAGE_BYTES + 1) bytes in
          if b = [] then Inl Image_Empty
          else if MAX_WALLPAPER_IMAGE_BYTES < length b then Inl Image_Oversized
          else Inr b)"

definition stage_image ::
  "wallpaper_env \<Rightarrow> string \<Rightarrow> string \<Rightarrow> string \<Rightarrow> (io_error + string) \<times> file_system" where
  "stage_image env dir image_path img =
     (case write_atomic (wp_write env) (random_suffix (wp_suffix env)) dir
             (staged_name (wp_lower env) image_path) img (wp_files env) of
        (r, trace) \<Rightarrow> (r, last trace))"

definition prune_staging :: "wallpaper_env \<Rightarrow> string \<Rightarrow> string \<Rightarrow> file_system \<Rightarrow> file_system" where
  "prune_staging env dir keep fs =
     (if wp_listable env
      then (\<lambda>p. if child_of dir p \<and> p \<noteq> keep \<and> wp_removable env p then None else fs p)
      else fs)"

text \<open>\<open>clean_staging\<close> at start-up: the owned directory goes with its contents.\<close>

definition clean_staging :: "write_env \<Rightarrow> string option \<Rightarrow> file_system \<Rightarrow> file_system" where
  "clean_staging env runtime fs =
     (case staging_dir_from runtime of
        None \<Rightarrow> fs
      | Some dir \<Rightarrow>
          if is_ok (open_owned_dir env)
          then (\<lambda>p. if take (length (path_join dir [])) p = path_join dir [] then None else fs p)
          else fs)"

section \<open>One request\<close>

definition preview_prompt :: "string \<Rightarrow> string \<Rightarrow> string option \<Rightarrow> confirm_request" where
  "preview_prompt app_id image_path parent =
     \<lparr>cr_title = ''Set Wallpaper'',
      cr_body = ''The application '' @ [CHR 0x27] @ app_id @ [CHR 0x27] @ '' wants to set '' @ [CHR 0x27]
        @ unwrap_or image_path (file_name_of image_path) @ [CHR 0x27] @ '' as the wallpaper.'',
      cr_accept_label = Some ''_Set Wallpaper'', cr_deny_label = None, cr_modal = True,
      cr_parent_window = parent\<rparr>"

definition preview_code :: "wallpaper_env \<Rightarrow> bool \<Rightarrow> nat" where
  "preview_code env show_preview = (if show_preview then confirm_code (dg_answer env) else 0)"

definition run_set_staged ::
  "wallpaper_env \<Rightarrow> string \<Rightarrow> string \<Rightarrow> string \<Rightarrow> bool \<Rightarrow> reply \<times> file_system" where
  "run_set_staged env path staging image_path show_preview =
     (let fs = wp_files env in
      if closed_at env 0 path then (cancelled_reply, fs)
      else (case read_image fs image_path of
              Inl _ \<Rightarrow> (failed_reply, fs)
            | Inr img \<Rightarrow>
                let code = preview_code env show_preview in
                if code \<noteq> 0 then (code_reply code, fs)
                else if closed_at env 1 path then (cancelled_reply, fs)
                else (case stage_image env staging image_path img of
                        (Inl _, fs1) \<Rightarrow> (failed_reply, fs1)
                      | (Inr staged, fs1) \<Rightarrow>
                          (case set_wallpaper_retry (wp_nets env) (wp_faults env) staged of
                             Inr _ \<Rightarrow> ((0, []), prune_staging env staging staged fs1)
                           | Inl _ \<Rightarrow>
                               (failed_reply, if wp_removable env staged then fs1(staged := None) else fs1)))))"

definition run_set :: "wallpaper_env \<Rightarrow> string \<Rightarrow> string \<Rightarrow> bool \<Rightarrow> reply \<times> file_system" where
  "run_set env path image_path show_preview =
     (case staging_dir_from (wp_runtime env) of
        None \<Rightarrow> (failed_reply, wp_files env)
      | Some staging \<Rightarrow> run_set_staged env path staging image_path show_preview)"

record wallpaper_job =
  wj_path :: string
  wj_app_id :: string
  wj_image :: string
  wj_preview :: bool
  wj_parent :: "string option"

definition wallpaper_task :: "wallpaper_job \<Rightarrow> wallpaper_env \<Rightarrow> reply" where
  "wallpaper_task j env = fst (run_set env (wj_path j) (wj_image j) (wj_preview j))"

definition wallpaper_worker :: "(wallpaper_job, wallpaper_env) pool_event list \<Rightarrow> (wallpaper_job, reply) pool" where
  "wallpaper_worker es = pool_after MAX_ACTIVE_WALLPAPER_REQUESTS refusal wallpaper_task es"

text \<open>The method answers with the response code alone.\<close>

definition set_wallpaper_uri ::
  "nat option \<Rightarrow> bool \<Rightarrow> string \<Rightarrow> string \<Rightarrow> string \<Rightarrow> string \<Rightarrow> vardict
     \<Rightarrow> (wallpaper_job \<Rightarrow> reply queue_outcome) \<Rightarrow> req_world \<Rightarrow> (fdo_error + u32) \<times> req_world" where
  "set_wallpaper_uri fault remove_fails path app_id parent uri options outcome w =
     (case parse_request uri options of
        Inl _ \<Rightarrow> (Inr 2, w)
      | Inr (img, preview) \<Rightarrow>
          (case dispatch fault remove_fails ''set_wallpaper_uri'' path
                  (outcome \<lparr>wj_path = path, wj_app_id = app_id, wj_image = img, wj_preview = preview,
                            wj_parent = some_unless_empty parent\<rparr>) w of
             (Inl e, w1) \<Rightarrow> (Inl e, w1)
           | (Inr (code, _), w1) \<Rightarrow> (Inr code, w1)))"

section \<open>Lemmas\<close>

lemma split_extension_ext_free: "snd (split_extension n) = Some e \<Longrightarrow> set e \<subseteq> set n"
  by (auto simp: split_extension_def Let_def split: if_splits dest: in_set_dropD)

text \<open>The staged name stays inside the staging directory.\<close>

lemma staged_name_plain: "CHR ''/'' \<notin> set (staged_name lower p)"
  by (auto simp: staged_name_def Let_def list_all_iff ascii_alnum_def byte_of_def split: option.splits)

lemma staged_name_relative: "\<not> path_is_absolute (staged_name lower p)"
  by (simp add: staged_name_def Let_def path_is_absolute_def)

lemma path_join_prefix: "\<not> path_is_absolute n \<Longrightarrow> path_join d n = path_join d [] @ n"
  by (simp add: path_join_def path_is_absolute_def)

lemma child_of_join: "\<not> path_is_absolute n \<Longrightarrow> n \<noteq> [] \<Longrightarrow> CHR ''/'' \<notin> set n \<Longrightarrow> child_of d (path_join d n)"
  by (simp add: child_of_def path_join_prefix strip_prefix_def)

lemma stage_image_trace:
  assumes "stage_image env dir p img = (r, fs1)"
  shows "r = Inr (path_join dir (staged_name (wp_lower env) p))
         \<and> fs1 (path_join dir (staged_name (wp_lower env) p)) = Some img \<or> \<not> is_ok r"
proof -
  let ?n = "staged_name (wp_lower env) p"
  have "path_join dir (''.'' @ ?n @ ''.'' @ random_suffix (wp_suffix env) @ ''.tmp'') \<noteq> path_join dir ?n"
    using path_join_prefix [of "''.'' @ ?n @ ''.'' @ random_suffix (wp_suffix env) @ ''.tmp''" dir]
      path_join_prefix [OF staged_name_relative, of dir "wp_lower env" p]
    by (simp add: path_is_absolute_def staged_name_def)
  note apart = this
  obtain trace where run: "write_atomic (wp_write env) (random_suffix (wp_suffix env)) dir ?n img (wp_files env)
      = (r, trace)" "fs1 = last trace"
    using assms by (auto simp: stage_image_def split: prod.splits)
  from write_atomic_trace [OF apart run(1)] run(2) show ?thesis by blast
qed

text \<open>Consent to a swap: it was asked for, unless the caller wanted no preview, and nothing was closed.\<close>

definition wallpaper_consent :: "wallpaper_job \<Rightarrow> wallpaper_env \<Rightarrow> bool" where
  "wallpaper_consent j env \<longleftrightarrow>
     \<not> closed_at env 0 (wj_path j) \<and> \<not> closed_at env 1 (wj_path j)
     \<and> (wj_preview j \<longrightarrow> dg_answer env = Inr (Result_Confirm Confirm_Yes))"

lemma preview_code_0: "preview_code env p = 0 \<longleftrightarrow> (p \<longrightarrow> dg_answer env = Inr (Result_Confirm Confirm_Yes))"
  by (simp add: preview_code_def confirm_code_0)

lemma preview_code_le: "preview_code env p \<le> 2"
  by (simp add: preview_code_def confirm_code_le)

lemma wallpaper_task_grants: "granted (wallpaper_task j env) \<Longrightarrow> wallpaper_consent j env"
  by (cases "preview_code env (wj_preview j) = 0")
    (auto simp: wallpaper_task_def run_set_def run_set_staged_def wallpaper_consent_def Let_def
      code_reply_granted preview_code_le simp flip: preview_code_0
      split: option.splits if_splits sum.splits prod.splits)

interpretation wallpaper: consent_task wallpaper_task refusal granted wallpaper_consent
  by unfold_locales (simp_all add: wallpaper_task_grants)

text \<open>What the compositor was told to show is there, with the image's bytes, after a granted request.\<close>

lemma granted_wallpaper_is_staged:
  assumes "run_set_staged env path staging image_path preview = ((0, v), fs2)"
  shows "fs2 (path_join staging (staged_name (wp_lower env) image_path)) = wp_files env image_path"
    and "set_wallpaper_retry (wp_nets env) (wp_faults env)
           (path_join staging (staged_name (wp_lower env) image_path)) = Inr ()"
proof -
  have code: "code_reply (preview_code env preview) = (0, v) \<Longrightarrow> preview_code env preview = 0"
    using code_reply_granted [OF preview_code_le, of env preview] by (auto simp: granted_def)
  from assms obtain img staged fs1 where
    img: "read_image (wp_files env) image_path = Inr img"
    and stage: "stage_image env staging image_path img = (Inr staged, fs1)"
    and swap: "set_wallpaper_retry (wp_nets env) (wp_faults env) staged = Inr ()"
    and fs2: "fs2 = prune_staging env staging staged fs1"
    by (auto simp: run_set_staged_def Let_def dest: code split: if_splits sum.splits prod.splits)
  have "wp_files env image_path = Some img"
    using img by (auto simp: read_image_def Let_def split: option.splits if_splits)
  then show "fs2 (path_join staging (staged_name (wp_lower env) image_path)) = wp_files env image_path"
    and "set_wallpaper_retry (wp_nets env) (wp_faults env)
      (path_join staging (staged_name (wp_lower env) image_path)) = Inr ()"
    using stage_image_trace [OF stage] swap fs2 by (auto simp: prune_staging_def)
qed

text \<open>
  A failed swap removes the file it staged, which may have replaced the previous wallpaper of the
  same name: that wallpaper's file is gone.
\<close>

lemma failed_swap_loses_the_previous_file:
  assumes "\<not> closed_at env 0 path" and "\<not> closed_at env 1 path"
    and "read_image (wp_files env) image_path = Inr img"
    and "stage_image env staging image_path img = (Inr staged, fs1)"
    and "set_wallpaper_retry (wp_nets env) (wp_faults env) staged = Inl e"
    and "wp_files env staged = Some previous" and "wp_removable env staged"
  shows "snd (run_set_staged env path staging image_path False) staged = None"
  using assms by (simp add: run_set_staged_def preview_code_def)

end
