(* ===== verification/Screenshot_Portal.thy ===== *)
theory Screenshot_Portal
  imports Portal_Dialog Portal_Capture
begin

text \<open>
  \<open>crates/xdg-desktop-portal-atrium/src/screenshot.rs\<close>: the options, the capture jobs and their
  worker. The compositor's answers are part of the capture client's state (\<open>Portal_Capture\<close>); the
  cancellation tracker is read at each of the code's tests.
\<close>

definition SCREENSHOT_VERSION :: u32 where "SCREENSHOT_VERSION = 3"
definition SCREENSHOT_TARGET_AREA :: u32 where "SCREENSHOT_TARGET_AREA = 4"
definition MAX_ACTIVE_CAPTURES :: nat where "MAX_ACTIVE_CAPTURES = 32"

section \<open>Options\<close>

datatype screenshot_target = Target_Area

lemma only_area [simp]: "(t = Target_Area) = True"
  by (cases t) simp

record screenshot_options =
  so_interactive :: bool
  so_target :: "screenshot_target option"
  so_permission_store_checked :: bool

datatype option_error = Target_Not_Integer | Target_Not_Advertised u32

definition parse_target :: "vardict \<Rightarrow> option_error + screenshot_target option" where
  "parse_target options =
     (case map_of options ''target'' of
        None \<Rightarrow> Inr None
      | Some v \<Rightarrow>
          (case as_u32 v of
             None \<Rightarrow> Inl Target_Not_Integer
           | Some t \<Rightarrow>
               if t = SCREENSHOT_TARGET_AREA then Inr (Some Target_Area) else Inl (Target_Not_Advertised t)))"

definition parse_options :: "vardict \<Rightarrow> option_error + screenshot_options" where
  "parse_options options =
     and_then (parse_target options) (\<lambda>target.
       Inr \<lparr>so_interactive = unwrap_or False (opt_get as_bool options ''interactive''), so_target = target,
            so_permission_store_checked = unwrap_or False (opt_get as_bool options ''permission_store_checked'')\<rparr>)"

definition token_char :: "char \<Rightarrow> bool" where
  "token_char c \<longleftrightarrow>
     (let b = byte_of c in
      48 \<le> b \<and> b \<le> 57 \<or> 65 \<le> b \<and> b \<le> 90 \<or> 97 \<le> b \<and> b \<le> 122 \<or> c = CHR ''_'')"

text \<open>One underscore per character that is not allowed.\<close>

definition sanitize_token :: "string \<Rightarrow> string" where
  "sanitize_token t = concat (map (\<lambda>g. if length g = 1 \<and> list_all token_char g then g else ''_'') (char_groups t))"

definition capture_token :: "string \<Rightarrow> string" where
  "capture_token handle =
     (let t = last (split_on (CHR ''/'') handle) in if t = [] then ''capture'' else sanitize_token t)"

section \<open>Jobs\<close>

record capture_env = dialog_env +
  cp_capture :: portal_capture
  cp_cache :: "string option"
  cp_runtime :: "string option"
  cp_write :: write_env
  cp_nonces :: "u8 list \<times> u8 list"
  cp_millis :: string
  cp_files :: file_system

definition bytes_string :: "u8 list \<Rightarrow> string" where
  "bytes_string = map (\<lambda>b. char_of (unat b))"

text \<open>The captured pixels go to a private file; the result is its URI.\<close>

definition capture_and_write ::
  "capture_env \<Rightarrow> portal_capture \<Rightarrow> string \<Rightarrow> rect option \<Rightarrow> (io_error + string) \<times> portal_capture \<times> file_system" where
  "capture_and_write env p token region =
     (case cache_dir_from (cp_cache env) (cp_runtime env) of
        None \<Rightarrow> (Inl Io_NotFound, p, cp_files env)
      | Some dir \<Rightarrow>
          (case (case region of Some r \<Rightarrow> capture_region_png r p | None \<Rightarrow> capture_png p) of
             (Inl e, p1) \<Rightarrow> (Inl e, p1, cp_files env)
           | (Inr png, p1) \<Rightarrow>
               (case write_capture (cp_write env) (fst (cp_nonces env)) (snd (cp_nonces env)) (cp_millis env)
                       dir token (bytes_string png) (cp_files env) of
                  (Inl e, trace) \<Rightarrow> (Inl e, p1, last trace)
                | (Inr path, trace) \<Rightarrow> (Inr (file_uri path), p1, last trace))))"

record screenshot_job =
  sj_path :: string
  sj_token :: string
  sj_app_id :: string
  sj_options :: screenshot_options

definition needs_pick :: "screenshot_options \<Rightarrow> bool" where
  "needs_pick o1 \<longleftrightarrow> so_interactive o1 \<or> so_target o1 = Some Target_Area"

definition needs_confirm :: "screenshot_options \<Rightarrow> bool" where
  "needs_confirm o1 \<longleftrightarrow> \<not> so_interactive o1 \<and> so_target o1 = None \<and> \<not> so_permission_store_checked o1"

text \<open>The outcome of a task: its reply, the client afterwards, and the files.\<close>

type_synonym capture_outcome = "reply \<times> portal_capture \<times> file_system"

text \<open>The region: picked by the user where the job asks for it, or a reply that ends the task.\<close>

definition pick_region :: "screenshot_options \<Rightarrow> portal_capture \<Rightarrow> (reply + rect option) \<times> portal_capture" where
  "pick_region o1 p =
     (if needs_pick o1
      then (case pick Pick_Region p of
              (Inr (Picked_Region r), p1) \<Rightarrow> (Inr (Some r), p1)
            | (Inr Picked_Cancelled, p1) \<Rightarrow> (Inl cancelled_reply, p1)
            | (Inr _, p1) \<Rightarrow> (Inl failed_reply, p1)
            | (Inl _, p1) \<Rightarrow> (Inl failed_reply, p1))
      else (Inr None, p))"

definition confirm_capture :: "screenshot_options \<Rightarrow> string \<Rightarrow> portal_capture \<Rightarrow> (reply + unit) \<times> portal_capture" where
  "confirm_capture o1 app_id p =
     (if needs_confirm o1
      then (case pc_pick_confirm ''Take a Screenshot'' (''Allow '' @ app_id @ '' to capture the current monitor?'')
                   (Some ''Capture'') p of
              (Inr Confirm_Confirmed, p1) \<Rightarrow> (Inr (), p1)
            | (Inr Confirm_Cancelled, p1) \<Rightarrow> (Inl cancelled_reply, p1)
            | (Inl _, p1) \<Rightarrow> (Inl failed_reply, p1))
      else (Inr (), p))"

definition run_screenshot :: "capture_env \<Rightarrow> screenshot_job \<Rightarrow> capture_outcome" where
  "run_screenshot env j =
     (let fs = cp_files env; path = sj_path j in
      if closed_at env 0 path then (cancelled_reply, cp_capture env, fs)
      else (case pick_region (sj_options j) (cp_capture env) of
              (Inl r, p1) \<Rightarrow> (r, p1, fs)
            | (Inr region, p1) \<Rightarrow>
                if closed_at env 1 path then (cancelled_reply, p1, fs)
                else (case confirm_capture (sj_options j) (sj_app_id j) p1 of
                        (Inl r, p2) \<Rightarrow> (r, p2, fs)
                      | (Inr _, p2) \<Rightarrow>
                          if closed_at env 2 path then (cancelled_reply, p2, fs)
                          else (case capture_and_write env p2 (sj_token j) region of
                                  (Inr uri, p3, fs1) \<Rightarrow>
                                    if closed_at env 3 path then (cancelled_reply, p3, fs1)
                                    else ((0, [(''uri'', DV_Str uri)]), p3, fs1)
                                | (Inl _, p3, fs1) \<Rightarrow> (failed_reply, p3, fs1)))))"

definition color_value :: "u8 \<times> u8 \<times> u8 \<Rightarrow> dbus_value" where
  "color_value rgb =
     (case rgb of (r, g, b) \<Rightarrow> DV_Struct [DV_F64 (unat r) 255, DV_F64 (unat g) 255, DV_F64 (unat b) 255])"

definition run_pick_color :: "capture_env \<Rightarrow> string \<Rightarrow> reply \<times> portal_capture" where
  "run_pick_color env path =
     (if closed_at env 0 path then (cancelled_reply, cp_capture env)
      else (case pick Pick_Pixel (cp_capture env) of
              (Inr (Picked_Pixel _ rgb), p1) \<Rightarrow>
                if closed_at env 1 path then (cancelled_reply, p1)
                else ((0, [(''color'', color_value rgb)]), p1)
            | (Inr Picked_Cancelled, p1) \<Rightarrow> (cancelled_reply, p1)
            | (Inr _, p1) \<Rightarrow> (failed_reply, p1)
            | (Inl _, p1) \<Rightarrow> (failed_reply, p1)))"

datatype capture_job = Job_Screenshot screenshot_job | Job_Pick_Color string string

fun run_job :: "capture_job \<Rightarrow> capture_env \<Rightarrow> reply" where
  "run_job (Job_Screenshot j) env = fst (run_screenshot env j)"
| "run_job (Job_Pick_Color path app_id) env = fst (run_pick_color env path)"

definition capture_worker :: "(capture_job, capture_env) pool_event list \<Rightarrow> (capture_job, reply) pool" where
  "capture_worker es = pool_after MAX_ACTIVE_CAPTURES refusal run_job es"

section \<open>The bus methods\<close>

definition screenshot ::
  "nat option \<Rightarrow> bool \<Rightarrow> string \<Rightarrow> string \<Rightarrow> vardict \<Rightarrow> (capture_job \<Rightarrow> reply queue_outcome) \<Rightarrow> req_world
     \<Rightarrow> (fdo_error + reply) \<times> req_world" where
  "screenshot fault remove_fails handle app_id options outcome w =
     (case parse_options options of
        Inl _ \<Rightarrow> (Inr failed_reply, w)
      | Inr o1 \<Rightarrow>
          dispatch fault remove_fails ''screenshot'' handle
            (outcome (Job_Screenshot \<lparr>sj_path = handle, sj_token = capture_token handle, sj_app_id = app_id,
                                      sj_options = o1\<rparr>)) w)"

definition pick_color ::
  "nat option \<Rightarrow> bool \<Rightarrow> string \<Rightarrow> string \<Rightarrow> (capture_job \<Rightarrow> reply queue_outcome) \<Rightarrow> req_world
     \<Rightarrow> (fdo_error + reply) \<times> req_world" where
  "pick_color fault remove_fails handle app_id outcome w =
     dispatch fault remove_fails ''pick color'' handle (outcome (Job_Pick_Color handle app_id)) w"

section \<open>Lemmas\<close>

lemma sanitize_token_chars: "list_all token_char (sanitize_token t)"
proof -
  have "list_all token_char (concat (map (\<lambda>g. if length g = 1 \<and> list_all token_char g then g else ''_'') gs))" for gs
    by (induction gs) (auto simp: token_char_def)
  then show ?thesis by (simp add: sanitize_token_def)
qed

text \<open>The file of a capture stays in its directory.\<close>

lemma capture_token_plain: "CHR ''/'' \<notin> set (capture_token handle)"
proof -
  have "\<not> token_char (CHR ''/'')" by (simp add: token_char_def byte_of_def)
  then show ?thesis
    using sanitize_token_chars by (auto simp: capture_token_def Let_def list_all_iff)
qed

text \<open>What a screenshot may show: the region the user picked, or the monitor the user or the
  permission store agreed to.\<close>

definition screenshot_consent :: "screenshot_job \<Rightarrow> capture_env \<Rightarrow> bool" where
  "screenshot_consent j env \<longleftrightarrow>
     (\<forall>k \<in> {0, 1, 2, 3}. \<not> closed_at env k (sj_path j))
     \<and> (if needs_pick (sj_options j)
        then \<exists>r p1. pick Pick_Region (cp_capture env) = (Inr (Picked_Region r), p1)
        else so_permission_store_checked (sj_options j)
          \<or> (\<exists>p1. pc_pick_confirm ''Take a Screenshot''
                 (''Allow '' @ sj_app_id j @ '' to capture the current monitor?'') (Some ''Capture'') (cp_capture env)
               = (Inr Confirm_Confirmed, p1)))"

lemma pick_region_Inl: "pick_region o1 p = (Inl r, p1) \<Longrightarrow> \<not> granted r"
  by (auto simp: pick_region_def split: if_splits prod.splits sum.splits pick_result.splits)

lemma confirm_capture_Inl: "confirm_capture o1 a p = (Inl r, p1) \<Longrightarrow> \<not> granted r"
  by (auto simp: confirm_capture_def split: if_splits prod.splits sum.splits confirm_pick_result.splits)

lemma run_screenshot_granted:
  assumes "granted (fst (run_screenshot env j))"
  obtains region p1 p2 p3 uri fs1 where
    "\<forall>k \<in> {0, 1, 2, 3}. \<not> closed_at env k (sj_path j)"
    "pick_region (sj_options j) (cp_capture env) = (Inr region, p1)"
    "confirm_capture (sj_options j) (sj_app_id j) p1 = (Inr (), p2)"
    "capture_and_write env p2 (sj_token j) region = (Inr uri, p3, fs1)"
    "run_screenshot env j = ((0, [(''uri'', DV_Str uri)]), p3, fs1)"
  using assms
  by (auto simp: run_screenshot_def Let_def dest: pick_region_Inl confirm_capture_Inl
      split: if_splits prod.splits sum.splits)

lemma run_screenshot_consent: "granted (fst (run_screenshot env j)) \<Longrightarrow> screenshot_consent j env"
  by (erule run_screenshot_granted)
    (auto simp: screenshot_consent_def pick_region_def confirm_capture_def needs_pick_def needs_confirm_def
      split: if_splits prod.splits sum.splits pick_result.splits confirm_pick_result.splits
        screenshot_target.splits option.splits)

definition pick_color_consent :: "string \<Rightarrow> capture_env \<Rightarrow> bool" where
  "pick_color_consent path env \<longleftrightarrow>
     \<not> closed_at env 0 path \<and> \<not> closed_at env 1 path
     \<and> (\<exists>at rgb p1. pick Pick_Pixel (cp_capture env) = (Inr (Picked_Pixel at rgb), p1))"

lemma run_pick_color_consent: "granted (fst (run_pick_color env path)) \<Longrightarrow> pick_color_consent path env"
  by (auto simp: run_pick_color_def pick_color_consent_def
      split: if_splits prod.splits sum.splits pick_result.splits)

fun capture_consent :: "capture_job \<Rightarrow> capture_env \<Rightarrow> bool" where
  "capture_consent (Job_Screenshot j) env = screenshot_consent j env"
| "capture_consent (Job_Pick_Color path app_id) env = pick_color_consent path env"

lemma run_job_consent: "granted (run_job j env) \<Longrightarrow> capture_consent j env"
  by (cases j) (simp_all add: run_screenshot_consent run_pick_color_consent)

interpretation capture: consent_task run_job refusal granted capture_consent
  by unfold_locales (simp_all add: run_job_consent)

end
