(* ===== verification/File_Chooser_Portal.thy ===== *)
theory File_Chooser_Portal
  imports Portal_Dialog
begin

text \<open>
  \<open>crates/xdg-desktop-portal-atrium/src/file_chooser.rs\<close>: the translation of the three methods into
  the prompter's request, its validation, the dialog and the translation of the answer. The
  contract's own rules are in \<open>Prompter_Contract\<close>; the length of the JSON encoding is a parameter.
\<close>

definition MAX_REQUEST_BYTES :: nat where "MAX_REQUEST_BYTES = 1024 * 1024"
definition MAX_ACTIVE_FILE_CHOOSERS :: nat where "MAX_ACTIVE_FILE_CHOOSERS = 32"

section \<open>Options\<close>

text \<open>A byte path ends with a NUL and has none inside.\<close>

definition byte_path :: "string \<Rightarrow> string option" where
  "byte_path b =
     (if b = [] \<or> last b \<noteq> CHR 0x00 then None
      else let p = butlast b in if p = [] \<or> has_nul p then None else Some p)"

definition byte_char :: "u8 \<Rightarrow> char" where
  "byte_char b = char_of (unat b)"

definition as_bytes :: "dbus_value \<Rightarrow> string option" where
  "as_bytes v = map_option (map byte_char) (as_array as_byte v)"

definition get_bool :: "vardict \<Rightarrow> string \<Rightarrow> bool \<Rightarrow> bool" where
  "get_bool options key fallback = unwrap_or fallback (opt_get as_bool options key)"

text \<open>A string, or its bytes with at most one NUL behind them.\<close>

definition get_string :: "vardict \<Rightarrow> string \<Rightarrow> string option" where
  "get_string options key =
     (case map_of options key of
        None \<Rightarrow> None
      | Some v \<Rightarrow>
          (case as_str v of
             Some s \<Rightarrow> Some s
           | None \<Rightarrow>
               (case as_bytes v of
                  None \<Rightarrow> None
                | Some b \<Rightarrow>
                    let t = (if b \<noteq> [] \<and> last b = CHR 0x00 then butlast b else b)
                    in if valid_utf8 t then Some t else None)))"

definition get_path :: "vardict \<Rightarrow> string \<Rightarrow> string option" where
  "get_path options key = Option.bind (opt_get as_bytes options key) byte_path"

definition keep_if :: "('a \<Rightarrow> bool) \<Rightarrow> 'a option \<Rightarrow> 'a option" where
  "keep_if P x = (case x of None \<Rightarrow> None | Some y \<Rightarrow> if P y then Some y else None)"

section \<open>Filters\<close>

type_synonym wire_filter = "string \<times> (u32 \<times> string) list"

fun as_rule :: "dbus_value \<Rightarrow> (u32 \<times> string) option" where
  "as_rule (DV_Struct [DV_U32 k, DV_Str v]) = Some (k, v)"
| "as_rule _ = None"

fun as_filter :: "dbus_value \<Rightarrow> wire_filter option" where
  "as_filter (DV_Struct [DV_Str label, rules]) = map_option (Pair label) (as_array as_rule rules)"
| "as_filter _ = None"

fun rule_from_wire :: "u32 \<times> string \<Rightarrow> filter_rule option" where
  "rule_from_wire (k, v) =
     (if k = 0 then Some \<lparr>fr_kind = Rule_Glob, fr_value = v\<rparr>
      else if k = 1 then Some \<lparr>fr_kind = Rule_Mime, fr_value = v\<rparr> else None)"

definition filter_from_wire :: "wire_filter \<Rightarrow> file_filter" where
  "filter_from_wire w = \<lparr>ff_label = fst w, ff_rules = List.map_filter rule_from_wire (snd w)\<rparr>"

fun rule_code :: "filter_rule_kind \<Rightarrow> u32" where
  "rule_code Rule_Glob = 0"
| "rule_code Rule_Mime = 1"

definition filter_to_wire :: "file_filter \<Rightarrow> wire_filter" where
  "filter_to_wire f = (ff_label f, map (\<lambda>r. (rule_code (fr_kind r), fr_value r)) (ff_rules f))"

definition wire_value :: "wire_filter \<Rightarrow> dbus_value" where
  "wire_value w = DV_Struct [DV_Str (fst w), DV_Array (map (\<lambda>(k, v). DV_Struct [DV_U32 k, DV_Str v]) (snd w))]"

section \<open>The request\<close>

fun as_pair :: "dbus_value \<Rightarrow> (string \<times> string) option" where
  "as_pair (DV_Struct [DV_Str a, DV_Str b]) = Some (a, b)"
| "as_pair _ = None"

fun as_choice :: "dbus_value \<Rightarrow> choice option" where
  "as_choice (DV_Struct [DV_Str i, DV_Str l, opts, DV_Str sel]) =
     (case as_array as_pair opts of
        None \<Rightarrow> None
      | Some os \<Rightarrow> Some \<lparr>ch_id = i, ch_label = l, ch_options = os, ch_selected = sel\<rparr>)"
| "as_choice _ = None"

record parsed_options =
  po_modal :: bool
  po_multiple :: bool
  po_directory :: bool
  po_accept_label :: "string option"
  po_current_folder :: "string option"
  po_current_name :: "string option"
  po_current_file :: "string option"
  po_filters :: "file_filter list"
  po_current_filter :: "file_filter option"
  po_choices :: "choice list"
  po_save_files :: "string list"

text \<open>The names of \<open>SaveFiles\<close>: byte strings, or strings; malformed ones are dropped.\<close>

definition save_names :: "vardict \<Rightarrow> string list" where
  "save_names options =
     (case map_of options ''files'' of
        None \<Rightarrow> []
      | Some v \<Rightarrow>
          (case as_array as_bytes v of
             Some ps \<Rightarrow> List.map_filter byte_path ps
           | None \<Rightarrow>
               (case as_strings v of
                  Some ss \<Rightarrow> filter (\<lambda>s. s \<noteq> [] \<and> \<not> has_nul s) ss
                | None \<Rightarrow> [])))"

definition parse_chooser_options :: "vardict \<Rightarrow> parsed_options" where
  "parse_chooser_options options =
     \<lparr>po_modal = get_bool options ''modal'' True,
      po_multiple = get_bool options ''multiple'' False,
      po_directory = get_bool options ''directory'' False,
      po_accept_label = keep_if (\<lambda>l. l \<noteq> []) (get_string options ''accept_label''),
      po_current_folder = keep_if path_is_absolute (get_path options ''current_folder''),
      po_current_name = get_string options ''current_name'',
      po_current_file = keep_if path_is_absolute (get_path options ''current_file''),
      po_filters = map filter_from_wire (unwrap_or [] (opt_get (as_array as_filter) options ''filters'')),
      po_current_filter = map_option filter_from_wire (opt_get as_filter options ''current_filter''),
      po_choices = unwrap_or [] (opt_get (as_array as_choice) options ''choices''),
      po_save_files = save_names options\<rparr>"

definition base_request :: "file_chooser_mode \<Rightarrow> string \<Rightarrow> string \<Rightarrow> string \<Rightarrow> parsed_options \<Rightarrow> file_chooser_request" where
  "base_request mode app_id parent title p =
     \<lparr>fc_mode = mode, fc_app_id = app_id, fc_title = title, fc_accept_label = po_accept_label p,
      fc_modal = po_modal p, fc_parent_window = some_unless_empty parent, fc_multiple = False,
      fc_current_folder = po_current_folder p, fc_current_name = None, fc_current_file = None,
      fc_filters = [], fc_current_filter = None, fc_choices = po_choices p, fc_files = []\<rparr>"

definition open_request :: "string \<Rightarrow> string \<Rightarrow> string \<Rightarrow> vardict \<Rightarrow> file_chooser_request" where
  "open_request app_id parent title options =
     (let p = parse_chooser_options options in
      (base_request (if po_directory p then Open_Directory else Open_File) app_id parent title p)
        \<lparr>fc_multiple := po_multiple p, fc_filters := po_filters p, fc_current_filter := po_current_filter p\<rparr>)"

definition save_request :: "string \<Rightarrow> string \<Rightarrow> string \<Rightarrow> vardict \<Rightarrow> file_chooser_request" where
  "save_request app_id parent title options =
     (let p = parse_chooser_options options in
      (base_request Save_File app_id parent title p)
        \<lparr>fc_current_name := po_current_name p, fc_current_file := po_current_file p,
         fc_filters := po_filters p, fc_current_filter := po_current_filter p\<rparr>)"

definition save_files_request :: "string \<Rightarrow> string \<Rightarrow> string \<Rightarrow> vardict \<Rightarrow> file_chooser_request" where
  "save_files_request app_id parent title options =
     (let p = parse_chooser_options options in
      (base_request Save_Files app_id parent title p)\<lparr>fc_files := po_save_files p\<rparr>)"

text \<open>\<open>encoded\<close>: the length of the request's JSON, if it can be encoded.\<close>

definition validate_request_size :: "(file_chooser_request \<Rightarrow> nat option) \<Rightarrow> file_chooser_request \<Rightarrow> bool" where
  "validate_request_size encoded r \<longleftrightarrow>
     is_ok (validate_file_chooser r) \<and> (case encoded r of None \<Rightarrow> False | Some n \<Rightarrow> n \<le> MAX_REQUEST_BYTES)"

section \<open>The dialog\<close>

definition invoke_chooser :: "invoke_error + prompt_result \<Rightarrow> string + file_chooser_response" where
  "invoke_chooser answer =
     (case answer of
        Inr (Result_Files response) \<Rightarrow> Inr response
      | Inr _ \<Rightarrow> Inl ''prompter returned the wrong response kind''
      | Inl Invoke_Cancelled \<Rightarrow> Inr Files_Cancelled
      | Inl (Invoke_Failed message) \<Rightarrow> Inl message)"

definition build_results :: "string list \<Rightarrow> file_filter option \<Rightarrow> (string \<times> string) list \<Rightarrow> vardict" where
  "build_results paths current answers =
     [(''uris'', DV_Array (map (DV_Str \<circ> file_uri) (filter (\<lambda>p. p \<noteq> []) paths)))]
     @ (case current of None \<Rightarrow> [] | Some f \<Rightarrow> [(''current_filter'', wire_value (filter_to_wire f))])
     @ (if answers = [] then []
        else [(''choices'', DV_Array (map (\<lambda>(i, v). DV_Struct [DV_Str i, DV_Str v]) answers))])"

type_synonym chooser_job = "string \<times> file_chooser_request"

definition run_pick :: "chooser_job \<Rightarrow> dialog_env \<Rightarrow> reply" where
  "run_pick j env =
     (case j of (path, request) \<Rightarrow>
        if closed_at env 0 path then cancelled_reply
        else if \<not> is_ok (validate_file_chooser request) then failed_reply
        else (case invoke_chooser (dg_answer env) of
                Inr (Files_Selected paths current answers) \<Rightarrow>
                  if closed_at env 1 path then cancelled_reply
                  else if \<not> is_ok (files_answer_valid (Files_Selected paths current answers) request) then failed_reply
                  else (0, build_results paths current answers)
              | Inr Files_Cancelled \<Rightarrow> cancelled_reply
              | Inr (Files_Failed _) \<Rightarrow> failed_reply
              | Inl _ \<Rightarrow> failed_reply))"

definition file_chooser_worker :: "(chooser_job, dialog_env) pool_event list \<Rightarrow> (chooser_job, reply) pool" where
  "file_chooser_worker es = pool_after MAX_ACTIVE_FILE_CHOOSERS refusal run_pick es"

definition choose_files ::
  "(file_chooser_request \<Rightarrow> nat option) \<Rightarrow> nat option \<Rightarrow> bool \<Rightarrow> string \<Rightarrow> file_chooser_request
     \<Rightarrow> (chooser_job \<Rightarrow> reply queue_outcome) \<Rightarrow> req_world \<Rightarrow> (fdo_error + reply) \<times> req_world" where
  "choose_files encoded fault remove_fails path request outcome w =
     (if \<not> validate_request_size encoded request then (Inr failed_reply, w)
      else dispatch fault remove_fails ''file chooser'' path (outcome (path, request)) w)"

section \<open>Lemmas\<close>

lemma filter_wire_round_trip: "filter_from_wire (filter_to_wire f) = f"
proof -
  have "rule_from_wire (rule_code (fr_kind r), fr_value r) = Some r" for r
    by (cases r; cases "fr_kind r") simp_all
  then have "List.map_filter rule_from_wire (map (\<lambda>r. (rule_code (fr_kind r), fr_value r)) rs) = rs" for rs
    by (induction rs) (simp_all add: map_filter_simps)
  then show ?thesis by (simp add: filter_from_wire_def filter_to_wire_def)
qed

lemma wire_value_round_trip: "as_filter (wire_value w) = Some w"
proof -
  have "all_some (\<lambda>v. as_rule (unwrap_variant v)) (map (\<lambda>(k, v). DV_Struct [DV_U32 k, DV_Str v]) rs) = Some rs" for rs
    by (induction rs) auto
  then show ?thesis by (cases w) (simp add: wire_value_def)
qed

text \<open>Consent: a selection the contract accepts, for a request that was not closed.\<close>

definition files_consent :: "chooser_job \<Rightarrow> dialog_env \<Rightarrow> bool" where
  "files_consent j env \<longleftrightarrow>
     \<not> closed_at env 0 (fst j) \<and> \<not> closed_at env 1 (fst j)
     \<and> (\<exists>paths current answers. dg_answer env = Inr (Result_Files (Files_Selected paths current answers))
          \<and> is_ok (files_answer_valid (Files_Selected paths current answers) (snd j)))"

lemma invoke_chooser_Selected:
  "invoke_chooser a = Inr (Files_Selected ps c as) \<longleftrightarrow> a = Inr (Result_Files (Files_Selected ps c as))"
  by (auto simp: invoke_chooser_def split: sum.splits prompt_result.splits invoke_error.splits)

lemma run_pick_granted:
  assumes "granted (run_pick j env)"
  obtains paths current answers where
    "dg_answer env = Inr (Result_Files (Files_Selected paths current answers))"
    "is_ok (files_answer_valid (Files_Selected paths current answers) (snd j))"
    "\<not> closed_at env 0 (fst j)" "\<not> closed_at env 1 (fst j)"
    "run_pick j env = (0, build_results paths current answers)"
  using assms
  by (cases j) (auto simp: run_pick_def simp flip: invoke_chooser_Selected
      split: if_splits sum.splits file_chooser_response.splits)

lemma run_pick_consent: "granted (run_pick j env) \<Longrightarrow> files_consent j env"
  by (erule run_pick_granted) (auto simp: files_consent_def)

interpretation file_chooser: consent_task run_pick refusal granted files_consent
  by unfold_locales (simp_all add: run_pick_consent)


definition sample_files_env :: dialog_env where
  "sample_files_env = \<lparr>dg_tracker = \<lambda>_. tracker_default,
     dg_answer = Inr (Result_Files (Files_Selected [''/tmp/a b'', ''/%''] None []))\<rparr>"


text \<open>Malformed names are dropped without an error: fewer files are saved than were named.\<close>

lemma malformed_names_are_dropped:
  "fc_files (save_files_request [] [] []
     [(''files'', DV_Array [DV_Array [DV_Byte 97, DV_Byte 0], DV_Array [DV_Byte 98]])]) = [''a'']"
  by code_simp

end
