(* ===== verification/Background_Portal.thy ===== *)
theory Background_Portal
  imports Portal_Dialog Exec_Line Mime_Apps
begin

text \<open>
  \<open>crates/xdg-desktop-portal-atrium/src/background.rs\<close>: consent for background activity, and the
  autostart entry a grant may write. The file system's faults are parameters; the states a reader
  can observe while the entry is written are the trace of the write.
\<close>

section \<open>The request\<close>

definition MAX_APP_ID_BYTES :: nat where "MAX_APP_ID_BYTES = 255"
definition BG_MAX_REASON_BYTES :: nat where "BG_MAX_REASON_BYTES = 16 * 1024"
definition MAX_COMMANDLINE_ARGS :: nat where "MAX_COMMANDLINE_ARGS = 64"
definition MAX_ARG_BYTES :: nat where "MAX_ARG_BYTES = 4 * 1024"
definition BG_MAX_BODY_BYTES :: nat where "BG_MAX_BODY_BYTES = 16 * 1024"
definition MAX_ACTIVE_BACKGROUND_REQUESTS :: nat where "MAX_ACTIVE_BACKGROUND_REQUESTS = 32"

record autostart_spec =
  as_commandline :: "string list"
  as_dbus_activatable :: bool

text \<open>The largest character boundary of \<open>s\<close> at or below a position.\<close>

primrec char_boundary :: "string \<Rightarrow> nat \<Rightarrow> nat" where
  "char_boundary s 0 = 0"
| "char_boundary s (Suc n) =
     (if Suc n < length s \<and> continuation (s ! Suc n) then char_boundary s n else Suc n)"

abbreviation new_line :: string where "new_line \<equiv> [CHR 0x0A]"

definition truncate_body :: "string \<Rightarrow> string" where
  "truncate_body body =
     (if BG_MAX_BODY_BYTES < length body
      then take (char_boundary body (BG_MAX_BODY_BYTES - 3)) body @ [CHR 0xE2, CHR 0x80, CHR 0xA6]
      else body)"

definition consent_body :: "string \<Rightarrow> string \<Rightarrow> bool \<Rightarrow> string" where
  "consent_body app_id reason autostart =
     truncate_body
      (''The application '' @ [CHR 0x27] @ app_id @ [CHR 0x27] @ '' wants to run in the background.''
       @ (if only_white reason then [] else new_line @ new_line @ reason)
       @ (if autostart then new_line @ new_line
            @ ''The application also wants to start automatically when you log in.'' else []))"

datatype background_error = Bg_App_Id | Bg_Reason | Bg_Commandline | Bg_Prompt contract_error

definition bool_option :: "vardict \<Rightarrow> string \<Rightarrow> bool" where
  "bool_option options key = unwrap_or False (opt_get as_bool options key)"

definition autostart_of :: "vardict \<Rightarrow> autostart_spec option" where
  "autostart_of options =
     (let line = unwrap_or [] (opt_get as_strings options ''commandline'') in
      if bool_option options ''autostart'' \<and> line \<noteq> []
      then Some \<lparr>as_commandline = line, as_dbus_activatable = bool_option options ''dbus-activatable''\<rparr>
      else None)"

definition background_prompt :: "string \<Rightarrow> string \<Rightarrow> string \<Rightarrow> bool \<Rightarrow> confirm_request" where
  "background_prompt app_id parent reason autostart =
     \<lparr>cr_title = ''Run in Background'', cr_body = consent_body app_id reason autostart,
      cr_accept_label = Some ''_Allow'', cr_deny_label = None, cr_modal = True,
      cr_parent_window = some_unless_empty parent\<rparr>"

definition parse_background ::
  "string \<Rightarrow> string \<Rightarrow> string \<Rightarrow> vardict \<Rightarrow> background_error + confirm_request \<times> autostart_spec option" where
  "parse_background app_id parent reason options =
     then_check (guard (app_id = [] \<or> MAX_APP_ID_BYTES < length app_id \<or> CHR ''/'' \<in> set app_id
                   \<or> CHR 0x5C \<in> set app_id \<or> has_control app_id) Bg_App_Id)
      (then_check (guard (BG_MAX_REASON_BYTES < length reason \<or> has_nul reason) Bg_Reason)
        (let line = unwrap_or [] (opt_get as_strings options ''commandline'') in
         then_check (guard (MAX_COMMANDLINE_ARGS < length line
                       \<or> (\<exists>a \<in> set line. a = [] \<or> MAX_ARG_BYTES < length a \<or> has_nul a)) Bg_Commandline)
          (let prompt = background_prompt app_id parent reason (bool_option options ''autostart'') in
           case validate_confirm prompt of
             Inl e \<Rightarrow> Inl (Bg_Prompt e)
           | Inr _ \<Rightarrow> Inr (prompt, autostart_of options))))"

section \<open>The autostart entry\<close>

text \<open>A character that needs no quotes.\<close>

definition exec_plain :: "string \<Rightarrow> bool" where
  "exec_plain g \<longleftrightarrow>
     (case g of
        [c] \<Rightarrow> (let b = byte_of c in 48 \<le> b \<and> b \<le> 57 \<or> 65 \<le> b \<and> b \<le> 90 \<or> 97 \<le> b \<and> b \<le> 122)
               \<or> c \<in> set ''-_./:@%=,~+''
      | _ \<Rightarrow> False)"

definition escape_reserved :: "string \<Rightarrow> string list" where
  "escape_reserved g = (if g \<in> {quote_mark, ''`'', ''$'', backslash} then [backslash, g] else [g])"

text \<open>The characters of the rendered argument, then \<open>replace('%', "%%")\<close>.\<close>

definition quote_exec_groups :: "string \<Rightarrow> string list" where
  "quote_exec_groups arg =
     (let cs = char_groups arg;
          rendered = (if arg \<noteq> [] \<and> list_all exec_plain cs then cs
                      else [quote_mark] @ concat (map escape_reserved cs) @ [quote_mark])
      in concat (map double rendered))"

definition quote_exec_arg :: "string \<Rightarrow> string" where
  "quote_exec_arg arg = concat (quote_exec_groups arg)"

definition exec_value :: "string list \<Rightarrow> string" where
  "exec_value commandline = join_with '' '' (map quote_exec_arg commandline)"

definition render_desktop_entry :: "string \<Rightarrow> autostart_spec \<Rightarrow> string" where
  "render_desktop_entry app_id spec =
     ''[Desktop Entry]'' @ new_line @ ''Type=Application'' @ new_line @ ''Name='' @ app_id @ new_line
     @ ''Exec='' @ exec_value (as_commandline spec) @ new_line
     @ (if as_dbus_activatable spec then ''DBusActivatable=true'' @ new_line else [])
     @ ''X-Tessera-Portal=background'' @ new_line"

definition autostart_dir :: "string \<Rightarrow> string" where
  "autostart_dir config = path_join config ''autostart''"

definition autostart_entry_path :: "string \<Rightarrow> string \<Rightarrow> string" where
  "autostart_entry_path config app_id = path_join (autostart_dir config) (app_id @ ''.desktop'')"

text \<open>The faults of the calls, what a faulty write left, the process id, and the configuration root.\<close>

record autostart_env = dialog_env +
  au_config :: "string option"
  au_pid :: string
  au_mkdir :: "io_error option"
  au_write :: "io_error option"
  au_written :: nat
  au_chmod :: "io_error option"
  au_rename :: "io_error option"
  au_files :: file_system

definition autostart_temporary :: "autostart_env \<Rightarrow> string \<Rightarrow> string \<Rightarrow> string" where
  "autostart_temporary env config app_id =
     path_join (autostart_dir config) (''.'' @ app_id @ ''.desktop.atrium-'' @ au_pid env)"

text \<open>The states after each call that changed the file system, and the closure's result.\<close>

definition write_autostart_entry ::
  "autostart_env \<Rightarrow> string \<Rightarrow> string \<Rightarrow> autostart_spec \<Rightarrow> (io_error + string) \<times> file_system list" where
  "write_autostart_entry env config app_id spec =
     (let final = autostart_entry_path config app_id;
          temporary = autostart_temporary env config app_id;
          entry = render_desktop_entry app_id spec
      in case au_mkdir env of
           Some e \<Rightarrow> (Inl e, [])
         | None \<Rightarrow>
             (case au_write env of
                Some e \<Rightarrow> (Inl e, [(au_files env)(temporary \<mapsto> take (au_written env) entry)])
              | None \<Rightarrow>
                  let fs1 = (au_files env)(temporary \<mapsto> entry) in
                  (case au_chmod env of
                     Some e \<Rightarrow> (Inl e, [fs1])
                   | None \<Rightarrow>
                       (case au_rename env of
                          Some e \<Rightarrow> (Inl e, [fs1])
                        | None \<Rightarrow> (Inr final, [fs1, fs1(final \<mapsto> entry, temporary := None)])))))"

definition write_autostart :: "autostart_env \<Rightarrow> string \<Rightarrow> autostart_spec \<Rightarrow> bool \<times> file_system list" where
  "write_autostart env app_id spec =
     (case au_config env of
        None \<Rightarrow> (False, [])
      | Some config \<Rightarrow> (case write_autostart_entry env config app_id spec of
                         (Inr _, trace) \<Rightarrow> (True, trace)
                       | (Inl _, trace) \<Rightarrow> (False, trace)))"

section \<open>The task, its worker and the method\<close>

definition background_results :: "bool \<Rightarrow> vardict" where
  "background_results autostart = [(''background'', DV_Bool True), (''autostart'', DV_Bool autostart)]"

record background_job =
  bj_path :: string
  bj_app_id :: string
  bj_prompt :: confirm_request
  bj_autostart :: "autostart_spec option"

definition background_run :: "background_job \<Rightarrow> autostart_env \<Rightarrow> reply \<times> file_system list" where
  "background_run j env =
     (if closed_at env 0 (bj_path j) then (cancelled_reply, [])
      else let code = confirm_code (dg_answer env) in
        if code \<noteq> 0 then (code_reply code, [])
        else if closed_at env 1 (bj_path j) then (cancelled_reply, [])
        else (case bj_autostart j of
                None \<Rightarrow> ((0, background_results False), [])
              | Some spec \<Rightarrow> (case write_autostart env (bj_app_id j) spec of
                               (ok, trace) \<Rightarrow> ((0, background_results ok), trace))))"

definition background_worker ::
  "(background_job, autostart_env) pool_event list \<Rightarrow> (background_job, reply \<times> file_system list) pool" where
  "background_worker es = pool_after MAX_ACTIVE_BACKGROUND_REQUESTS (refusal, []) background_run es"

definition request_background ::
  "nat option \<Rightarrow> bool \<Rightarrow> string \<Rightarrow> string \<Rightarrow> string \<Rightarrow> string \<Rightarrow> vardict
     \<Rightarrow> (background_job \<Rightarrow> reply queue_outcome) \<Rightarrow> req_world \<Rightarrow> (fdo_error + reply) \<times> req_world" where
  "request_background fault remove_fails path app_id parent reason options outcome w =
     (case parse_background app_id parent reason options of
        Inl _ \<Rightarrow> (Inr failed_reply, w)
      | Inr (prompt, autostart) \<Rightarrow>
          dispatch fault remove_fails ''request'' path
            (outcome \<lparr>bj_path = path, bj_app_id = app_id, bj_prompt = prompt, bj_autostart = autostart\<rparr>) w)"

section \<open>Consent\<close>

definition background_consent :: "background_job \<Rightarrow> autostart_env \<Rightarrow> bool" where
  "background_consent j env \<longleftrightarrow>
     \<not> closed_at env 0 (bj_path j) \<and> \<not> closed_at env 1 (bj_path j)
     \<and> dg_answer env = Inr (Result_Confirm Confirm_Yes)"

text \<open>Granting, and touching the file system, both count.\<close>

definition background_grants :: "reply \<times> file_system list \<Rightarrow> bool" where
  "background_grants r \<longleftrightarrow> granted (fst r) \<or> snd r \<noteq> []"

lemma background_run_grants: "background_grants (background_run j env) \<Longrightarrow> background_consent j env"
  by (cases "confirm_code (dg_answer env) = 0")
    (auto simp: background_run_def background_consent_def background_grants_def Let_def code_reply_granted
      confirm_code_le simp flip: confirm_code_0 split: if_splits)

interpretation background: consent_task background_run "(refusal, [])" background_grants background_consent
  by unfold_locales (erule background_run_grants, simp add: background_grants_def)

section \<open>What the quoting means\<close>

lemma escape_reserved_double: "concat (map double (escape_reserved g)) = quote_char g"
  by (simp add: escape_reserved_def double_def quote_char_def)

lemma quote_exec_groups_cases:
  "quote_exec_groups a =
     (if a \<noteq> [] \<and> list_all exec_plain (char_groups a) then concat (map double (char_groups a)) else arg_groups a)"
proof -
  have "concat (map double (concat (map escape_reserved gs))) = concat (map quote_char gs)" for gs
    by (induction gs) (simp_all add: escape_reserved_double)
  then show ?thesis by (simp add: quote_exec_groups_def arg_groups_def double_def)
qed

text \<open>A plain character is neither white space nor a mark, so it is split and trimmed as itself.\<close>

lemma exec_plain_char:
  assumes "exec_plain g"
  shows "g \<noteq> quote_mark" "g \<noteq> backslash" "\<not> only_white g"
proof -
  from assms obtain c where g: "g = [c]"
    and c: "48 \<le> byte_of c \<and> byte_of c \<le> 57 \<or> 65 \<le> byte_of c \<and> byte_of c \<le> 90
      \<or> 97 \<le> byte_of c \<and> byte_of c \<le> 122 \<or> c \<in> set ''-_./:@%=,~+''"
    by (auto simp: exec_plain_def Let_def split: list.splits)
  from c have "byte_of c \<notin> {9, 10, 11, 12, 13, 32, 0x22, 0x5C}" by (auto simp: byte_of_def)
  with g show "g \<noteq> quote_mark" "g \<noteq> backslash" "\<not> only_white g"
    by (auto simp: white1_def byte_of_def)
qed

lemma split_plain:
  "list_all exec_plain gs \<Longrightarrow>
   split_loop (concat (map double gs) @ rest) False True tok toks
     = split_loop rest False True (tok @ concat (concat (map double gs))) toks"
  by (induction gs arbitrary: tok) (auto simp: double_def exec_plain_char white1_def byte_of_def)

lemma split_plain_first:
  assumes "list_all exec_plain gs" and "gs \<noteq> []"
  shows "split_loop (concat (map double gs) @ rest) False False [] toks
     = split_loop rest False True (concat (concat (map double gs))) toks"
proof -
  obtain g gs' where gs: "gs = g # gs'" using assms(2) by (cases gs) auto
  then have "exec_plain g" "list_all exec_plain gs'" using assms(1) by auto
  with split_plain [OF this(2)] gs show ?thesis
    by (cases "g = ''%''") (auto simp: double_def exec_plain_char white1_def byte_of_def)
qed

lemma split_exec_arg:
  "split_loop (quote_exec_groups a @ rest) False False [] toks = split_loop rest False True (doubled a) toks"
proof (cases "a \<noteq> [] \<and> list_all exec_plain (char_groups a)")
  case True
  then have "char_groups a \<noteq> []" by (cases a) auto
  with True show ?thesis
    using split_plain_first [of "char_groups a" rest toks] by (simp add: quote_exec_groups_cases doubled_def)
next
  case False
  then show ?thesis using split_arg [of a rest toks] by (simp only: quote_exec_groups_cases if_False)
qed

fun exec_line_groups :: "string list \<Rightarrow> string list" where
  "exec_line_groups [] = []"
| "exec_line_groups [a] = quote_exec_groups a"
| "exec_line_groups (a # as) = quote_exec_groups a @ '' '' # exec_line_groups as"

lemma quote_exec_groups_ones: "starts_char a \<Longrightarrow> list_all one_char (quote_exec_groups a)"
proof -
  have "list_all one_char gs \<Longrightarrow> list_all one_char (concat (map double gs))" for gs
    by (induction gs) (simp_all add: double_ones)
  moreover assume "starts_char a"
  ultimately show ?thesis
    by (simp add: quote_exec_groups_cases char_groups_ones arg_groups_ones del: list_all_append)
qed

lemma exec_line_groups_concat: "concat (exec_line_groups args) = exec_value args"
  by (induction args rule: exec_line_groups.induct) (simp_all add: exec_value_def quote_exec_arg_def)

lemma split_exec_line_groups:
  "split_loop (exec_line_groups args) False False [] toks = toks @ map doubled args"
proof (induction args arbitrary: toks rule: exec_line_groups.induct)
  case (2 a)
  then show ?case using split_exec_arg [of a "[]" toks] by simp
qed (simp_all add: split_exec_arg)

lemma split_exec_value:
  assumes "list_all starts_char args"
  shows "split_exec (exec_value args) = map doubled args"
proof -
  have "list_all one_char (exec_line_groups args)"
    using assms by (induction args rule: exec_line_groups.induct) (simp_all add: quote_exec_groups_ones)
  from char_groups_of_ones [OF this] show ?thesis
    using split_exec_line_groups [of args "[]"] by (simp add: split_exec_def exec_line_groups_concat)
qed

section \<open>The entry as the registry reads it\<close>

definition ink :: "char \<Rightarrow> bool" where
  "ink c \<longleftrightarrow> byte_of c < 0x80 \<and> \<not> white1 c"

text \<open>A value that begins and ends with ink is not trimmed.\<close>

definition framed :: "string \<Rightarrow> bool" where
  "framed s \<longleftrightarrow> s \<noteq> [] \<and> ink (hd s) \<and> ink (last s)"

lemma framed_append: "framed a \<Longrightarrow> framed b \<Longrightarrow> framed (a @ m @ b)"
  by (auto simp: framed_def)

lemma framed_trim: "framed s \<Longrightarrow> trim s = s"
proof -
  assume s: "framed s"
  then have "black_start s"
    by (cases s) (auto simp: black_start_def framed_def ink_def white2_def white3_def split: list.splits)
  moreover have "trim_end (butlast s @ last s # []) = butlast s @ last s # trim_end []"
    using s by (intro trim_end_at) (simp_all add: framed_def ink_def)
  ultimately show ?thesis using s by (simp add: trim_def trim_start_black framed_def)
qed

lemma exec_plain_ink: "exec_plain g \<Longrightarrow> list_all ink g"
  by (auto simp: exec_plain_def ink_def white1_def byte_of_def Let_def split: list.splits)

lemma framed_quote_exec_arg: "framed (quote_exec_arg a)"
proof (cases "a \<noteq> [] \<and> list_all exec_plain (char_groups a)")
  case True
  have "list_all exec_plain gs \<Longrightarrow> list_all ink (concat (concat (map double gs)))" for gs
    by (induction gs) (auto simp: double_def exec_plain_ink ink_def white1_def byte_of_def)
  then have "list_all ink (quote_exec_arg a)"
    using True by (simp add: quote_exec_arg_def quote_exec_groups_cases)
  moreover have "quote_exec_arg a \<noteq> []"
  proof -
    from True obtain g gs where "char_groups a = g # gs" "g \<noteq> []"
      by (cases "char_groups a") (auto simp: exec_plain_def split: list.splits, cases a, auto)
    with True show ?thesis by (simp add: quote_exec_arg_def quote_exec_groups_cases double_def)
  qed
  ultimately show ?thesis by (auto simp: framed_def list_all_iff)
next
  case False
  then have "quote_exec_arg a = concat (arg_groups a)"
    by (simp only: quote_exec_arg_def quote_exec_groups_cases if_False)
  then show ?thesis by (simp add: arg_groups_def framed_def ink_def white1_def byte_of_def)
qed

lemma framed_exec_value: "args \<noteq> [] \<Longrightarrow> framed (exec_value args)"
  by (induction args rule: exec_line_groups.induct)
    (simp_all add: exec_value_def framed_quote_exec_arg framed_append [of _ _ "'' ''", simplified])

lemma trim_trim_end: "trim (trim_end s) = trim s"
  using trim_end_suffix [of s] trim_append_white by metis

lemma entry_line_eol: "entry_line (strip_eol (h @ [CHR 0x0A])) st = entry_line h st"
  using trim_end_strip_eol [of "h @ [CHR 0x0A]"] by (simp add: entry_line_def)

text \<open>A line with a key, in the entry's group.\<close>

definition clean_key :: "string \<Rightarrow> bool" where
  "clean_key k \<longleftrightarrow> k \<noteq> [] \<and> hd k \<noteq> CHR ''['' \<and> hd k \<noteq> CHR ''#'' \<and> CHR ''='' \<notin> set k \<and> trim k = k"

lemma entry_line_key:
  assumes "es_in_entry st" and "clean_key k"
  shows "entry_line (k @ CHR ''='' # v) st = entry_key k (trim v) st"
proof -
  have cut: "trim_end (k @ CHR ''='' # v) = k @ CHR ''='' # trim_end v"
    by (rule trim_end_at) (simp_all add: byte_of_def white1_def)
  obtain c cs where k: "k = c # cs" "c \<noteq> CHR ''[''" "c \<noteq> CHR ''#''"
    using assms(2) by (cases k) (auto simp: clean_key_def)
  have "split_once (CHR ''='') (k @ CHR ''='' # trim_end v) = Some (k, trim_end v)"
    using assms(2) by (simp add: split_once_Some clean_key_def)
  moreover have "header_of (k @ CHR ''='' # trim_end v) = None"
    using k by (simp add: header_of_def strip_prefix_def)
  ultimately show ?thesis
    using assms k cut by (simp add: entry_line_def trim_trim_end clean_key_def)
qed

lemma exec_groups_plain:
  "x \<in> set (quote_exec_arg a) \<Longrightarrow> x = CHR 0x22 \<or> x = CHR 0x5C \<or> x \<in> set a"
proof -
  have "x \<in> set (concat (concat (map double gs))) \<Longrightarrow> x \<in> set (concat gs)" for gs
    by (induction gs) (auto simp: double_def split: if_splits)
  moreover have "x \<in> set (concat (concat (map quote_char gs))) \<Longrightarrow> x = CHR 0x5C \<or> x \<in> set (concat gs)" for gs
    by (induction gs) (auto simp: quote_char_def split: if_splits)
  moreover assume "x \<in> set (quote_exec_arg a)"
  ultimately show ?thesis
    by (auto simp: quote_exec_arg_def quote_exec_groups_cases arg_groups_def simp del: set_concat UN_iff
        split: if_splits)
      (metis char_groups_concat)+
qed

lemma exec_value_lines:
  assumes "\<forall>a \<in> set args. CHR 0x0A \<notin> set a"
  shows "CHR 0x0A \<notin> set (exec_value args)"
proof
  assume "CHR 0x0A \<in> set (exec_value args)"
  then obtain a where "a \<in> set args" "CHR 0x0A \<in> set (quote_exec_arg a)"
    using join_with_set [of "CHR 0x0A" "'' ''" "map quote_exec_arg args"] by (auto simp: exec_value_def)
  with assms exec_groups_plain [of "CHR 0x0A" a] show False by auto
qed

definition entry_keys :: "string \<Rightarrow> autostart_spec \<Rightarrow> string list" where
  "entry_keys app_id spec =
     [''[Desktop Entry]'', ''Type=Application'', ''Name='' @ app_id, ''Exec='' @ exec_value (as_commandline spec)]
     @ (if as_dbus_activatable spec then [''DBusActivatable=true''] else []) @ [''X-Tessera-Portal=background'']"

lemma render_lines: "render_desktop_entry app_id spec = concat (map (\<lambda>l. l @ [CHR 0x0A]) (entry_keys app_id spec))"
  by (simp add: render_desktop_entry_def entry_keys_def)

lemma entry_lines_eol: "entry_lines (map (\<lambda>l. strip_eol (l @ [CHR 0x0A])) ls) st = entry_lines ls st"
  by (induction ls arbitrary: st) (auto simp: entry_line_eol split: option.split)

lemma keys_clean: "clean_key ''Type''" "clean_key ''Name''" "clean_key ''Exec''" "clean_key ''DBusActivatable''"
  "clean_key ''X-Tessera-Portal''"
  by code_simp+

lemma header_line: "entry_line ''[Desktop Entry]'' entry_init = Some (entry_init\<lparr>es_in_entry := True\<rparr>)"
  by code_simp

lemma control_lines: "\<not> has_control s \<Longrightarrow> CHR 0x0A \<notin> set s"
  by (induction s) (auto simp: byte_of_def)

text \<open>The registry's parser reads back the rendered command.\<close>

lemma entry_reads_back:
  assumes "\<not> has_control app_id" and "as_commandline spec \<noteq> []"
    and "\<forall>a \<in> set (as_commandline spec). CHR 0x0A \<notin> set a"
    and "length (exec_value (as_commandline spec)) \<le> MAX_EXEC_BYTES"
  shows "\<exists>app. Option.bind (entry_lines (lines_of (render_desktop_entry app_id spec)) entry_init) (finish_entry i)
      = Some app \<and> ai_exec app = exec_value (as_commandline spec)"
proof -
  note one = entry_line_key [OF _ keys_clean(1), of _ "''Application''", simplified]
    entry_line_key [OF _ keys_clean(2), simplified] entry_line_key [OF _ keys_clean(3), simplified]
    entry_line_key [OF _ keys_clean(4), of _ "''true''", simplified]
    entry_line_key [OF _ keys_clean(5), of _ "''background''", simplified]
  have "list_all proper_line (map (\<lambda>l. l @ [CHR 0x0A]) (entry_keys app_id spec))"
    using control_lines [OF assms(1)] exec_value_lines [OF assms(3)]
    by (auto simp: entry_keys_def list_all_iff proper_line_def)
  then have "lines_of (render_desktop_entry app_id spec) = map (\<lambda>l. strip_eol (l @ [CHR 0x0A])) (entry_keys app_id spec)"
    by (simp add: render_lines lines_of_proper comp_def)
  then have "entry_lines (lines_of (render_desktop_entry app_id spec)) entry_init
     = entry_lines (entry_keys app_id spec) entry_init"
    by (simp only: entry_lines_eol)
  also have "\<dots> = Some (entry_init\<lparr>es_in_entry := True, es_name := Some (trim app_id),
               es_exec := Some (exec_value (as_commandline spec))\<rparr>)"
    using assms(4) framed_trim [OF framed_exec_value [OF assms(2)]]
    by (simp add: entry_keys_def header_line one entry_key_def)
  finally show ?thesis by (simp add: finish_entry_def)
qed

lemma parse_background_facts:
  assumes "parse_background app_id parent reason options = Inr (prompt, Some spec)"
  shows "app_id \<noteq> []" "length app_id \<le> MAX_APP_ID_BYTES" "CHR ''/'' \<notin> set app_id" "\<not> has_control app_id"
    and "as_commandline spec \<noteq> []" "\<forall>a \<in> set (as_commandline spec). a \<noteq> []"
  using assms
  by (auto simp: parse_background_def guard_def Let_def autostart_of_def split: if_splits sum.splits)

lemma relative_join: "CHR ''/'' \<notin> set n \<Longrightarrow> path_join d n = path_join d [] @ n"
  by (cases n) (auto simp: path_join_def path_is_absolute_def)

lemma entry_is_not_temporary:
  "CHR ''/'' \<notin> set app_id \<Longrightarrow> CHR ''/'' \<notin> set (au_pid env) \<Longrightarrow>
   autostart_entry_path config app_id \<noteq> autostart_temporary env config app_id"
proof -
  assume a: "CHR ''/'' \<notin> set app_id" and p: "CHR ''/'' \<notin> set (au_pid env)"
  have "length (app_id @ ''.desktop'') < length (''.'' @ app_id @ ''.desktop.atrium-'' @ au_pid env)" by simp
  then have "app_id @ ''.desktop'' \<noteq> ''.'' @ app_id @ ''.desktop.atrium-'' @ au_pid env" by (metis less_irrefl)
  then show ?thesis
    using relative_join [of "app_id @ ''.desktop''" "autostart_dir config"]
      relative_join [of "''.'' @ app_id @ ''.desktop.atrium-'' @ au_pid env" "autostart_dir config"] a p
    by (simp add: autostart_entry_path_def autostart_temporary_def)
qed


definition sample_autostart_env :: autostart_env where
  "sample_autostart_env =
     \<lparr>dg_tracker = \<lambda>_. tracker_default, dg_answer = Inr (Result_Confirm Confirm_Yes), au_config = Some ''/c'',
      au_pid = ''7'', au_mkdir = None, au_write = None, au_written = 0, au_chmod = None, au_rename = None,
      au_files = (\<lambda>_. None)\<rparr>"

definition sample_autostart :: autostart_spec where
  "sample_autostart = \<lparr>as_commandline = [''/bin/a b'', ''50%''], as_dbus_activatable = False\<rparr>"

definition sample_background :: background_job where
  "sample_background = \<lparr>bj_path = ''/r'', bj_app_id = ''app'', bj_prompt = background_prompt ''app'' [] [] True,
     bj_autostart = Some sample_autostart\<rparr>"

lemma sample_background_parses:
  "parse_background ''app'' [] []
     [(''autostart'', DV_Bool True), (''commandline'', DV_Array [DV_Str ''/bin/a b'', DV_Str ''50%''])]
   = Inr (background_prompt ''app'' [] [] True, Some sample_autostart)"
  by (simp add: parse_background_def guard_def Let_def opt_get_def bool_option_def autostart_of_def
      sample_autostart_def MAX_APP_ID_BYTES_def BG_MAX_REASON_BYTES_def MAX_COMMANDLINE_ARGS_def MAX_ARG_BYTES_def
      background_prompt_def validate_confirm_def validate_prompt_text_def consent_body_def truncate_body_def BG_MAX_BODY_BYTES_def
      some_unless_empty_def MAX_PROMPT_TEXT_BYTES_def white1_def white2_def white3_def byte_of_def)


text \<open>
  An argument may hold a line feed: the entry then has a line of its own for what follows it. Here
  the entry is hidden, so nothing is launched although autostart was granted.
\<close>

lemma line_feed_breaks_the_entry:
  "Option.bind (entry_lines (lines_of (render_desktop_entry ''app''
      \<lparr>as_commandline = [''a'' @ [CHR 0x0A] @ ''Hidden=true'' @ [CHR 0x0A]], as_dbus_activatable = False\<rparr>)) entry_init)
     (finish_entry i) = None"
  by code_simp

text \<open>The dialog's text is cut at a character, within the prompter's limit.\<close>

lemma char_boundary_le: "char_boundary s n \<le> n"
  by (induction n) (auto simp: le_Suc_eq)

lemma truncate_body_bounded: "length (truncate_body body) \<le> BG_MAX_BODY_BYTES"
proof -
  have "char_boundary body (BG_MAX_BODY_BYTES - 3) + 3 \<le> BG_MAX_BODY_BYTES"
    using char_boundary_le [of body "BG_MAX_BODY_BYTES - 3"] by (simp add: BG_MAX_BODY_BYTES_def)
  then show ?thesis by (simp add: truncate_body_def)
qed

lemma consent_body_bounded: "length (consent_body app_id reason autostart) \<le> BG_MAX_BODY_BYTES"
  unfolding consent_body_def by (rule truncate_body_bounded)

lemma char_boundary_ok:
  "n < length s \<Longrightarrow> char_boundary s n = 0 \<or> \<not> continuation (s ! char_boundary s n)"
  by (induction n) auto

end
