(* ===== verification/Dynamic_Launcher.thy ===== *)
theory Dynamic_Launcher
  imports Portal_Dialog
begin

text \<open>
  \<open>crates/xdg-desktop-portal-atrium/src/dynamic_launcher.rs\<close>: the confirmation of an installed
  launcher. The dialog may change the name when the request lets it; the icon is echoed.
\<close>

definition MAX_NAME_BYTES :: nat where "MAX_NAME_BYTES = 1024"
definition MAX_TARGET_BYTES :: nat where "MAX_TARGET_BYTES = 4 * 1024"
definition MAX_ACTIVE_PREPARE_REQUESTS :: nat where "MAX_ACTIVE_PREPARE_REQUESTS = 32"
definition SUPPORTED_LAUNCHER_TYPES :: u32 where "SUPPORTED_LAUNCHER_TYPES = 3"

text \<open>The layers of variants around a payload.\<close>

fun peel :: "dbus_value \<Rightarrow> dbus_value" where
  "peel (DV_Variant v) = peel v"
| "peel v = v"

definition icon_label :: "dbus_value \<Rightarrow> string option" where
  "icon_label icon =
     (case icon of
        DV_Struct [kind, data] \<Rightarrow>
          Option.bind (as_str kind) (\<lambda>k.
            if k = ''themed'' then
              (case as_strings (peel data) of Some (name # _) \<Rightarrow> Some name | _ \<Rightarrow> None)
            else if k = ''bytes'' then Some ''a custom image''
            else if k = ''file'' then Some ''a custom image file''
            else None)
      | _ \<Rightarrow> None)"

datatype launcher_error = Le_Name | Le_Type u32 | Le_Target | Le_Icon | Le_Contract contract_error

definition launcher_bool :: "vardict \<Rightarrow> string \<Rightarrow> bool \<Rightarrow> bool" where
  "launcher_bool options key d = unwrap_or d (opt_get as_bool options key)"

definition launcher_request ::
  "string \<Rightarrow> string \<Rightarrow> string \<Rightarrow> dbus_value \<Rightarrow> vardict \<Rightarrow> u32 \<Rightarrow> launcher_edit_request" where
  "launcher_request app_id parent name icon options kind =
     \<lparr>le_app_id = app_id, le_title = ''Install Launcher'', le_name = name,
      le_editable_name = launcher_bool options ''editable_name'' True,
      le_target = (if kind = 2 then opt_get as_str options ''target'' else None),
      le_icon_label = icon_label icon,
      le_modal = launcher_bool options ''modal'' True,
      le_parent_window = some_unless_empty parent\<rparr>"

text \<open>\<open>owned\<close>: the icon can be cloned.\<close>

definition prepare_request ::
  "(dbus_value \<Rightarrow> bool) \<Rightarrow> string \<Rightarrow> string \<Rightarrow> string \<Rightarrow> dbus_value \<Rightarrow> vardict
     \<Rightarrow> launcher_error + launcher_edit_request \<times> dbus_value" where
  "prepare_request owned app_id parent name icon options =
     then_check (guard (MAX_NAME_BYTES < length name \<or> has_nul name) Le_Name)
      (let kind = unwrap_or 1 (opt_get as_u32 options ''launcher_type'') in
       then_check (guard (kind \<notin> {1, 2}) (Le_Type kind))
        (then_check
          (case opt_get as_str options ''target'' of
             None \<Rightarrow> Inr ()
           | Some t \<Rightarrow> guard (kind = 2 \<and> (t = [] \<or> MAX_TARGET_BYTES < length t \<or> has_nul t)) Le_Target)
          (then_check (guard (\<not> owned icon) Le_Icon)
            (let request = launcher_request app_id parent name icon options kind in
             case validate_launcher_edit request of
               Inl e \<Rightarrow> Inl (Le_Contract e)
             | Inr _ \<Rightarrow> Inr (request, icon)))))"

record launcher_job =
  lj_path :: string
  lj_app_id :: string
  lj_request :: launcher_edit_request
  lj_icon :: dbus_value

definition run_prepare :: "launcher_job \<Rightarrow> dialog_env \<Rightarrow> reply" where
  "run_prepare j env =
     (if closed_at env 0 (lj_path j) then cancelled_reply
      else (case dg_answer env of
              Inr (Result_Launcher response) \<Rightarrow>
                if closed_at env 1 (lj_path j) then cancelled_reply
                else (case launcher_answer_valid response (lj_request j) of
                        Inl _ \<Rightarrow> failed_reply
                      | Inr _ \<Rightarrow>
                          (case response of
                             Launcher_Saved name \<Rightarrow> (0, [(''name'', DV_Str name), (''icon'', lj_icon j)])
                           | Launcher_Cancelled \<Rightarrow> cancelled_reply))
            | Inl Invoke_Cancelled \<Rightarrow> cancelled_reply
            | Inr _ \<Rightarrow> failed_reply
            | Inl (Invoke_Failed _) \<Rightarrow> failed_reply))"

definition dynamic_launcher_worker :: "(launcher_job, dialog_env) pool_event list \<Rightarrow> (launcher_job, reply) pool" where
  "dynamic_launcher_worker es = pool_after MAX_ACTIVE_PREPARE_REQUESTS refusal run_prepare es"

definition prepare_install ::
  "nat option \<Rightarrow> bool \<Rightarrow> (dbus_value \<Rightarrow> bool) \<Rightarrow> string \<Rightarrow> string \<Rightarrow> string \<Rightarrow> string \<Rightarrow> dbus_value \<Rightarrow> vardict
     \<Rightarrow> (launcher_job \<Rightarrow> reply queue_outcome) \<Rightarrow> req_world \<Rightarrow> (fdo_error + reply) \<times> req_world" where
  "prepare_install fault remove_fails owned path app_id parent name icon options outcome w =
     (case prepare_request owned app_id parent name icon options of
        Inl _ \<Rightarrow> (Inr failed_reply, w)
      | Inr (request, icon1) \<Rightarrow>
          dispatch fault remove_fails ''prepare'' path
            (outcome \<lparr>lj_path = path, lj_app_id = app_id, lj_request = request, lj_icon = icon1\<rparr>) w)"

text \<open>No token is ever issued: every installation passes the dialog.\<close>

definition request_install_token :: "string \<Rightarrow> vardict \<Rightarrow> fdo_error + u32" where
  "request_install_token app_id options = Inr 1"

section \<open>Lemmas\<close>

definition launcher_consent :: "launcher_job \<Rightarrow> dialog_env \<Rightarrow> bool" where
  "launcher_consent j env \<longleftrightarrow>
     \<not> closed_at env 0 (lj_path j) \<and> \<not> closed_at env 1 (lj_path j)
     \<and> (\<exists>name. dg_answer env = Inr (Result_Launcher (Launcher_Saved name))
          \<and> is_ok (launcher_answer_valid (Launcher_Saved name) (lj_request j)))"

lemma run_prepare_granted:
  assumes "granted (run_prepare j env)"
  obtains name where "dg_answer env = Inr (Result_Launcher (Launcher_Saved name))"
    "is_ok (launcher_answer_valid (Launcher_Saved name) (lj_request j))" "launcher_consent j env"
    "run_prepare j env = (0, [(''name'', DV_Str name), (''icon'', lj_icon j)])"
  using assms
  by (auto simp: run_prepare_def launcher_consent_def is_ok_iff simp del: launcher_answer_valid.simps
      split: if_splits sum.splits prompt_result.splits launcher_edit_response.splits invoke_error.splits)

lemma run_prepare_consent: "granted (run_prepare j env) \<Longrightarrow> launcher_consent j env"
  by (erule run_prepare_granted)

interpretation launcher: consent_task run_prepare refusal granted launcher_consent
  by unfold_locales (simp_all add: run_prepare_consent)

text \<open>The installed name is the requested one unless the request lets the user change it.\<close>

lemma installed_name:
  assumes "run_prepare j env = (0, v)"
  shows "\<exists>name. map_of v ''name'' = Some (DV_Str name) \<and> map_of v ''icon'' = Some (lj_icon j)
    \<and> \<not> only_white name \<and> length name \<le> MAX_LAUNCHER_NAME_BYTES
    \<and> (le_editable_name (lj_request j) \<or> name = le_name (lj_request j))"
proof -
  have "granted (run_prepare j env)" by (simp add: assms)
  then obtain name where "is_ok (launcher_answer_valid (Launcher_Saved name) (lj_request j))"
    "run_prepare j env = (0, [(''name'', DV_Str name), (''icon'', lj_icon j)])"
    by (rule run_prepare_granted)
  with assms show ?thesis by (auto simp: is_ok_then_check)
qed

text \<open>Only application and web-app launchers are accepted, and a web app shows its target.\<close>

lemma prepared_target:
  assumes "prepare_request owned app_id parent name icon options = Inr (r, i)"
  shows "i = icon \<and> owned icon
    \<and> (let kind = unwrap_or 1 (opt_get as_u32 options ''launcher_type'') in
        kind \<in> {1, 2} \<and> le_target r = (if kind = 2 then opt_get as_str options ''target'' else None))"
proof -
  let ?kind = "unwrap_or 1 (opt_get as_u32 options ''launcher_type'')"
  from assms have "is_ok (guard (?kind \<notin> {1, 2}) (Le_Type ?kind))" "is_ok (guard (\<not> owned icon) Le_Icon)"
    and r: "r = launcher_request app_id parent name icon options ?kind \<and> i = icon"
    by (auto simp: prepare_request_def guard_def Let_def
        split: if_splits sum.splits option.splits)
  then show ?thesis by (simp add: launcher_request_def Let_def)
qed

end
