(* ===== verification/Print_Portal.thy ===== *)
theory Print_Portal
  imports Portal_Dialog Portal_Files
begin

text \<open>
  \<open>crates/xdg-desktop-portal-atrium/src/print.rs\<close>: the echoed settings of PreparePrint, and the
  spooling of a print job through the system's \<open>lp\<close>. The descriptor is what can be read from it
  before its end or its fault; random tokens, the environment and the exit of \<open>lp\<close> are parameters.
\<close>

definition MAX_MAP_ENTRIES :: nat where "MAX_MAP_ENTRIES = 256"
definition MAX_KEY_BYTES :: nat where "MAX_KEY_BYTES = 255"
definition MAX_STRING_VALUE_BYTES :: nat where "MAX_STRING_VALUE_BYTES = 4 * 1024"
definition MAX_PRINT_BYTES :: nat where "MAX_PRINT_BYTES = 256 * 1024 * 1024"
definition MAX_TITLE_CHARS :: nat where "MAX_TITLE_CHARS = 128"
definition MAX_ACTIVE_PRINT_REQUESTS :: nat where "MAX_ACTIVE_PRINT_REQUESTS = 32"

section \<open>PreparePrint\<close>

text \<open>\<open>rand::random::<u32>().max(1)\<close>.\<close>

definition fresh_token :: "u32 \<Rightarrow> u32" where
  "fresh_token r = (if r = 0 then 1 else r)"

datatype map_error = Map_Entries | Map_Key | Map_Value string

text \<open>A map's entries, in the order of its iteration.\<close>

definition validate_entry :: "string \<times> dbus_value \<Rightarrow> map_error + unit" where
  "validate_entry e =
     (case e of (key, v) \<Rightarrow>
        then_check (guard (key = [] \<or> MAX_KEY_BYTES < length key \<or> has_nul key) Map_Key)
          (case as_str v of
             None \<Rightarrow> Inr ()
           | Some t \<Rightarrow> guard (MAX_STRING_VALUE_BYTES < length t \<or> has_nul t) (Map_Value key)))"

definition validate_map :: "vardict \<Rightarrow> map_error + unit" where
  "validate_map m = then_check (guard (MAX_MAP_ENTRIES < length m) Map_Entries) (check_all validate_entry m)"

text \<open>\<open>owned\<close>: the value can be cloned (a descriptor may fail to).\<close>

definition to_static :: "(dbus_value \<Rightarrow> bool) \<Rightarrow> vardict \<Rightarrow> vardict" where
  "to_static owned m = filter (\<lambda>(_, v). owned v) m"

definition prepare :: "(dbus_value \<Rightarrow> bool) \<Rightarrow> u32 \<Rightarrow> vardict \<Rightarrow> vardict \<Rightarrow> reply" where
  "prepare owned r settings_map page_setup =
     (case check_all validate_map [settings_map, page_setup] of
        Inl _ \<Rightarrow> failed_reply
      | Inr _ \<Rightarrow> (0, [(''settings'', DV_Dict (to_static owned settings_map)),
                     (''page-setup'', DV_Dict (to_static owned page_setup)),
                     (''token'', DV_U32 (fresh_token r))]))"

definition prepare_print ::
  "nat option \<Rightarrow> bool \<Rightarrow> (dbus_value \<Rightarrow> bool) \<Rightarrow> u32 \<Rightarrow> string list \<Rightarrow> string \<Rightarrow> string \<Rightarrow> vardict \<Rightarrow> vardict
     \<Rightarrow> req_world \<Rightarrow> (fdo_error + reply) \<times> req_world" where
  "prepare_print fault remove_fails owned r closes path title settings_map page_setup w =
     (if MAX_TITLE_CHARS * 4 < length title then (Inr failed_reply, w)
      else (case register fault path w of
              (Inl e, w1) \<Rightarrow> (Inl e, w1)
            | (Inr _, w1) \<Rightarrow>
                (Inr (prepare owned r settings_map page_setup), finish remove_fails path (fold request_close closes w1))))"

section \<open>Print\<close>

definition sanitize_title :: "string \<Rightarrow> string" where
  "sanitize_title title =
     (let clean = trim (concat (take MAX_TITLE_CHARS (filter (\<lambda>g. \<not> has_control g) (char_groups title))))
      in if clean = [] then ''Portal print job'' else clean)"

definition lp_argv :: "string \<Rightarrow> string \<Rightarrow> string list" where
  "lp_argv title path = [''-t'', sanitize_title title, path]"

definition lp_command :: "string option \<Rightarrow> string" where
  "lp_command override = unwrap_or ''lp'' override"

definition spool_dir :: "string option \<Rightarrow> string \<Rightarrow> string" where
  "spool_dir runtime temp = unwrap_or temp (filled runtime)"

text \<open>What the calls of one task answer. \<open>pr_status\<close>: \<open>None\<close> when \<open>lp\<close> could not be run.\<close>

record print_env =
  pr_tracker :: tracker
  pr_runtime :: "string option"
  pr_temp :: string
  pr_pid :: string
  pr_random :: u32
  pr_lp :: "string option"
  pr_files :: file_system
  pr_create :: "io_error option"
  pr_source :: string
  pr_read :: "io_error option"
  pr_flush :: "io_error option"
  pr_stat :: "io_error option"
  pr_removable :: bool
  pr_status :: "bool option"

definition dec_u32 :: "u32 \<Rightarrow> string" where
  "dec_u32 n = dec_nat (unat n)"

definition spool_path :: "print_env \<Rightarrow> string" where
  "spool_path env =
     path_join (spool_dir (pr_runtime env) (pr_temp env))
       (''tessera-print-'' @ pr_pid env @ ''-'' @ dec_u32 (fresh_token (pr_random env)) @ ''.ps'')"

definition removed :: "print_env \<Rightarrow> string \<Rightarrow> file_system \<Rightarrow> file_system" where
  "removed env path fs = (if pr_removable env then fs(path := None) else fs)"

definition spool_fd :: "print_env \<Rightarrow> (string + string) \<times> file_system" where
  "spool_fd env =
     (let path = spool_path env; fs = pr_files env in
      if pr_create env \<noteq> None \<or> fs path \<noteq> None then (Inl ''could not create the spool file'', fs)
      else let spooled = take (MAX_PRINT_BYTES + 1) (pr_source env); fs1 = fs(path \<mapsto> spooled) in
        if pr_flush env \<noteq> None \<or> pr_read env \<noteq> None \<and> length (pr_source env) \<le> MAX_PRINT_BYTES
        then (Inl ''could not spool the print data'', removed env path fs1)
        else if pr_stat env \<noteq> None then (Inl ''stat'', fs1)
        else if length spooled = 0 \<or> MAX_PRINT_BYTES < length spooled
        then (Inl ''print data length'', removed env path fs1)
        else (Inr path, fs1))"

definition submit :: "bool option \<Rightarrow> string + unit" where
  "submit status =
     (case status of
        None \<Rightarrow> Inl ''could not run lp''
      | Some ok \<Rightarrow> if ok then Inr () else Inl ''lp exited'')"

record print_job =
  pj_path :: string
  pj_app_id :: string
  pj_title :: string
  pj_token :: u32

text \<open>The outcome: the reply, the command run with the contents of its file, and the file system.\<close>

record print_outcome =
  po_reply :: reply
  po_ran :: "(string \<times> string list \<times> string option) option"
  po_after :: file_system

definition run_print :: "print_job \<Rightarrow> print_env \<Rightarrow> print_outcome" where
  "run_print j env =
     (if was_closed (pr_tracker env) (pj_path j)
      then \<lparr>po_reply = cancelled_reply, po_ran = None, po_after = pr_files env\<rparr>
      else (case spool_fd env of
              (Inl _, fs) \<Rightarrow> \<lparr>po_reply = failed_reply, po_ran = None, po_after = fs\<rparr>
            | (Inr spool, fs) \<Rightarrow>
                \<lparr>po_reply = (case submit (pr_status env) of
                              Inr _ \<Rightarrow> (0, [(''token'', DV_U32 (pj_token j))])
                            | Inl _ \<Rightarrow> failed_reply),
                 po_ran = (if pr_status env = None then None
                           else Some (lp_command (pr_lp env), lp_argv (pj_title j) spool, fs spool)),
                 po_after = removed env spool fs\<rparr>))"

definition print_worker :: "(print_job, print_env) pool_event list \<Rightarrow> (print_job, reply) pool" where
  "print_worker es = pool_after MAX_ACTIVE_PRINT_REQUESTS refusal (\<lambda>j env. po_reply (run_print j env)) es"

text \<open>The caller's nonzero token, or a fresh one.\<close>

definition print_token :: "u32 \<Rightarrow> vardict \<Rightarrow> u32" where
  "print_token r options =
     (case opt_get as_u32 options ''token'' of
        Some t \<Rightarrow> if t \<noteq> 0 then t else fresh_token r
      | None \<Rightarrow> fresh_token r)"

definition print_method ::
  "nat option \<Rightarrow> bool \<Rightarrow> u32 \<Rightarrow> string \<Rightarrow> string \<Rightarrow> string \<Rightarrow> vardict
     \<Rightarrow> (print_job \<Rightarrow> reply queue_outcome) \<Rightarrow> req_world \<Rightarrow> (fdo_error + reply) \<times> req_world" where
  "print_method fault remove_fails r path app_id title options outcome w =
     dispatch fault remove_fails ''print'' path
       (outcome \<lparr>pj_path = path, pj_app_id = app_id, pj_title = title, pj_token = print_token r options\<rparr>) w"

section \<open>Lemmas\<close>

text \<open>A job is printed for a request that was not closed when it ran, with its own data.\<close>

definition print_consent :: "print_job \<Rightarrow> print_env \<Rightarrow> bool" where
  "print_consent j env \<longleftrightarrow>
     \<not> was_closed (pr_tracker env) (pj_path j) \<and> pr_status env = Some True
     \<and> pr_source env \<noteq> [] \<and> length (pr_source env) \<le> MAX_PRINT_BYTES"

lemma spool_fd_Inr:
  "spool_fd env = (Inr p, fs) \<Longrightarrow>
   p = spool_path env \<and> fs = (pr_files env)(p \<mapsto> pr_source env) \<and> pr_files env p = None
   \<and> pr_source env \<noteq> [] \<and> length (pr_source env) \<le> MAX_PRINT_BYTES"
  by (auto simp: spool_fd_def Let_def min_def split: if_splits)

lemma print_grants: "granted (po_reply (run_print j env)) \<Longrightarrow> print_consent j env"
  by (auto simp: run_print_def print_consent_def submit_def dest: spool_fd_Inr
      split: if_splits prod.splits sum.splits option.splits)

interpretation printing: consent_task "\<lambda>j env. po_reply (run_print j env)" refusal granted print_consent
  by unfold_locales (simp_all add: print_grants)

text \<open>What \<open>lp\<close> is given, and what is left when it has run.\<close>

lemma print_hands_over_the_data:
  "po_ran (run_print j env) = Some (command, argv, contents) \<Longrightarrow>
   argv = [''-t'', sanitize_title (pj_title j), spool_path env] \<and> contents = Some (pr_source env)
   \<and> pr_source env \<noteq> [] \<and> length (pr_source env) \<le> MAX_PRINT_BYTES"
  by (auto simp: run_print_def lp_argv_def dest: spool_fd_Inr split: if_splits prod.splits sum.splits)

lemma spool_is_removed:
  assumes "pr_removable env" and "pr_stat env = None"
  shows "po_after (run_print j env) = pr_files env"
  using assms
  by (auto simp: run_print_def spool_fd_def Let_def removed_def fun_upd_idem
      split: prod.splits sum.splits if_splits)

text \<open>A failing \<open>metadata\<close> leaves the spooled document behind.\<close>

lemma failed_stat_leaves_the_spool:
  assumes "pr_stat env = Some e" and "pr_create env = None" and "pr_files env (spool_path env) = None"
    and "pr_flush env = None" and "pr_read env = None" and "\<not> was_closed (pr_tracker env) (pj_path j)"
  shows "po_after (run_print j env) (spool_path env) = Some (take (MAX_PRINT_BYTES + 1) (pr_source env))"
  using assms by (simp add: run_print_def spool_fd_def Let_def)

text \<open>An accepted PreparePrint gives back exactly the maps of the request.\<close>

lemma prepare_echoes:
  assumes "granted (prepare (\<lambda>_. True) r s p)"
  shows "\<exists>t. prepare (\<lambda>_. True) r s p = (0, [(''settings'', DV_Dict s), (''page-setup'', DV_Dict p), (''token'', DV_U32 t)])
    \<and> t \<noteq> 0 \<and> length s \<le> MAX_MAP_ENTRIES \<and> length p \<le> MAX_MAP_ENTRIES"
proof -
  from assms have ok: "is_ok (check_all validate_map [s, p])"
    by (auto simp: prepare_def is_ok_iff simp del: check_all.simps split: sum.splits)
  then have "prepare (\<lambda>_. True) r s p
      = (0, [(''settings'', DV_Dict s), (''page-setup'', DV_Dict p), (''token'', DV_U32 (fresh_token r))])"
    by (auto simp: prepare_def to_static_def is_ok_iff simp del: check_all.simps)
  moreover have "length s \<le> MAX_MAP_ENTRIES" "length p \<le> MAX_MAP_ENTRIES"
    using ok by (simp_all add: is_ok_check_all is_ok_then_check validate_map_def)
  ultimately show ?thesis by (simp add: fresh_token_def)
qed

text \<open>The title is one argument without control characters, never empty.\<close>

lemma sanitize_title_nonempty: "sanitize_title t \<noteq> []"
  by (simp add: sanitize_title_def Let_def)

end
