(* ===== verification/Portal_Replies.thy ===== *)
theory Portal_Replies
  imports Consent_Portals Wallpaper_Portal Screenshot_Portal File_Chooser_Portal App_Chooser
    Background_Portal Dynamic_Launcher Print_Portal
begin

text \<open>
  What the portals that answer through a worker have in common: their replies have the types of the
  portal documentation, and a reply of code 0 has a consent of its own. The locale extends the
  consent contract of \<open>Portal_Dialog\<close> and is interpreted on every worker.
\<close>

section \<open>Types of replies\<close>

datatype dbus_type =
    Ty_Str
  | Ty_Bool
  | Ty_U32
  | Ty_F64
  | Ty_Dict
  | Ty_Any
  | Ty_Array dbus_type
  | Ty_Struct "dbus_type list"

fun has_type :: "dbus_value \<Rightarrow> dbus_type \<Rightarrow> bool"
  and have_types :: "dbus_value list \<Rightarrow> dbus_type list \<Rightarrow> bool" where
  "has_type v Ty_Any = True"
| "has_type (DV_Str _) Ty_Str = True"
| "has_type (DV_Bool _) Ty_Bool = True"
| "has_type (DV_U32 _) Ty_U32 = True"
| "has_type (DV_F64 _ _) Ty_F64 = True"
| "has_type (DV_Dict _) Ty_Dict = True"
| "has_type (DV_Array vs) (Ty_Array t) = (\<forall>v \<in> set vs. has_type v t)"
| "has_type (DV_Struct vs) (Ty_Struct ts) = have_types vs ts"
| "has_type _ _ = False"
| "have_types [] [] = True"
| "have_types (v # vs) (t # ts) = (has_type v t \<and> have_types vs ts)"
| "have_types _ _ = False"

text \<open>A result key with its type and whether it must be there.\<close>

type_synonym reply_signature = "(string \<times> dbus_type \<times> bool) list"

definition results_typed :: "reply_signature \<Rightarrow> vardict \<Rightarrow> bool" where
  "results_typed sg v \<longleftrightarrow>
     distinct (map fst v)
     \<and> (\<forall>(k, x) \<in> set v. \<exists>t m. map_of sg k = Some (t, m) \<and> has_type x t)
     \<and> (\<forall>(k, t, m) \<in> set sg. m \<longrightarrow> list_ex (\<lambda>x. fst x = k) v)"

text \<open>A code of the specification; results only, and then completely, with code 0.\<close>

definition reply_typed :: "reply_signature \<Rightarrow> reply \<Rightarrow> bool" where
  "reply_typed sg r \<longleftrightarrow>
     (if granted r then results_typed sg (snd r) else fst r \<in> {1, 2} \<and> snd r = [])"

lemma reply_typed_code: "n \<le> 2 \<Longrightarrow> n \<noteq> 0 \<Longrightarrow> reply_typed sg (code_reply n)"
proof -
  assume "n \<le> 2" "n \<noteq> 0"
  then consider "n = 1" | "n = 2"
    by linarith
  then show ?thesis
    by cases (simp_all add: reply_typed_def code_reply_def granted_def)
qed

lemma reply_typed_simps [simp]:
  "reply_typed sg cancelled_reply" "reply_typed sg failed_reply" "reply_typed sg refusal"
  "reply_typed sg (0, v) = results_typed sg v"
  by (simp_all add: reply_typed_def refusal_def)

section \<open>The contract of a dialog portal\<close>

text \<open>The contract, written out on a pool's answers.\<close>

definition answers_ok ::
  "('j \<Rightarrow> reply_signature) \<Rightarrow> ('r \<Rightarrow> reply) \<Rightarrow> ('j \<Rightarrow> 'e \<Rightarrow> 'r) \<Rightarrow> ('j \<Rightarrow> 'e \<Rightarrow> bool)
     \<Rightarrow> ('j, 'r) pool \<Rightarrow> bool" where
  "answers_ok sg reply_of run consent s \<longleftrightarrow>
     (\<forall>(j, r) \<in> set (pl_answers s).
        reply_typed (sg j) (reply_of r) \<and> (granted (reply_of r) \<longrightarrow> (\<exists>e. r = run j e \<and> consent j e)))"

locale dialog_portal = consent_task run no "\<lambda>r. granted (reply_of r)" consent
  for run :: "'j \<Rightarrow> 'e \<Rightarrow> 'r" and no :: 'r and reply_of :: "'r \<Rightarrow> reply"
    and consent :: "'j \<Rightarrow> 'e \<Rightarrow> bool" +
  fixes sg :: "'j \<Rightarrow> reply_signature"
  assumes run_typed: "reply_typed (sg j) (reply_of (run j e))"
    and refusal_typed: "reply_typed (sg j) (reply_of no)"
begin

lemma pool_answers: "answers_ok sg reply_of run consent (pool_after bound no run es)"
  using pool_accounts_for_jobs(3) [of _ _ bound no run es] run_typed refusal_typed pool_grants [of _ _ bound es]
  unfolding answers_ok_def by fast

end

section \<open>The portals\<close>

definition account_sig :: reply_signature where
  "account_sig = [(''id'', Ty_Str, True), (''name'', Ty_Str, True), (''image'', Ty_Str, False)]"

definition file_chooser_sig :: reply_signature where
  "file_chooser_sig =
     [(''uris'', Ty_Array Ty_Str, True),
      (''current_filter'', Ty_Struct [Ty_Str, Ty_Array (Ty_Struct [Ty_U32, Ty_Str])], False),
      (''choices'', Ty_Array (Ty_Struct [Ty_Str, Ty_Str]), False)]"

fun capture_sig :: "capture_job \<Rightarrow> reply_signature" where
  "capture_sig (Job_Screenshot _) = [(''uri'', Ty_Str, True)]"
| "capture_sig (Job_Pick_Color _ _) = [(''color'', Ty_Struct [Ty_F64, Ty_F64, Ty_F64], True)]"

definition background_sig :: reply_signature where
  "background_sig = [(''background'', Ty_Bool, True), (''autostart'', Ty_Bool, True)]"

definition launcher_sig :: reply_signature where
  "launcher_sig = [(''name'', Ty_Str, True), (''icon'', Ty_Any, True)]"

definition prepare_sig :: reply_signature where
  "prepare_sig = [(''settings'', Ty_Dict, True), (''page-setup'', Ty_Dict, True), (''token'', Ty_U32, True)]"

lemmas reply_sigs = results_typed_def account_sig_def file_chooser_sig_def background_sig_def
  launcher_sig_def prepare_sig_def

interpretation access_portal: dialog_portal "\<lambda>j. access_run (fst j)" refusal "\<lambda>r. r" access_consent "\<lambda>_. []"
proof unfold_locales
  show "reply_typed [] (access_run (fst j) e)" for j e
    using confirm_code_le [of "dg_answer e"] reply_typed_code [of "confirm_code (dg_answer e)" "[]"]
    by (cases "confirm_code (dg_answer e) = 0") (auto simp: access_run_def code_reply_def results_typed_def)
qed simp

interpretation account_portal: dialog_portal account_run refusal "\<lambda>r. r" account_consent "\<lambda>_. account_sig"
proof unfold_locales
  show "reply_typed account_sig (account_run j e)" for j e
    using confirm_code_le [of "dg_answer e"] reply_typed_code [of "confirm_code (dg_answer e)" account_sig]
    by (auto simp: account_run_def Let_def identity_results_def reply_sigs split: prod.split option.split)
qed simp

interpretation wallpaper_portal: dialog_portal wallpaper_task refusal "\<lambda>r. r" wallpaper_consent "\<lambda>_. []"
proof unfold_locales
  show "reply_typed [] (wallpaper_task j e)" for j e
    using preview_code_le [of e "wj_preview j"] reply_typed_code [of "preview_code e (wj_preview j)" "[]"]
    by (auto simp: wallpaper_task_def run_set_def run_set_staged_def Let_def results_typed_def
        split: option.split sum.split prod.split)
qed simp

interpretation files_portal: dialog_portal run_pick refusal "\<lambda>r. r" files_consent "\<lambda>_. file_chooser_sig"
proof unfold_locales
  show "reply_typed file_chooser_sig (run_pick j e)" for j e
    by (auto simp: run_pick_def build_results_def reply_sigs wire_value_def
        split: prod.split sum.split file_chooser_response.split option.split)
qed simp

interpretation app_chooser_portal: dialog_portal chooser_task refusal "\<lambda>r. r" app_consent "\<lambda>_. [(''choice'', Ty_Str, True)]"
proof unfold_locales
  show "reply_typed [(''choice'', Ty_Str, True)] (chooser_task j e)" for j e
    by (auto simp: chooser_task_def run_dialog_def Let_def results_typed_def
        split: sum.split prompt_result.split choose_app_response.split invoke_error.split)
qed simp

lemma picks_typed:
  "pick_region o1 p = (Inl r, p1) \<Longrightarrow> reply_typed sg r"
  "confirm_capture o1 a p = (Inl r, p1) \<Longrightarrow> reply_typed sg r"
  by (auto simp: pick_region_def confirm_capture_def
      split: if_splits prod.splits sum.splits pick_result.splits confirm_pick_result.splits)

interpretation capture_portal: dialog_portal run_job refusal "\<lambda>r. r" capture_consent capture_sig
proof unfold_locales
  show "reply_typed (capture_sig j) (run_job j e)" for j e
    by (cases j) (auto simp: run_screenshot_def run_pick_color_def results_typed_def color_value_def Let_def
        dest: picks_typed(1) [where sg = "[(''uri'', Ty_Str, True)]"] picks_typed(2) [where sg = "[(''uri'', Ty_Str, True)]"]
        split: prod.split sum.split pick_result.split)
qed (simp_all add: run_job_consent)

interpretation background_portal: dialog_portal background_run "(refusal, [])" fst background_consent
  "\<lambda>_. background_sig"
proof unfold_locales
  show "reply_typed background_sig (fst (background_run j e))" for j e
    using confirm_code_le [of "dg_answer e"] reply_typed_code [of "confirm_code (dg_answer e)" background_sig]
    by (auto simp: background_run_def Let_def background_results_def reply_sigs split: prod.split option.split)
qed (use background.run_grants in \<open>auto simp: background_grants_def\<close>)

interpretation launcher_portal: dialog_portal run_prepare refusal "\<lambda>r. r" launcher_consent "\<lambda>_. launcher_sig"
proof unfold_locales
  show "reply_typed launcher_sig (run_prepare j e)" for j e
    by (auto simp: run_prepare_def reply_sigs
        split: sum.split prompt_result.split launcher_edit_response.split invoke_error.split)
qed simp

interpretation print_portal: dialog_portal "\<lambda>j env. po_reply (run_print j env)" refusal "\<lambda>r. r" print_consent
  "\<lambda>_. [(''token'', Ty_U32, True)]"
proof unfold_locales
  show "reply_typed [(''token'', Ty_U32, True)] (po_reply (run_print j env))" for j env
    by (auto simp: run_print_def results_typed_def split: sum.split prod.split)
qed simp

lemmas dialog_answers = access_portal.pool_answers account_portal.pool_answers wallpaper_portal.pool_answers
  capture_portal.pool_answers files_portal.pool_answers app_chooser_portal.pool_answers
  background_portal.pool_answers launcher_portal.pool_answers print_portal.pool_answers

lemma prepare_typed: "reply_typed prepare_sig (prepare owned r settings_map page_setup)"
  by (auto simp: prepare_def reply_sigs split: sum.split)


end
