(* ===== verification/Service.thy ===== *)
theory Service
  imports Restore_Store Task_Pool
begin

text \<open>
  \<open>crates/xdg-desktop-portal-atrium/src/lib.rs\<close> and \<open>main.rs\<close>: the start-up of the service, the
  watcher that ends mode-2 tokens, and the main loop. Which call of the start-up fails, the messages
  of the bus and the answers to its pings are parameters.
\<close>

section \<open>Start-up\<close>

definition BUS_NAME :: string where "BUS_NAME = ''org.freedesktop.impl.portal.desktop.atrium''"
definition DESKTOP_PATH :: string where "DESKTOP_PATH = ''/org/freedesktop/portal/desktop''"
definition MAX_QUEUED_REQUESTS :: nat where "MAX_QUEUED_REQUESTS = 128"

datatype portal_error = No_Runtime_Dir | Bus_Setup | Secret_Setup | Worker_Setup

datatype portal_iface =
    If_Settings | If_Screenshot | If_Screencast | If_Lockdown | If_File_Chooser | If_Email | If_Account
  | If_Access | If_App_Chooser | If_Open_Uri | If_Background | If_Dynamic_Launcher | If_Inhibit
  | If_Notification | If_Wallpaper | If_Print | If_Secret

datatype portal_thread =
    Th_Capture | Th_Screencast | Th_Restore_Gc | Th_File_Chooser | Th_Account | Th_Access | Th_App_Chooser
  | Th_Open_Uri | Th_Background | Th_Dynamic_Launcher | Th_Wallpaper | Th_Print | Th_Settings_Watcher

datatype startup_step =
    Locate_Socket
  | Pipewire_Init
  | Connect_Bus
  | Load_Tokens
  | Prime_Settings
  | Serve portal_iface
  | Match_Owners
  | Spawn_Thread portal_thread
  | Clean_Staging
  | Request_Name

text \<open>The error of a step that fails; the others log or cannot fail.\<close>

fun step_error :: "startup_step \<Rightarrow> portal_error option" where
  "step_error Locate_Socket = Some No_Runtime_Dir"
| "step_error Pipewire_Init = None"
| "step_error Connect_Bus = Some Bus_Setup"
| "step_error Load_Tokens = None"
| "step_error Prime_Settings = None"
| "step_error (Serve i) = Some (if i = If_Secret then Secret_Setup else Bus_Setup)"
| "step_error Match_Owners = Some Bus_Setup"
| "step_error (Spawn_Thread _) = Some Worker_Setup"
| "step_error Clean_Staging = None"
| "step_error Request_Name = Some Bus_Setup"

text \<open>The steps of \<open>run\<close>, in the order of the code.\<close>

definition startup :: "startup_step list" where
  "startup =
     [Locate_Socket, Pipewire_Init, Connect_Bus, Load_Tokens, Prime_Settings,
      Serve If_Settings, Serve If_Screenshot, Serve If_Screencast, Serve If_Lockdown, Serve If_File_Chooser,
      Serve If_Email, Serve If_Account, Serve If_Access, Serve If_App_Chooser, Serve If_Open_Uri,
      Serve If_Background, Serve If_Dynamic_Launcher, Serve If_Inhibit, Serve If_Notification,
      Serve If_Wallpaper, Serve If_Print, Serve If_Secret,
      Spawn_Thread Th_Capture, Spawn_Thread Th_Screencast, Match_Owners, Spawn_Thread Th_Restore_Gc,
      Spawn_Thread Th_File_Chooser, Spawn_Thread Th_Account, Spawn_Thread Th_Access,
      Spawn_Thread Th_App_Chooser, Spawn_Thread Th_Open_Uri, Spawn_Thread Th_Background,
      Spawn_Thread Th_Dynamic_Launcher, Clean_Staging, Spawn_Thread Th_Wallpaper, Spawn_Thread Th_Print,
      Spawn_Thread Th_Settings_Watcher, Request_Name]"

text \<open>The first failing step ends the start-up; the steps done before it are returned.\<close>

fun run_steps :: "(startup_step \<Rightarrow> bool) \<Rightarrow> startup_step list \<Rightarrow> portal_error option \<times> startup_step list" where
  "run_steps fails [] = (None, [])"
| "run_steps fails (s # ss) =
     (case if fails s then step_error s else None of
        Some e \<Rightarrow> (Some e, [])
      | None \<Rightarrow> (case run_steps fails ss of (r, done_steps) \<Rightarrow> (r, s # done_steps)))"

text \<open>The thread that answers the requests an interface enqueues.\<close>

fun worker_of :: "portal_iface \<Rightarrow> portal_thread option" where
  "worker_of If_Screenshot = Some Th_Capture"
| "worker_of If_Screencast = Some Th_Screencast"
| "worker_of If_File_Chooser = Some Th_File_Chooser"
| "worker_of If_Account = Some Th_Account"
| "worker_of If_Access = Some Th_Access"
| "worker_of If_App_Chooser = Some Th_App_Chooser"
| "worker_of If_Open_Uri = Some Th_Open_Uri"
| "worker_of If_Background = Some Th_Background"
| "worker_of If_Dynamic_Launcher = Some Th_Dynamic_Launcher"
| "worker_of If_Wallpaper = Some Th_Wallpaper"
| "worker_of If_Print = Some Th_Print"
| "worker_of _ = None"

text \<open>The main loop: \<open>pings n\<close> is whether the \<open>n\<close>-th ping is answered. It ends only with an error.\<close>

partial_function (option) ping_loop :: "(nat \<Rightarrow> bool) \<Rightarrow> nat \<Rightarrow> portal_error option" where
  "ping_loop pings n = (if pings n then ping_loop pings (Suc n) else Some Bus_Setup)"

text \<open>\<open>None\<close>: the service runs forever.\<close>

definition service_run :: "(startup_step \<Rightarrow> bool) \<Rightarrow> (nat \<Rightarrow> bool) \<Rightarrow> portal_error option" where
  "service_run fails pings =
     (case fst (run_steps fails startup) of Some e \<Rightarrow> Some e | None \<Rightarrow> ping_loop pings 0)"

text \<open>Disabling core dumps may fail, with a warning only; \<open>main\<close> returns the exit code.\<close>

definition service_main :: "bool \<Rightarrow> (startup_step \<Rightarrow> bool) \<Rightarrow> (nat \<Rightarrow> bool) \<Rightarrow> nat option" where
  "service_main rlimit_fails fails pings = map_option (\<lambda>_. 1) (service_run fails pings)"

section \<open>The restore watcher\<close>

datatype bus_message =
    Msg_Error
  | Msg_Other
  | Msg_Bad_Args
  | Name_Owner_Changed string "string option" "string option"

text \<open>A unique name that lost its owner; the watch ends with the first error of the iterator.\<close>

fun restore_watch :: "bus_message list \<Rightarrow> restore_store \<Rightarrow> restore_store" where
  "restore_watch [] st = st"
| "restore_watch (m # ms) st =
     (case m of
        Msg_Error \<Rightarrow> st
      | Msg_Other \<Rightarrow> restore_watch ms st
      | Msg_Bad_Args \<Rightarrow> restore_watch ms st
      | Name_Owner_Changed name old new \<Rightarrow>
          restore_watch ms (if new = None \<and> take 1 name = '':'' then drop_owner name st else st))"

section \<open>Lemmas\<close>

lemma run_steps_prefix: "\<exists>rest. ss = snd (run_steps fails ss) @ rest \<and> (fst (run_steps fails ss) = None \<longrightarrow> rest = [])"
  by (induction ss) (auto split: option.split prod.split)

lemma ping_loop_some: "\<not> pings (n + k) \<Longrightarrow> \<exists>e. ping_loop pings n = Some e"
proof (induction k arbitrary: n)
  case 0
  then show ?case by (subst ping_loop.simps) simp
next
  case (Suc k)
  then have "\<exists>e. ping_loop pings (Suc n) = Some e" by simp
  then show ?case by (subst ping_loop.simps) simp
qed

lemma ping_loop_fails: "ping_loop pings n = Some e \<Longrightarrow> \<exists>m \<ge> n. \<not> pings m"
  by (rule ping_loop.raw_induct [of "\<lambda>p n e. \<exists>m \<ge> n. \<not> p m"]) (auto split: if_splits, meson Suc_leD)

lemma ping_loop_None: "ping_loop pings n = None \<longleftrightarrow> (\<forall>m \<ge> n. pings m)"
  using ping_loop_fails [of pings n] ping_loop_some [of pings n] by (metis le_iff_add not_None_eq)

lemma startup_facts:
  "last startup = Request_Name" "Request_Name \<notin> set (butlast startup)"
  "\<And>i. Serve i \<in> set (butlast startup)" "\<And>t. Spawn_Thread t \<in> set (butlast startup)"
proof -
  show "last startup = Request_Name" "Request_Name \<notin> set (butlast startup)" by (simp_all add: startup_def)
  show "Serve i \<in> set (butlast startup)" for i by (cases i) (simp_all add: startup_def)
  show "Spawn_Thread t \<in> set (butlast startup)" for t by (cases t) (simp_all add: startup_def)
qed

lemma prefix_of_butlast: "ss = ps @ rest \<Longrightarrow> rest \<noteq> [] \<Longrightarrow> set ps \<subseteq> set (butlast ss)"
  by (simp add: butlast_append)

lemma run_steps_end: "fst (run_steps fails ss) \<noteq> None \<Longrightarrow> \<exists>rest. ss = snd (run_steps fails ss) @ rest \<and> rest \<noteq> []"
  by (induction ss) (auto split: option.splits prod.splits if_splits)



text \<open>Every interface that enqueues requests has its worker, and no two share one.\<close>

lemma workers_are_private:
  "worker_of i = Some t \<Longrightarrow> worker_of j = Some t \<Longrightarrow> i = j \<and> Spawn_Thread t \<in> set startup"
  by (cases i; cases j; simp add: startup_def) 

text \<open>
  After the watcher has read the messages before its first error, the owners that departed hold no
  token, and the tokens of all others and of the disk are untouched.
\<close>

definition departed :: "string \<Rightarrow> bus_message \<Rightarrow> bool" where
  "departed owner m \<longleftrightarrow> take 1 owner = '':'' \<and> (\<exists>old. m = Name_Owner_Changed owner old None)"

lemma restore_watch_drops_departed:
  "map_of (rs_memory (restore_watch ms st)) owner
     = (if \<exists>m \<in> set (takeWhile (\<lambda>m. m \<noteq> Msg_Error) ms). departed owner m then None else map_of (rs_memory st) owner)
   \<and> rs_disk (restore_watch ms st) = rs_disk st"
proof (induction ms arbitrary: st)
  case (Cons m ms)
  show ?case
  proof (cases m)
    case (Name_Owner_Changed name old new)
    with Cons.IH show ?thesis
      by (auto simp: departed_def drop_owner_def delete_conv')
  qed (use Cons.IH in \<open>auto simp: departed_def\<close>)
qed simp

end
