(* ===== verification/Portal_Calls.thy ===== *)
theory Portal_Calls
  imports Portal_Replies Service
begin

text \<open>
  The nine portals whose tasks ask for consent, put together: a call of any of them, the worker that
  serves it, and what its task computes. Their contracts (\<open>dialog_portal\<close>) add up to the contract of
  the whole, on which \<open>Request_Flow\<close> rests.
\<close>

section \<open>Calls\<close>

datatype portal_call =
    Call_Access access_job
  | Call_Account account_job
  | Call_Wallpaper wallpaper_job
  | Call_Capture capture_job
  | Call_Files File_Chooser_Portal.chooser_job
  | Call_App App_Chooser.chooser_job
  | Call_Background background_job
  | Call_Launcher launcher_job
  | Call_Print print_job

text \<open>What a task meets while it runs, one field per portal.\<close>

record portal_env =
  en_access :: dialog_env
  en_account :: account_env
  en_wallpaper :: wallpaper_env
  en_capture :: capture_env
  en_files :: dialog_env
  en_app :: chooser_env
  en_background :: autostart_env
  en_launcher :: dialog_env
  en_print :: print_env

fun capture_path :: "capture_job \<Rightarrow> string" where
  "capture_path (Job_Screenshot j) = sj_path j"
| "capture_path (Job_Pick_Color path _) = path"

text \<open>The handle of the call's Request object.\<close>

fun call_path :: "portal_call \<Rightarrow> string" where
  "call_path (Call_Access j) = fst j"
| "call_path (Call_Account j) = aj_path j"
| "call_path (Call_Wallpaper j) = wj_path j"
| "call_path (Call_Capture j) = capture_path j"
| "call_path (Call_Files j) = fst j"
| "call_path (Call_App j) = fst j"
| "call_path (Call_Background j) = bj_path j"
| "call_path (Call_Launcher j) = lj_path j"
| "call_path (Call_Print j) = pj_path j"

fun call_iface :: "portal_call \<Rightarrow> portal_iface" where
  "call_iface (Call_Access _) = If_Access"
| "call_iface (Call_Account _) = If_Account"
| "call_iface (Call_Wallpaper _) = If_Wallpaper"
| "call_iface (Call_Capture _) = If_Screenshot"
| "call_iface (Call_Files _) = If_File_Chooser"
| "call_iface (Call_App _) = If_App_Chooser"
| "call_iface (Call_Background _) = If_Background"
| "call_iface (Call_Launcher _) = If_Dynamic_Launcher"
| "call_iface (Call_Print _) = If_Print"

definition call_worker :: "portal_call \<Rightarrow> portal_thread" where
  "call_worker j = the (worker_of (call_iface j))"

text \<open>The name \<open>dispatch\<close> is given for its errors.\<close>

fun call_name :: "portal_call \<Rightarrow> string" where
  "call_name (Call_Access _) = ''access''"
| "call_name (Call_Account _) = ''get_user_information''"
| "call_name (Call_Wallpaper _) = ''set_wallpaper_uri''"
| "call_name (Call_Capture (Job_Screenshot _)) = ''screenshot''"
| "call_name (Call_Capture (Job_Pick_Color _ _)) = ''pick color''"
| "call_name (Call_Files _) = ''file chooser''"
| "call_name (Call_App _) = ''choose''"
| "call_name (Call_Background _) = ''request''"
| "call_name (Call_Launcher _) = ''prepare''"
| "call_name (Call_Print _) = ''print''"

text \<open>How many tasks a worker runs at a time.\<close>

fun worker_bound :: "portal_thread \<Rightarrow> nat" where
  "worker_bound Th_Access = MAX_ACTIVE_ACCESS_REQUESTS"
| "worker_bound Th_Account = MAX_ACTIVE_ACCOUNT_REQUESTS"
| "worker_bound Th_Wallpaper = MAX_ACTIVE_WALLPAPER_REQUESTS"
| "worker_bound Th_Capture = MAX_ACTIVE_CAPTURES"
| "worker_bound Th_File_Chooser = MAX_ACTIVE_FILE_CHOOSERS"
| "worker_bound Th_App_Chooser = MAX_ACTIVE_APP_CHOOSERS"
| "worker_bound Th_Background = MAX_ACTIVE_BACKGROUND_REQUESTS"
| "worker_bound Th_Dynamic_Launcher = MAX_ACTIVE_PREPARE_REQUESTS"
| "worker_bound Th_Print = MAX_ACTIVE_PRINT_REQUESTS"
| "worker_bound _ = 0"

section \<open>Tasks\<close>

text \<open>The answer of a call's task.\<close>

fun call_run :: "portal_call \<Rightarrow> portal_env \<Rightarrow> reply" where
  "call_run (Call_Access j) e = access_run (fst j) (en_access e)"
| "call_run (Call_Account j) e = account_run j (en_account e)"
| "call_run (Call_Wallpaper j) e = wallpaper_task j (en_wallpaper e)"
| "call_run (Call_Capture j) e = run_job j (en_capture e)"
| "call_run (Call_Files j) e = run_pick j (en_files e)"
| "call_run (Call_App j) e = chooser_task j (en_app e)"
| "call_run (Call_Background j) e = fst (background_run j (en_background e))"
| "call_run (Call_Launcher j) e = run_prepare j (en_launcher e)"
| "call_run (Call_Print j) e = po_reply (run_print j (en_print e))"

text \<open>The tracker as the task's \<open>k\<close>-th test reads it.\<close>

fun call_test :: "portal_call \<Rightarrow> portal_env \<Rightarrow> nat \<Rightarrow> tracker" where
  "call_test (Call_Access _) e k = dg_tracker (en_access e) k"
| "call_test (Call_Account _) e k = dg_tracker (en_account e) k"
| "call_test (Call_Wallpaper _) e k = dg_tracker (en_wallpaper e) k"
| "call_test (Call_Capture _) e k = dg_tracker (en_capture e) k"
| "call_test (Call_Files _) e k = dg_tracker (en_files e) k"
| "call_test (Call_App _) e k = dg_tracker (en_app e) k"
| "call_test (Call_Background _) e k = dg_tracker (en_background e) k"
| "call_test (Call_Launcher _) e k = dg_tracker (en_launcher e) k"
| "call_test (Call_Print _) e k = pr_tracker (en_print e)"

fun call_consent :: "portal_call \<Rightarrow> portal_env \<Rightarrow> bool" where
  "call_consent (Call_Access j) e = access_consent j (en_access e)"
| "call_consent (Call_Account j) e = account_consent j (en_account e)"
| "call_consent (Call_Wallpaper j) e = wallpaper_consent j (en_wallpaper e)"
| "call_consent (Call_Capture j) e = capture_consent j (en_capture e)"
| "call_consent (Call_Files j) e = files_consent j (en_files e)"
| "call_consent (Call_App j) e = app_consent j (en_app e)"
| "call_consent (Call_Background j) e = background_consent j (en_background e)"
| "call_consent (Call_Launcher j) e = launcher_consent j (en_launcher e)"
| "call_consent (Call_Print j) e = print_consent j (en_print e)"

fun call_sig :: "portal_call \<Rightarrow> reply_signature" where
  "call_sig (Call_Access _) = []"
| "call_sig (Call_Account _) = account_sig"
| "call_sig (Call_Wallpaper _) = []"
| "call_sig (Call_Capture j) = capture_sig j"
| "call_sig (Call_Files _) = file_chooser_sig"
| "call_sig (Call_App _) = [(''choice'', Ty_Str, True)]"
| "call_sig (Call_Background _) = background_sig"
| "call_sig (Call_Launcher _) = launcher_sig"
| "call_sig (Call_Print _) = [(''token'', Ty_U32, True)]"

lemmas portal_run_grants = access.run_grants account.run_grants wallpaper.run_grants capture.run_grants
  file_chooser.run_grants app_chooser.run_grants background_portal.run_grants launcher.run_grants
  printing.run_grants

lemmas portal_run_typed = access_portal.run_typed account_portal.run_typed wallpaper_portal.run_typed
  capture_portal.run_typed files_portal.run_typed app_chooser_portal.run_typed
  background_portal.run_typed launcher_portal.run_typed print_portal.run_typed

text \<open>A consenting task has tested the tracker, and its first test found the call open.\<close>

lemmas portal_consents = access_consent_def account_consent_def wallpaper_consent_def files_consent_def
  app_consent_def background_consent_def launcher_consent_def print_consent_def screenshot_consent_def
  pick_color_consent_def

locale tested_portal = dialog_portal run no reply_of consent sg
  for run :: "'j \<Rightarrow> 'e \<Rightarrow> 'r" and no :: 'r and reply_of :: "'r \<Rightarrow> reply"
    and consent :: "'j \<Rightarrow> 'e \<Rightarrow> bool" and sg :: "'j \<Rightarrow> reply_signature" +
  fixes path_of :: "'j \<Rightarrow> string" and test :: "'j \<Rightarrow> 'e \<Rightarrow> nat \<Rightarrow> tracker"
  assumes consent_tested: "consent j e \<Longrightarrow> \<not> was_closed (test j e 0) (path_of j)"
begin

lemma closed_first_test: "was_closed (test j e 0) (path_of j) \<Longrightarrow> \<not> granted (reply_of (run j e))"
  using run_grants consent_tested by blast

end

interpretation portals: tested_portal call_run refusal "\<lambda>r. r" call_consent call_sig call_path call_test
proof unfold_locales
  show "granted (call_run j e) \<Longrightarrow> call_consent j e" for j e
    by (cases j) (simp_all add: portal_run_grants)
  show "\<not> granted refusal" by simp
  show "reply_typed (call_sig j) (call_run j e)" for j e
    by (cases j) (simp_all add: portal_run_typed)
  show "reply_typed (call_sig j) refusal" for j by simp
  show "call_consent j e \<Longrightarrow> \<not> was_closed (call_test j e 0) (call_path j)" for j e
    by (cases j) (auto simp: portal_consents closed_at_def elim!: capture_consent.elims)
qed

text \<open>Any sequence of test results can be met by an environment.\<close>

definition with_tests :: "(nat \<Rightarrow> tracker) \<Rightarrow> portal_env \<Rightarrow> portal_env" where
  "with_tests f e =
     \<lparr>en_access = (en_access e)\<lparr>dg_tracker := f\<rparr>, en_account = (en_account e)\<lparr>dg_tracker := f\<rparr>,
      en_wallpaper = (en_wallpaper e)\<lparr>dg_tracker := f\<rparr>, en_capture = (en_capture e)\<lparr>dg_tracker := f\<rparr>,
      en_files = (en_files e)\<lparr>dg_tracker := f\<rparr>, en_app = (en_app e)\<lparr>dg_tracker := f\<rparr>,
      en_background = (en_background e)\<lparr>dg_tracker := f\<rparr>, en_launcher = (en_launcher e)\<lparr>dg_tracker := f\<rparr>,
      en_print = (en_print e)\<lparr>pr_tracker := f 0\<rparr>\<rparr>"

text \<open>
  What a task's tests read when the tracker was \<open>ts\<close> at its tests so far and is \<open>t\<close> when it answers.
  A print job tests once.
\<close>

definition seen :: "tracker list \<Rightarrow> tracker \<Rightarrow> nat \<Rightarrow> tracker" where
  "seen ts t k = (if k < length ts then ts ! k else t)"

definition tests_agree :: "portal_call \<Rightarrow> portal_env \<Rightarrow> tracker list \<Rightarrow> tracker \<Rightarrow> bool" where
  "tests_agree j e ts t \<longleftrightarrow>
     (case j of
        Call_Print _ \<Rightarrow> call_test j e 0 = seen ts t 0
      | _ \<Rightarrow> \<forall>k. call_test j e k = seen ts t k)"

lemma tests_agree_first: "tests_agree j e ts t \<Longrightarrow> call_test j e 0 = seen ts t 0"
  by (cases j) (auto simp: tests_agree_def)

lemma tests_agree_exists: "tests_agree j (with_tests (seen ts t) e) ts t"
  by (cases j) (simp_all add: tests_agree_def with_tests_def)

text \<open>A task whose tests all find the call closed, and that answers while it is, does not grant.\<close>

lemma closed_call_not_granted:
  assumes "tests_agree j e ts t" and "\<forall>u \<in> set ts. was_closed u (call_path j)" and "was_closed t (call_path j)"
  shows "\<not> granted (call_run j e)"
proof (rule portals.closed_first_test)
  show "was_closed (call_test j e 0) (call_path j)"
    using assms by (simp add: tests_agree_first seen_def)
qed

end
