(* ===== verification/Request_Flow.thy ===== *)
theory Request_Flow
  imports Portal_Calls
begin

text \<open>
  The life of the portal requests, step by step and interleaved: \<open>register\<close>, \<open>dispatch\<close> and
  \<open>finish\<close> of \<open>crates/atrium-portal-runtime/src/lib.rs\<close> with an await point wherever the code has one,
  the bounded queues of the workers, their tasks with each test of the tracker, and \<open>Close\<close> at any
  time. \<open>Request_Tracker\<close> has the same functions as single steps; here the windows between their
  parts are visible. Each call has a number; \<open>calls\<close> says what it asks for.
\<close>

section \<open>States and steps\<close>

text \<open>Where the method call of a request is, with the result it is going to return.\<close>

datatype stage =
    Idle
  | Exported
  | Activated
  | Waiting
  | Received "fdo_error + reply"
  | Removed "fdo_error + reply"
  | Replied "fdo_error + reply"

record flow =
  fl_world :: req_world
  fl_stage :: "nat \<Rightarrow> stage"
  fl_queue :: "portal_thread \<Rightarrow> nat list"
  fl_pool :: "portal_thread \<Rightarrow> (nat, reply) pool"
  fl_tests :: "nat \<Rightarrow> tracker list"

definition flow_init :: flow where
  "flow_init = \<lparr>fl_world = req_init, fl_stage = (\<lambda>_. Idle), fl_queue = (\<lambda>_. []), fl_pool = (\<lambda>_. pool_init),
     fl_tests = (\<lambda>_. [])\<rparr>"

text \<open>
  The steps: the export of the Request object (which the object server may refuse), its activation,
  the handoff to the worker (which may be gone), a worker taking the next job (whose thread may not
  start), a task testing the tracker, answering or panicking, the method receiving the answer,
  removing the object (which may fail), forgetting the request and returning, and \<open>Close\<close>.
\<close>

datatype flow_label =
    Export nat "nat option"
  | Activate nat
  | Handoff nat bool
  | Take_Job portal_thread bool
  | Test_Tracker nat
  | Answer nat portal_env
  | Panic nat
  | Receive nat
  | Remove nat bool
  | Forget nat
  | Close string

definition set_stage :: "nat \<Rightarrow> stage \<Rightarrow> flow \<Rightarrow> flow" where
  "set_stage c g s = s\<lparr>fl_stage := (fl_stage s)(c := g)\<rparr>"

definition on_tracker :: "(tracker \<Rightarrow> tracker) \<Rightarrow> flow \<Rightarrow> flow" where
  "on_tracker f s = s\<lparr>fl_world := (fl_world s)\<lparr>rw_tracker := f (rw_tracker (fl_world s))\<rparr>\<rparr>"

definition on_objects :: "(string set \<Rightarrow> string set) \<Rightarrow> flow \<Rightarrow> flow" where
  "on_objects f s = s\<lparr>fl_world := (fl_world s)\<lparr>rw_objects := f (rw_objects (fl_world s))\<rparr>\<rparr>"

definition on_pool :: "portal_thread \<Rightarrow> ((nat, reply) pool \<Rightarrow> (nat, reply) pool) \<Rightarrow> flow \<Rightarrow> flow" where
  "on_pool w f s = s\<lparr>fl_pool := (fl_pool s)(w := f (fl_pool s w))\<rparr>"

definition set_queue :: "portal_thread \<Rightarrow> nat list \<Rightarrow> flow \<Rightarrow> flow" where
  "set_queue w q s = s\<lparr>fl_queue := (fl_queue s)(w := q)\<rparr>"

definition add_test :: "nat \<Rightarrow> flow \<Rightarrow> flow" where
  "add_test c s = s\<lparr>fl_tests := (fl_tests s)(c := fl_tests s c @ [rw_tracker (fl_world s)])\<rparr>"

text \<open>The export: \<open>at\<close> of the object server answers false for a path that is taken.\<close>

definition export_result :: "nat option \<Rightarrow> string \<Rightarrow> flow \<Rightarrow> fdo_error option" where
  "export_result fault path s =
     (case fault of
        Some e \<Rightarrow> Some (Fdo_Zbus e)
      | None \<Rightarrow> if path \<in> rw_objects (fl_world s) then Some (Fdo_Failed ''already active'') else None)"

text \<open>The handoff: a gone worker, a full queue, or the job enqueued.\<close>

definition handoff :: "(nat \<Rightarrow> portal_call) \<Rightarrow> nat \<Rightarrow> bool \<Rightarrow> flow \<Rightarrow> flow" where
  "handoff calls c gone s =
     (let w = call_worker (calls c) in
      if gone then set_stage c (Received (Inl (Fdo_Failed (call_name (calls c) @ '' worker is gone'')))) s
      else if MAX_QUEUED_REQUESTS \<le> length (fl_queue s w) then set_stage c (Received (Inr refusal)) s
      else set_stage c Waiting (set_queue w (fl_queue s w @ [c]) s))"

definition worker_step ::
  "(nat \<Rightarrow> portal_call) \<Rightarrow> portal_thread \<Rightarrow> (nat, portal_env) pool_event \<Rightarrow> flow \<Rightarrow> flow" where
  "worker_step calls w ev = on_pool w (pool_step (worker_bound w) refusal (\<lambda>c. call_run (calls c)) ev)"

text \<open>A task that panics gives its slot back and drops its reply.\<close>

definition drop_task :: "nat \<Rightarrow> (nat, reply) pool \<Rightarrow> (nat, reply) pool" where
  "drop_task c p = p\<lparr>pl_active := pl_active p - 1, pl_tasks := remove1 c (pl_tasks p)\<rparr>"

inductive flow_step :: "(nat \<Rightarrow> portal_call) \<Rightarrow> flow \<Rightarrow> flow_label \<Rightarrow> flow \<Rightarrow> bool" for calls where
  export_fails: "fl_stage s c = Idle \<Longrightarrow> export_result fault (call_path (calls c)) s = Some e
    \<Longrightarrow> flow_step calls s (Export c fault) (set_stage c (Replied (Inl e)) s)"
| export: "fl_stage s c = Idle \<Longrightarrow> export_result fault (call_path (calls c)) s = None
    \<Longrightarrow> flow_step calls s (Export c fault) (set_stage c Exported (on_objects (insert (call_path (calls c))) s))"
| activation: "fl_stage s c = Exported
    \<Longrightarrow> flow_step calls s (Activate c) (set_stage c Activated (on_tracker (activate (call_path (calls c))) s))"
| handing: "fl_stage s c = Activated
    \<Longrightarrow> flow_step calls s (Handoff c gone) (handoff calls c gone s)"
| taking: "fl_queue s w = c # q
    \<Longrightarrow> flow_step calls s (Take_Job w spawned) (worker_step calls w (Pool_Job c spawned) (set_queue w q s))"
| testing: "c \<in> set (pl_tasks (fl_pool s (call_worker (calls c))))
    \<Longrightarrow> flow_step calls s (Test_Tracker c) (add_test c s)"
| answering: "c \<in> set (pl_tasks (fl_pool s (call_worker (calls c))))
    \<Longrightarrow> tests_agree (calls c) e (fl_tests s c) (rw_tracker (fl_world s))
    \<Longrightarrow> flow_step calls s (Answer c e) (worker_step calls (call_worker (calls c)) (Pool_Done c e) s)"
| panicking: "c \<in> set (pl_tasks (fl_pool s (call_worker (calls c))))
    \<Longrightarrow> flow_step calls s (Panic c)
          (set_stage c (Received (Inl (Fdo_Failed (call_name (calls c) @ '' worker dropped its response''))))
            (on_pool (call_worker (calls c)) (drop_task c) s))"
| receiving: "fl_stage s c = Waiting \<Longrightarrow> (c, r) \<in> set (pl_answers (fl_pool s (call_worker (calls c))))
    \<Longrightarrow> flow_step calls s (Receive c) (set_stage c (Received (Inr r)) s)"
| removing: "fl_stage s c = Received r
    \<Longrightarrow> flow_step calls s (Remove c fails)
          (set_stage c (Removed r) (on_objects (\<lambda>ps. if fails then ps else ps - {call_path (calls c)}) s))"
| forgetting: "fl_stage s c = Removed r
    \<Longrightarrow> flow_step calls s (Forget c)
          (set_stage c (Replied r) (on_tracker (forget (call_path (calls c))) s))"
| closing: "flow_step calls s (Close path) (on_tracker (mark_closed path) s)"

inductive_cases closeE: "flow_step calls s (Close path) t"
inductive_cases exportE: "flow_step calls s (Export c fault) t"

text \<open>
  A label is tidy if it does not export a handle while another call with the same handle is between
  removing its object and forgetting itself (\<open>reused_handle_loses_its_close\<close> shows what happens then).
\<close>

fun tidy :: "(nat \<Rightarrow> portal_call) \<Rightarrow> flow \<Rightarrow> flow_label \<Rightarrow> bool" where
  "tidy calls s (Export c _) \<longleftrightarrow>
     (\<forall>d r. fl_stage s d = Removed r \<longrightarrow> call_path (calls d) \<noteq> call_path (calls c))"
| "tidy calls s _ \<longleftrightarrow> True"

inductive flow_run :: "(nat \<Rightarrow> portal_call) \<Rightarrow> flow \<Rightarrow> flow_label list \<Rightarrow> flow \<Rightarrow> bool" for calls where
  stop: "flow_run calls s [] s"
| go: "flow_step calls s l t \<Longrightarrow> tidy calls s l \<Longrightarrow> flow_run calls t ls u \<Longrightarrow> flow_run calls s (l # ls) u"

lemmas flow_defs = set_stage_def on_tracker_def on_objects_def on_pool_def set_queue_def add_test_def handoff_def
  worker_step_def drop_task_def

section \<open>Jobs\<close>

text \<open>How often a worker has a call's job queued or running, and how often answered.\<close>

definition pending :: "flow \<Rightarrow> portal_thread \<Rightarrow> nat \<Rightarrow> nat" where
  "pending s w c = count_list (fl_queue s w) c + count_list (pl_tasks (fl_pool s w)) c"

definition answered :: "flow \<Rightarrow> portal_thread \<Rightarrow> nat \<Rightarrow> nat" where
  "answered s w c = count_list (map fst (pl_answers (fl_pool s w))) c"

text \<open>A call that waits has one job or one answer; before, it has none; afterwards, no job.\<close>

fun job_ok :: "stage \<Rightarrow> nat \<Rightarrow> nat \<Rightarrow> bool" where
  "job_ok Idle p a = (p = 0 \<and> a = 0)"
| "job_ok Exported p a = (p = 0 \<and> a = 0)"
| "job_ok Activated p a = (p = 0 \<and> a = 0)"
| "job_ok Waiting p a = (p + a = 1)"
| "job_ok _ p a = (p = 0 \<and> a \<le> 1)"

definition job_at :: "(nat \<Rightarrow> portal_call) \<Rightarrow> flow \<Rightarrow> portal_thread \<Rightarrow> nat \<Rightarrow> bool" where
  "job_at calls s w c \<longleftrightarrow>
     (if w = call_worker (calls c) then job_ok (fl_stage s c) (pending s w c) (answered s w c)
      else pending s w c = 0 \<and> answered s w c = 0)"

definition job_inv :: "(nat \<Rightarrow> portal_call) \<Rightarrow> flow \<Rightarrow> bool" where
  "job_inv calls s \<longleftrightarrow> (\<forall>w c. job_at calls s w c)"

lemma pending_pos: "pending s w c \<noteq> 0 \<longleftrightarrow> c \<in> set (fl_queue s w) \<or> c \<in> set (pl_tasks (fl_pool s w))"
  by (auto simp: pending_def count_list_0_iff)

lemma job_ok_pending: "job_ok g p a \<Longrightarrow> p \<noteq> 0 \<Longrightarrow> g = Waiting"
  by (cases g) simp_all

lemma pending_waits:
  assumes "job_inv calls s" and "pending s w c \<noteq> 0"
  shows "w = call_worker (calls c)" and "fl_stage s c = Waiting"
proof -
  have "job_at calls s w c"
    using assms(1) by (simp add: job_inv_def)
  then show "w = call_worker (calls c)" and "fl_stage s c = Waiting"
    using assms(2) job_ok_pending [of "fl_stage s c" "pending s w c" "answered s w c"]
    by (auto simp: job_at_def split: if_splits)
qed

lemma running_waits:
  "job_inv calls s \<Longrightarrow> c \<in> set (pl_tasks (fl_pool s w)) \<Longrightarrow> fl_stage s c = Waiting"
  and queued_waits: "job_inv calls s \<Longrightarrow> c \<in> set (fl_queue s w) \<Longrightarrow> fl_stage s c = Waiting"
  using pending_waits(2) [of calls s w c] pending_pos [of s w c] by blast+

text \<open>What the steps do to the counts.\<close>

lemma counts_frame [simp]:
  "pending (set_stage c g s) = pending s" "answered (set_stage c g s) = answered s"
  "pending (on_tracker f s) = pending s" "answered (on_tracker f s) = answered s"
  "pending (on_objects h s) = pending s" "answered (on_objects h s) = answered s"
  "pending (add_test c s) = pending s" "answered (add_test c s) = answered s"
  by (auto simp: fun_eq_iff pending_def answered_def flow_defs)

lemma stage_frame [simp]:
  "fl_stage (set_stage c g s) = (fl_stage s)(c := g)" "fl_stage (on_tracker f s) = fl_stage s"
  "fl_stage (on_objects h s) = fl_stage s" "fl_stage (add_test c s) = fl_stage s"
  "fl_stage (on_pool w k s) = fl_stage s" "fl_stage (set_queue w q s) = fl_stage s"
  by (simp_all add: flow_defs)

lemma counts_enqueue:
  "pending (set_queue w (fl_queue s w @ [c]) s) v d = pending s v d + (if v = w \<and> d = c then 1 else 0)"
  "answered (set_queue w q s) = answered s"
  by (auto simp: fun_eq_iff pending_def answered_def flow_defs)

lemma counts_take:
  assumes "fl_queue s w = c # q"
    and t_def: "t = worker_step calls w (Pool_Job c spawned) (set_queue w q s)"
  obtains "pending t = pending s" and "answered t = answered s"
  | "\<And>v d. pending s v d = pending t v d + (if v = w \<and> d = c then 1 else 0)"
    and "\<And>v d. answered t v d = answered s v d + (if v = w \<and> d = c then 1 else 0)"
proof (cases "worker_bound w \<le> pl_active (fl_pool s w) \<or> \<not> spawned")
  case True
  with assms show ?thesis
    by (intro that(2)) (auto simp: t_def pending_def answered_def flow_defs)
next
  case False
  with assms show ?thesis
    by (intro that(1)) (auto simp: fun_eq_iff t_def pending_def answered_def flow_defs)
qed

lemma counts_answer:
  assumes "c \<in> set (pl_tasks (fl_pool s w))"
    and t_def: "t = worker_step calls w (Pool_Done c e) s"
  shows "pending s v d = pending t v d + (if v = w \<and> d = c then 1 else 0)"
    and "answered t v d = answered s v d + (if v = w \<and> d = c then 1 else 0)"
  using count_list_remove1 [OF assms(1), of d] assms(1)
  by (auto simp: t_def pending_def answered_def flow_defs split: if_splits)

lemma counts_drop:
  assumes "c \<in> set (pl_tasks (fl_pool s w))"
    and t_def: "t = on_pool w (drop_task c) s"
  shows "pending s v d = pending t v d + (if v = w \<and> d = c then 1 else 0)" and "answered t v d = answered s v d"
  using count_list_remove1 [OF assms(1), of d]
  by (auto simp: t_def pending_def answered_def flow_defs split: if_splits)

lemma job_inv_step:
  assumes "flow_step calls s l t" and "job_inv calls s"
  shows "job_inv calls t"
  unfolding job_inv_def
proof (intro allI)
  fix v d
  have at: "job_at calls s v d"
    using assms(2) by (simp add: job_inv_def)
  note waits = pending_waits [OF assms(2)]
  from assms(1) show "job_at calls t v d"
  proof (cases rule: flow_step.cases)
    case (handing c gone)
    with at show ?thesis
      by (auto simp: job_at_def handoff_def counts_enqueue Let_def split: if_splits)
  next
    case (taking w c q spawned)
    show ?thesis
    proof (cases rule: counts_take [OF taking(3) taking(2)])
      case 2
      with at taking waits [of w c] show ?thesis
        by (auto simp: job_at_def worker_step_def pending_pos)
    qed (use at taking in \<open>auto simp: job_at_def worker_step_def split: if_splits\<close>)
  next
    case (answering c e)
    with at waits [of "call_worker (calls c)" c] counts_answer [OF answering(3) answering(2), of v d] show ?thesis
      by (auto simp: job_at_def worker_step_def pending_pos split: if_splits)
  next
    case (panicking c)
    with at waits [of "call_worker (calls c)" c] counts_drop [OF panicking(3) refl, of v d] show ?thesis
      by (auto simp: job_at_def pending_pos split: if_splits)
  next
    case (receiving c r)
    have "c \<in> set (map fst (pl_answers (fl_pool s (call_worker (calls c)))))"
      using receiving(4) by force
    then have "answered s (call_worker (calls c)) c \<noteq> 0"
      by (simp only: answered_def count_list_0_iff not_not)
    with at receiving show ?thesis
      by (auto simp: job_at_def)
  qed (use at in \<open>auto simp: job_at_def split: if_splits\<close>)
qed

lemma job_inv_init: "job_inv calls flow_init"
  by (simp add: job_inv_def job_at_def flow_init_def pending_def answered_def pool_init_def)

section \<open>Handles\<close>

fun has_object :: "stage \<Rightarrow> bool" where
  "has_object Exported = True"
| "has_object Activated = True"
| "has_object Waiting = True"
| "has_object (Received _) = True"
| "has_object _ = False"

fun is_tracked :: "stage \<Rightarrow> bool" where
  "is_tracked Activated = True"
| "is_tracked Waiting = True"
| "is_tracked (Received _) = True"
| "is_tracked (Removed _) = True"
| "is_tracked _ = False"

definition in_service :: "stage \<Rightarrow> bool" where
  "in_service g \<longleftrightarrow> has_object g \<or> is_tracked g"

text \<open>
  Along tidy steps: a request that was exported and is not yet removed has its object, one that was
  activated and has not yet forgotten itself is active, and no two requests in service share a handle.
\<close>

definition handle_inv :: "(nat \<Rightarrow> portal_call) \<Rightarrow> flow \<Rightarrow> bool" where
  "handle_inv calls s \<longleftrightarrow>
     (\<forall>c. has_object (fl_stage s c) \<longrightarrow> call_path (calls c) \<in> rw_objects (fl_world s))
     \<and> (\<forall>c. is_tracked (fl_stage s c) \<longrightarrow> call_path (calls c) \<in> rt_active (rw_tracker (fl_world s)))
     \<and> (\<forall>c d. in_service (fl_stage s c) \<and> in_service (fl_stage s d) \<and> call_path (calls c) = call_path (calls d)
          \<longrightarrow> c = d)"

lemma in_service_simps [simp]:
  "\<not> in_service Idle" "in_service Exported" "in_service Activated" "in_service Waiting" "in_service (Received r)"
  "in_service (Removed r)" "\<not> in_service (Replied r)"
  by (simp_all add: in_service_def)

lemma in_serviceI: "has_object g \<Longrightarrow> in_service g" "is_tracked g \<Longrightarrow> in_service g"
  by (simp_all add: in_service_def)

lemma handle_alone:
  "handle_inv calls s \<Longrightarrow> in_service (fl_stage s c) \<Longrightarrow> d \<noteq> c \<Longrightarrow> call_path (calls d) = call_path (calls c)
   \<Longrightarrow> \<not> in_service (fl_stage s d)"
  by (auto simp: handle_inv_def)

lemma in_service_object: "in_service g \<Longrightarrow> has_object g \<or> (\<exists>r. g = Removed r)"
  by (cases g) simp_all

lemma handle_inv_step:
  assumes "flow_step calls s l t" and "tidy calls s l" and "job_inv calls s" and "handle_inv calls s"
  shows "handle_inv calls t"
  using assms
proof (cases rule: flow_step.cases)
  case (export c fault)
  have "\<not> in_service (fl_stage s d)" if "call_path (calls d) = call_path (calls c)" for d
    using export assms(2,4) that [symmetric] in_service_object [of "fl_stage s d"]
    by (auto simp: handle_inv_def export_result_def split: option.splits if_splits)
  with export assms(4) show ?thesis
    unfolding handle_inv_def by (auto simp: flow_defs)
next
  case (panicking c)
  then have "fl_stage s c = Waiting"
    using running_waits [OF assms(3)] by blast
  with panicking assms(4) show ?thesis
    by (auto simp: handle_inv_def flow_defs)
next
  case (handing c gone)
  with assms(4) show ?thesis
    by (auto simp: handle_inv_def flow_defs Let_def)
next
  case (removing c r fails)
  with assms(4) handle_alone [OF assms(4), of c] show ?thesis
    by (auto simp: handle_inv_def flow_defs dest: in_serviceI)
next
  case (forgetting c r)
  with assms(4) handle_alone [OF assms(4), of c] show ?thesis
    by (auto simp: handle_inv_def flow_defs forget_def dest: in_serviceI)
qed (auto simp: handle_inv_def flow_defs activate_def mark_closed_def)


lemma handle_inv_init: "handle_inv calls flow_init"
  by (simp add: handle_inv_def flow_init_def)

section \<open>Answers\<close>

text \<open>What a method goes back with, once it knows.\<close>

fun stage_result :: "stage \<Rightarrow> (fdo_error + reply) option" where
  "stage_result (Received r) = Some r"
| "stage_result (Removed r) = Some r"
| "stage_result (Replied r) = Some r"
| "stage_result _ = None"

text \<open>An answer that a method goes back with was given by its worker, or is a refusal; all are typed.\<close>

definition answer_inv :: "(nat \<Rightarrow> portal_call) \<Rightarrow> flow \<Rightarrow> bool" where
  "answer_inv calls s \<longleftrightarrow>
     (\<forall>w c r. (c, r) \<in> set (pl_answers (fl_pool s w)) \<longrightarrow> reply_typed (call_sig (calls c)) r)
     \<and> (\<forall>c r. stage_result (fl_stage s c) = Some (Inr r) \<longrightarrow> reply_typed (call_sig (calls c)) r)"

lemma answer_inv_typed:
  "answer_inv calls s \<Longrightarrow> stage_result (fl_stage s c) = Some (Inr r) \<Longrightarrow> reply_typed (call_sig (calls c)) r"
  unfolding answer_inv_def by blast

lemma answer_inv_step:
  assumes "flow_step calls s l t" and "answer_inv calls s"
  shows "answer_inv calls t"
  using assms
  by (cases rule: flow_step.cases)
    (auto simp: answer_inv_def flow_defs Let_def portals.run_typed)

lemma answer_inv_init: "answer_inv calls flow_init"
  by (simp add: answer_inv_def flow_init_def pool_init_def)

text \<open>Every state that tidy steps reach.\<close>

definition flow_inv :: "(nat \<Rightarrow> portal_call) \<Rightarrow> flow \<Rightarrow> bool" where
  "flow_inv calls s \<longleftrightarrow> job_inv calls s \<and> handle_inv calls s \<and> answer_inv calls s"

lemma flow_inv_step: "flow_step calls s l t \<Longrightarrow> tidy calls s l \<Longrightarrow> flow_inv calls s \<Longrightarrow> flow_inv calls t"
  by (simp add: flow_inv_def job_inv_step handle_inv_step answer_inv_step)

lemma flow_inv_run: "flow_run calls s ls t \<Longrightarrow> flow_inv calls s \<Longrightarrow> flow_inv calls t"
  by (induction rule: flow_run.induct) (blast intro: flow_inv_step)+

lemma flow_inv_reached: "flow_run calls flow_init ls t \<Longrightarrow> flow_inv calls t"
  by (erule flow_inv_run) (simp add: flow_inv_def job_inv_init handle_inv_init answer_inv_init)

section \<open>Closed requests\<close>

text \<open>
  The call is in service, nothing granted it so far and nothing can: it is marked closed as long as its
  task may still test the tracker, and each test up to now has found it closed.
\<close>

definition doomed :: "(nat \<Rightarrow> portal_call) \<Rightarrow> nat \<Rightarrow> flow \<Rightarrow> bool" where
  "doomed calls c s \<longleftrightarrow>
     \<not> (fl_stage s c = Idle \<or> fl_stage s c = Exported)
     \<and> (fl_stage s c = Activated \<or> fl_stage s c = Waiting \<longrightarrow> was_closed (rw_tracker (fl_world s)) (call_path (calls c)))
     \<and> (\<forall>u \<in> set (fl_tests s c). was_closed u (call_path (calls c)))
     \<and> (\<forall>w r. (c, r) \<in> set (pl_answers (fl_pool s w)) \<longrightarrow> \<not> granted r)
     \<and> (\<forall>r. stage_result (fl_stage s c) = Some (Inr r) \<longrightarrow> \<not> granted r)"

lemma doomed_step:
  assumes "flow_step calls s l t" and "flow_inv calls s" and "doomed calls c s"
  shows "doomed calls c t"
  using assms(1)
proof (cases rule: flow_step.cases)
  case (testing d)
  then have "fl_stage s d = Waiting"
    using assms(2) by (auto simp: flow_inv_def intro: running_waits)
  with testing assms(3) show ?thesis
    by (auto simp: doomed_def flow_defs)
next
  case (answering d e)
  then have "fl_stage s d = Waiting"
    using assms(2) by (auto simp: flow_inv_def intro: running_waits)
  with answering assms(3) show ?thesis
    using closed_call_not_granted [OF answering(4)] by (auto simp: doomed_def flow_defs)
next
  case (forgetting d r)
  with assms(2,3) show ?thesis
    by (force simp: doomed_def flow_defs flow_inv_def handle_inv_def was_closed_def forget_def)
qed (use assms(3) in \<open>auto simp: doomed_def flow_defs Let_def was_closed_def activate_def mark_closed_def\<close>)

lemma doomed_run: "flow_run calls s ls t \<Longrightarrow> flow_inv calls s \<Longrightarrow> doomed calls c s \<Longrightarrow> doomed calls c t"
  by (induction rule: flow_run.induct) (blast intro: flow_inv_step doomed_step)+

text \<open>Activated, and its task has not begun to test the tracker.\<close>

definition untested :: "(nat \<Rightarrow> portal_call) \<Rightarrow> flow \<Rightarrow> nat \<Rightarrow> bool" where
  "untested calls s c \<longleftrightarrow>
     fl_tests s c = [] \<and> (fl_stage s c = Activated \<or> pending s (call_worker (calls c)) c \<noteq> 0)"

lemma untested_unanswered:
  assumes "flow_inv calls s" and "untested calls s c"
  shows "is_tracked (fl_stage s c)" and "stage_result (fl_stage s c) = None"
    and "(c, r) \<notin> set (pl_answers (fl_pool s w))"
proof -
  have at: "job_at calls s v c" for v
    using assms(1) by (simp add: flow_inv_def job_inv_def)
  have "fl_stage s c = Activated \<or> fl_stage s c = Waiting"
    using assms pending_waits(2) [of calls s] by (auto simp: untested_def flow_inv_def)
  then show "is_tracked (fl_stage s c)" and "stage_result (fl_stage s c) = None"
    by auto
  have "answered s w c = 0"
    using assms(2) at [of w] by (cases "fl_stage s c") (auto simp: untested_def job_at_def split: if_splits)
  then show "(c, r) \<notin> set (pl_answers (fl_pool s w))"
    by (auto simp: answered_def count_list_0_iff image_iff)
qed

lemma close_dooms:
  assumes "flow_inv calls s" and "untested calls s c" and "flow_step calls s (Close (call_path (calls c))) t"
  shows "doomed calls c t"
proof -
  have t: "t = on_tracker (mark_closed (call_path (calls c))) s"
    using assms(3) by (rule closeE) simp
  note u = untested_unanswered [OF assms(1,2)]
  have "call_path (calls c) \<in> rt_active (rw_tracker (fl_world s))"
    using assms(1) u(1) by (simp add: flow_inv_def handle_inv_def)
  then show ?thesis
    using u assms(2) by (auto simp: doomed_def t flow_defs untested_def was_closed_def mark_closed_def)
qed

section \<open>Service\<close>

text \<open>
  An activated call of a worker with room gets its task's answer: every environment that agrees with
  the tracker is met along a run of six steps.
\<close>

lemma idle_worker_answers:
  assumes "fl_stage s c = Activated" and "fl_tests s c = []" and "fl_queue s w = []"
    and "pl_active (fl_pool s w) < worker_bound w" and "w = call_worker (calls c)"
    and "tests_agree (calls c) e [] (rw_tracker (fl_world s))"
  shows "\<exists>t. flow_run calls s [Handoff c False, Take_Job w True, Answer c e, Receive c, Remove c False, Forget c] t
    \<and> fl_stage t c = Replied (Inr (call_run (calls c) e))"
proof -
  define s1 where "s1 = handoff calls c False s"
  define s2 where "s2 = worker_step calls w (Pool_Job c True) (set_queue w [] s1)"
  define s3 where "s3 = worker_step calls w (Pool_Done c e) s2"
  note defs = s1_def s2_def s3_def flow_defs MAX_QUEUED_REQUESTS_def Let_def
  have 1: "flow_step calls s (Handoff c False) s1"
    unfolding s1_def using assms(1) by (rule handing)
  have 2: "flow_step calls s1 (Take_Job w True) s2"
    unfolding s2_def by (rule taking) (use assms in \<open>simp add: defs\<close>)
  have 3: "flow_step calls s2 (Answer c e) s3"
    unfolding s3_def assms(5) by (rule answering) (use assms in \<open>simp_all add: defs\<close>)
  have stage: "fl_stage s3 c = Waiting" and
    reply: "(c, call_run (calls c) e) \<in> set (pl_answers (fl_pool s3 (call_worker (calls c))))"
    using assms by (simp_all add: defs)
  have 4: "flow_step calls s3 (Receive c) (set_stage c (Received (Inr (call_run (calls c) e))) s3)"
    using stage reply by (rule receiving)
  show ?thesis
    by (intro exI conjI flow_run.intros, rule 1, simp, rule 2, simp, rule 3, simp, rule 4, simp,
        rule removing, simp, simp, rule forgetting, simp, simp, rule stop) simp
qed

text \<open>No request hangs: the workers and its own method call can always bring it to its reply.\<close>

definition can_reply :: "(nat \<Rightarrow> portal_call) \<Rightarrow> flow \<Rightarrow> nat \<Rightarrow> bool" where
  "can_reply calls s c \<longleftrightarrow> (\<exists>ls t r. flow_run calls s ls t \<and> fl_stage t c = Replied r)"

lemma can_reply_step: "flow_step calls s l t \<Longrightarrow> tidy calls s l \<Longrightarrow> can_reply calls t c \<Longrightarrow> can_reply calls s c"
  unfolding can_reply_def by (blast intro: go)

lemma can_reply_removed: "fl_stage s c = Removed r \<Longrightarrow> can_reply calls s c"
  by (rule can_reply_step, erule forgetting, simp) (force simp: can_reply_def intro: stop)

lemma can_reply_received: "fl_stage s c = Received r \<Longrightarrow> can_reply calls s c"
  by (rule can_reply_step, erule removing [where fails = False], simp) (rule can_reply_removed, simp)

lemma can_reply_answered:
  "fl_stage s c = Waiting \<Longrightarrow> (c, r) \<in> set (pl_answers (fl_pool s (call_worker (calls c)))) \<Longrightarrow> can_reply calls s c"
  by (rule can_reply_step, erule (1) receiving, simp) (rule can_reply_received, simp)

lemma can_reply_running:
  assumes "fl_stage s c = Waiting" and "c \<in> set (pl_tasks (fl_pool s (call_worker (calls c))))"
  shows "can_reply calls s c"
proof (rule can_reply_step)
  let ?e = "with_tests (seen (fl_tests s c) (rw_tracker (fl_world s))) undefined"
  let ?t = "worker_step calls (call_worker (calls c)) (Pool_Done c ?e) s"
  show "flow_step calls s (Answer c ?e) ?t"
    using assms(2) tests_agree_exists by (rule answering)
  show "can_reply calls ?t c"
    by (rule can_reply_answered [where r = "call_run (calls c) ?e"]) (use assms in \<open>simp_all add: flow_defs\<close>)
qed simp

lemma can_reply_queued:
  "fl_stage s c = Waiting \<Longrightarrow> fl_queue s (call_worker (calls c)) = xs @ c # ys \<Longrightarrow> can_reply calls s c"
proof (induction xs arbitrary: s)
  case Nil
  let ?w = "call_worker (calls c)"
  let ?t = "worker_step calls ?w (Pool_Job c True) (set_queue ?w ys s)"
  have "can_reply calls ?t c"
  proof (cases "worker_bound ?w \<le> pl_active (fl_pool s ?w)")
    case True
    with Nil show ?thesis
      by (intro can_reply_answered [where r = refusal]) (simp_all add: flow_defs)
  next
    case False
    with Nil show ?thesis
      by (intro can_reply_running) (simp_all add: flow_defs)
  qed
  then show ?case
    by (rule can_reply_step [OF taking, rotated 2]) (use Nil in simp_all)
next
  case (Cons x xs)
  let ?w = "call_worker (calls c)"
  have "can_reply calls (worker_step calls ?w (Pool_Job x True) (set_queue ?w (xs @ c # ys) s)) c"
    by (rule Cons.IH) (use Cons.prems in \<open>simp_all add: flow_defs\<close>)
  then show ?case
    by (rule can_reply_step [OF taking, rotated 2]) (use Cons.prems in simp_all)
qed

lemma can_reply_waiting:
  assumes "job_inv calls s" and "fl_stage s c = Waiting"
  shows "can_reply calls s c"
proof -
  let ?w = "call_worker (calls c)"
  have "job_at calls s ?w c"
    using assms(1) by (simp add: job_inv_def)
  then have "pending s ?w c + answered s ?w c = 1"
    using assms(2) by (simp add: job_at_def)
  then consider "answered s ?w c \<noteq> 0" | "pending s ?w c \<noteq> 0"
    by linarith
  then show ?thesis
  proof cases
    case 1
    then obtain r where "(c, r) \<in> set (pl_answers (fl_pool s ?w))"
      by (auto simp: answered_def count_list_0_iff)
    with assms(2) show ?thesis by (rule can_reply_answered)
  next
    case 2
    then consider "c \<in> set (fl_queue s ?w)" | "c \<in> set (pl_tasks (fl_pool s ?w))"
      unfolding pending_pos by blast
    then show ?thesis
      using assms(2) by cases (auto dest!: split_list intro: can_reply_queued can_reply_running)
  qed
qed

lemma can_reply_activated: "fl_stage s c = Activated \<Longrightarrow> can_reply calls s c"
proof (rule can_reply_step, erule handing [where gone = False])
  show "can_reply calls (handoff calls c False s) c"
  proof (cases "MAX_QUEUED_REQUESTS \<le> length (fl_queue s (call_worker (calls c)))")
    case True
    then show ?thesis
      by (intro can_reply_received [where r = "Inr refusal"]) (simp add: handoff_def Let_def)
  next
    case False
    then show ?thesis
      by (intro can_reply_queued [where ys = "[]"]) (simp_all add: handoff_def Let_def flow_defs)
  qed
qed simp

lemma in_service_can_reply:
  assumes "flow_inv calls s" and "in_service (fl_stage s c)"
  shows "can_reply calls s c"
proof (cases "fl_stage s c")
  case Exported
  then show ?thesis
    by (rule can_reply_step [OF activation]) (simp_all add: can_reply_activated)
next
  case Waiting
  then show ?thesis
    using assms(1) by (intro can_reply_waiting) (simp_all add: flow_inv_def)
qed (use assms(2) in \<open>simp_all add: can_reply_activated can_reply_received can_reply_removed\<close>)

text \<open>Without interleaving the two windows are invisible: the steps make up \<open>register\<close> and \<open>finish\<close>.\<close>

lemma steps_refine_register:
  assumes "register None (call_path (calls c)) (fl_world s) = (Inr (), w)" and "fl_stage s c = Idle"
  shows "\<exists>t1 t. flow_step calls s (Export c None) t1 \<and> flow_step calls t1 (Activate c) t
    \<and> fl_world t = w \<and> fl_stage t c = Activated"
proof -
  have "flow_step calls s (Export c None) (set_stage c Exported (on_objects (insert (call_path (calls c))) s))"
    using assms by (intro export) (auto simp: register_def export_result_def split: if_splits)
  moreover have "flow_step calls \<dots> (Activate c)
      (set_stage c Activated (on_tracker (activate (call_path (calls c)))
        (set_stage c Exported (on_objects (insert (call_path (calls c))) s))))"
    by (rule activation) simp
  ultimately show ?thesis
    using assms(1) by (intro exI conjI) (auto simp: register_def flow_defs split: if_splits)
qed

lemma steps_refine_finish:
  assumes "fl_stage s c = Received r"
  shows "\<exists>t1 t. flow_step calls s (Remove c fails) t1 \<and> flow_step calls t1 (Forget c) t
    \<and> fl_world t = finish fails (call_path (calls c)) (fl_world s) \<and> fl_stage t c = Replied r"
  by (intro exI conjI, rule removing [OF assms], rule forgetting, simp) (auto simp: finish_def flow_defs)

section \<open>The windows\<close>

text \<open>A call of Access at \<open>/r\<close>, and an environment in which the user confirms.\<close>

definition sample_call :: portal_call where
  "sample_call = Call_Access (''/r'', \<lparr>cr_title = ''T'', cr_body = ''B'', cr_accept_label = None,
     cr_deny_label = None, cr_modal = True, cr_parent_window = None\<rparr>)"

definition confirming :: "portal_env \<Rightarrow> tracker \<Rightarrow> portal_env" where
  "confirming e t = e\<lparr>en_access := \<lparr>dg_tracker = (\<lambda>_. t), dg_answer = Inr (Result_Confirm Confirm_Yes)\<rparr>\<rparr>"

lemma sample_simps:
  "call_path sample_call = ''/r''" "call_worker sample_call = Th_Access"
  "tests_agree sample_call (confirming e t) [] t"
  "call_run sample_call (confirming e t) = (if was_closed t ''/r'' then cancelled_reply else code_reply 0)"
  by (simp_all add: sample_call_def call_worker_def tests_agree_def confirming_def seen_def access_run_def
      closed_at_def confirm_code_def)

lemma sample_answered:
  assumes "fl_stage s c = Activated" and "fl_tests s c = []" and "fl_queue s Th_Access = []"
    and "pl_active (fl_pool s Th_Access) = 0"
  shows "\<exists>ls t. flow_run (\<lambda>_. sample_call) s ls t
    \<and> fl_stage t c = Replied (Inr (if was_closed (rw_tracker (fl_world s)) ''/r'' then (1, []) else (0, [])))"
proof -
  let ?e = "confirming undefined (rw_tracker (fl_world s))"
  have "0 < worker_bound Th_Access"
    by (simp add: MAX_ACTIVE_ACCESS_REQUESTS_def)
  then obtain ls t where "flow_run (\<lambda>_. sample_call) s ls t" and "fl_stage t c = Replied (Inr (call_run sample_call ?e))"
    using idle_worker_answers [of s c Th_Access "\<lambda>_. sample_call" ?e] assms by (auto simp: sample_simps(1-3))
  then show ?thesis
    by (intro exI conjI) (auto simp: sample_simps code_reply_def)
qed

text \<open>
  A \<open>Close\<close> that is served between the export of the object and its activation is lost: the request
  is granted.
\<close>

lemma close_before_activation_is_lost:
  "\<exists>calls ls s s1 ms t. flow_run calls flow_init ls s \<and> fl_stage s 0 = Exported
     \<and> flow_step calls s (Close (call_path (calls 0))) s1 \<and> flow_run calls s1 ms t
     \<and> fl_stage t 0 = Replied (Inr (0, []))"
proof -
  let ?calls = "\<lambda>_. sample_call"
  define s where "s = set_stage 0 Exported (on_objects (insert ''/r'') flow_init)"
  define s1 where "s1 = on_tracker (mark_closed ''/r'') s"
  define s2 where "s2 = set_stage 0 Activated (on_tracker (activate ''/r'') s1)"
  note defs = s_def s1_def s2_def flow_defs flow_init_def req_init_def tracker_default_def pool_init_def
  have "flow_step ?calls flow_init (Export 0 None) s"
    unfolding s_def using export [of flow_init 0 None ?calls]
    by (simp add: sample_simps export_result_def flow_init_def req_init_def)
  then have run: "flow_run ?calls flow_init [Export 0 None] s"
    by (rule go) (simp_all add: flow_init_def stop)
  have close: "flow_step ?calls s (Close (call_path (?calls (0::nat)))) s1"
    unfolding s1_def sample_simps by (rule closing)
  have act: "flow_step ?calls s1 (Activate 0) s2"
    unfolding s2_def using activation [of s1 0 ?calls] by (simp add: sample_simps defs)
  obtain ls t where "flow_run ?calls s2 ls t" and "fl_stage t 0 = Replied (Inr (0, []))"
    using sample_answered [of s2 0] by (auto simp: defs was_closed_def mark_closed_def activate_def)
  with act have "flow_run ?calls s1 (Activate 0 # ls) t" and "fl_stage t 0 = Replied (Inr (0, []))"
    by (auto intro: go)
  with run close show ?thesis
    by (intro exI [of _ ?calls] exI conjI) (auto simp: s_def)
qed

text \<open>Reachability by any steps, tidy or not.\<close>

definition flow_reach :: "(nat \<Rightarrow> portal_call) \<Rightarrow> flow \<Rightarrow> flow \<Rightarrow> bool" where
  "flow_reach calls = (\<lambda>s t. \<exists>l. flow_step calls s l t)\<^sup>*\<^sup>*"

lemma reach_refl: "flow_reach calls s s"
  by (simp add: flow_reach_def)

lemma reach_step: "flow_reach calls s t \<Longrightarrow> flow_step calls t l u \<Longrightarrow> flow_reach calls s u"
  unfolding flow_reach_def by (rule rtranclp.rtrancl_into_rtrancl) blast+

lemma run_reach: "flow_run calls s ls t \<Longrightarrow> flow_reach calls s t"
  unfolding flow_reach_def by (induction rule: flow_run.induct) (auto intro: converse_rtranclp_into_rtranclp)

text \<open>
  A handle that is used again between the removal of the object and \<open>forget\<close> of its first call loses
  its active mark to that \<open>forget\<close>: a later \<open>Close\<close> of the second call is ignored, and it is granted.
  The theorem below therefore asks for tidy runs.
\<close>

lemma reused_handle_loses_its_close:
  "\<exists>calls s s1 t. flow_reach calls flow_init s \<and> untested calls s 1
     \<and> flow_step calls s (Close (call_path (calls 1))) s1 \<and> flow_reach calls s1 t
     \<and> fl_stage t 1 = Replied (Inr (0, []))"
proof -
  let ?calls = "\<lambda>_::nat. sample_call"
  define r where "r = (Inl (Fdo_Failed (call_name sample_call @ '' worker is gone'')) :: fdo_error + reply)"
  define a1 where "a1 = set_stage 0 Exported (on_objects (insert ''/r'') flow_init)"
  define a2 where "a2 = set_stage 0 Activated (on_tracker (activate ''/r'') a1)"
  define a3 where "a3 = set_stage 0 (Received r) a2"
  define a4 where "a4 = set_stage 0 (Removed r) (on_objects (\<lambda>ps. if False then ps else ps - {''/r''}) a3)"
  define a5 where "a5 = set_stage 1 Exported (on_objects (insert ''/r'') a4)"
  define a6 where "a6 = set_stage 1 Activated (on_tracker (activate ''/r'') a5)"
  define a7 where "a7 = set_stage 0 (Replied r) (on_tracker (forget ''/r'') a6)"
  define a8 where "a8 = on_tracker (mark_closed ''/r'') a7"
  note defs = a1_def a2_def a3_def a4_def a5_def a6_def a7_def a8_def flow_defs flow_init_def req_init_def
    tracker_default_def pool_init_def export_result_def
  have s1: "flow_step ?calls flow_init (Export 0 None) a1"
    unfolding a1_def using export [of flow_init 0 None ?calls] by (simp add: sample_simps defs)
  have s2: "flow_step ?calls a1 (Activate 0) a2"
    unfolding a2_def using activation [of a1 0 ?calls] by (simp add: sample_simps defs)
  have s3: "flow_step ?calls a2 (Handoff 0 True) a3"
    unfolding a3_def using handing [of a2 0 ?calls True] by (simp add: defs handoff_def r_def)
  have s4: "flow_step ?calls a3 (Remove 0 False) a4"
    unfolding a4_def using removing [of a3 0 r ?calls False] by (simp add: sample_simps a3_def)
  have s5: "flow_step ?calls a4 (Export 1 None) a5"
    unfolding a5_def using export [of a4 1 None ?calls] by (simp add: sample_simps defs)
  have s6: "flow_step ?calls a5 (Activate 1) a6"
    unfolding a6_def using activation [of a5 1 ?calls] by (simp add: sample_simps a5_def)
  have s7: "flow_step ?calls a6 (Forget 0) a7"
    unfolding a7_def using forgetting [of a6 0 r ?calls] by (simp add: sample_simps a6_def a5_def a4_def)
  have reach: "flow_reach ?calls flow_init a7"
    by (intro reach_step [OF _ s7] reach_step [OF _ s6] reach_step [OF _ s5] reach_step [OF _ s4]
        reach_step [OF _ s3] reach_step [OF _ s2] reach_step [OF _ s1] reach_refl)
  have untested: "untested ?calls a7 1"
    by (simp add: untested_def defs)
  have close: "flow_step ?calls a7 (Close (call_path (?calls 1))) a8"
    unfolding a8_def sample_simps by (rule closing)
  obtain ls t where "flow_run ?calls a8 ls t" and "fl_stage t 1 = Replied (Inr (0, []))"
    using sample_answered [of a8 1] by (auto simp: defs was_closed_def mark_closed_def activate_def forget_def)
  with reach untested close show ?thesis
    by (intro exI [of _ ?calls] exI [of _ a7] exI [of _ a8] exI [of _ t] conjI) (simp_all add: run_reach)
qed

section \<open>Properties\<close>

text \<open>
  C9: A request that is closed in time is not granted, however the requests of the nine consent portals
  interleave. Take any run of the service along which no handle is used again before its previous call
  has forgotten it. If \<open>Close\<close> is served for a call that is activated and whose task has not begun to test
  the tracker, because it is still to be handed over, queued, or just started, then whatever happens
  later - other calls and their handles, full queues, refused or panicking tasks, failing removals - a
  reply this call gets has code 1 or 2 and no results.
\<close>

theorem closed_request_is_not_granted:
  assumes "flow_run calls flow_init before s" and "untested calls s c"
    and "flow_step calls s (Close (call_path (calls c))) s1"
    and "flow_run calls s1 later t" and "fl_stage t c = Replied (Inr r)"
  shows "fst r \<in> {1, 2} \<and> snd r = []"
proof -
  have inv: "flow_inv calls s"
    using assms(1) by (rule flow_inv_reached)
  then have inv1: "flow_inv calls s1"
    using flow_inv_step [OF assms(3)] by simp
  have "doomed calls c t" and "flow_inv calls t"
    using doomed_run [OF assms(4) inv1 close_dooms [OF inv assms(2,3)]] flow_inv_run [OF assms(4) inv1] by simp_all
  then have "\<not> granted r" and "reply_typed (call_sig (calls c)) r"
    using assms(5) answer_inv_typed [of calls t c r] by (simp_all add: doomed_def flow_inv_def)
  then show ?thesis
    by (simp add: reply_typed_def)
qed

theorem closed_request_is_not_granted_witness:
  "\<exists>ls s s1 ms t r. flow_run (\<lambda>_. sample_call) flow_init ls s
     \<and> flow_step (\<lambda>_. sample_call) s (Close ''/r'') s1 \<and> flow_run (\<lambda>_. sample_call) s1 ms t
     \<and> fl_stage t 0 = Replied (Inr r) \<and> fst r \<in> {1, 2} \<and> snd r = []"
proof -
  let ?calls = "\<lambda>_::nat. sample_call"
  define a1 where "a1 = set_stage 0 Exported (on_objects (insert ''/r'') flow_init)"
  define a2 where "a2 = set_stage 0 Activated (on_tracker (activate ''/r'') a1)"
  define a3 where "a3 = on_tracker (mark_closed ''/r'') a2"
  note defs = a1_def a2_def a3_def flow_defs flow_init_def req_init_def tracker_default_def pool_init_def
  have "flow_step ?calls flow_init (Export 0 None) a1"
    unfolding a1_def using export [of flow_init 0 None ?calls] by (simp add: sample_simps defs export_result_def)
  moreover have "flow_step ?calls a1 (Activate 0) a2"
    unfolding a2_def using activation [of a1 0 ?calls] by (simp add: sample_simps defs)
  ultimately have run: "flow_run ?calls flow_init [Export 0 None, Activate 0] a2"
    by (intro go [OF _ _ go [OF _ _ stop]]) (simp_all add: flow_init_def)
  have close: "flow_step ?calls a2 (Close ''/r'') a3"
    unfolding a3_def by (rule closing)
  obtain ls t where later: "flow_run ?calls a3 ls t" and reply: "fl_stage t 0 = Replied (Inr (1, []))"
    using sample_answered [of a3 0] by (auto simp: defs was_closed_def mark_closed_def activate_def)
  have "fst (1 :: u32, [] :: vardict) \<in> {1, 2} \<and> snd (1 :: u32, [] :: vardict) = []"
    by (rule closed_request_is_not_granted [OF run _ _ later reply])
      (use close in \<open>simp_all add: untested_def sample_simps defs\<close>)
  with run close later reply show ?thesis
    by blast
qed



end
