(* ===== verification/Shared_Locks.thy ===== *)
theory Shared_Locks
  imports Request_Tracker
begin

text \<open>
  \<open>crates/atrium-portal-runtime/src/sync.rs\<close>: the locks of the shared bookkeeping, which recover
  the state that a panicking holder leaves. A standard lock is a value with a poison flag; a holder
  carries out a list of mutations and may panic after any number of them.
\<close>

section \<open>Locks\<close>

record 'a shared_lock =
  sl_value :: 'a
  sl_poisoned :: bool

definition new_lock :: "'a \<Rightarrow> 'a shared_lock" where
  "new_lock v = \<lparr>sl_value = v, sl_poisoned = False\<rparr>"

text \<open>The guard's state, and whether a recovery was logged: \<open>lock\<close>, \<open>read_lock\<close> and \<open>write_lock\<close> alike.\<close>

definition recover_guard :: "'a shared_lock \<Rightarrow> 'a \<times> bool" where
  "recover_guard l = (sl_value l, sl_poisoned l)"

text \<open>A holder of the mutex or the write lock; \<open>panics_after = Some n\<close> is a panic after \<open>n\<close> mutations.\<close>

record 'a holder =
  ho_ops :: "('a \<Rightarrow> 'a) list"
  ho_panics_after :: "nat option"

definition executed :: "'a holder \<Rightarrow> ('a \<Rightarrow> 'a) list" where
  "executed h = (case ho_panics_after h of None \<Rightarrow> ho_ops h | Some n \<Rightarrow> take n (ho_ops h))"

definition hold :: "'a holder \<Rightarrow> 'a shared_lock \<Rightarrow> 'a shared_lock" where
  "hold h l =
     (case recover_guard l of
        (v, _) \<Rightarrow> \<lparr>sl_value = fold (\<lambda>f. f) (executed h) v, sl_poisoned = sl_poisoned l \<or> ho_panics_after h \<noteq> None\<rparr>)"

text \<open>A reader that panics does not poison.\<close>

definition read_value :: "'a shared_lock \<Rightarrow> 'a" where
  "read_value l = fst (recover_guard l)"

section \<open>Recovery is sound for total mutations\<close>

lemmas lock_defs = hold_def recover_guard_def read_value_def new_lock_def

lemma hold_value: "sl_value (hold h l) = fold (\<lambda>f. f) (executed h) (sl_value l)"
  by (simp add: lock_defs)

text \<open>Every later holder sees exactly the mutations that were carried out, panics or not.\<close>

lemma holders_see_executed:
  "read_value (fold hold hs (new_lock v)) = fold (\<lambda>f. f) (concat (map executed hs)) v"
proof -
  have "sl_value (fold hold hs l) = fold (\<lambda>f. f) (concat (map executed hs)) (sl_value l)" for l
    by (induction hs arbitrary: l) (simp_all add: hold_value)
  then show ?thesis
    by (simp add: read_value_def recover_guard_def new_lock_def)
qed

text \<open>The flag is never cleared, so each acquisition after the first panic logs a recovery.\<close>

lemma recovery_is_logged:
  "snd (recover_guard (fold hold hs (new_lock v))) \<longleftrightarrow> (\<exists>h \<in> set hs. ho_panics_after h \<noteq> None)"
proof -
  have "sl_poisoned (fold hold hs l) \<longleftrightarrow> sl_poisoned l \<or> (\<exists>h \<in> set hs. ho_panics_after h \<noteq> None)" for l
    by (induction hs arbitrary: l) (auto simp: hold_def recover_guard_def)
  then show ?thesis
    by (simp add: recover_guard_def new_lock_def)
qed

text \<open>
  The policy of the module: where each mutation keeps the invariant by itself, a panic between two of
  them does no harm.
\<close>

locale total_mutations =
  fixes inv :: "'a \<Rightarrow> bool" and allowed :: "('a \<Rightarrow> 'a) \<Rightarrow> bool"
  assumes keeps: "allowed f \<Longrightarrow> inv v \<Longrightarrow> inv (f v)"
begin

lemma fold_keeps: "\<forall>f \<in> set fs. allowed f \<Longrightarrow> inv v \<Longrightarrow> inv (fold (\<lambda>f. f) fs v)"
  by (induction fs arbitrary: v) (simp_all add: keeps)

lemma executed_subset: "set (executed h) \<subseteq> set (ho_ops h)"
  by (auto simp: executed_def dest: in_set_takeD split: option.splits)

lemma holders_keep:
  assumes "\<forall>h \<in> set hs. \<forall>f \<in> set (ho_ops h). allowed f" and "inv v"
  shows "inv (read_value (fold hold hs (new_lock v)))"
  unfolding holders_see_executed by (rule fold_keeps) (use assms executed_subset in auto)

end

text \<open>The tracker's mutations are of this kind: a marker always belongs to a request in flight.\<close>

definition tracker_inv :: "tracker \<Rightarrow> bool" where
  "tracker_inv t \<longleftrightarrow> rt_closed t \<subseteq> rt_active t"

definition tracker_op :: "(tracker \<Rightarrow> tracker) \<Rightarrow> bool" where
  "tracker_op f \<longleftrightarrow> (\<exists>p. f = activate p \<or> f = mark_closed p \<or> f = forget p)"

interpretation tracker_lock: total_mutations tracker_inv tracker_op
  by unfold_locales (auto simp: tracker_inv_def tracker_op_def tracker_defs split: if_splits)

lemma tracker_survives_panics:
  assumes "\<forall>h \<in> set hs. \<forall>f \<in> set (ho_ops h). tracker_op f"
  shows "tracker_inv (read_value (fold hold hs (new_lock tracker_default)))"
  using assms by (rule tracker_lock.holders_keep) (simp add: tracker_inv_def tracker_default_def)

end
