(* ===== verification/Cast_Thread.thy ===== *)
theory Cast_Thread
  imports Cast_Delivery
begin

text \<open>
  The frame around the event loop of \<open>Cast_Loop\<close>: \<open>spawn\<close>, \<open>cast_thread\<close> and \<open>run_cast\<close> of
  \<open>crates/xdg-desktop-portal-atrium/src/cast/mod.rs\<close>, from the connection to the compositor to the
  teardown, with what the thread tells the screencast worker. PipeWire's set-up calls are fallible
  and their outcome is a parameter, as are the events of the loop.
\<close>

section \<open>The thread\<close>

datatype cast_error = Ce_Stream run_error | Ce_Pipewire string

text \<open>The main loop's state after the events; its teardown is in \<open>cast_thread\<close>, once the loop returned.\<close>

definition run_cast ::
  "io_error + client \<Rightarrow> cast_source \<Rightarrow> stream_cursor_mode \<Rightarrow> string option \<Rightarrow> loop_event list
     \<Rightarrow> cast_error + cast_loop" where
  "run_cast conn source cursor setup_fault es =
     (case start_stream conn source cursor of
        Inl e \<Rightarrow> Inl (Ce_Stream e)
      | Inr (c, position) \<Rightarrow>
          (case setup_fault of
             Some e \<Rightarrow> Inl (Ce_Pipewire e)
           | None \<Rightarrow> Inr (fold loop_step es (loop_init c position))))"

text \<open>What a thread that has ended leaves on its two channels.\<close>

record thread_end =
  te_started :: "(unit + cast_started) list"
  te_session_ended :: nat

text \<open>\<open>None\<close>: the loop still runs after these events.\<close>

definition cast_thread ::
  "io_error + client \<Rightarrow> cast_source \<Rightarrow> stream_cursor_mode \<Rightarrow> string option \<Rightarrow> loop_event list
     \<Rightarrow> thread_end option" where
  "cast_thread conn source cursor setup_fault es =
     (case run_cast conn source cursor setup_fault es of
        Inl _ \<Rightarrow> Some \<lparr>te_started = [Inl ()], te_session_ended = 0\<rparr>
      | Inr l \<Rightarrow>
          if ca_running (lp_cast l) then None
          else (let l' = teardown l in
            Some \<lparr>te_started = sx_sent (lp_start l'), te_session_ended = lp_session_ended l'\<rparr>))"

text \<open>\<open>spawn\<close>: the socket pair or the thread may fail; then there is no cast.\<close>

definition spawn_cast :: "io_error option \<Rightarrow> io_error option \<Rightarrow> 'h \<Rightarrow> io_error + 'h" where
  "spawn_cast pair_fault thread_fault h =
     (case pair_fault of
        Some e \<Rightarrow> Inl e
      | None \<Rightarrow> (case thread_fault of Some e \<Rightarrow> Inl e | None \<Rightarrow> Inr h))"

text \<open>
  What the worker waiting for the start of an ended thread receives: without a message the channel is
  disconnected, which the worker treats like its timeout.
\<close>

definition start_received :: "thread_end \<Rightarrow> started_outcome" where
  "start_received te =
     (case te_started te of
        Inr started # _ \<Rightarrow> Started_Ok started
      | Inl _ # _ \<Rightarrow> Started_Err
      | [] \<Rightarrow> Started_Timeout)"

section \<open>What the worker learns\<close>

lemma teardown_start [simp]: "lp_start (teardown l) = lp_start l"
  by (simp add: teardown_def Let_def)

lemma teardown_ended:
  "sx_completed (lp_start l) \<Longrightarrow> \<not> lp_stopped_by_owner l \<Longrightarrow> 1 \<le> lp_session_ended (teardown l)"
  by (simp add: teardown_def Let_def)

lemma step_keeps_owner: "Lev_Stop \<noteq> e \<Longrightarrow> lp_stopped_by_owner (loop_step e l) = lp_stopped_by_owner l"
  by (cases e)
    (auto simp: loop_step_def on_global_def on_state_changed_def on_error_def on_paused_def on_format_def
      on_buffers_def on_add_buffer_def on_remove_buffer_def on_ipc_def on_frame_def on_geometry_def
      on_lease_timer_def on_keepalive_def update_cast_def end_cast_def quit_def trigger_def Let_def
      split: option.splits prod.splits sum.splits stream_message.splits)

lemma run_keeps_owner:
  "Lev_Stop \<notin> set es \<Longrightarrow> lp_stopped_by_owner (fold loop_step es l) = lp_stopped_by_owner l"
  by (induction es arbitrary: l) (simp_all add: step_keeps_owner)

lemma thread_cases:
  assumes "cast_thread conn source cursor setup_fault es = Some te"
  obtains "te = \<lparr>te_started = [Inl ()], te_session_ended = 0\<rparr>"
  | c position where "start_stream conn source cursor = Inr (c, position)"
    and "te_started te = sx_sent (lp_start (fold loop_step es (loop_init c position)))"
    and "te_session_ended te = lp_session_ended (teardown (fold loop_step es (loop_init c position)))"
  using assms
  by (auto simp: cast_thread_def run_cast_def Let_def split: sum.splits option.splits prod.splits if_splits)

lemma loop_start_wf: "start_wf (lp_start (fold loop_step es (loop_init c position)))"
  by (rule starting.run_inv [OF init_start_wf])

text \<open>The start is answered at most once, whatever fails.\<close>

lemma thread_answers_once:
  assumes "cast_thread conn source cursor setup_fault es = Some te"
  shows "length (te_started te) \<le> 1"
  using assms
proof (cases rule: thread_cases)
  case (2 c position)
  then show ?thesis
    using loop_start_wf [of es c position] by (auto simp: start_wf_def split: if_splits)
qed simp

text \<open>
  A start that was reported is followed up: when the thread ends and its owner did not stop it, the
  worker is told that the session ended. A thread that ends before is received as a failed start.
\<close>

lemma started_cast_reports_its_end:
  assumes "cast_thread conn source cursor setup_fault es = Some te"
    and "start_received te = Started_Ok started" and "Lev_Stop \<notin> set es"
  shows "1 \<le> te_session_ended te"
  using assms(1)
proof (cases rule: thread_cases)
  case 1
  with assms(2) show ?thesis by (simp add: start_received_def)
next
  case (2 c position)
  let ?l = "fold loop_step es (loop_init c position)"
  obtain rest where sent: "sx_sent (lp_start ?l) = Inr started # rest"
    using assms(2) 2(2) by (auto simp: start_received_def split: list.splits sum.splits)
  then have "sx_completed (lp_start ?l)"
    using loop_start_wf [of es c position] by (auto simp: start_wf_def split: if_splits)
  moreover have "\<not> lp_stopped_by_owner ?l"
    using run_keeps_owner [OF assms(3)] by (simp add: loop_init_def)
  ultimately show ?thesis
    using teardown_ended 2(3) by simp
qed

lemma failed_setup_fails_the_start:
  assumes "run_cast conn source cursor setup_fault es = Inl e"
  shows "\<exists>te. cast_thread conn source cursor setup_fault es = Some te \<and> start_received te = Started_Err"
  using assms by (simp add: cast_thread_def start_received_def)

lemma unstarted_cast_fails_the_start:
  assumes "\<forall>started. Inr started \<notin> set (te_started te)"
  shows "start_received te = Started_Err \<or> start_received te = Started_Timeout"
  using assms by (auto simp: start_received_def split: list.splits sum.splits)

end
