(* ===== verification/Spec2Isabelle.thy ===== *)
theory Spec2Isabelle
  imports Request_Tracker Ipc_Codec Ipc_Session Portal_Capture Restore_Store Prompter_Contract
    Screencast_Safety Cast_Slots Cast_Delivery Settings_Portal Inhibit_Portal Notification_Portal
    Portal_Files Open_Uri Email_Portal Secret_Portal Portal_Replies Service
    Request_Flow Shared_Locks Cast_Thread
begin

text \<open>
  A verification library for \<open>xdg-desktop-portal-atrium\<close>, the desktop portal backend of the
  Atrium desktop. It models the whole service: the lifecycle of a portal request, the IPC with the
  compositor, the contract with the prompter process and how that process is supervised, the
  screencast path from consent to PipeWire buffers, the application registry, the seventeen portal
  interfaces, and the start-up that wires them together.

  \<^bold>\<open>The parts and how they interact.\<close> A D-Bus method registers a Request object and hands a job to
  a worker through a bounded queue (\<open>atrium-portal-runtime\<close>); each worker runs a bounded number of
  tasks, one thread per job. A task asks the user through the prompter process
  (\<open>atrium-portal-prompter\<close>, supervised by \<open>prompter.rs\<close>) or through the compositor's own consent
  dialog (\<open>ipc.rs\<close> over \<open>atrium-portal-ipc\<close>), tests at fixed places whether its request was closed
  meanwhile, acts, and answers once. Two longer chains hang on this. ScreenCast arms a session in
  the registry (\<open>session.rs\<close>) with a restore token (\<open>persist.rs\<close>) and spawns the cast thread
  (\<open>cast/\<close>), which publishes an output stream of its own compositor connection as a PipeWire
  producer. OpenURI and AppChooser resolve desktop entries and MIME defaults (\<open>apps/\<close>), launch an
  application and record it as the default. Settings and Notification have no worker: the first
  mirrors the compositor's preferences and emits signals, the second supervises the notification
  daemon. \<open>lib.rs\<close> starts everything, claims the bus name, and ends the tokens of departed callers.

  \<^bold>\<open>Theories, code and state.\<close> Paths are under \<open>src/crates/\<close>; a bare file name is one of
  \<open>xdg-desktop-portal-atrium/src\<close>.
  \<^item> \<open>Prelude\<close>: machine integers, the io errors, sum-type plumbing, lists and association lists
    (Rust's \<open>HashMap\<close>), and the contracts shared by the components: \<open>guarded_machine\<close> (every step
    keeps an invariant), \<open>environment_machine\<close> (along runs whose environment keeps to its side)
    and \<open>capped_store\<close> (a bound on a measured size).
  \<^item> \<open>Request_Tracker\<close> (\<open>atrium-portal-runtime/src/lib.rs\<close>): the record \<open>tracker\<close>, the exported
    objects \<open>req_world\<close>, \<open>register\<close>/\<open>finish\<close>/\<open>dispatch\<close>.
  \<^item> \<open>Shared_Locks\<close> (\<open>atrium-portal-runtime/src/sync.rs\<close>): the locks of the shared state, which recover
    what a panicking holder leaves.
  \<^item> \<open>Ipc_Schema\<close>, \<open>Ipc_Codec\<close>, \<open>Ipc_Client\<close>, \<open>Ipc_Blob\<close>, \<open>Ipc_Link\<close> (\<open>atrium-portal-ipc\<close>): the wire
    types, the framing, the record \<open>client\<close> with the traffic still to be read, every client
    operation, the sealed blobs in both directions, and the locale \<open>stream_source\<close> with what a stream
    consumer relies on, interpreted on the client.
  \<^item> \<open>Ipc_Server\<close> (\<open>atrium-portal-ipc/src/testing.rs\<close>): the compositor the integration tests run the
    portal against, with its connections and delivery lanes; \<open>Ipc_Session\<close> joins it to the client.
  \<^item> \<open>Session_Registry\<close> (\<open>session.rs\<close>): \<open>registry\<close> as a map from paths to \<open>cast_session\<close>.
  \<^item> \<open>Restore_Store\<close> (\<open>persist.rs\<close>): \<open>restore_store\<close> with the file it is written to.
  \<^item> \<open>Portal_Capture\<close> (\<open>ipc.rs\<close>): the lazily connected, lease-renewing client; the compositor's
    answers to each connection attempt are part of its state.
  \<^item> \<open>Prompter_Contract\<close>, \<open>Notify_Stream\<close> (\<open>atrium-portal-prompter\<close>): the one-shot requests and
    responses with their validation and the naming of saved files; the line protocol of the
    notification daemon with its bounded reader.
  \<^item> \<open>Prompter_Process\<close> (\<open>prompter.rs\<close>): the spawned helper, the bounded reading of its answer, the
    wait with cancellation and deadline, and the matching of the answer to the request.
  \<^item> \<open>Task_Pool\<close>, \<open>Portal_Dialog\<close>, \<open>Portal_Values\<close>: what the interface files repeat and the
    development states once: the worker loop with its concurrency limit (\<open>pool_after\<close>), the
    environment of one dialog (\<open>dialog_env\<close>, with the locale \<open>consent_task\<close>), the D-Bus variants and
    their conversions.
  \<^item> \<open>Portal_Files\<close> (\<open>files.rs\<close>, and the \<open>file:\<close> URIs of \<open>file_chooser.rs\<close>): private directories,
    the atomic write and its faults, percent coding.
  \<^item> \<open>Text_Lines\<close>, \<open>Desktop_Entries\<close>, \<open>Mime_Apps\<close>, \<open>Exec_Line\<close>, \<open>Applications\<close> (\<open>apps.rs\<close>,
    \<open>apps/*.rs\<close>): lines and characters of UTF-8 text, the desktop entry parser and the MIME globs,
    the edit of \<open>mimeapps.list\<close>, the splitting and expansion of \<open>Exec\<close> lines, and the lookups over
    the XDG directories of \<open>app_world\<close>.
  \<^item> \<open>Screencast\<close> (\<open>screencast.rs\<close>): \<open>cast_world\<close> is the state shared by the tasks; \<open>select_env\<close>
    and \<open>start_env\<close> hold what other tasks do to it between two lock acquisitions, so every
    interleaving of two requests is an environment. \<open>Screencast_Safety\<close> has its theorems.
  \<^item> \<open>Cast_Format\<close>, \<open>Cast_Frame\<close>, \<open>Cast_Meta\<close>, \<open>Cast_State\<close>, \<open>Cast_Publish\<close>, \<open>Cast_Loop\<close>
    (\<open>cast/*.rs\<close>): the record \<open>cast\<close> is the stream data, \<open>cast_loop\<close> adds what the callbacks
    of the main loop capture; \<open>loop_step\<close> is one callback. \<open>Cast_Slots\<close> and \<open>Cast_Delivery\<close>
    prove what holds along every run; \<open>Cast_Thread\<close> is the thread around the loop and what it reports.
  \<^item> \<open>Settings_Portal\<close> (\<open>settings.rs\<close>), \<open>Inhibit_Portal\<close> (\<open>inhibit.rs\<close>), \<open>Notification_Portal\<close>
    (\<open>notification.rs\<close>): the preference store with its watcher loop; the inhibitions with their logind
    locks; the parsing of a notification, the daemon manager and its supervision.
  \<^item> \<open>App_Chooser\<close>, \<open>Open_Uri\<close>, \<open>Consent_Portals\<close> (\<open>access.rs\<close>, \<open>account.rs\<close>, \<open>lockdown.rs\<close>),
    \<open>Wallpaper_Portal\<close>, \<open>Screenshot_Portal\<close>, \<open>Email_Portal\<close>, \<open>File_Chooser_Portal\<close>,
    \<open>Background_Portal\<close>, \<open>Print_Portal\<close>, \<open>Dynamic_Launcher\<close>: one theory per interface, each with the
    parsing of its options, its job, the task of its worker and its bus methods; file system effects
    are values of \<open>file_system\<close>, and a task that writes returns every state it goes through.
  \<^item> \<open>Secret_Portal\<close> (\<open>atrium-portal-secret\<close>): the frames of the sigil daemon's protocol and the
    delivery of a secret into the caller's descriptor.
  \<^item> \<open>Portal_Replies\<close>: the locale \<open>dialog_portal\<close>, which extends \<open>consent_task\<close> by the documented
    result types, interpreted on all nine dialog workers.
  \<^item> \<open>Portal_Calls\<close>, \<open>Request_Flow\<close>: the nine consent portals as one (a call is a value of
    \<open>portal_call\<close>), and the step relation \<open>flow_step\<close> of their interleaved requests, with an await
    point of \<open>register\<close>, \<open>dispatch\<close> and \<open>finish\<close> wherever the code has one, the bounded queues, the
    tests of the tracker one by one, and \<open>Close\<close> at any time.
  \<^item> \<open>Service\<close> (\<open>lib.rs\<close>, \<open>main.rs\<close>): the start-up as a list of fallible steps, the restore watcher
    and the main loop.

  \<^bold>\<open>What the lemmas show.\<close> Sharing is armed only by consent or by a valid token, never for a
  closed request, and only once per session (\<open>Screencast_Safety\<close>). A spawned cast is always owned
  or joined. Compositor slots are released exactly once along every run whose environment
  keeps to its side (\<open>Cast_Slots\<close>), the pixels a consumer maps are exactly the frame's, and
  Start is answered once and truthfully (\<open>Cast_Delivery\<close>). Transport switches are invisible
  and leave the copy path mappable (\<open>Cast_State\<close>). The client neither loses nor reorders stream
  events while it waits for a reply, and negotiation ends (\<open>Ipc_Link\<close>); against the server it ends at
  the newest common version, and a stream starts with the same slots and frames at both ends
  (\<open>Ipc_Session\<close>). Tokens, sessions and
  requests are bounded, isolated per application, and leave nothing behind. The dialog workers
  answer every request once, grant only with consent, and reply with the documented types
  (\<open>Task_Pool\<close>, \<open>Portal_Dialog\<close>, \<open>Portal_Replies\<close>). However their requests interleave, one that is
  closed before its task tests the tracker is not granted, and none hangs; two windows in which a
  \<open>Close\<close> is lost are exhibited (\<open>Request_Flow\<close>). What is written for other programs is read back by
  them as meant: file URIs, quoted \<open>Exec\<close> lines, MIME defaults, notification commands
  (\<open>File_Chooser_Portal\<close>, \<open>Background_Portal\<close>, \<open>Mime_Apps\<close>, \<open>Applications\<close>, \<open>Notify_Stream\<close>). A file
  is replaced whole or left alone (\<open>Portal_Files\<close>, \<open>Wallpaper_Portal\<close>). Inhibitions are backed by a
  lock or refused, settings signals keep a listener's view current, and live notifications are
  bounded. A secret goes to its application only, and the bus name is claimed after everything it
  stands for is served (\<open>Secret_Portal\<close>, \<open>Service\<close>).

  \<^bold>\<open>Bounds and loops.\<close> The loops of the code are structural recursions over the traffic, the
  buffers, the rows or the text; version negotiation has a measure, and so have the search for a free
  file name, which the code bounds by \<open>u32::MAX\<close>, and the backtracking glob match.
  The two loops that
  may run forever are partial functions into \<open>option\<close>, with \<open>None\<close> for not returning: the wait for
  the prompter, proved to return exactly when the helper exits, fails or is cancelled, and the main
  loop, proved to run as long as the bus answers. Sending to the notification daemon and respawning it
  call each other without a bound in the code; that recursion has fuel, and
  \<open>Notification_Portal\<close> proves that twice the number of clock ticks until the daemon
  stays healthy, plus four, is enough.
  Machine integers keep their width; sizes are checked against the code's own limits.

  \<^bold>\<open>Parameters.\<close> serde's JSON encoding, libspa's POD serializer and metadata layout, zvariant's
  ownership conversion, the image decoder, random bytes, the password database, the file system's
  contents and faults, the clock, the processes that are spawned (prompter, mailer, \<open>lp\<close>, launched
  applications), logind, the sigil daemon, and the traffic of the compositor and of the bus.

  \<^bold>\<open>Not modelled.\<close> The test modules and the handlers of the tests' compositor. PipeWire objects
  and threads appear only through their callbacks and outcomes. Locked memory, the redaction of
  \<open>Debug\<close> output and the zeroing on \<open>Drop\<close> have no observable counterpart here, and logging has
  none but the recovery of a poisoned lock.
\<close>

end
